(* ===== verification/Prelude.thy ===== *)
theory Prelude
  imports
    Complex_Main
    "HOL-Library.Char_ord"
    "HOL-Library.List_Lexorder"
    "HOL-Library.Product_Lexorder"
begin

section \<open>Prelude: tables\<close>

text \<open>
  The vocabulary the component theories share.

  \<^item> SQL tables are lists of rows. \<open>update_where\<close> is \<^verbatim>\<open>UPDATE .. SET .. WHERE ..\<close>,
    \<open>count_distinct\<close> is \<^verbatim>\<open>SELECT COUNT(DISTINCT ..)\<close> (NULLs do not count).
\<close>

named_theorems table_simps \<open>how UPDATE statements act on selections\<close>

subsection \<open>Tables\<close>

definition update_where :: "('r \<Rightarrow> bool) \<Rightarrow> ('r \<Rightarrow> 'r) \<Rightarrow> 'r list \<Rightarrow> 'r list" where
  "update_where P f rows = map (\<lambda>r. if P r then f r else r) rows"

text \<open>\<^verbatim>\<open>mysql_affected_rows\<close> counts the rows whose content changes.\<close>

definition affected_rows :: "('r \<Rightarrow> bool) \<Rightarrow> ('r \<Rightarrow> 'r) \<Rightarrow> 'r list \<Rightarrow> nat" where
  "affected_rows P f rows = length (filter (\<lambda>r. P r \<and> f r \<noteq> r) rows)"

definition count_distinct :: "('r \<Rightarrow> 'k option) \<Rightarrow> 'r list \<Rightarrow> nat" where
  "count_distinct key rows = length (remdups (List.map_filter key rows))"

lemma affected_rows_0: "affected_rows P f rows = 0 \<Longrightarrow> update_where P f rows = rows"
  by (induction rows) (auto simp: affected_rows_def update_where_def split: if_splits)

lemma length_update_where [simp]: "length (update_where P f rows) = length rows"
  by (simp add: update_where_def)

lemma update_where_Nil [simp]: "update_where P f [] = []"
  by (simp add: update_where_def)

lemma update_where_Cons [simp]:
  "update_where P f (r # rows) = (if P r then f r else r) # update_where P f rows"
  by (simp add: update_where_def)

lemma set_update_where:
  "set (update_where P f rows) = (\<lambda>r. if P r then f r else r) ` set rows"
  by (simp add: update_where_def)

lemma map_update_where [table_simps]:
  "(\<And>r. r \<in> set rows \<Longrightarrow> P r \<Longrightarrow> g (f r) = g r) \<Longrightarrow> map g (update_where P f rows) = map g rows"
  by (induction rows) auto

lemma update_where_id: "(\<And>r. r \<in> set rows \<Longrightarrow> \<not> P r) \<Longrightarrow> update_where P f rows = rows"
  by (induction rows) auto

lemma in_update_whereE:
  assumes "r' \<in> set (update_where P f rows)"
  obtains (changed) r where "r \<in> set rows" "P r" "r' = f r"
    | (kept) "r' \<in> set rows" "\<not> P r'"
  using assms by (auto simp: set_update_where split: if_splits)

lemma nth_update_where:
  "i < length rows \<Longrightarrow> update_where P f rows ! i = (if P (rows ! i) then f (rows ! i) else rows ! i)"
  by (simp add: update_where_def)

lemma set_map_filter_option: "set (List.map_filter g xs) = {y. \<exists>x \<in> set xs. g x = Some y}"
  by (induction xs) (auto simp: List.map_filter_simps split: option.splits)

lemma count_distinct_card: "count_distinct key rows = card {k. \<exists>r \<in> set rows. key r = Some k}"
  by (simp add: count_distinct_def length_remdups_card_conv set_map_filter_option)

lemma finite_keys [simp]: "finite {k. \<exists>r \<in> set rows. key r = Some k}"
proof -
  have "{k. \<exists>r \<in> set rows. key r = Some k} = set (List.map_filter key rows)"
    by (simp add: set_map_filter_option)
  then show ?thesis by simp
qed

text \<open>A selection by primary key returns at most one row.\<close>

definition select_first :: "('r \<Rightarrow> bool) \<Rightarrow> 'r list \<Rightarrow> 'r option" where
  "select_first P rows = List.find P rows"

lemma select_first_Some: "select_first P rows = Some r \<Longrightarrow> r \<in> set rows \<and> P r"
  by (auto simp: select_first_def find_Some_iff)

lemma select_first_None: "select_first P rows = None \<longleftrightarrow> (\<forall>r \<in> set rows. \<not> P r)"
  by (auto simp: select_first_def find_None_iff)

lemma select_first_Nil [simp]: "select_first P [] = None"
  by (simp add: select_first_def)

lemma select_first_Cons [simp]:
  "select_first P (r # rows) = (if P r then Some r else select_first P rows)"
  by (simp add: select_first_def)

lemma distinct_key_unique:
  "distinct (map key rows) \<Longrightarrow> r \<in> set rows \<Longrightarrow> r' \<in> set rows \<Longrightarrow> key r = key r' \<Longrightarrow> r = r'"
  by (metis distinct_map inj_onD)

lemma select_first_key:
  assumes "distinct (map key rows)" and "r \<in> set rows"
  shows "select_first (\<lambda>x. key x = key r) rows = Some r"
proof (cases "select_first (\<lambda>x. key x = key r) rows")
  case None
  then show ?thesis using assms(2) by (auto simp: select_first_None)
next
  case (Some x)
  then have "x \<in> set rows" "key x = key r" by (auto dest: select_first_Some)
  with assms have "x = r" by (blast intro: distinct_key_unique)
  with Some show ?thesis by simp
qed

lemma select_first_update_key:
  assumes "\<And>r. key (f r) = key r"
  shows "select_first (\<lambda>x. key x = k) (update_where P f rows)
         = map_option (\<lambda>r. if P r then f r else r) (select_first (\<lambda>x. key x = k) rows)"
  using assms by (induction rows) auto

text \<open>
  Relating two tables row by row. These facts are stated for any type of row and applied to
  the rows of the schema by rule, which keeps the proofs about wide records cheap.
\<close>

lemma list_all2_right_row: "list_all2 R xs ys \<Longrightarrow> y \<in> set ys \<Longrightarrow> \<exists>x. x \<in> set xs \<and> R x y"
  by (auto simp: list_all2_conv_all_nth in_set_conv_nth)

lemma list_all2_left_row: "list_all2 R xs ys \<Longrightarrow> x \<in> set xs \<Longrightarrow> \<exists>y. y \<in> set ys \<and> R x y"
  by (auto simp: list_all2_conv_all_nth in_set_conv_nth)

lemma list_all2_update_where:
  assumes "\<And>r. r \<in> set rows \<Longrightarrow> P r \<Longrightarrow> R r (f r)" "\<And>r. r \<in> set rows \<Longrightarrow> \<not> P r \<Longrightarrow> R r r"
  shows "list_all2 R rows (update_where P f rows)"
  using assms by (auto simp: update_where_def list_all2_conv_all_nth)

lemma in_image_select_first:
  assumes "distinct (map key rows)" "k \<in> key ` set rows"
  shows "\<exists>r. select_first (\<lambda>x. key x = k) rows = Some r"
  using assms select_first_key [OF assms(1)] by auto

text \<open>Unique keys with NULLs: one row takes a value that no other row holds.\<close>

lemma map_filter_inj:
  "distinct (List.map_filter g rows) \<Longrightarrow> r \<in> set rows \<Longrightarrow> s \<in> set rows \<Longrightarrow> g r = Some x \<Longrightarrow> g s = Some x
    \<Longrightarrow> r = s"
  by (induction rows) (auto simp: List.map_filter_simps set_map_filter_option split: option.splits)

lemma map_filter_cleared:
  assumes "distinct (List.map_filter g rows)" "r \<in> set rows" "g r = Some x" "P r" "\<And>s. g (f s) = None"
  shows "x \<notin> set (List.map_filter g (update_where P f rows))"
proof
  assume "x \<in> set (List.map_filter g (update_where P f rows))"
  then obtain s where s: "s \<in> set (update_where P f rows)" "g s = Some x"
    by (auto simp: set_map_filter_option)
  from s(1) show False
  proof (cases rule: in_update_whereE)
    case (changed q)
    with s(2) assms(5) show False by simp
  next
    case kept
    then have "s = r" using map_filter_inj assms(1-3) s(2) by metis
    with kept assms(4) show False by simp
  qed
qed

lemma distinct_map_filter_assign:
  assumes "distinct (map key rows)" "distinct (List.map_filter g rows)" "\<And>r. P r \<Longrightarrow> key r = i"
    "\<And>r. g (f r) = u" "\<And>x. u = Some x \<Longrightarrow> x \<notin> set (List.map_filter g rows)"
  shows "distinct (List.map_filter g (update_where P f rows))"
  using assms(1,2,5)
proof (induction rows)
  case Nil
  then show ?case by simp
next
  case (Cons r rows)
  show ?case
  proof (cases "P r")
    case True
    have "\<not> P s" if "s \<in> set rows" for s
      using that Cons.prems(1) assms(3) True by auto
    then have "update_where P f rows = rows" by (rule update_where_id)
    then show ?thesis
      using True Cons.prems assms(4)
      by (auto simp: List.map_filter_simps split: option.splits)
  next
    case False
    have sub: "set (List.map_filter g (update_where P f rows))
        \<subseteq> set (List.map_filter g rows) \<union> {x. u = Some x}"
      using assms(4) by (auto simp: set_map_filter_option set_update_where split: if_splits)
    have "distinct (List.map_filter g (update_where P f rows))"
      using Cons by (auto simp: List.map_filter_simps split: option.splits)
    then show ?thesis
      using False sub Cons.prems(2,3) by (auto simp: List.map_filter_simps split: option.splits)
  qed
qed

lemma list_all2_select_first:
  assumes "list_all2 R xs ys" "\<And>x y. R x y \<Longrightarrow> Q y = P x" "select_first P xs = Some x"
  shows "\<exists>y. select_first Q ys = Some y \<and> R x y"
  using assms(1,3)
proof (induction rule: list_all2_induct)
  case Nil
  then show ?case by simp
next
  case (Cons a as b bs)
  then show ?case using assms(2) [of a b] by (auto split: if_splits)
qed

lemma filter_update_where:
  assumes "\<And>r. r \<in> set rows \<Longrightarrow> P r \<Longrightarrow> \<not> Q r \<and> \<not> Q (f r)"
  shows "filter Q (update_where P f rows) = filter Q rows"
  using assms by (induction rows) auto

lemma map_filter_update_where:
  assumes "\<And>r. r \<in> set rows \<Longrightarrow> P r \<Longrightarrow> Q r \<and> Q (f r) \<and> g (f r) = g r"
  shows "map g (filter Q (update_where P f rows)) = map g (filter Q rows)"
  using assms by (induction rows) auto

section \<open>Error numbers\<close>

text \<open>The values of \<^verbatim>\<open>errno\<close> on Linux.\<close>

abbreviation EPERM :: int where "EPERM \<equiv> 1"
abbreviation ENOENT :: int where "ENOENT \<equiv> 2"
abbreviation EINTR :: int where "EINTR \<equiv> 4"
abbreviation E2BIG :: int where "E2BIG \<equiv> 7"
abbreviation EACCES :: int where "EACCES \<equiv> 13"
abbreviation EEXIST :: int where "EEXIST \<equiv> 17"
abbreviation ENOTDIR :: int where "ENOTDIR \<equiv> 20"
abbreviation EISDIR :: int where "EISDIR \<equiv> 21"
abbreviation EINVAL :: int where "EINVAL \<equiv> 22"
abbreviation EFBIG :: int where "EFBIG \<equiv> 27"
abbreviation ENOSPC :: int where "ENOSPC \<equiv> 28"
abbreviation EROFS :: int where "EROFS \<equiv> 30"
abbreviation ENAMETOOLONG :: int where "ENAMETOOLONG \<equiv> 36"
abbreviation EPROTONOSUPPORT :: int where "EPROTONOSUPPORT \<equiv> 93"
abbreviation ECANCELED :: int where "ECANCELED \<equiv> 125"

end
