(* ===== verification/OrderedMap.thy ===== *)
theory OrderedMap
  imports Prelude
begin

section \<open>Ordered maps\<close>

text \<open>
  \<^verbatim>\<open>std::map\<close> as an association list in the order of its keys. An iterator is the key it points
  to, or \<open>None\<close> for \<^verbatim>\<open>end()\<close>; it stays valid as long as its key is not erased. The interface
  \<open>std_map\<close> states what the clients rely on.
\<close>

named_theorems omap_simps \<open>laws of the ordered map\<close>

type_synonym ('k, 'v) omap = "('k \<times> 'v) list"

definition om_ok :: "('k::linorder, 'v) omap \<Rightarrow> bool" where
  "om_ok m \<longleftrightarrow> sorted_wrt (<) (map fst m)"

definition om_find :: "('k::linorder, 'v) omap \<Rightarrow> 'k \<Rightarrow> 'v option" where
  "om_find m k = map_of m k"

fun om_put :: "'k::linorder \<Rightarrow> 'v \<Rightarrow> ('k, 'v) omap \<Rightarrow> ('k, 'v) omap" where
  "om_put k v [] = [(k, v)]"
| "om_put k v ((k', v') # m) =
     (if k < k' then (k, v) # (k', v') # m
      else if k = k' then (k, v) # m
      else (k', v') # om_put k v m)"

definition om_erase :: "'k::linorder \<Rightarrow> ('k, 'v) omap \<Rightarrow> ('k, 'v) omap" where
  "om_erase k m = filter (\<lambda>p. fst p \<noteq> k) m"

definition om_keys :: "('k::linorder, 'v) omap \<Rightarrow> 'k list" where
  "om_keys m = map fst m"

text \<open>\<^verbatim>\<open>m[k]\<close> of a map whose values have a default constructor.\<close>

definition om_at :: "'v \<Rightarrow> ('k::linorder, 'v) omap \<Rightarrow> 'k \<Rightarrow> 'v" where
  "om_at dflt m k = (case om_find m k of None \<Rightarrow> dflt | Some v \<Rightarrow> v)"

definition om_begin :: "('k::linorder, 'v) omap \<Rightarrow> 'k option" where
  "om_begin m = (case m of [] \<Rightarrow> None | p # _ \<Rightarrow> Some (fst p))"

text \<open>The iterator after the one that points to \<open>k\<close>.\<close>

definition om_next :: "'k::linorder \<Rightarrow> ('k, 'v) omap \<Rightarrow> 'k option" where
  "om_next k m = om_begin (dropWhile (\<lambda>p. fst p \<le> k) m)"

subsection \<open>The interface\<close>

locale std_map =
  fixes lookup :: "'m \<Rightarrow> 'k::linorder \<Rightarrow> 'v option" and put :: "'k \<Rightarrow> 'v \<Rightarrow> 'm \<Rightarrow> 'm"
    and erase :: "'k \<Rightarrow> 'm \<Rightarrow> 'm" and keys :: "'m \<Rightarrow> 'k list" and ok :: "'m \<Rightarrow> bool"
  assumes lookup_put: "ok m \<Longrightarrow> lookup (put k v m) = (lookup m)(k \<mapsto> v)"
    and lookup_erase: "ok m \<Longrightarrow> lookup (erase k m) = (lookup m)(k := None)"
    and ok_put: "ok m \<Longrightarrow> ok (put k v m)" and ok_erase: "ok m \<Longrightarrow> ok (erase k m)"
    and keys_dom: "ok m \<Longrightarrow> set (keys m) = dom (lookup m)"
    and keys_order: "ok m \<Longrightarrow> sorted_wrt (<) (keys m)"
begin

lemma keys_canonical: "ok m \<Longrightarrow> keys m = sorted_list_of_set (dom (lookup m))"
proof -
  assume m: "ok m"
  have "sorted (keys m)" "distinct (keys m)" using keys_order [OF m] by (simp_all add: strict_sorted_iff)
  then show ?thesis using keys_dom [OF m] sorted_list_of_set_unique [of "dom (lookup m)" "keys m"]
    by (metis List.finite_set distinct_card strict_sorted_iff)
qed

lemma keys_put: "ok m \<Longrightarrow> set (keys (put k v m)) = insert k (set (keys m))"
  by (simp add: keys_dom ok_put lookup_put)

lemma keys_erase: "ok m \<Longrightarrow> set (keys (erase k m)) = set (keys m) - {k}"
  by (simp add: keys_dom ok_erase lookup_erase)

lemma lookup_put_put: "ok m \<Longrightarrow> lookup (put k v (put k w m)) = lookup (put k v m)"
  by (simp add: lookup_put ok_put)

end

lemma om_ok_Nil [simp]: "om_ok []"
  by (simp add: om_ok_def)

lemma om_ok_Cons: "om_ok (p # m) \<longleftrightarrow> (\<forall>q \<in> set m. fst p < fst q) \<and> om_ok m"
  by (auto simp: om_ok_def)

lemma om_ok_append: "om_ok (a @ b) \<longleftrightarrow> om_ok a \<and> om_ok b \<and> (\<forall>p \<in> set a. \<forall>q \<in> set b. fst p < fst q)"
  by (induction a) (auto simp: om_ok_Cons)

lemma set_om_put: "set (om_put k v m) \<subseteq> insert (k, v) (set m)"
proof (induction m)
  case (Cons p m)
  then show ?case by (cases p) (simp, blast)
qed simp

lemma fst_om_put: "fst ` set (om_put k v m) = insert k (fst ` set m)"
proof (induction m)
  case (Cons p m)
  then show ?case by (cases p) (simp add: insert_commute)
qed simp

lemma om_ok_put: "om_ok m \<Longrightarrow> om_ok (om_put k v m)"
proof (induction m)
  case (Cons p m)
  have "fst p < fst q" if "\<not> k < fst p" "k \<noteq> fst p" "q \<in> set (om_put k v m)" for q
  proof -
    have "fst q \<in> insert k (fst ` set m)" using that(3) fst_om_put [of k v m] by auto
    then show ?thesis using that(1,2) Cons.prems by (auto simp: om_ok_Cons)
  qed
  then show ?case using Cons by (cases p) (auto simp: om_ok_Cons)
qed (simp add: om_ok_Cons)

lemma om_find_put: "om_ok m \<Longrightarrow> om_find (om_put k v m) = (om_find m)(k \<mapsto> v)"
proof (induction m)
  case (Cons p m)
  show ?case
  proof (cases p)
    case (Pair k' v')
    have "om_find m = map_of m" by (simp add: om_find_def fun_eq_iff)
    moreover have "k < k' \<Longrightarrow> map_of m k = None"
      using Cons.prems Pair by (auto simp: om_ok_Cons map_of_eq_None_iff)
    ultimately show ?thesis using Cons Pair by (auto simp: om_find_def om_ok_Cons fun_eq_iff)
  qed
qed (simp add: om_find_def fun_eq_iff)

lemma om_find_erase: "om_find (om_erase k m) = (om_find m)(k := None)"
  by (induction m) (auto simp: om_find_def om_erase_def fun_eq_iff)

lemma om_ok_erase: "om_ok m \<Longrightarrow> om_ok (om_erase k m)"
  by (induction m) (auto simp: om_erase_def om_ok_Cons)

interpretation om: std_map om_find om_put om_erase om_keys om_ok
proof unfold_locales
  show "set (om_keys m) = dom (om_find m)" for m :: "('a, 'b) omap"
    by (auto simp: om_keys_def om_find_def dom_def map_of_eq_None_iff not_None_eq [symmetric] simp del: not_None_eq)
qed (simp_all add: om_find_put om_find_erase om_ok_put om_ok_erase, simp add: om_keys_def om_ok_def)

subsection \<open>Positions\<close>

text \<open>A map cut at one of its keys.\<close>

lemma om_find_middle:
  "om_ok (a @ (k, v) # b) \<Longrightarrow> om_find (a @ (k, v) # b) k = Some v"
  by (induction a) (auto simp: om_find_def om_ok_Cons)

lemma om_put_middle:
  "om_ok (a @ (k, v) # b) \<Longrightarrow> om_put k w (a @ (k, v) # b) = a @ (k, w) # b"
  by (induction a) (auto simp: om_ok_Cons)

lemma om_erase_middle:
  assumes "om_ok (a @ (k, v) # b)"
  shows "om_erase k (a @ (k, v) # b) = a @ b"
proof -
  have "filter (\<lambda>p. fst p \<noteq> k) a = a" "filter (\<lambda>p. fst p \<noteq> k) b = b"
    using assms by (fastforce simp: om_ok_append om_ok_Cons filter_id_conv)+
  then show ?thesis by (simp add: om_erase_def)
qed

lemma om_next_middle:
  assumes "om_ok (a @ (k, v) # b)"
  shows "om_next k (a @ (k, v) # b) = om_begin b"
proof -
  have "dropWhile (\<lambda>p. fst p \<le> k) (a @ (k, v) # b) = b"
  proof -
    have "\<forall>p \<in> set a. fst p \<le> k" "\<forall>p \<in> set b. \<not> fst p \<le> k"
      using assms by (fastforce simp: om_ok_append om_ok_Cons)+
    then show ?thesis by (cases b) (auto simp: dropWhile_append2)
  qed
  then show ?thesis by (simp add: om_next_def)
qed

lemma om_split:
  assumes "k \<in> fst ` set m"
  shows "\<exists>a v b. m = a @ (k, v) # b"
proof -
  from assms obtain v where "(k, v) \<in> set m" by auto
  then show ?thesis by (metis in_set_conv_decomp)
qed

subsection \<open>Sums over the values\<close>

lemma om_sum_put_key:
  fixes g :: "'k::linorder \<Rightarrow> 'v \<Rightarrow> 'a::comm_monoid_add"
  assumes "om_ok m"
  shows "(\<Sum>p \<leftarrow> om_put k v m. g (fst p) (snd p)) + (case om_find m k of None \<Rightarrow> 0 | Some w \<Rightarrow> g k w)
    = (\<Sum>p \<leftarrow> m. g (fst p) (snd p)) + g k v"
  using assms
proof (induction m)
  case (Cons p m)
  obtain k' v' where p: "p = (k', v')" by (cases p)
  have "k < k' \<Longrightarrow> om_find m k = None"
    using Cons.prems p by (auto simp: om_find_def om_ok_Cons map_of_eq_None_iff)
  moreover have "om_find (p # m) k = (if k' = k then Some v' else om_find m k)" by (simp add: om_find_def p)
  ultimately show ?case using Cons p by (auto simp: om_ok_Cons ac_simps)
qed (simp add: om_find_def)

lemma om_sum_put:
  fixes g :: "'v \<Rightarrow> 'a::comm_monoid_add"
  assumes "om_ok m"
  shows "(\<Sum>p \<leftarrow> om_put k v m. g (snd p)) + (case om_find m k of None \<Rightarrow> 0 | Some w \<Rightarrow> g w) = (\<Sum>p \<leftarrow> m. g (snd p)) + g v"
  by (rule om_sum_put_key [OF assms, of "\<lambda>_. g"])

lemma om_sum_erase:
  fixes g :: "'v \<Rightarrow> 'a::comm_monoid_add"
  assumes "om_ok m"
  shows "(\<Sum>p \<leftarrow> om_erase k m. g (snd p)) + (case om_find m k of None \<Rightarrow> 0 | Some w \<Rightarrow> g w) = (\<Sum>p \<leftarrow> m. g (snd p))"
  using assms
proof (induction m)
  case (Cons p m)
  obtain k' v' where p: "p = (k', v')" by (cases p)
  have "k' = k \<Longrightarrow> om_find m k = None"
    using Cons.prems p by (auto simp: om_find_def om_ok_Cons map_of_eq_None_iff)
  moreover have "om_find (p # m) k = (if k' = k then Some v' else om_find m k)" by (simp add: om_find_def p)
  ultimately show ?case using Cons p by (auto simp: om_erase_def om_ok_Cons ac_simps)
qed (simp add: om_find_def om_erase_def)

lemma om_find_in: "om_find m k = Some v \<Longrightarrow> (k, v) \<in> set m"
  by (simp add: om_find_def map_of_SomeD)

lemma om_in_find: "om_ok m \<Longrightarrow> (k, v) \<in> set m \<Longrightarrow> om_find m k = Some v"
  by (induction m) (auto simp: om_find_def om_ok_Cons)

lemma om_in_iff: "om_ok m \<Longrightarrow> (k, v) \<in> set m \<longleftrightarrow> om_find m k = Some v"
  using om_in_find om_find_in by metis

lemma in_om_put:
  assumes "om_ok m"
  shows "p \<in> set (om_put k v m) \<longleftrightarrow> p = (k, v) \<or> p \<in> set m \<and> fst p \<noteq> k"
proof (cases p)
  case (Pair x w)
  then show ?thesis
    using om_in_iff [OF om_ok_put [OF assms], of x w k v] om_in_iff [OF assms, of x w] by (auto simp: om_find_put assms)
qed

lemma in_om_erase: "p \<in> set (om_erase k m) \<longleftrightarrow> p \<in> set m \<and> fst p \<noteq> k"
  by (auto simp: om_erase_def)

end
