(* ===== verification/Schema.thy ===== *)
theory Schema
  imports Prelude
begin

section \<open>The database: states, rows and tables\<close>

text \<open>
  The tables of \<^verbatim>\<open>src/db/schema/mysql/fts-schema-9.0.0.sql\<close> as far as the server reads and
  writes them, and the classes of \<^verbatim>\<open>src/db/generic\<close> that carry their rows.

  \<^item> A nullable column that some statement tests for NULL or sets to NULL is an \<open>option\<close>.
    A column the code only ever reads with a default is stored as its value.
  \<^item> \<^verbatim>\<open>bigint unsigned\<close> keys are \<open>nat\<close>; \<^verbatim>\<open>int\<close> columns are \<open>int\<close>; timestamps are seconds.
  \<^item> \<open>wf_db\<close> collects the constraints the schema declares: primary keys, the unique key on
    \<^verbatim>\<open>dest_surl_uuid\<close> and the foreign key from files to jobs.
\<close>

type_synonym job_id = string
type_synonym timestamp = int

datatype file_state =
    STAGING | ARCHIVING | QOS_TRANSITION | QOS_REQUEST_SUBMITTED | STARTED | SUBMITTED | READY
  | ACTIVE | FINISHED | FAILED | CANCELED | NOT_USED | ON_HOLD | ON_HOLD_STAGING | FORCE_START
  | TOKEN_PREP

datatype job_state =
    J_STAGING | J_ARCHIVING | J_QOS_TRANSITION | J_QOS_REQUEST_SUBMITTED | J_SUBMITTED | J_READY
  | J_ACTIVE | J_FINISHED | J_FAILED | J_FINISHEDDIRTY | J_CANCELED | J_DELETE

datatype JobType = kTypeMultipleReplica | kTypeMultiHop | kTypeSessionReuse | kTypeRegular

text \<open>
  \<^verbatim>\<open>fts3::common\<close> exceptions. The database layer catches what SOCI throws, rolls back and
  throws \<^verbatim>\<open>UserError\<close> or \<^verbatim>\<open>SystemError\<close>; reading a NULL column into a variable that has no
  indicator is one such case, and is modelled where it can happen.
\<close>

datatype fts_error = UserError | SystemError

text \<open>
  A status message names a state by a string that is written to both tables. This is the
  job state with the same name, if the enumeration of job states has one.
\<close>

fun job_state_named :: "file_state \<Rightarrow> job_state option" where
  "job_state_named STAGING = Some J_STAGING"
| "job_state_named ARCHIVING = Some J_ARCHIVING"
| "job_state_named QOS_TRANSITION = Some J_QOS_TRANSITION"
| "job_state_named QOS_REQUEST_SUBMITTED = Some J_QOS_REQUEST_SUBMITTED"
| "job_state_named SUBMITTED = Some J_SUBMITTED"
| "job_state_named READY = Some J_READY"
| "job_state_named ACTIVE = Some J_ACTIVE"
| "job_state_named FINISHED = Some J_FINISHED"
| "job_state_named FAILED = Some J_FAILED"
| "job_state_named CANCELED = Some J_CANCELED"
| "job_state_named _ = None"

definition terminal_file :: "file_state \<Rightarrow> bool" where
  "terminal_file s \<longleftrightarrow> s = FINISHED \<or> s = FAILED \<or> s = CANCELED"

definition terminal_job :: "job_state \<Rightarrow> bool" where
  "terminal_job s \<longleftrightarrow> s = J_FINISHED \<or> s = J_FAILED \<or> s = J_FINISHEDDIRTY \<or> s = J_CANCELED"

record file_row =
  f_file_id :: nat
  f_job_id :: job_id
  f_file_index :: "int option"
  f_file_state :: file_state
  f_file_state_initial :: "file_state option"
  f_transfer_host :: "string option"
  f_staging_host :: "string option"
  f_source_surl :: string
  f_dest_surl :: string
  f_source_se :: string
  f_dest_se :: string
  f_vo_name :: string
  f_activity :: "string option"
  f_hashed_id :: nat
  f_priority :: int
  f_reason :: string
  f_current_failures :: int
  f_retry :: "int option"
  f_retry_timestamp :: "timestamp option"
  f_pid :: "int option"
  f_filesize :: int
  f_transferred :: int
  f_tx_duration :: real
  f_throughput :: real
  f_file_metadata :: string
  f_internal_file_params :: "string option"
  f_selection_strategy :: "string option"
  f_start_time :: "timestamp option"
  f_finish_time :: "timestamp option"
  f_staging_start :: "timestamp option"
  f_staging_finished :: "timestamp option"
  f_archive_start_time :: "timestamp option"
  f_archive_finish_time :: "timestamp option"
  f_bringonline_token :: "string option"
  f_log_file :: "string option"
  f_log_file_debug :: "bool option"
  f_dest_surl_uuid :: "string option"
  f_src_token_id :: "string option"
  f_dst_token_id :: "string option"
  f_checksum :: string
  f_user_filesize :: int
  f_archive_metadata :: string
  f_scitag :: int

record job_row =
  j_job_id :: job_id
  j_job_state :: job_state
  j_job_type :: "JobType option"
  j_source_se :: "string option"
  j_dest_se :: "string option"
  j_vo_name :: string
  j_reason :: string
  j_priority :: int
  j_submit_time :: timestamp
  j_job_finished :: "timestamp option"
  j_max_time_in_queue :: "int option"
  j_retry :: "int option"
  j_retry_delay :: "int option"
  j_bring_online :: "int option"
  j_copy_pin_lifetime :: "int option"
  j_archive_timeout :: "int option"
  j_user_dn :: "string option"
  j_cred_id :: "string option"
  j_overwrite_flag :: string
  j_dst_file_report :: string
  j_checksum_method :: string
  j_source_space_token :: string
  j_space_token :: string
  j_job_metadata :: string
  j_internal_job_params :: string

record retry_error_row =
  e_file_id :: nat
  e_attempt :: int
  e_datetime :: timestamp
  e_reason :: string
  e_transfer_host :: "string option"
  e_log_file :: "string option"

record optimizer_row =
  o_source_se :: string
  o_dest_se :: string
  o_active :: "int option"
  o_ema :: real
  o_nostreams :: int
  o_datetime :: timestamp

record host_row =
  h_hostname :: string
  h_service_name :: string
  h_beat :: timestamp
  h_drain :: bool

record server_config_row =
  c_vo_name :: "string option"
  c_retry :: "int option"
  c_max_time_queue :: "int option"
  c_sec_per_mb :: "int option"
  c_global_timeout :: "int option"
  c_no_streaming :: "string option"
  c_show_user_dn :: "string option"

record se_row =
  s_storage :: string
  s_inbound_max_active :: "int option"
  s_inbound_max_throughput :: "real option"
  s_outbound_max_active :: "int option"
  s_outbound_max_throughput :: "real option"
  s_ipv6 :: "bool option"
  s_udt :: "bool option"
  s_debug_level :: "int option"
  s_tpc_support :: "string option"
  s_skip_eviction :: "bool option"

record link_row =
  k_source_se :: string
  k_dest_se :: string
  k_min_active :: "int option"
  k_max_active :: "int option"
  k_optimizer_mode :: "int option"
  k_tcp_buffer_size :: "int option"
  k_nostreams :: "int option"
  k_no_delegation :: "string option"
  k_3rd_party_turl :: "string option"

text \<open>
  The text of a decision, as the sequence of what is written to the stream: literals and numbers.
\<close>

datatype rationale_item = Txt string | Num real

record evolution_row =
  v_datetime :: timestamp
  v_source_se :: string
  v_dest_se :: string
  v_active :: int
  v_diff :: int
  v_rationale :: "rationale_item list"
  v_ema :: real
  v_throughput :: real
  v_success :: real
  v_filesize_avg :: real
  v_filesize_stddev :: real
  v_actual_active :: int
  v_queue_size :: int

record token_row =
  tk_token_id :: string
  tk_access_token :: string
  tk_refresh_token :: "string option"
  tk_retry_timestamp :: "timestamp option"
  tk_retry_delay_m :: int
  tk_attempts :: int
  tk_exchange_message :: "string option"

record share_row =
  sc_source :: string
  sc_destination :: string
  sc_vo :: string
  sc_active :: int

record activity_share_row =
  as_vo :: string
  as_activity_share :: string
  as_active :: "string option"

text \<open>A deletion. Its states are the names \<^verbatim>\<open>DELETE\<close>, \<^verbatim>\<open>STARTED\<close> and the terminal ones.\<close>

datatype dm_state = DM_DELETE | DM_STARTED | DM_FINISHED | DM_FAILED | DM_CANCELED

record dm_row =
  d_file_id :: nat
  d_job_id :: job_id
  d_file_state :: dm_state
  d_dmHost :: "string option"
  d_source_surl :: string
  d_source_se :: string
  d_vo_name :: string
  d_hashed_id :: nat
  d_reason :: string
  d_retry :: "int option"
  d_retry_timestamp :: "timestamp option"
  d_start_time :: "timestamp option"
  d_finish_time :: "timestamp option"
  d_job_finished :: "timestamp option"

text \<open>How many operations of a kind a VO may have running on a storage.\<close>

record stage_req_row =
  sr_vo_name :: string
  sr_host :: string
  sr_operation :: string
  sr_concurrent_ops :: "int option"

record db =
  t_file :: "file_row list"
  t_job :: "job_row list"
  t_file_retry_errors :: "retry_error_row list"
  t_optimizer :: "optimizer_row list"
  t_hosts :: "host_row list"
  t_server_config :: "server_config_row list"
  t_se :: "se_row list"
  t_link_config :: "link_row list"
  t_optimizer_evolution :: "evolution_row list"
  t_token :: "token_row list"
  t_share_config :: "share_row list"
  t_activity_share_config :: "activity_share_row list"
  t_dm :: "dm_row list"
  t_stage_req :: "stage_req_row list"

text \<open>What the functions read from outside the database: the host name and the clock.\<close>

record env =
  hostname :: string
  now :: timestamp

text \<open>\<^verbatim>\<open>type_conversion<Job::JobType>::from_base\<close>: a NULL job type is a regular job.\<close>

definition job_type_of :: "job_row \<Rightarrow> JobType" where
  "job_type_of j = (case j_job_type j of None \<Rightarrow> kTypeRegular | Some t \<Rightarrow> t)"

text \<open>
  \<^verbatim>\<open>TransferFile\<close> as the queries of the scheduler fill it: \<^verbatim>\<open>from_base\<close> reads \<^verbatim>\<open>user_dn\<close> and
  \<^verbatim>\<open>cred_id\<close> without a default and throws when one of them is NULL.
\<close>

record TransferFile =
  tf_fileId :: nat
  tf_fileIndex :: int
  tf_jobId :: job_id
  tf_fileState :: file_state
  tf_sourceSurl :: string
  tf_destSurl :: string
  tf_sourceSe :: string
  tf_destSe :: string
  tf_voName :: string
  tf_overwriteFlag :: string
  tf_dstFileReport :: string
  tf_archiveTimeout :: int
  tf_userDn :: string
  tf_credId :: string
  tf_sourceTokenId :: string
  tf_destinationTokenId :: string
  tf_checksum :: string
  tf_checksumMode :: string
  tf_sourceSpaceToken :: string
  tf_destinationSpaceToken :: string
  tf_bringOnline :: int
  tf_pinLifetime :: int
  tf_fileMetadata :: string
  tf_transferMetadata :: string
  tf_jobMetadata :: string
  tf_activity :: string
  tf_userFilesize :: int
  tf_bringOnlineToken :: string
  tf_selectionStrategy :: string
  tf_internalFileParams :: string
  tf_scitag :: int
  tf_jobType :: JobType
  tf_lastReplica :: bool
  tf_lastHop :: bool

definition or_default :: "'a \<Rightarrow> 'a option \<Rightarrow> 'a" where
  "or_default v x = (case x of None \<Rightarrow> v | Some y \<Rightarrow> y)"

definition fetch_TransferFile :: "file_row \<Rightarrow> job_row \<Rightarrow> fts_error + TransferFile" where
  "fetch_TransferFile f j =
     (case (j_user_dn j, j_cred_id j) of
        (Some userDn, Some credId) \<Rightarrow>
          Inr \<lparr>tf_fileId = f_file_id f, tf_fileIndex = or_default 0 (f_file_index f), tf_jobId = f_job_id f,
               tf_fileState = f_file_state f, tf_sourceSurl = f_source_surl f, tf_destSurl = f_dest_surl f,
               tf_sourceSe = f_source_se f, tf_destSe = f_dest_se f, tf_voName = j_vo_name j,
               tf_overwriteFlag = j_overwrite_flag j, tf_dstFileReport = j_dst_file_report j,
               tf_archiveTimeout = or_default (-1) (j_archive_timeout j), tf_userDn = userDn, tf_credId = credId,
               tf_sourceTokenId = or_default '''' (f_src_token_id f), tf_destinationTokenId = or_default '''' (f_dst_token_id f),
               tf_checksum = f_checksum f, tf_checksumMode = j_checksum_method j,
               tf_sourceSpaceToken = j_source_space_token j, tf_destinationSpaceToken = j_space_token j,
               tf_bringOnline = or_default 0 (j_bring_online j), tf_pinLifetime = or_default 0 (j_copy_pin_lifetime j),
               tf_fileMetadata = f_file_metadata f, tf_transferMetadata = f_archive_metadata f,
               tf_jobMetadata = j_job_metadata j, tf_activity = or_default '''' (f_activity f),
               tf_userFilesize = f_user_filesize f, tf_bringOnlineToken = or_default '''' (f_bringonline_token f),
               tf_selectionStrategy = or_default '''' (f_selection_strategy f),
               tf_internalFileParams = j_internal_job_params j, tf_scitag = f_scitag f,
               tf_jobType = job_type_of j, tf_lastReplica = False, tf_lastHop = False\<rparr>
      | _ \<Rightarrow> Inl UserError)"

text \<open>\<^verbatim>\<open>QueueId\<close>: the files of a VO waiting for a link, with how many are running.\<close>

type_synonym link = "string \<times> string"

record QueueId =
  q_sourceSe :: string
  q_destSe :: string
  q_voName :: string
  q_activeCount :: nat

definition queue_link :: "QueueId \<Rightarrow> link" where
  "queue_link q = (q_sourceSe q, q_destSe q)"

subsection \<open>Statements on the two main tables\<close>

definition update_files :: "(file_row \<Rightarrow> bool) \<Rightarrow> (file_row \<Rightarrow> file_row) \<Rightarrow> db \<Rightarrow> db" where
  "update_files P f d = d\<lparr>t_file := update_where P f (t_file d)\<rparr>"

definition update_jobs :: "(job_row \<Rightarrow> bool) \<Rightarrow> (job_row \<Rightarrow> job_row) \<Rightarrow> db \<Rightarrow> db" where
  "update_jobs P f d = d\<lparr>t_job := update_where P f (t_job d)\<rparr>"

definition file_by_id :: "nat \<Rightarrow> db \<Rightarrow> file_row option" where
  "file_by_id i d = select_first (\<lambda>r. f_file_id r = i) (t_file d)"

definition job_by_id :: "job_id \<Rightarrow> db \<Rightarrow> job_row option" where
  "job_by_id i d = select_first (\<lambda>r. j_job_id r = i) (t_job d)"

definition files_of_job :: "job_id \<Rightarrow> db \<Rightarrow> file_row list" where
  "files_of_job i d = filter (\<lambda>r. f_job_id r = i) (t_file d)"

definition wf_db :: "db \<Rightarrow> bool" where
  "wf_db d \<longleftrightarrow>
     distinct (map f_file_id (t_file d)) \<and> 0 \<notin> f_file_id ` set (t_file d) \<and>
     distinct (map j_job_id (t_job d)) \<and>
     distinct (List.map_filter f_dest_surl_uuid (t_file d)) \<and>
     f_job_id ` set (t_file d) \<subseteq> j_job_id ` set (t_job d)"

text \<open>
  The constraints as facts about \<open>t_file\<close>, and what an UPDATE must not touch to keep them.
\<close>

definition keeps_keys :: "(file_row \<Rightarrow> file_row) \<Rightarrow> bool" where
  "keeps_keys f \<longleftrightarrow> (\<forall>r. f_file_id (f r) = f_file_id r \<and> f_job_id (f r) = f_job_id r
     \<and> f_file_index (f r) = f_file_index r)"

definition clears_uuid :: "(file_row \<Rightarrow> file_row) \<Rightarrow> bool" where
  "clears_uuid f \<longleftrightarrow> (\<forall>r. f_dest_surl_uuid (f r) = f_dest_surl_uuid r \<or> f_dest_surl_uuid (f r) = None)"

text \<open>Rows with every optional column NULL, for concrete runs.\<close>

definition sample_file :: "nat \<Rightarrow> job_id \<Rightarrow> int \<Rightarrow> file_state \<Rightarrow> file_row" where
  "sample_file i jobId idx st =
     \<lparr>f_file_id = i, f_job_id = jobId, f_file_index = Some idx, f_file_state = st,
      f_file_state_initial = None, f_transfer_host = None, f_staging_host = None,
      f_source_surl = ''root://src//a'', f_dest_surl = ''root://dst//a'', f_source_se = ''root://src'',
      f_dest_se = ''root://dst'', f_vo_name = ''atlas'', f_activity = None, f_hashed_id = 0,
      f_priority = 3, f_reason = '''', f_current_failures = 0, f_retry = None, f_retry_timestamp = None,
      f_pid = None, f_filesize = 0, f_transferred = 0, f_tx_duration = 0, f_throughput = 0,
      f_file_metadata = '''', f_internal_file_params = None, f_selection_strategy = None,
      f_start_time = None, f_finish_time = None, f_staging_start = None, f_staging_finished = None,
      f_archive_start_time = None, f_archive_finish_time = None, f_bringonline_token = None,
      f_log_file = None, f_log_file_debug = None, f_dest_surl_uuid = None, f_src_token_id = None,
      f_dst_token_id = None, f_checksum = '''', f_user_filesize = 0, f_archive_metadata = '''', f_scitag = 0\<rparr>"

definition sample_job :: "job_id \<Rightarrow> JobType option \<Rightarrow> job_state \<Rightarrow> job_row" where
  "sample_job jobId ty st =
     \<lparr>j_job_id = jobId, j_job_state = st, j_job_type = ty, j_source_se = None, j_dest_se = None,
      j_vo_name = ''atlas'', j_reason = '''', j_priority = 3, j_submit_time = 0, j_job_finished = None,
      j_max_time_in_queue = None, j_retry = None, j_retry_delay = None, j_bring_online = None,
      j_copy_pin_lifetime = None, j_archive_timeout = None, j_user_dn = Some ''/CN=user'',
      j_cred_id = Some ''cred'', j_overwrite_flag = '''', j_dst_file_report = '''', j_checksum_method = '''',
      j_source_space_token = '''', j_space_token = '''', j_job_metadata = ''null'', j_internal_job_params = ''''\<rparr>"

definition sample_transfer :: "nat \<Rightarrow> job_id \<Rightarrow> string \<Rightarrow> string \<Rightarrow> string \<Rightarrow> TransferFile" where
  "sample_transfer n jobId s d vo =
     \<lparr>tf_fileId = n, tf_fileIndex = int n, tf_jobId = jobId, tf_fileState = SUBMITTED, tf_sourceSurl = s @ ''/f'',
      tf_destSurl = d @ ''/f'', tf_sourceSe = s, tf_destSe = d, tf_voName = vo, tf_overwriteFlag = '''',
      tf_dstFileReport = '''', tf_archiveTimeout = -1, tf_userDn = ''/CN=user'', tf_credId = ''cred'',
      tf_sourceTokenId = '''', tf_destinationTokenId = '''', tf_checksum = '''', tf_checksumMode = '''',
      tf_sourceSpaceToken = '''', tf_destinationSpaceToken = '''', tf_bringOnline = 0, tf_pinLifetime = 0,
      tf_fileMetadata = '''', tf_transferMetadata = '''', tf_jobMetadata = ''null'', tf_activity = ''default'',
      tf_userFilesize = 0, tf_bringOnlineToken = '''', tf_selectionStrategy = '''', tf_internalFileParams = '''',
      tf_scitag = 0, tf_jobType = kTypeRegular, tf_lastReplica = False, tf_lastHop = False\<rparr>"

definition sample_db :: "file_row list \<Rightarrow> job_row list \<Rightarrow> db" where
  "sample_db files jobs =
     \<lparr>t_file = files, t_job = jobs, t_file_retry_errors = [], t_optimizer = [], t_hosts = [],
      t_server_config = [], t_se = [], t_link_config = [], t_optimizer_evolution = [], t_token = [],
      t_share_config = [], t_activity_share_config = [], t_dm = [], t_stage_req = []\<rparr>"

definition sample_env :: env where
  "sample_env = \<lparr>hostname = ''fts01'', now = 1000\<rparr>"

lemma sample_file_sel [simp]:
  "f_file_id (sample_file i jobId idx st) = i" "f_job_id (sample_file i jobId idx st) = jobId"
  "f_file_index (sample_file i jobId idx st) = Some idx" "f_file_state (sample_file i jobId idx st) = st"
  "f_dest_surl_uuid (sample_file i jobId idx st) = None" "f_finish_time (sample_file i jobId idx st) = None"
  by (simp_all add: sample_file_def)

lemma sample_job_sel [simp]:
  "j_job_id (sample_job jobId ty st) = jobId" "j_job_type (sample_job jobId ty st) = ty"
  "j_job_state (sample_job jobId ty st) = st" "j_archive_timeout (sample_job jobId ty st) = None"
  by (simp_all add: sample_job_def)

lemma sample_db_sel [simp]:
  "t_file (sample_db files jobs) = files" "t_job (sample_db files jobs) = jobs"
  "t_file_retry_errors (sample_db files jobs) = []"
  by (simp_all add: sample_db_def)

lemma keeps_keysI:
  assumes "\<And>r. f_file_id (f r) = f_file_id r" "\<And>r. f_job_id (f r) = f_job_id r"
    "\<And>r. f_file_index (f r) = f_file_index r"
  shows "keeps_keys f"
  unfolding keeps_keys_def by (intro allI conjI) (fact assms)+

lemma clears_uuidI:
  assumes "\<And>r. f_dest_surl_uuid (f r) = f_dest_surl_uuid r \<or> f_dest_surl_uuid (f r) = None"
  shows "clears_uuid f"
  unfolding clears_uuid_def by (intro allI) (fact assms)

lemma t_file_update_files [simp]: "t_file (update_files P f d) = update_where P f (t_file d)"
  by (simp add: update_files_def)

lemma t_job_update_files [simp]: "t_job (update_files P f d) = t_job d"
  by (simp add: update_files_def)

lemma t_file_update_jobs [simp]: "t_file (update_jobs P f d) = t_file d"
  by (simp add: update_jobs_def)

lemma t_job_update_jobs [simp]: "t_job (update_jobs P f d) = update_where P f (t_job d)"
  by (simp add: update_jobs_def)

lemma job_by_id_update_files [simp]: "job_by_id i (update_files P f d) = job_by_id i d"
  by (simp add: job_by_id_def)

lemma file_by_id_update_jobs [simp]: "file_by_id i (update_jobs P f d) = file_by_id i d"
  by (simp add: file_by_id_def)

lemma files_of_job_update_jobs [simp]: "files_of_job i (update_jobs P f d) = files_of_job i d"
  by (simp add: files_of_job_def)

lemma file_by_id_Some: "file_by_id i d = Some r \<Longrightarrow> r \<in> set (t_file d) \<and> f_file_id r = i"
  by (auto simp: file_by_id_def dest: select_first_Some)

lemma job_by_id_Some: "job_by_id i d = Some j \<Longrightarrow> j \<in> set (t_job d) \<and> j_job_id j = i"
  by (auto simp: job_by_id_def dest: select_first_Some)

lemma file_by_id_None: "file_by_id i d = None \<longleftrightarrow> i \<notin> f_file_id ` set (t_file d)"
  by (auto simp: file_by_id_def select_first_None)

lemma keeps_keysD [simp]:
  assumes "keeps_keys f"
  shows "f_file_id (f r) = f_file_id r" "f_job_id (f r) = f_job_id r" "f_file_index (f r) = f_file_index r"
  using assms by (auto simp: keeps_keys_def)

lemma file_by_id_update_files:
  "keeps_keys f \<Longrightarrow> file_by_id i (update_files P f d)
     = map_option (\<lambda>r. if P r then f r else r) (file_by_id i d)"
  by (simp add: file_by_id_def select_first_update_key)

lemma job_by_id_update_jobs:
  "(\<And>r. j_job_id (f r) = j_job_id r) \<Longrightarrow> job_by_id i (update_jobs P f d)
     = map_option (\<lambda>r. if P r then f r else r) (job_by_id i d)"
  by (simp add: job_by_id_def select_first_update_key)

lemma map_filter_update_clears:
  assumes "\<And>r. g (f r) = g r \<or> g (f r) = None" and "distinct (List.map_filter g rows)"
  shows "distinct (List.map_filter g (update_where P f rows))
    \<and> set (List.map_filter g (update_where P f rows)) \<subseteq> set (List.map_filter g rows)"
  using assms(2)
proof (induction rows)
  case Nil
  then show ?case by simp
next
  case (Cons r rows)
  then show ?case
    using assms(1) [of r]
    by (auto simp: List.map_filter_simps split: option.splits)
qed

lemma wf_db_update_files:
  assumes "wf_db d" "keeps_keys f" "clears_uuid f"
  shows "wf_db (update_files P f d)"
proof -
  have "map f_file_id (update_where P f (t_file d)) = map f_file_id (t_file d)"
    and "map f_job_id (update_where P f (t_file d)) = map f_job_id (t_file d)"
    using assms(2) by (auto intro: map_update_where)
  then have "f_file_id ` set (update_where P f (t_file d)) = f_file_id ` set (t_file d)"
    and "f_job_id ` set (update_where P f (t_file d)) = f_job_id ` set (t_file d)"
    by (metis list.set_map)+
  moreover have "distinct (List.map_filter f_dest_surl_uuid (update_where P f (t_file d)))"
    using assms map_filter_update_clears [of f_dest_surl_uuid f "t_file d" P]
    by (auto simp: clears_uuid_def wf_db_def)
  ultimately show ?thesis
    using assms \<open>map f_file_id _ = _\<close> by (simp add: wf_db_def)
qed

lemma wf_db_update_jobs:
  assumes "wf_db d" "\<And>r. j_job_id (f r) = j_job_id r"
  shows "wf_db (update_jobs P f d)"
proof -
  have "map j_job_id (update_where P f (t_job d)) = map j_job_id (t_job d)"
    using assms(2) by (auto intro: map_update_where)
  moreover from this have "j_job_id ` set (update_where P f (t_job d)) = j_job_id ` set (t_job d)"
    by (metis list.set_map)
  ultimately show ?thesis using assms(1) by (simp add: wf_db_def)
qed

lemma wf_db_file_ids: "wf_db d \<Longrightarrow> distinct (map f_file_id (t_file d))"
  by (simp add: wf_db_def)

lemma wf_db_job_ids: "wf_db d \<Longrightarrow> distinct (map j_job_id (t_job d))"
  by (simp add: wf_db_def)

lemma wf_db_file_by_id:
  "wf_db d \<Longrightarrow> r \<in> set (t_file d) \<Longrightarrow> file_by_id (f_file_id r) d = Some r"
  by (simp add: file_by_id_def select_first_key wf_db_def)

lemma wf_db_file_unique:
  "wf_db d \<Longrightarrow> r \<in> set (t_file d) \<Longrightarrow> r' \<in> set (t_file d) \<Longrightarrow> f_file_id r = f_file_id r' \<Longrightarrow> r = r'"
  by (meson distinct_key_unique wf_db_file_ids)

lemma wf_db_job_by_id: "wf_db d \<Longrightarrow> r \<in> set (t_job d) \<Longrightarrow> job_by_id (j_job_id r) d = Some r"
  by (simp add: job_by_id_def select_first_key wf_db_def)

lemma wf_db_job_exists:
  assumes "wf_db d" "r \<in> set (t_file d)"
  shows "\<exists>j. job_by_id (f_job_id r) d = Some j"
  unfolding job_by_id_def
proof (rule in_image_select_first)
  show "distinct (map j_job_id (t_job d))" using assms(1) by (rule wf_db_job_ids)
  show "f_job_id r \<in> j_job_id ` set (t_job d)" using assms by (auto simp: wf_db_def)
qed

subsection \<open>What an operation does to the rows, one by one\<close>

text \<open>
  No operation of the server inserts, removes or reorders files, so its effect is a relation
  between the rows at the same place. \<open>file_frozen\<close> is the safety half: the keys of a row
  never change and a row in a terminal state keeps its state.
\<close>

definition rows_rel :: "(file_row \<Rightarrow> file_row \<Rightarrow> bool) \<Rightarrow> db \<Rightarrow> db \<Rightarrow> bool" where
  "rows_rel R d d' \<longleftrightarrow> list_all2 R (t_file d) (t_file d')"

definition file_frozen :: "file_row \<Rightarrow> file_row \<Rightarrow> bool" where
  "file_frozen r r' \<longleftrightarrow> f_file_id r' = f_file_id r \<and> f_job_id r' = f_job_id r
     \<and> f_file_index r' = f_file_index r
     \<and> (terminal_file (f_file_state r) \<longrightarrow> f_file_state r' = f_file_state r)"

lemma rows_rel_refl [simp]: "(\<And>r. R r r) \<Longrightarrow> rows_rel R d d"
  by (simp add: rows_rel_def list.rel_refl)

lemma rows_rel_update_jobs [simp]: "rows_rel R d (update_jobs P f d') = rows_rel R d d'"
  by (simp add: rows_rel_def)

lemma rows_rel_update_files:
  assumes "\<And>r. r \<in> set (t_file d) \<Longrightarrow> P r \<Longrightarrow> R r (f r)"
    and "\<And>r. r \<in> set (t_file d) \<Longrightarrow> \<not> P r \<Longrightarrow> R r r"
  shows "rows_rel R d (update_files P f d)"
  unfolding rows_rel_def t_file_update_files by (rule list_all2_update_where) (fact assms)+

lemma rows_rel_trans:
  assumes "rows_rel Q d d1" "rows_rel R d1 d2" "\<And>a b c. Q a b \<Longrightarrow> R b c \<Longrightarrow> S a c"
  shows "rows_rel S d d2"
  using assms(1,2) unfolding rows_rel_def
  by (rule list_all2_trans [rotated]) (fact assms(3))

lemma rows_rel_row: "rows_rel R d d' \<Longrightarrow> r' \<in> set (t_file d') \<Longrightarrow> \<exists>r. r \<in> set (t_file d) \<and> R r r'"
  unfolding rows_rel_def by (rule list_all2_right_row)

lemma rows_rel_forward: "rows_rel R d d' \<Longrightarrow> r \<in> set (t_file d) \<Longrightarrow> \<exists>r'. r' \<in> set (t_file d') \<and> R r r'"
  unfolding rows_rel_def by (rule list_all2_left_row)

lemma file_frozen_refl [simp]: "file_frozen r r"
  by (simp add: file_frozen_def)

lemma file_frozen_trans: "file_frozen a b \<Longrightarrow> file_frozen b c \<Longrightarrow> file_frozen a c"
  by (simp add: file_frozen_def)

lemma rows_frozen_trans:
  "rows_rel file_frozen d d1 \<Longrightarrow> rows_rel file_frozen d1 d2 \<Longrightarrow> rows_rel file_frozen d d2"
  by (erule (1) rows_rel_trans) (rule file_frozen_trans)

lemma rows_frozen_update_files:
  assumes "keeps_keys f"
    and "\<And>r. r \<in> set (t_file d) \<Longrightarrow> P r \<Longrightarrow> terminal_file (f_file_state r)
           \<Longrightarrow> f_file_state (f r) = f_file_state r"
  shows "rows_rel file_frozen d (update_files P f d)"
proof (rule rows_rel_update_files)
  fix r assume "r \<in> set (t_file d)" "P r"
  then show "file_frozen r (f r)" using assms by (simp add: file_frozen_def)
qed simp

lemma rows_rel_file_by_id:
  assumes "rows_rel R d d'" "\<And>r r'. R r r' \<Longrightarrow> f_file_id r' = f_file_id r" "file_by_id i d = Some r"
  shows "\<exists>r'. file_by_id i d' = Some r' \<and> R r r'"
  unfolding file_by_id_def
proof (rule list_all2_select_first)
  show "list_all2 R (t_file d) (t_file d')" using assms(1) by (simp add: rows_rel_def)
  show "select_first (\<lambda>r. f_file_id r = i) (t_file d) = Some r"
    using assms(3) by (simp add: file_by_id_def)
qed (simp add: assms(2))

end
