(* ===== verification/TransferFileHandler.thy ===== *)
theory TransferFileHandler
  imports OrderedMap Schema "HOL-Library.Multiset"
begin

section \<open>Serving the scheduled files in turns\<close>

text \<open>
  \<^verbatim>\<open>src/server/services/transfers/TransferFileHandler.cpp\<close>: the files selected for scheduling, by
  VO and link. A VO is asked for its next file; its links take turns.

  \<^item> \<^verbatim>\<open>voToFileIndexes\<close> is an ordered map of ordered maps; \<^verbatim>\<open>nextPairForVo\<close> keeps for each VO an
    iterator into its map of links, a key or the end.
  \<^item> The maps that are only searched are functions to options; the set of VOs is the list of its
    elements in order.
\<close>

type_synonym FileIndex = "job_id \<times> int"
type_synonym link_queue = "(link, FileIndex list) omap"

record handler =
  fileIndexToFiles :: "FileIndex \<Rightarrow> TransferFile list option"
  voToFileIndexes :: "(string, link_queue) omap"
  vos :: "(string, unit) omap"
  nextPairForVo :: "string \<Rightarrow> link option option"
  sourceToDestinations :: "string \<Rightarrow> string set"
  sourceToVos :: "string \<Rightarrow> string set"
  destinationToSources :: "string \<Rightarrow> string set"
  destinationToVos :: "string \<Rightarrow> string set"

definition empty_handler :: handler where
  "empty_handler = \<lparr>fileIndexToFiles = (\<lambda>_. None), voToFileIndexes = [], vos = [], nextPairForVo = (\<lambda>_. None),
     sourceToDestinations = (\<lambda>_. {}), sourceToVos = (\<lambda>_. {}), destinationToSources = (\<lambda>_. {}),
     destinationToVos = (\<lambda>_. {})\<rparr>"

subsection \<open>Filling\<close>

definition index_of :: "TransferFile \<Rightarrow> FileIndex" where
  "index_of tf = (tf_jobId tf, tf_fileIndex tf)"

definition link_of :: "TransferFile \<Rightarrow> link" where
  "link_of tf = (tf_sourceSe tf, tf_destSe tf)"

definition insert_at :: "string \<Rightarrow> string \<Rightarrow> (string \<Rightarrow> string set) \<Rightarrow> (string \<Rightarrow> string set)" where
  "insert_at k v m = m(k := insert v (m k))"

text \<open>The body of the inner loop; \<open>seen\<close> is \<^verbatim>\<open>unique[vo]\<close>.\<close>

definition add_file :: "string \<Rightarrow> TransferFile \<Rightarrow> handler \<times> FileIndex set \<Rightarrow> handler \<times> FileIndex set" where
  "add_file vo tf hs =
     (case hs of (h, seen) \<Rightarrow>
      let index = index_of tf;
          h1 = h\<lparr>sourceToDestinations := insert_at (tf_sourceSe tf) (tf_destSe tf) (sourceToDestinations h),
                 sourceToVos := insert_at (tf_sourceSe tf) (tf_voName tf) (sourceToVos h),
                 destinationToSources := insert_at (tf_destSe tf) (tf_sourceSe tf) (destinationToSources h),
                 destinationToVos := insert_at (tf_destSe tf) (tf_voName tf) (destinationToVos h),
                 fileIndexToFiles := (fileIndexToFiles h)
                   (index \<mapsto> (case fileIndexToFiles h index of None \<Rightarrow> [] | Some l \<Rightarrow> l) @ [tf])\<rparr>
      in if index \<in> seen then (h1, seen)
         else
           let pairs = om_at [] (voToFileIndexes h1) vo;
               queue = om_at [] pairs (link_of tf)
           in (h1\<lparr>voToFileIndexes := om_put vo (om_put (link_of tf) (queue @ [index]) pairs) (voToFileIndexes h1)\<rparr>,
               insert index seen))"

definition add_vo :: "string \<times> TransferFile list \<Rightarrow> handler \<Rightarrow> handler" where
  "add_vo vf h =
     (case vf of (vo, tfs) \<Rightarrow>
      let h1 = fst (fold (add_file vo) tfs (h\<lparr>vos := om_put vo () (vos h)\<rparr>, {}));
          pairs = om_at [] (voToFileIndexes h1) vo
      in h1\<lparr>voToFileIndexes := om_put vo pairs (voToFileIndexes h1),
            nextPairForVo := (nextPairForVo h1)(vo \<mapsto> om_begin pairs)\<rparr>)"

definition new_TransferFileHandler :: "(string, TransferFile list) omap \<Rightarrow> handler" where
  "new_TransferFileHandler files = fold add_vo files empty_handler"

subsection \<open>Taking\<close>

text \<open>An iterator that does not exist yet is value-initialised; it is never read before it is set.\<close>

definition getNextPair :: "string \<Rightarrow> handler \<Rightarrow> handler \<times> link option" where
  "getNextPair vo h =
     (let pairs = om_at [] (voToFileIndexes h) vo in
      if pairs = [] then (h\<lparr>voToFileIndexes := om_put vo pairs (voToFileIndexes h)\<rparr>, None)
      else
        let it = (case nextPairForVo h vo of None \<Rightarrow> None | Some i \<Rightarrow> i);
            ret = (case it of None \<Rightarrow> hd (om_keys pairs) | Some p \<Rightarrow> p)
        in (h\<lparr>nextPairForVo := (nextPairForVo h)(vo \<mapsto> om_next ret pairs)\<rparr>, Some ret))"

text \<open>
  \<^verbatim>\<open>front()\<close> of an empty list is undefined; the last branch stands for it and the invariant
  below excludes it.
\<close>

definition getIndex :: "string \<Rightarrow> handler \<Rightarrow> handler \<times> FileIndex option" where
  "getIndex vo h =
     (case om_find (voToFileIndexes h) vo of
        None \<Rightarrow> (h, None)
      | Some pairs \<Rightarrow>
          if pairs = [] then (h, None)
          else
            (case getNextPair vo h of
               (h1, None) \<Rightarrow> (h1, None)
             | (h1, Some src_dst) \<Rightarrow>
                 (case om_at [] pairs src_dst of
                    index # queue \<Rightarrow>
                      let pairs1 = (if queue = [] then om_erase src_dst pairs else om_put src_dst queue pairs)
                      in (h1\<lparr>voToFileIndexes := (if pairs1 = [] then om_erase vo (voToFileIndexes h1)
                                                else om_put vo pairs1 (voToFileIndexes h1))\<rparr>, Some index)
                  | [] \<Rightarrow> (h1, None))))"

definition getFile :: "FileIndex \<Rightarrow> handler \<Rightarrow> handler \<times> TransferFile option" where
  "getFile index h =
     (case fileIndexToFiles h index of
        None \<Rightarrow> (h, None)
      | Some [] \<Rightarrow> (h, None)
      | Some (tf # l) \<Rightarrow> (h\<lparr>fileIndexToFiles := (fileIndexToFiles h)(index \<mapsto> l)\<rparr>, Some tf))"

definition get :: "string \<Rightarrow> handler \<Rightarrow> handler \<times> TransferFile option" where
  "get vo h =
     (case getIndex vo h of
        (h1, None) \<Rightarrow> (h1, None)
      | (h1, Some index) \<Rightarrow> getFile index h1)"

subsection \<open>Looking\<close>

definition handler_empty :: "handler \<Rightarrow> bool" where
  "handler_empty h \<longleftrightarrow> voToFileIndexes h = []"

definition queue_size :: "link_queue \<Rightarrow> nat" where
  "queue_size pairs = (\<Sum>p \<leftarrow> pairs. length (snd p))"

definition handler_size :: "handler \<Rightarrow> nat" where
  "handler_size h = (\<Sum>p \<leftarrow> voToFileIndexes h. queue_size (snd p))"

definition getSources :: "string \<Rightarrow> handler \<Rightarrow> string set" where
  "getSources se h = destinationToSources h se"

definition getDestinations :: "string \<Rightarrow> handler \<Rightarrow> string set" where
  "getDestinations se h = sourceToDestinations h se"

definition getSourcesVos :: "string \<Rightarrow> handler \<Rightarrow> string set" where
  "getSourcesVos se h = destinationToVos h se"

definition getDestinationsVos :: "string \<Rightarrow> handler \<Rightarrow> string set" where
  "getDestinationsVos se h = sourceToVos h se"

subsection \<open>Specification: a rotating queue\<close>

text \<open>
  What the links of one VO and the iterator stand for: the links in the order in which their turn
  comes. One turn takes the first index of the first link and moves the link to the end, or drops
  it when it has no more.
\<close>

definition rotation :: "link_queue \<Rightarrow> link option \<Rightarrow> link_queue" where
  "rotation pairs it =
     (case it of None \<Rightarrow> pairs
      | Some p \<Rightarrow> dropWhile (\<lambda>q. fst q < p) pairs @ takeWhile (\<lambda>q. fst q < p) pairs)"

fun serve :: "link_queue \<Rightarrow> (FileIndex \<times> link_queue) option" where
  "serve ((p, i # is) # rest) = Some (i, if is = [] then rest else rest @ [(p, is)])"
| "serve _ = None"

definition turn_of :: "string \<Rightarrow> handler \<Rightarrow> link_queue" where
  "turn_of vo h = rotation (om_at [] (voToFileIndexes h) vo) (case nextPairForVo h vo of None \<Rightarrow> None | Some i \<Rightarrow> i)"

text \<open>The invariant: maps in order, no empty queues, iterators that point to a key or the end.\<close>

definition pairs_ok :: "link_queue \<Rightarrow> link option option \<Rightarrow> bool" where
  "pairs_ok pairs it \<longleftrightarrow> om_ok pairs \<and> (\<forall>p \<in> set pairs. snd p \<noteq> []) \<and>
     (\<exists>i. it = Some i \<and> (case i of None \<Rightarrow> True | Some p \<Rightarrow> p \<in> fst ` set pairs))"

definition handler_ok :: "handler \<Rightarrow> bool" where
  "handler_ok h \<longleftrightarrow> om_ok (voToFileIndexes h) \<and> om_ok (vos h) \<and>
     (\<forall>vp \<in> set (voToFileIndexes h). snd vp \<noteq> [] \<and> pairs_ok (snd vp) (nextPairForVo h (fst vp)) \<and> fst vp \<in> fst ` set (vos h))"

subsection \<open>One turn\<close>

lemma takeWhile_dropWhile_cut:
  assumes "om_ok (a @ (k, v) # b)"
  shows "takeWhile (\<lambda>q. fst q < k) (a @ (k, v) # b) = a" "dropWhile (\<lambda>q. fst q < k) (a @ (k, v) # b) = (k, v) # b"
proof -
  have "\<forall>q \<in> set a. fst q < k" using assms by (auto simp: om_ok_append)
  then show "takeWhile (\<lambda>q. fst q < k) (a @ (k, v) # b) = a" "dropWhile (\<lambda>q. fst q < k) (a @ (k, v) # b) = (k, v) # b"
    by (simp_all add: takeWhile_append2 dropWhile_append2)
qed

lemma rotation_cut:
  assumes "om_ok (a @ (k, v) # b)"
  shows "rotation (a @ (k, v) # b) (Some k) = (k, v) # b @ a"
  using takeWhile_dropWhile_cut [OF assms] by (simp add: rotation_def)

lemma rotation_begin:
  assumes "om_ok (a @ b)"
  shows "rotation (a @ b) (om_begin b) = b @ a"
proof (cases b)
  case Nil
  then show ?thesis by (simp add: om_begin_def rotation_def)
next
  case (Cons p b')
  then show ?thesis using rotation_cut [of a "fst p" "snd p" b'] assms by (simp add: om_begin_def)
qed

text \<open>Where the turn is: the link the iterator points to, the first one at the end.\<close>

lemma turn_place:
  assumes "pairs_ok pairs (Some it)" "pairs \<noteq> []"
  obtains a i js b where "pairs = a @ ((case it of None \<Rightarrow> hd (om_keys pairs) | Some p \<Rightarrow> p), i # js) # b"
    "rotation pairs it = ((case it of None \<Rightarrow> hd (om_keys pairs) | Some p \<Rightarrow> p), i # js) # b @ a"
proof (cases it)
  case None
  obtain k v q where p: "pairs = (k, v) # q" using assms(2) by (cases pairs) auto
  have "v \<noteq> []" using assms(1) by (simp add: pairs_ok_def p)
  then obtain i js where i: "v = i # js" by (cases v) simp_all
  show ?thesis by (rule that [of "[]" i js q]) (simp_all add: p i None om_keys_def rotation_def)
next
  case (Some k)
  then have "k \<in> fst ` set pairs" using assms(1) by (simp add: pairs_ok_def)
  from om_split [OF this] obtain a v b where v: "pairs = a @ (k, v) # b" by (elim exE)
  have "v \<noteq> []" using assms(1) by (simp add: pairs_ok_def v)
  then obtain i js where i: "v = i # js" by (cases v) simp_all
  have "om_ok (a @ (k, i # js) # b)" using assms(1) v i by (simp add: pairs_ok_def)
  then show ?thesis by (intro that [of a i js b]) (simp_all add: Some v i rotation_cut)
qed

definition pop_pair :: "link \<Rightarrow> FileIndex list \<Rightarrow> link_queue \<Rightarrow> link_queue" where
  "pop_pair k js pairs = (if js = [] then om_erase k pairs else om_put k js pairs)"

lemma pop_pair_cut:
  assumes "om_ok (a @ (k, v) # b)"
  shows "pop_pair k js (a @ (k, v) # b) = a @ (if js = [] then [] else [(k, js)]) @ b"
  using assms by (simp add: pop_pair_def om_erase_middle om_put_middle)

lemma rotation_pop:
  assumes "om_ok (a @ (k, v) # b)"
  shows "rotation (pop_pair k js (a @ (k, v) # b)) (om_next k (a @ (k, v) # b)) = b @ a @ (if js = [] then [] else [(k, js)])"
proof -
  have "om_ok ((a @ (if js = [] then [] else [(k, js)])) @ b)"
    using assms by (auto simp: om_ok_append om_ok_Cons)
  then show ?thesis
    using rotation_begin [of "a @ (if js = [] then [] else [(k, js)])" b] assms
    by (simp add: pop_pair_cut om_next_middle)
qed

lemma pairs_ok_pop:
  assumes "pairs_ok (a @ (k, v) # b) it"
  shows "pairs_ok (pop_pair k js (a @ (k, v) # b)) (Some (om_next k (a @ (k, v) # b)))"
proof -
  have ok: "om_ok (a @ (k, v) # b)" "\<forall>p \<in> set (a @ (k, v) # b). snd p \<noteq> []" using assms by (auto simp: pairs_ok_def)
  have "case om_begin b of None \<Rightarrow> True | Some p \<Rightarrow> p \<in> fst ` set b" by (cases b) (auto simp: om_begin_def)
  then show ?thesis
    using ok by (auto simp: pairs_ok_def pop_pair_cut om_next_middle om_ok_append om_ok_Cons split: option.splits)
qed

definition set_pairs :: "string \<Rightarrow> link_queue \<Rightarrow> link option \<Rightarrow> handler \<Rightarrow> handler" where
  "set_pairs vo pairs it h =
     h\<lparr>nextPairForVo := (nextPairForVo h)(vo \<mapsto> it),
       voToFileIndexes := (if pairs = [] then om_erase vo (voToFileIndexes h) else om_put vo pairs (voToFileIndexes h))\<rparr>"

lemma getIndex_eq:
  assumes "om_find (voToFileIndexes h) vo = Some pairs" "nextPairForVo h vo = Some it" "om_ok pairs"
    "ret = (case it of None \<Rightarrow> hd (om_keys pairs) | Some p \<Rightarrow> p)" "pairs = a @ (ret, i # js) # b"
  shows "getIndex vo h = (set_pairs vo (pop_pair ret js pairs) (om_next ret pairs) h, Some i)"
proof -
  have "om_find pairs ret = Some (i # js)" using om_find_middle [of a ret "i # js" b] assms(3,5) by simp
  moreover have "pairs \<noteq> []" using assms(5) by simp
  ultimately show ?thesis
    using assms(1,2,4)
    by (simp add: getIndex_def getNextPair_def om_at_def Let_def set_pairs_def pop_pair_def)
qed

lemma handler_okD:
  assumes "handler_ok h" "om_find (voToFileIndexes h) vo = Some pairs"
  obtains it where "pairs \<noteq> []" "nextPairForVo h vo = Some it" "pairs_ok pairs (Some it)" "om_ok pairs"
proof -
  have "(vo, pairs) \<in> set (voToFileIndexes h)" using assms(2) by (rule om_find_in)
  then have a: "pairs \<noteq> []" "pairs_ok pairs (nextPairForVo h vo)" using assms(1) by (auto simp: handler_ok_def)
  then obtain it where "nextPairForVo h vo = Some it" by (auto simp: pairs_ok_def)
  then show ?thesis using a by (intro that [of it]) (simp_all add: pairs_ok_def)
qed

lemma turn_of_set_pairs:
  assumes "om_ok (voToFileIndexes h)" "pairs = [] \<longrightarrow> it = None"
  shows "turn_of vo (set_pairs vo pairs it h) = rotation pairs it"
    "vo' \<noteq> vo \<Longrightarrow> turn_of vo' (set_pairs vo pairs it h) = turn_of vo' h"
  using assms by (simp_all add: turn_of_def set_pairs_def om_at_def om_find_erase om_find_put)

lemma handler_ok_set_pairs:
  assumes "handler_ok h" "om_find (voToFileIndexes h) vo = Some old" "pairs_ok pairs (Some it)"
  shows "handler_ok (set_pairs vo pairs it h)"
proof -
  have ok: "om_ok (voToFileIndexes h)" using assms(1) by (simp add: handler_ok_def)
  have "fst (vo, old) \<in> fst ` set (vos h)"
    using assms(1) om_find_in [OF assms(2)] unfolding handler_ok_def by blast
  then have vo: "vo \<in> fst ` set (vos h)" by simp
  show ?thesis
  proof (cases "pairs = []")
    case True
    then show ?thesis using assms(1) ok
      by (auto simp: handler_ok_def set_pairs_def in_om_erase om_ok_erase)
  next
    case False
    then show ?thesis using assms(1,3) ok vo
      by (auto simp: handler_ok_def set_pairs_def in_om_put om_ok_put)
  qed
qed

lemma om_next_last: "om_ok (a @ (k, v) # b) \<Longrightarrow> pop_pair k js (a @ (k, v) # b) = [] \<Longrightarrow> om_next k (a @ (k, v) # b) = None"
  using om_next_middle [of a k v b] by (simp add: pop_pair_cut om_begin_def)

lemma getIndex_turn:
  assumes "handler_ok h" "om_find (voToFileIndexes h) vo = Some pairs"
  obtains h' i where "getIndex vo h = (h', Some i)" "handler_ok h'" "serve (turn_of vo h) = Some (i, turn_of vo h')"
    "\<And>vo'. vo' \<noteq> vo \<Longrightarrow> turn_of vo' h' = turn_of vo' h" "vos h' = vos h" "fileIndexToFiles h' = fileIndexToFiles h"
    "\<exists>ret js it. om_find pairs ret = Some (i # js) \<and> h' = set_pairs vo (pop_pair ret js pairs) it h"
proof -
  obtain it where it: "pairs \<noteq> []" "nextPairForVo h vo = Some it" "pairs_ok pairs (Some it)" "om_ok pairs"
    using assms by (rule handler_okD)
  define ret where "ret = (case it of None \<Rightarrow> hd (om_keys pairs) | Some p \<Rightarrow> p)"
  obtain a i js b where cut: "pairs = a @ (ret, i # js) # b" "rotation pairs it = (ret, i # js) # b @ a"
    unfolding ret_def using it(3,1) by (rule turn_place)
  define h' where "h' = set_pairs vo (pop_pair ret js pairs) (om_next ret pairs) h"
  have okp: "om_ok (a @ (ret, i # js) # b)" using it(4) cut(1) by simp
  have okh: "om_ok (voToFileIndexes h)" using assms(1) by (simp add: handler_ok_def)
  have g: "getIndex vo h = (h', Some i)"
    unfolding h'_def by (rule getIndex_eq [OF assms(2) it(2,4) ret_def cut(1)])
  have "pairs_ok (pop_pair ret js pairs) (Some (om_next ret pairs))"
    using it(3) unfolding cut(1) by (rule pairs_ok_pop)
  then have ok': "handler_ok h'" unfolding h'_def by (rule handler_ok_set_pairs [OF assms])
  have e: "pop_pair ret js pairs = [] \<longrightarrow> om_next ret pairs = None"
    using om_next_last [OF okp, of js] unfolding cut(1) by simp
  have "turn_of vo h = (ret, i # js) # b @ a" using assms(2) it(2) cut(2) by (simp add: turn_of_def om_at_def)
  moreover have "turn_of vo h' = b @ a @ (if js = [] then [] else [(ret, js)])"
    using turn_of_set_pairs(1) [OF okh e] rotation_pop [OF okp, of js] unfolding h'_def cut(1) by simp
  ultimately have t: "serve (turn_of vo h) = Some (i, turn_of vo h')" by simp
  have other: "turn_of vo' h' = turn_of vo' h" if "vo' \<noteq> vo" for vo'
    unfolding h'_def by (rule turn_of_set_pairs(2) [OF okh e that])
  have "om_find pairs ret = Some (i # js)" using om_find_middle [OF okp] cut(1) by simp
  then have "\<exists>ret js it. om_find pairs ret = Some (i # js) \<and> h' = set_pairs vo (pop_pair ret js pairs) it h"
    unfolding h'_def by blast
  moreover have "vos h' = vos h" "fileIndexToFiles h' = fileIndexToFiles h" by (simp_all add: h'_def set_pairs_def)
  ultimately show ?thesis using that [OF g ok' t other] by blast
qed

subsection \<open>What is left\<close>

definition queue_indexes :: "link_queue \<Rightarrow> FileIndex multiset" where
  "queue_indexes pairs = (\<Sum>p \<leftarrow> pairs. mset (snd p))"

definition indexes_left :: "handler \<Rightarrow> FileIndex multiset" where
  "indexes_left h = (\<Sum>p \<leftarrow> voToFileIndexes h. queue_indexes (snd p))"

lemma size_sum_list: "size (\<Sum>x \<leftarrow> xs. f x) = (\<Sum>x \<leftarrow> xs. size (f x))" for f :: "'a \<Rightarrow> 'b multiset"
  by (induction xs) simp_all

lemma queue_size_indexes: "queue_size pairs = size (queue_indexes pairs)"
  by (simp add: queue_size_def queue_indexes_def size_sum_list)

lemma handler_size_indexes: "handler_size h = size (indexes_left h)"
  by (simp add: handler_size_def indexes_left_def size_sum_list queue_size_indexes)

lemma queue_indexes_pop:
  assumes "om_ok pairs" "om_find pairs k = Some (i # js)"
  shows "queue_indexes (pop_pair k js pairs) + {#i#} = queue_indexes pairs"
  using om_sum_put [OF assms(1), of mset k js] om_sum_erase [OF assms(1), of mset k] assms(2)
  by (auto simp: queue_indexes_def pop_pair_def)

lemma indexes_left_set_pairs:
  assumes "om_ok (voToFileIndexes h)" "om_find (voToFileIndexes h) vo = Some old"
  shows "indexes_left (set_pairs vo pairs it h) + queue_indexes old = indexes_left h + queue_indexes pairs"
  using om_sum_put [OF assms(1), of queue_indexes vo pairs] om_sum_erase [OF assms(1), of queue_indexes vo] assms(2)
  by (auto simp: indexes_left_def set_pairs_def queue_indexes_def)

lemma getIndex_takes:
  assumes "handler_ok h" "om_find (voToFileIndexes h) vo = Some pairs" "getIndex vo h = (h', Some i)"
  shows "indexes_left h = indexes_left h' + {#i#}"
proof -
  obtain h2 i2 where g: "getIndex vo h = (h2, Some i2)"
    "\<exists>ret js it. om_find pairs ret = Some (i2 # js) \<and> h2 = set_pairs vo (pop_pair ret js pairs) it h"
    using assms(1,2) by (rule getIndex_turn)
  then obtain ret js it where r: "om_find pairs ret = Some (i # js)" "h' = set_pairs vo (pop_pair ret js pairs) it h"
    using assms(3) by auto
  have ok: "om_ok pairs" using handler_okD [OF assms(1,2)] by blast
  have "om_ok (voToFileIndexes h)" using assms(1) by (simp add: handler_ok_def)
  then have "indexes_left h' + queue_indexes pairs = indexes_left h + queue_indexes (pop_pair ret js pairs)"
    unfolding r(2) by (rule indexes_left_set_pairs [OF _ assms(2)])
  then have "indexes_left h' + {#i#} + queue_indexes (pop_pair ret js pairs) = indexes_left h + queue_indexes (pop_pair ret js pairs)"
    unfolding queue_indexes_pop [OF ok r(1), symmetric] by (simp add: ac_simps)
  then show ?thesis by simp
qed

text \<open>There is a file for every index that is left, and each file is kept under its index.\<close>

definition files_ok :: "handler \<Rightarrow> bool" where
  "files_ok h \<longleftrightarrow> (\<forall>i. count (indexes_left h) i \<le> (case fileIndexToFiles h i of None \<Rightarrow> 0 | Some l \<Rightarrow> length l)) \<and>
     (\<forall>i l. fileIndexToFiles h i = Some l \<longrightarrow> (\<forall>tf \<in> set l. index_of tf = i))"

lemma files_ok_count:
  "files_ok h \<Longrightarrow> count (indexes_left h) i \<le> (case fileIndexToFiles h i of None \<Rightarrow> 0 | Some l \<Rightarrow> length l)"
  unfolding files_ok_def by blast

lemma files_ok_index: "files_ok h \<Longrightarrow> fileIndexToFiles h i = Some l \<Longrightarrow> tf \<in> set l \<Longrightarrow> index_of tf = i"
  unfolding files_ok_def by blast

lemma files_okI:
  assumes "\<And>i. count (indexes_left h) i \<le> (case fileIndexToFiles h i of None \<Rightarrow> 0 | Some l \<Rightarrow> length l)"
    "\<And>i l tf. fileIndexToFiles h i = Some l \<Longrightarrow> tf \<in> set l \<Longrightarrow> index_of tf = i"
  shows "files_ok h"
  unfolding files_ok_def using assms by blast

lemma get_some:
  assumes "handler_ok h" "files_ok h" "om_find (voToFileIndexes h) vo = Some pairs"
  obtains h' tf where "get vo h = (h', Some tf)" "handler_ok h'" "files_ok h'" "indexes_left h = indexes_left h' + {#index_of tf#}"
    "serve (turn_of vo h) = Some (index_of tf, turn_of vo h')" "\<And>vo'. vo' \<noteq> vo \<Longrightarrow> turn_of vo' h' = turn_of vo' h" "vos h' = vos h"
proof -
  obtain h1 i where g: "getIndex vo h = (h1, Some i)" "handler_ok h1" "serve (turn_of vo h) = Some (i, turn_of vo h1)"
    "\<And>vo'. vo' \<noteq> vo \<Longrightarrow> turn_of vo' h1 = turn_of vo' h" "vos h1 = vos h" "fileIndexToFiles h1 = fileIndexToFiles h"
    using assms(1,3) by (rule getIndex_turn) blast
  have left: "indexes_left h = indexes_left h1 + {#i#}" using assms(1,3) g(1) by (rule getIndex_takes)
  then have "0 < count (indexes_left h) i" by simp
  moreover have "count (indexes_left h) i \<le> (case fileIndexToFiles h i of None \<Rightarrow> 0 | Some l \<Rightarrow> length l)"
    using assms(2) by (rule files_ok_count)
  ultimately obtain tf l where l: "fileIndexToFiles h i = Some (tf # l)"
    by (cases "fileIndexToFiles h i"; cases "the (fileIndexToFiles h i)") (auto simp del: count_greater_zero_iff)
  then have tf: "index_of tf = i" using files_ok_index [OF assms(2)] by simp
  define h' where "h' = h1\<lparr>fileIndexToFiles := (fileIndexToFiles h1)(i \<mapsto> l)\<rparr>"
  have same: "indexes_left h' = indexes_left h1" "turn_of v h' = turn_of v h1" "vos h' = vos h1" "handler_ok h' = handler_ok h1" for v
    by (simp_all add: h'_def indexes_left_def turn_of_def handler_ok_def)
  have "count (indexes_left h') k \<le> (case fileIndexToFiles h' k of None \<Rightarrow> 0 | Some l \<Rightarrow> length l)" for k
  proof -
    have "count (indexes_left h) k \<le> (case fileIndexToFiles h k of None \<Rightarrow> 0 | Some l \<Rightarrow> length l)"
      using assms(2) by (rule files_ok_count)
    then show ?thesis unfolding same(1) using left l g(6) by (auto simp: h'_def)
  qed
  moreover have "index_of x = k" if "fileIndexToFiles h' k = Some q" "x \<in> set q" for k q x
    using that files_ok_index [OF assms(2)] l g(6) by (auto simp: h'_def split: if_splits)
  ultimately have "files_ok h'" by (rule files_okI)
  moreover have "get vo h = (h', Some tf)" using g(1,6) l by (simp add: get_def getFile_def h'_def)
  ultimately show ?thesis
    using g(2-5) tf left by (intro that [of h' tf]) (simp_all add: same)
qed

lemma get_none: "om_find (voToFileIndexes h) vo = None \<Longrightarrow> get vo h = (h, None)"
  by (simp add: get_def getIndex_def)

subsection \<open>A new handler\<close>

definition links_ok :: "link_queue \<Rightarrow> bool" where
  "links_ok pairs \<longleftrightarrow> om_ok pairs \<and> (\<forall>p \<in> set pairs. snd p \<noteq> [])"

text \<open>While the files of \<open>vo\<close> are added, its iterator is not set yet.\<close>

definition filling :: "string \<Rightarrow> handler \<times> FileIndex set \<Rightarrow> bool" where
  "filling vo hs \<longleftrightarrow> (case hs of (h, seen) \<Rightarrow>
     om_ok (voToFileIndexes h) \<and> om_ok (vos h) \<and> vo \<in> fst ` set (vos h) \<and> files_ok h \<and>
     (seen \<noteq> {} \<longrightarrow> om_find (voToFileIndexes h) vo \<noteq> None) \<and>
     (\<forall>vp \<in> set (voToFileIndexes h). snd vp \<noteq> [] \<and> links_ok (snd vp) \<and> fst vp \<in> fst ` set (vos h) \<and>
        (fst vp \<noteq> vo \<longrightarrow> pairs_ok (snd vp) (nextPairForVo h (fst vp)))))"

lemma links_ok_at: "om_ok m \<Longrightarrow> (\<forall>vp \<in> set m. links_ok (snd vp)) \<Longrightarrow> links_ok (om_at [] m vo)"
proof (cases "om_find m vo")
  case (Some q)
  assume "\<forall>vp \<in> set m. links_ok (snd vp)"
  then have "links_ok (snd (vo, q))" using om_find_in [OF Some] by (rule bspec)
  then show ?thesis using Some by (simp add: om_at_def)
qed (simp add: om_at_def links_ok_def)

lemma links_ok_push:
  assumes "links_ok pairs"
  shows "links_ok (om_put k (l @ [i]) pairs)" "om_put k (l @ [i]) pairs \<noteq> []"
proof -
  have ok: "om_ok pairs" using assms by (simp add: links_ok_def)
  have "snd p \<noteq> []" if "p \<in> set (om_put k (l @ [i]) pairs)" for p
    using that assms in_om_put [OF ok] by (auto simp: links_ok_def)
  then show "links_ok (om_put k (l @ [i]) pairs)" using om_ok_put [OF ok] by (simp add: links_ok_def)
  have "k \<in> fst ` set (om_put k (l @ [i]) pairs)" by (simp add: fst_om_put)
  then show "om_put k (l @ [i]) pairs \<noteq> []" by auto
qed

lemma queue_indexes_push:
  assumes "om_ok pairs"
  shows "queue_indexes (om_put k (om_at [] pairs k @ [i]) pairs) = queue_indexes pairs + {#i#}"
proof -
  have "queue_indexes (om_put k (om_at [] pairs k @ [i]) pairs) + mset (om_at [] pairs k)
      = queue_indexes pairs + {#i#} + mset (om_at [] pairs k)"
    using om_sum_put [OF assms, of mset k "om_at [] pairs k @ [i]"]
    by (auto simp: queue_indexes_def om_at_def split: option.splits)
  then show ?thesis by simp
qed

lemma indexes_left_put:
  assumes "om_ok (voToFileIndexes h)"
  shows "indexes_left (h\<lparr>voToFileIndexes := om_put vo pairs (voToFileIndexes h)\<rparr>)
    + queue_indexes (om_at [] (voToFileIndexes h) vo) = indexes_left h + queue_indexes pairs"
  using om_sum_put [OF assms, of queue_indexes vo pairs]
  by (auto simp: indexes_left_def om_at_def queue_indexes_def split: option.splits)

definition store_file :: "TransferFile \<Rightarrow> handler \<Rightarrow> handler" where
  "store_file tf h = fst (add_file [] tf (h, {index_of tf}))"

lemma store_file_sel [simp]:
  "voToFileIndexes (store_file tf h) = voToFileIndexes h" "vos (store_file tf h) = vos h"
  "nextPairForVo (store_file tf h) = nextPairForVo h"
  "fileIndexToFiles (store_file tf h) = (fileIndexToFiles h)
     (index_of tf \<mapsto> (case fileIndexToFiles h (index_of tf) of None \<Rightarrow> [] | Some l \<Rightarrow> l) @ [tf])"
  by (simp_all add: store_file_def add_file_def Let_def)

lemma add_file_eq:
  "add_file vo tf (h, seen) =
     (if index_of tf \<in> seen then (store_file tf h, seen)
      else ((store_file tf h)\<lparr>voToFileIndexes := om_put vo (om_put (link_of tf)
              (om_at [] (om_at [] (voToFileIndexes h) vo) (link_of tf) @ [index_of tf]) (om_at [] (voToFileIndexes h) vo))
              (voToFileIndexes (store_file tf h))\<rparr>, insert (index_of tf) seen))"
  by (simp add: store_file_def add_file_def Let_def)

lemma files_ok_store:
  assumes "files_ok h" "fileIndexToFiles h' = fileIndexToFiles (store_file tf h)"
    "indexes_left h' \<subseteq># indexes_left h + {#index_of tf#}"
  shows "files_ok h'"
proof (rule files_okI)
  fix i
  have "count (indexes_left h') i \<le> count (indexes_left h + {#index_of tf#}) i"
    using assms(3) by (rule mset_subset_eq_count)
  then show "count (indexes_left h') i \<le> (case fileIndexToFiles h' i of None \<Rightarrow> 0 | Some l \<Rightarrow> length l)"
    using files_ok_count [OF assms(1), of i] unfolding assms(2)
    by (auto split: option.splits if_splits)
next
  fix i l x assume "fileIndexToFiles h' i = Some l" "x \<in> set l"
  then show "index_of x = i"
    using files_ok_index [OF assms(1), of i] unfolding assms(2) by (auto split: option.splits if_splits)
qed

lemma fillingD:
  assumes "filling vo (h, seen)"
  shows "om_ok (voToFileIndexes h)" "om_ok (vos h)" "vo \<in> fst ` set (vos h)" "files_ok h"
    "seen \<noteq> {} \<Longrightarrow> om_find (voToFileIndexes h) vo \<noteq> None"
    "vp \<in> set (voToFileIndexes h) \<Longrightarrow> snd vp \<noteq> []" "vp \<in> set (voToFileIndexes h) \<Longrightarrow> links_ok (snd vp)"
    "vp \<in> set (voToFileIndexes h) \<Longrightarrow> fst vp \<in> fst ` set (vos h)"
    "vp \<in> set (voToFileIndexes h) \<Longrightarrow> fst vp \<noteq> vo \<Longrightarrow> pairs_ok (snd vp) (nextPairForVo h (fst vp))"
  using assms unfolding filling_def prod.case by blast+

lemma fillingI:
  assumes "om_ok (voToFileIndexes h)" "om_ok (vos h)" "vo \<in> fst ` set (vos h)" "files_ok h"
    "seen \<noteq> {} \<Longrightarrow> om_find (voToFileIndexes h) vo \<noteq> None"
    "\<And>vp. vp \<in> set (voToFileIndexes h) \<Longrightarrow> snd vp \<noteq> []" "\<And>vp. vp \<in> set (voToFileIndexes h) \<Longrightarrow> links_ok (snd vp)"
    "\<And>vp. vp \<in> set (voToFileIndexes h) \<Longrightarrow> fst vp \<in> fst ` set (vos h)"
    "\<And>vp. vp \<in> set (voToFileIndexes h) \<Longrightarrow> fst vp \<noteq> vo \<Longrightarrow> pairs_ok (snd vp) (nextPairForVo h (fst vp))"
  shows "filling vo (h, seen)"
  using assms unfolding filling_def prod.case by blast

lemma add_file_left:
  assumes "filling vo (h, seen)"
  shows "indexes_left (fst (add_file vo tf (h, seen))) = indexes_left h + (if index_of tf \<in> seen then {#} else {#index_of tf#})"
proof (cases "index_of tf \<in> seen")
  case False
  define pairs where "pairs = om_at [] (voToFileIndexes h) vo"
  define pairs' where "pairs' = om_put (link_of tf) (om_at [] pairs (link_of tf) @ [index_of tf]) pairs"
  define h' where "h' = (store_file tf h)\<lparr>voToFileIndexes := om_put vo pairs' (voToFileIndexes (store_file tf h))\<rparr>"
  note ok = fillingD(1) [OF assms]
  have "links_ok pairs" unfolding pairs_def using ok fillingD(7) [OF assms] by (intro links_ok_at ballI)
  then have "queue_indexes pairs' = queue_indexes pairs + {#index_of tf#}"
    unfolding pairs'_def by (intro queue_indexes_push) (simp add: links_ok_def)
  moreover have "indexes_left h' + queue_indexes pairs = indexes_left h + queue_indexes pairs'"
    using indexes_left_put [of "store_file tf h" vo pairs'] ok by (simp add: h'_def pairs_def indexes_left_def)
  ultimately have "indexes_left h' + queue_indexes pairs = (indexes_left h + {#index_of tf#}) + queue_indexes pairs"
    by (simp only: ac_simps)
  then have "indexes_left h' = indexes_left h + {#index_of tf#}" by (simp only: add_right_cancel)
  then show ?thesis using False by (simp add: add_file_eq h'_def pairs'_def pairs_def)
qed (simp add: add_file_eq indexes_left_def)

lemma filling_add:
  assumes "filling vo (h, seen)"
  shows "filling vo (add_file vo tf (h, seen))"
proof (cases "index_of tf \<in> seen")
  case True
  have "indexes_left (store_file tf h) = indexes_left h" by (simp add: indexes_left_def)
  then have "files_ok (store_file tf h)" by (intro files_ok_store [OF fillingD(4) [OF assms]]) simp_all
  then have "filling vo (store_file tf h, seen)"
    using fillingD [OF assms] by (intro fillingI) simp_all
  then show ?thesis using True by (simp add: add_file_eq)
next
  case False
  define pairs where "pairs = om_at [] (voToFileIndexes h) vo"
  define pairs' where "pairs' = om_put (link_of tf) (om_at [] pairs (link_of tf) @ [index_of tf]) pairs"
  define h' where "h' = (store_file tf h)\<lparr>voToFileIndexes := om_put vo pairs' (voToFileIndexes (store_file tf h))\<rparr>"
  note ok = fillingD(1) [OF assms]
  have pairs: "links_ok pairs" unfolding pairs_def using ok fillingD(7) [OF assms] by (intro links_ok_at ballI)
  then have pairs': "links_ok pairs'" "pairs' \<noteq> []" unfolding pairs'_def by (simp_all only: links_ok_push not_False_eq_True)
  have h': "add_file vo tf (h, seen) = (h', insert (index_of tf) seen)"
    using False by (simp add: add_file_eq h'_def pairs'_def pairs_def)
  then have "indexes_left h' = indexes_left h + {#index_of tf#}" using add_file_left [OF assms, of tf] False by simp
  then have files: "files_ok h'"
    by (intro files_ok_store [OF fillingD(4) [OF assms], of h' tf]) (simp_all add: h'_def)
  have sel: "vos h' = vos h" "nextPairForVo h' = nextPairForVo h" "voToFileIndexes h' = om_put vo pairs' (voToFileIndexes h)"
    by (simp_all add: h'_def)
  have "filling vo (h', insert (index_of tf) seen)"
  proof (rule fillingI)
    fix vp assume "vp \<in> set (voToFileIndexes h')"
    then have "vp = (vo, pairs') \<or> vp \<in> set (voToFileIndexes h) \<and> fst vp \<noteq> vo"
      using in_om_put [OF ok] by (auto simp: sel)
    then show "snd vp \<noteq> []" "links_ok (snd vp)" "fst vp \<in> fst ` set (vos h')"
      "fst vp \<noteq> vo \<Longrightarrow> pairs_ok (snd vp) (nextPairForVo h' (fst vp))"
      using fillingD(3) [OF assms] fillingD(6-9) [OF assms, of vp] pairs' unfolding sel
      by (elim disjE conjE; simp only: fst_conv snd_conv not_False_eq_True simp_thms)+
  qed (use fillingD(2,3) [OF assms] files om_ok_put [OF ok] ok in \<open>simp_all add: sel om_find_put\<close>)
  then show ?thesis unfolding h' .
qed

lemma filling_fold: "filling vo hs \<Longrightarrow> filling vo (fold (add_file vo) tfs hs)"
proof (induction tfs arbitrary: hs)
  case (Cons tf tfs)
  then show ?case using filling_add [of vo "fst hs" "snd hs" tf] by simp
qed simp

lemma add_file_seen: "snd hs \<noteq> {} \<Longrightarrow> snd (fold (add_file vo) tfs hs) \<noteq> {}"
proof (induction tfs arbitrary: hs)
  case (Cons tf tfs)
  have "snd (add_file vo tf hs) \<noteq> {}" using Cons.prems by (cases hs) (auto simp: add_file_eq)
  then show ?case using Cons.IH by simp
qed simp

lemma files_ok_cong: "fileIndexToFiles h' = fileIndexToFiles h \<Longrightarrow> voToFileIndexes h' = voToFileIndexes h \<Longrightarrow> files_ok h' = files_ok h"
  unfolding files_ok_def indexes_left_def by (simp only:)

lemma handler_okI:
  assumes "om_ok (voToFileIndexes h)" "om_ok (vos h)"
    "\<And>vp. vp \<in> set (voToFileIndexes h) \<Longrightarrow> snd vp \<noteq> []" "\<And>vp. vp \<in> set (voToFileIndexes h) \<Longrightarrow> fst vp \<in> fst ` set (vos h)"
    "\<And>vp. vp \<in> set (voToFileIndexes h) \<Longrightarrow> pairs_ok (snd vp) (nextPairForVo h (fst vp))"
  shows "handler_ok h"
  using assms unfolding handler_ok_def by blast

lemma filling_start:
  assumes "handler_ok h" "files_ok h"
  shows "filling vo (h\<lparr>vos := om_put vo () (vos h)\<rparr>, {})"
proof (rule fillingI)
  show "files_ok (h\<lparr>vos := om_put vo () (vos h)\<rparr>)" using files_ok_cong [of "h\<lparr>vos := om_put vo () (vos h)\<rparr>" h] assms(2) by simp
  have "om_ok (vos h)" using assms(1) by (simp add: handler_ok_def)
  then show "om_ok (vos (h\<lparr>vos := om_put vo () (vos h)\<rparr>))" by (simp add: om_ok_put)
  fix vp assume "vp \<in> set (voToFileIndexes (h\<lparr>vos := om_put vo () (vos h)\<rparr>))"
  then have "vp \<in> set (voToFileIndexes h)" by simp
  then have "snd vp \<noteq> []" "pairs_ok (snd vp) (nextPairForVo h (fst vp))" "fst vp \<in> fst ` set (vos h)"
    using assms(1) unfolding handler_ok_def by blast+
  then show "snd vp \<noteq> []" "pairs_ok (snd vp) (nextPairForVo (h\<lparr>vos := om_put vo () (vos h)\<rparr>) (fst vp))" "links_ok (snd vp)"
    "fst vp \<in> fst ` set (vos (h\<lparr>vos := om_put vo () (vos h)\<rparr>))"
    by (simp_all add: pairs_ok_def links_ok_def fst_om_put)
qed (use assms(1) in \<open>simp_all add: handler_ok_def fst_om_put\<close>)

lemma add_vo_ok:
  assumes "handler_ok h" "files_ok h" "tfs \<noteq> []"
  shows "handler_ok (add_vo (vo, tfs) h) \<and> files_ok (add_vo (vo, tfs) h)"
proof -
  obtain h1 seen where hs: "fold (add_file vo) tfs (h\<lparr>vos := om_put vo () (vos h)\<rparr>, {}) = (h1, seen)" by fastforce
  have f: "filling vo (h1, seen)" unfolding hs [symmetric] by (intro filling_fold filling_start assms)
  have "snd (fold (add_file vo) tfs (h\<lparr>vos := om_put vo () (vos h)\<rparr>, {})) \<noteq> {}"
    using assms(3) by (cases tfs) (simp_all add: add_file_seen add_file_eq)
  then obtain pairs where find: "om_find (voToFileIndexes h1) vo = Some pairs" using fillingD(5) [OF f] hs by auto
  note ok = fillingD(1) [OF f]
  have at: "om_at [] (voToFileIndexes h1) vo = pairs" using find by (simp add: om_at_def)
  have "pairs \<noteq> []" "links_ok pairs" using fillingD(6,7) [OF f om_find_in [OF find]] by simp_all
  then have pairs: "pairs_ok pairs (Some (om_begin pairs))"
    by (cases pairs) (auto simp: pairs_ok_def links_ok_def om_begin_def)
  obtain a b where "voToFileIndexes h1 = a @ (vo, pairs) # b" using om_find_in [OF find] by (auto simp: in_set_conv_decomp)
  then have put: "om_put vo pairs (voToFileIndexes h1) = voToFileIndexes h1" using om_put_middle [of a vo pairs b] ok by simp
  define h2 where "h2 = h1\<lparr>nextPairForVo := (nextPairForVo h1)(vo \<mapsto> om_begin pairs)\<rparr>"
  have "add_vo (vo, tfs) h = h2" by (simp add: add_vo_def Let_def hs at put h2_def)
  moreover have "pairs_ok (snd vp) (nextPairForVo h2 (fst vp))" if "vp \<in> set (voToFileIndexes h1)" for vp
  proof (cases "fst vp = vo")
    case True
    then have "om_find (voToFileIndexes h1) vo = Some (snd vp)" using that by (intro om_in_find [OF ok]) auto
    then show ?thesis using find pairs True by (simp add: h2_def)
  qed (use fillingD(9) [OF f that] in \<open>simp add: h2_def\<close>)
  then have "handler_ok h2" using fillingD(1,2,6,8) [OF f] by (intro handler_okI) (simp_all add: h2_def)
  moreover have "files_ok h2" using fillingD(4) [OF f] files_ok_cong [of h2 h1] by (simp add: h2_def)
  ultimately show ?thesis by simp
qed

text \<open>Every file index of a VO is queued for it once, however many replicas it has.\<close>

lemma fold_add_file_left:
  assumes "filling vo (h, seen)" "finite seen"
  shows "indexes_left (fst (fold (add_file vo) tfs (h, seen))) = indexes_left h + mset_set (index_of ` set tfs - seen)"
  using assms
proof (induction tfs arbitrary: h seen)
  case (Cons tf tfs)
  obtain h' where h': "add_file vo tf (h, seen) = (h', insert (index_of tf) seen)"
    by (cases "index_of tf \<in> seen") (simp_all add: add_file_eq insert_absorb)
  have "filling vo (h', insert (index_of tf) seen)" unfolding h' [symmetric] using Cons.prems(1) by (rule filling_add)
  then have "indexes_left (fst (fold (add_file vo) (tf # tfs) (h, seen)))
      = indexes_left h' + mset_set (index_of ` set tfs - insert (index_of tf) seen)"
    using Cons.IH Cons.prems(2) h' by simp
  also have "indexes_left h' = indexes_left h + (if index_of tf \<in> seen then {#} else {#index_of tf#})"
    using add_file_left [OF Cons.prems(1), of tf] h' by simp
  also have "\<dots> + mset_set (index_of ` set tfs - insert (index_of tf) seen) = indexes_left h + mset_set (index_of ` set (tf # tfs) - seen)"
  proof (cases "index_of tf \<in> seen")
    case True
    then have "index_of ` set (tf # tfs) - seen = index_of ` set tfs - insert (index_of tf) seen" by auto
    then show ?thesis using True by (simp only: if_True add_0_right)
  next
    case False
    then have "index_of ` set (tf # tfs) - seen = insert (index_of tf) (index_of ` set tfs - insert (index_of tf) seen)" by auto
    moreover have "mset_set (insert (index_of tf) (index_of ` set tfs - insert (index_of tf) seen))
        = add_mset (index_of tf) (mset_set (index_of ` set tfs - insert (index_of tf) seen))" by (rule mset_set.insert) simp_all
    ultimately show ?thesis using False by (simp only: if_False union_mset_add_mset_left union_mset_add_mset_right add_0_right)
  qed
  finally show ?case .
qed simp

lemma add_vo_left:
  assumes "handler_ok h" "files_ok h" "tfs \<noteq> []"
  shows "indexes_left (add_vo (vo, tfs) h) = indexes_left h + mset_set (index_of ` set tfs)"
proof -
  define h0 where "h0 = h\<lparr>vos := om_put vo () (vos h)\<rparr>"
  obtain h1 seen where hs: "fold (add_file vo) tfs (h0, {}) = (h1, seen)" by fastforce
  have f0: "filling vo (h0, {})" unfolding h0_def using assms(1,2) by (rule filling_start)
  have f: "filling vo (h1, seen)" unfolding hs [symmetric] by (rule filling_fold [OF f0])
  define pairs where "pairs = om_at [] (voToFileIndexes h1) vo"
  have "indexes_left (add_vo (vo, tfs) h) = indexes_left (h1\<lparr>voToFileIndexes := om_put vo pairs (voToFileIndexes h1)\<rparr>)"
    using hs by (simp add: add_vo_def Let_def h0_def pairs_def indexes_left_def)
  then have "indexes_left (add_vo (vo, tfs) h) + queue_indexes pairs = indexes_left h1 + queue_indexes pairs"
    using indexes_left_put [OF fillingD(1) [OF f], of vo pairs] by (simp only: pairs_def)
  then have "indexes_left (add_vo (vo, tfs) h) = indexes_left h1" by (simp only: add_right_cancel)
  also have "\<dots> = indexes_left h + mset_set (index_of ` set tfs)"
    using fold_add_file_left [OF f0, of tfs] hs by (simp add: h0_def indexes_left_def)
  finally show ?thesis .
qed

lemma fold_add_vo:
  assumes "\<forall>vf \<in> set files. snd vf \<noteq> []" "handler_ok h" "files_ok h"
  shows "handler_ok (fold add_vo files h) \<and> files_ok (fold add_vo files h) \<and>
    indexes_left (fold add_vo files h) = indexes_left h + (\<Sum>vf \<leftarrow> files. mset_set (index_of ` set (snd vf)))"
  using assms
proof (induction files arbitrary: h)
  case (Cons vf files)
  have "snd vf \<noteq> []" using Cons.prems(1) by simp
  then have "handler_ok (add_vo vf h)" "files_ok (add_vo vf h)"
    "indexes_left (add_vo vf h) = indexes_left h + mset_set (index_of ` set (snd vf))"
    using add_vo_ok [OF Cons.prems(2,3), of "snd vf" "fst vf"] add_vo_left [OF Cons.prems(2,3), of "snd vf" "fst vf"]
    by simp_all
  then show ?case using Cons.IH [of "add_vo vf h"] Cons.prems(1) by (simp add: ac_simps)
qed simp

lemma empty_handler_ok: "handler_ok empty_handler" "files_ok empty_handler" "indexes_left empty_handler = {#}"
  by (simp_all add: handler_ok_def empty_handler_def files_ok_def indexes_left_def)

lemma new_handler:
  assumes "\<forall>vf \<in> set files. snd vf \<noteq> []"
  shows "handler_ok (new_TransferFileHandler files)" "files_ok (new_TransferFileHandler files)"
    "indexes_left (new_TransferFileHandler files) = (\<Sum>vf \<leftarrow> files. mset_set (index_of ` set (snd vf)))"
  using fold_add_vo [OF assms empty_handler_ok(1,2)] empty_handler_ok(3) by (simp_all add: new_TransferFileHandler_def)

subsection \<open>Which files are stored\<close>

text \<open>How often a file is stored, under its index.\<close>

definition stored_count :: "handler \<Rightarrow> TransferFile \<Rightarrow> nat" where
  "stored_count h tf = count (mset (or_default [] (fileIndexToFiles h (index_of tf)))) tf"

lemma stored_count_add: "stored_count (fst (add_file vo tf hs)) x = stored_count (fst hs) x + (if x = tf then 1 else 0)"
  by (cases hs) (auto simp: add_file_def Let_def stored_count_def or_default_def split: option.splits)

lemma stored_count_fold_add: "stored_count (fst (fold (add_file vo) tfs hs)) x = stored_count (fst hs) x + count (mset tfs) x"
  by (induction tfs arbitrary: hs) (simp_all add: stored_count_add)

lemma stored_count_add_vo: "stored_count (add_vo vf h) x = stored_count h x + count (mset (snd vf)) x"
proof -
  have "stored_count (add_vo vf h) x = stored_count (fst (fold (add_file (fst vf)) (snd vf) (h\<lparr>vos := om_put (fst vf) () (vos h)\<rparr>, {}))) x"
    by (simp add: add_vo_def Let_def stored_count_def split: prod.splits)
  then show ?thesis unfolding stored_count_fold_add by (simp add: stored_count_def)
qed

lemma stored_count_new: "stored_count (new_TransferFileHandler files) x = count (\<Sum>vf \<leftarrow> files. mset (snd vf)) x"
proof -
  have "stored_count (fold add_vo files h) x = stored_count h x + count (\<Sum>vf \<leftarrow> files. mset (snd vf)) x" for h
    by (induction files arbitrary: h) (simp_all add: stored_count_add_vo)
  then show ?thesis by (simp add: new_TransferFileHandler_def empty_handler_def stored_count_def or_default_def)
qed

lemma files_getIndex: "fileIndexToFiles (fst (getIndex vo h)) = fileIndexToFiles h"
  by (auto simp: getIndex_def getNextPair_def Let_def split: option.splits list.splits)

lemma stored_count_get:
  assumes "files_ok h" "get vo h = (h', r)"
  shows "stored_count h x = stored_count h' x + (if r = Some x then 1 else 0)"
proof -
  obtain h1 i where g: "getIndex vo h = (h1, i)" by fastforce
  then have f: "fileIndexToFiles h1 = fileIndexToFiles h" using files_getIndex [of vo h] by simp
  show ?thesis
  proof (cases "i = None \<or> fileIndexToFiles h (the i) \<in> {None, Some []}")
    case True
    then have "r = None" "fileIndexToFiles h' = fileIndexToFiles h"
      using assms(2) g f by (auto simp: get_def getFile_def split: option.splits list.splits)
    then show ?thesis by (simp add: stored_count_def)
  next
    case False
    then obtain k tf l where l: "i = Some k" "fileIndexToFiles h k = Some (tf # l)"
      by (cases i; cases "fileIndexToFiles h (the i)"; cases "the (fileIndexToFiles h (the i))") auto
    then have "index_of tf = k" using files_ok_index [OF assms(1)] by simp
    moreover have "r = Some tf" "h' = h1\<lparr>fileIndexToFiles := (fileIndexToFiles h1)(k \<mapsto> l)\<rparr>"
      using assms(2) g f l by (simp_all add: get_def getFile_def)
    ultimately show ?thesis using l(2) f by (auto simp: stored_count_def or_default_def)
  qed
qed

subsection \<open>Rounds\<close>

lemma mset_rotation: "mset (rotation pairs it) = mset pairs"
proof (cases it)
  case (Some p)
  have "mset (rotation pairs it) = mset (takeWhile (\<lambda>q. fst q < p) pairs @ dropWhile (\<lambda>q. fst q < p) pairs)"
    unfolding rotation_def Some option.case mset_append by (rule add.commute)
  also have "\<dots> = mset pairs" by (simp only: takeWhile_dropWhile_id)
  finally show ?thesis .
qed (simp add: rotation_def)

lemma length_turn_of: "turn_of vo h \<noteq> [] \<Longrightarrow> \<exists>pairs. om_find (voToFileIndexes h) vo = Some pairs"
  using mset_rotation [of "om_at [] (voToFileIndexes h) vo" "case nextPairForVo h vo of None \<Rightarrow> None | Some i \<Rightarrow> i"]
  by (cases "om_find (voToFileIndexes h) vo") (simp_all add: turn_of_def om_at_def)

primrec gets :: "nat \<Rightarrow> string \<Rightarrow> handler \<Rightarrow> TransferFile option list" where
  "gets 0 vo h = []"
| "gets (Suc n) vo h = snd (get vo h) # gets n vo (fst (get vo h))"

lemma turn_next:
  assumes "serve q = Some (i, q')"
  shows "\<exists>p js r. q = (p, i # js) # r \<and> q' = r @ (if js = [] then [] else [(p, js)])"
  using assms by (cases q rule: serve.cases) (auto split: if_splits)

lemma gets_firsts:
  assumes "handler_ok h" "files_ok h" "turn_of vo h = q @ r"
  shows "map (map_option index_of) (gets (length q) vo h) = map (\<lambda>p. Some (hd (snd p))) q"
  using assms
proof (induction q arbitrary: h r)
  case (Cons p q)
  obtain pairs where "om_find (voToFileIndexes h) vo = Some pairs" using length_turn_of [of vo h] Cons.prems(3) by auto
  with Cons.prems(1,2) obtain h' tf where g: "get vo h = (h', Some tf)" "handler_ok h'" "files_ok h'"
    "serve (turn_of vo h) = Some (index_of tf, turn_of vo h')" by (rule get_some)
  obtain l js rest where t: "turn_of vo h = (l, index_of tf # js) # rest" "turn_of vo h' = rest @ (if js = [] then [] else [(l, js)])"
    using turn_next [OF g(4)] by blast
  then have "p = (l, index_of tf # js)" "turn_of vo h' = q @ (r @ (if js = [] then [] else [(l, js)]))"
    using Cons.prems(3) by simp_all
  then show ?case using Cons.IH [OF g(2,3)] g(1) by simp
qed simp

lemma distinct_turn_of:
  assumes "handler_ok h"
  shows "distinct (map fst (turn_of vo h))"
proof (cases "om_find (voToFileIndexes h) vo")
  case None
  then show ?thesis by (auto simp: turn_of_def om_at_def rotation_def split: option.splits)
next
  case (Some pairs)
  with assms obtain it where "om_ok pairs" by (rule handler_okD)
  then have "distinct (map fst pairs)" by (simp add: om_ok_def strict_sorted_iff)
  moreover have "mset (map fst (turn_of vo h)) = mset (map fst pairs)"
    using Some by (simp only: turn_of_def mset_rotation om_at_def option.case mset_map)
  ultimately show ?thesis using mset_eq_imp_distinct_iff by blast
qed

text \<open>
  C19: a call of \<^verbatim>\<open>get\<close> for a VO with queued files implements one step of a rotating queue: it
  returns the file of the first index of the link whose turn it is, moves the link to the end or
  drops it, leaves the other VOs alone, and one index less is left.
\<close>

theorem get_refines_rotating_queue:
  assumes "handler_ok h" "files_ok h" "om_find (voToFileIndexes h) vo = Some pairs"
  shows "\<exists>h' tf. get vo h = (h', Some tf) \<and> serve (turn_of vo h) = Some (index_of tf, turn_of vo h') \<and>
    (\<forall>vo'. vo' = vo \<or> turn_of vo' h' = turn_of vo' h) \<and> handler_size h = Suc (handler_size h') \<and>
    handler_ok h' \<and> files_ok h'"
proof -
  obtain h' tf where g: "get vo h = (h', Some tf)" "handler_ok h'" "files_ok h'"
    "indexes_left h = indexes_left h' + {#index_of tf#}" "serve (turn_of vo h) = Some (index_of tf, turn_of vo h')"
    "\<And>vo'. vo' \<noteq> vo \<Longrightarrow> turn_of vo' h' = turn_of vo' h"
    using assms by (rule get_some) blast
  then have "handler_size h = Suc (handler_size h')" by (simp add: handler_size_indexes)
  then show ?thesis using g by blast
qed

definition sample_files :: "(string \<times> TransferFile list) list" where
  "sample_files = [(''atlas'', [sample_transfer 1 ''j1'' ''a'' ''b'' ''atlas'', sample_transfer 2 ''j1'' ''a'' ''b'' ''atlas'',
                                sample_transfer 3 ''j2'' ''a'' ''c'' ''atlas'', sample_transfer 3 ''j2'' ''d'' ''c'' ''atlas'']),
                   (''cms'', [sample_transfer 7 ''j3'' ''a'' ''b'' ''cms''])]"

lemma sample_nonempty: "\<forall>vf \<in> set sample_files. snd vf \<noteq> []"
  by (simp add: sample_files_def)

theorem get_refines_rotating_queue_witness:
  "\<exists>h' tf. get ''atlas'' (new_TransferFileHandler sample_files) = (h', Some tf) \<and>
     serve (turn_of ''atlas'' (new_TransferFileHandler sample_files)) = Some (index_of tf, turn_of ''atlas'' h')"
proof -
  have "om_find (voToFileIndexes (new_TransferFileHandler sample_files)) ''atlas'' \<noteq> None" by code_simp
  then obtain pairs where "om_find (voToFileIndexes (new_TransferFileHandler sample_files)) ''atlas'' = Some pairs" by auto
  then show ?thesis
    using get_refines_rotating_queue [OF new_handler(1,2) [OF sample_nonempty]] by blast
qed

text \<open>
  Links of a VO take turns. Of the links queued for a VO, no two are the same, and as many
  calls of \<^verbatim>\<open>get\<close> as there are links serve the first file of each of them, in the order of the
  turns; no link is served twice before every other one was.
\<close>

lemma links_take_turns:
  assumes "handler_ok h" "files_ok h" "n \<le> length (turn_of vo h)"
  shows "map (map_option index_of) (gets n vo h) = map (\<lambda>p. Some (hd (snd p))) (take n (turn_of vo h)) \<and>
    distinct (map fst (turn_of vo h)) \<and> mset (turn_of vo h) = mset (om_at [] (voToFileIndexes h) vo)"
proof -
  have "turn_of vo h = take n (turn_of vo h) @ drop n (turn_of vo h)" by simp
  from gets_firsts [OF assms(1,2) this] have
    "map (map_option index_of) (gets n vo h) = map (\<lambda>p. Some (hd (snd p))) (take n (turn_of vo h))"
    using assms(3) by simp
  then show ?thesis using distinct_turn_of [OF assms(1)] by (simp add: turn_of_def mset_rotation)
qed

end
