(* ===== verification/VoShares.thy ===== *)
theory VoShares
  imports OrderedMap Schema
begin

section \<open>Shares between VOs\<close>

text \<open>
  \<^verbatim>\<open>src/server/services/transfers/VoShares.cpp\<close> and \<^verbatim>\<open>getShareConfig\<close>: when several VOs wait
  for the same link, one of them is drawn with the configured weights; a VO without a positive
  weight cannot be scheduled.

  The draw is \<^verbatim>\<open>boost::random::discrete_distribution\<close>, a parameter: given the weights for a link
  it yields a position. What is relied on is that for non-negative weights that are not all zero
  it is a position with a positive weight.
\<close>

definition getShareConfig :: "link \<Rightarrow> db \<Rightarrow> share_row list" where
  "getShareConfig p d = filter (\<lambda>c. sc_source c = fst p \<and> sc_destination c = snd p) (t_share_config d)"

definition share_weights :: "share_row list \<Rightarrow> (string, real) omap" where
  "share_weights shares = fold (\<lambda>k. om_put (sc_vo k) (real_of_int (sc_active k))) shares []"

definition public_weight :: "(string, real) omap \<Rightarrow> (string \<times> nat) list \<Rightarrow> real" where
  "public_weight weights vos =
     (let publicWeight = (if weights = [] then 1 else om_at 0 weights ''public'');
          publicCount = length (filter (\<lambda>v. om_find weights (fst v) = None) vos)
      in if 0 < publicCount then publicWeight / real publicCount else publicWeight)"

definition final_weight :: "(string, real) omap \<Rightarrow> (string \<times> nat) list \<Rightarrow> string \<Rightarrow> real" where
  "final_weight weights vos vo =
     (case om_find weights vo of None \<Rightarrow> public_weight weights vos | Some w \<Rightarrow> w)"

definition queue_of :: "link \<Rightarrow> string \<times> nat \<Rightarrow> QueueId" where
  "queue_of p v = \<lparr>q_sourceSe = fst p, q_destSe = snd p, q_voName = fst v, q_activeCount = snd v\<rparr>"

definition selectQueueForPair ::
  "(real list \<Rightarrow> nat) \<Rightarrow> link \<Rightarrow> (string \<times> nat) list \<Rightarrow> (string, real) omap \<Rightarrow> QueueId option \<times> QueueId list" where
  "selectQueueForPair draw p vos weights =
     (let finalWeights = map (\<lambda>v. final_weight weights vos (fst v)) vos;
          unschedulable = map (queue_of p) (filter (\<lambda>v. final_weight weights vos (fst v) \<le> 0) vos)
      in if length unschedulable = length vos then (None, unschedulable)
         else (Some (queue_of p (vos ! draw finalWeights)), unschedulable))"

definition vosPerPair :: "QueueId list \<Rightarrow> (link, (string \<times> nat) list) omap" where
  "vosPerPair queues =
     fold (\<lambda>q m. om_put (queue_link q) (om_at [] m (queue_link q) @ [(q_voName q, q_activeCount q)]) m) queues []"

definition applyVoShares ::
  "(link \<Rightarrow> real list \<Rightarrow> nat) \<Rightarrow> db \<Rightarrow> QueueId list \<Rightarrow> QueueId list \<times> QueueId list" where
  "applyVoShares draw d queues =
     fold (\<lambda>pv ru.
             case selectQueueForPair (draw (fst pv)) (fst pv) (snd pv) (share_weights (getShareConfig (fst pv) d)) of
               (chosen, u) \<Rightarrow> (fst ru @ (case chosen of None \<Rightarrow> [] | Some q \<Rightarrow> [q]), snd ru @ u))
          (vosPerPair queues) ([], [])"

text \<open>What is relied on of the draw.\<close>

definition draws_positive :: "(link \<Rightarrow> real list \<Rightarrow> nat) \<Rightarrow> bool" where
  "draws_positive draw \<longleftrightarrow> (\<forall>p ws. (\<forall>w \<in> set ws. 0 \<le> w) \<longrightarrow> (\<exists>w \<in> set ws. 0 < w) \<longrightarrow>
     draw p ws < length ws \<and> 0 < ws ! draw p ws)"

text \<open>The weight of a queue among all that wait.\<close>

definition vos_on :: "link \<Rightarrow> QueueId list \<Rightarrow> (string \<times> nat) list" where
  "vos_on p queues = map (\<lambda>q. (q_voName q, q_activeCount q)) (filter (\<lambda>q. queue_link q = p) queues)"

definition queue_weight :: "db \<Rightarrow> QueueId list \<Rightarrow> QueueId \<Rightarrow> real" where
  "queue_weight d queues q =
     final_weight (share_weights (getShareConfig (queue_link q) d)) (vos_on (queue_link q) queues) (q_voName q)"

subsection \<open>The queues of a link\<close>

lemma fold_vosPerPair:
  assumes "om_ok m"
  defines "step \<equiv> \<lambda>q m. om_put (queue_link q) (om_at [] m (queue_link q) @ [(q_voName q, q_activeCount q)]) m"
  shows "om_ok (fold step qs m) \<and> om_at [] (fold step qs m) p = om_at [] m p @ vos_on p qs \<and>
    fst ` set (fold step qs m) = fst ` set m \<union> queue_link ` set qs"
  using assms(1)
proof (induction qs arbitrary: m)
  case (Cons q qs)
  have ok: "om_ok (step q m)" using Cons.prems by (simp add: step_def om_ok_put)
  have "om_at [] (step q m) p = om_at [] m p @ (if queue_link q = p then [(q_voName q, q_activeCount q)] else [])"
    using Cons.prems by (simp add: step_def om_at_def om_find_put)
  moreover have "fst ` set (step q m) = insert (queue_link q) (fst ` set m)" by (simp add: step_def fst_om_put)
  ultimately show ?case using Cons.IH [OF ok] by (simp add: vos_on_def)
qed (simp add: vos_on_def)

lemma vosPerPair:
  shows "om_ok (vosPerPair queues)" "fst ` set (vosPerPair queues) = queue_link ` set queues"
    "pv \<in> set (vosPerPair queues) \<Longrightarrow> snd pv = vos_on (fst pv) queues"
proof -
  note f = fold_vosPerPair [OF om_ok_Nil, of queues, folded vosPerPair_def]
  show ok: "om_ok (vosPerPair queues)" "fst ` set (vosPerPair queues) = queue_link ` set queues" using f by simp_all
  assume "pv \<in> set (vosPerPair queues)"
  then have "om_find (vosPerPair queues) (fst pv) = Some (snd pv)" using om_in_find [OF ok(1)] by simp
  then show "snd pv = vos_on (fst pv) queues" using f [of "fst pv"] by (simp add: om_at_def om_find_def)
qed

lemma queue_of_link [simp]: "queue_of (queue_link q) (q_voName q, q_activeCount q) = q"
  by (simp add: queue_of_def queue_link_def)

lemma queue_of_vos:
  "queue_of p ` {v \<in> set (vos_on p queues). P (fst v)} = {q \<in> set queues. queue_link q = p \<and> P (q_voName q)}"
proof (intro equalityI subsetI)
  fix q assume "q \<in> queue_of p ` {v \<in> set (vos_on p queues). P (fst v)}"
  then show "q \<in> {q \<in> set queues. queue_link q = p \<and> P (q_voName q)}" by (auto simp: vos_on_def)
next
  fix q assume "q \<in> {q \<in> set queues. queue_link q = p \<and> P (q_voName q)}"
  then have "(q_voName q, q_activeCount q) \<in> {v \<in> set (vos_on p queues). P (fst v)}"
    "queue_of p (q_voName q, q_activeCount q) = q" by (auto simp: vos_on_def)
  then show "q \<in> queue_of p ` {v \<in> set (vos_on p queues). P (fst v)}" by (metis imageI)
qed

lemma share_weights_nonneg:
  assumes "\<forall>c \<in> set shares. 0 \<le> sc_active c" "om_find (share_weights shares) vo = Some w"
  shows "0 \<le> w"
proof -
  have "om_ok m \<Longrightarrow> (\<forall>vo w. om_find m vo = Some w \<longrightarrow> 0 \<le> w) \<Longrightarrow>
      om_find (fold (\<lambda>k. om_put (sc_vo k) (real_of_int (sc_active k))) shares m) vo = Some w \<Longrightarrow> 0 \<le> w" for m
    using assms(1)
  proof (induction shares arbitrary: m)
    case (Cons c shares)
    show ?case
      by (rule Cons.IH [of "om_put (sc_vo c) (real_of_int (sc_active c)) m"])
        (use Cons.prems in \<open>auto simp: om_ok_put om_find_put\<close>)
  qed auto
  from this [of "[]"] show ?thesis using assms(2) by (simp add: share_weights_def om_find_def)
qed

subsection \<open>The choice\<close>

lemma length_filter_all: "length (filter P xs) = length xs \<longleftrightarrow> (\<forall>x \<in> set xs. P x)"
  using length_filter_less [of _ xs P] by (metis filter_True less_irrefl)

lemma selectQueueForPair:
  assumes "\<forall>w \<in> set (map (\<lambda>v. final_weight weights vos (fst v)) vos). 0 \<le> w"
    "\<And>ws. (\<forall>w \<in> set ws. 0 \<le> w) \<Longrightarrow> (\<exists>w \<in> set ws. 0 < w) \<Longrightarrow> draw ws < length ws \<and> 0 < ws ! draw ws"
  defines "good \<equiv> \<lambda>v. 0 < final_weight weights vos (fst v)"
  shows "set (snd (selectQueueForPair draw p vos weights)) = queue_of p ` {v \<in> set vos. \<not> good v}"
    "fst (selectQueueForPair draw p vos weights) = None \<longleftrightarrow> (\<forall>v \<in> set vos. \<not> good v)"
    "fst (selectQueueForPair draw p vos weights) = Some q \<Longrightarrow> q \<in> queue_of p ` {v \<in> set vos. good v}"
proof -
  define ws where "ws = map (\<lambda>v. final_weight weights vos (fst v)) vos"
  define u where "u = map (queue_of p) (filter (\<lambda>v. final_weight weights vos (fst v) \<le> 0) vos)"
  have s: "selectQueueForPair draw p vos weights =
      (if length u = length vos then None else Some (queue_of p (vos ! draw ws)), u)"
    by (simp add: selectQueueForPair_def Let_def ws_def u_def)
  show "set (snd (selectQueueForPair draw p vos weights)) = queue_of p ` {v \<in> set vos. \<not> good v}"
    by (simp add: s u_def good_def not_less)
  have none: "length u = length vos \<longleftrightarrow> (\<forall>v \<in> set vos. \<not> good v)"
    by (simp add: u_def good_def not_less length_filter_all)
  then show "fst (selectQueueForPair draw p vos weights) = None \<longleftrightarrow> (\<forall>v \<in> set vos. \<not> good v)" by (simp add: s)
  assume q: "fst (selectQueueForPair draw p vos weights) = Some q"
  then have "\<exists>v \<in> set vos. good v" using none by (auto simp: s split: if_splits)
  then have "\<exists>w \<in> set ws. 0 < w" by (auto simp: ws_def good_def)
  with assms(1) have "draw ws < length ws \<and> 0 < ws ! draw ws" unfolding ws_def by (rule assms(2))
  moreover have "length ws = length vos" by (simp add: ws_def)
  ultimately have i: "draw ws < length vos" "0 < ws ! draw ws" by simp_all
  moreover have "ws ! draw ws = final_weight weights vos (fst (vos ! draw ws))" using i(1) by (simp add: ws_def)
  ultimately have "vos ! draw ws \<in> {v \<in> set vos. good v}" by (simp add: good_def)
  then show "q \<in> queue_of p ` {v \<in> set vos. good v}" using q by (auto simp: s split: if_splits)
qed

lemma final_weight_nonneg:
  assumes "\<forall>c \<in> set shares. 0 \<le> sc_active c"
  shows "0 \<le> final_weight (share_weights shares) vos vo"
proof -
  have "0 \<le> om_at 0 (share_weights shares) ''public''"
    using share_weights_nonneg [OF assms] by (cases "om_find (share_weights shares) ''public''") (auto simp: om_at_def)
  then have "0 \<le> public_weight (share_weights shares) vos" by (simp add: public_weight_def Let_def)
  then show ?thesis using share_weights_nonneg [OF assms] by (simp add: final_weight_def split: option.splits)
qed

lemma fold_pairs:
  "fold (\<lambda>x ru. case f x of (c, u) \<Rightarrow> (fst ru @ (case c of None \<Rightarrow> [] | Some q \<Rightarrow> [q]), snd ru @ u)) xs ru
     = (fst ru @ List.map_filter (\<lambda>x. fst (f x)) xs, snd ru @ concat (map (\<lambda>x. snd (f x)) xs))"
  by (induction xs arbitrary: ru) (auto simp: map_filter_simps split: prod.splits option.splits)

text \<open>The choice for a link that waits, in terms of the queues.\<close>

definition chosen_for :: "(link \<Rightarrow> real list \<Rightarrow> nat) \<Rightarrow> db \<Rightarrow> QueueId list \<Rightarrow> link \<Rightarrow> QueueId option \<times> QueueId list" where
  "chosen_for draw d queues p = selectQueueForPair (draw p) p (vos_on p queues) (share_weights (getShareConfig p d))"

lemma applyVoShares_eq:
  assumes "ks = om_keys (vosPerPair queues)"
  shows "applyVoShares draw d queues =
     (List.map_filter (\<lambda>p. fst (chosen_for draw d queues p)) ks,
      concat (map (\<lambda>p. snd (chosen_for draw d queues p)) ks))"
proof -
  have "map (\<lambda>pv. (fst pv, vos_on (fst pv) queues)) (vosPerPair queues) = vosPerPair queues"
    by (rule map_idI) (metis prod.collapse vosPerPair(3))
  then have "vosPerPair queues = map (\<lambda>p. (p, vos_on p queues)) ks" using assms by (simp add: om_keys_def comp_def)
  then show ?thesis
    unfolding applyVoShares_def fold_pairs by (simp add: List.map_filter_def filter_map comp_def chosen_for_def)
qed

lemma chosen_for_spec:
  assumes "draws_positive draw" "\<forall>c \<in> set (t_share_config d). 0 \<le> sc_active c"
  shows "set (snd (chosen_for draw d queues p)) = {q \<in> set queues. queue_link q = p \<and> queue_weight d queues q = 0}"
    "fst (chosen_for draw d queues p) = None \<longleftrightarrow> (\<forall>q \<in> set queues. queue_link q = p \<longrightarrow> queue_weight d queues q = 0)"
    "fst (chosen_for draw d queues p) = Some q \<Longrightarrow> q \<in> set queues \<and> queue_link q = p \<and> 0 < queue_weight d queues q"
proof -
  define good where "good = (\<lambda>vo. 0 < final_weight (share_weights (getShareConfig p d)) (vos_on p queues) vo)"
  have nonneg: "0 \<le> final_weight (share_weights (getShareConfig p d)) vos vo" for p vos vo
    using assms(2) by (intro final_weight_nonneg) (simp add: getShareConfig_def)
  then have ws: "\<forall>w \<in> set (map (\<lambda>v. final_weight (share_weights (getShareConfig p d)) (vos_on p queues) (fst v)) (vos_on p queues)). 0 \<le> w"
    by simp
  have draw: "draw p ws < length ws \<and> 0 < ws ! draw p ws" if "\<forall>w \<in> set ws. 0 \<le> w" "\<exists>w \<in> set ws. 0 < w" for ws
    using assms(1) that unfolding draws_positive_def by blast
  have sel: "set (snd (chosen_for draw d queues p)) = queue_of p ` {v \<in> set (vos_on p queues). \<not> good (fst v)}"
    "fst (chosen_for draw d queues p) = None \<longleftrightarrow> (\<forall>v \<in> set (vos_on p queues). \<not> good (fst v))"
    "fst (chosen_for draw d queues p) = Some q \<Longrightarrow> q \<in> queue_of p ` {v \<in> set (vos_on p queues). good (fst v)}" for q
    unfolding chosen_for_def good_def using selectQueueForPair [OF ws draw] by blast+
  have good: "good (q_voName q) \<longleftrightarrow> queue_weight d queues q \<noteq> 0" "good (q_voName q) \<longleftrightarrow> 0 < queue_weight d queues q"
    if "queue_link q = p" for q
    using that nonneg [of p "vos_on p queues" "q_voName q"] by (auto simp: good_def queue_weight_def)
  show "set (snd (chosen_for draw d queues p)) = {q \<in> set queues. queue_link q = p \<and> queue_weight d queues q = 0}"
    unfolding sel(1) queue_of_vos [of p queues "\<lambda>vo. \<not> good vo"] using good(1) by blast
  have "fst (chosen_for draw d queues p) = None \<longleftrightarrow> queue_of p ` {v \<in> set (vos_on p queues). good (fst v)} = {}"
    using sel(2) by blast
  then show "fst (chosen_for draw d queues p) = None \<longleftrightarrow> (\<forall>q \<in> set queues. queue_link q = p \<longrightarrow> queue_weight d queues q = 0)"
    unfolding queue_of_vos [of p queues good] using good(1) by blast
  assume "fst (chosen_for draw d queues p) = Some q"
  then have "q \<in> {q \<in> set queues. queue_link q = p \<and> good (q_voName q)}"
    using sel(3) queue_of_vos [of p queues good] by blast
  then show "q \<in> set queues \<and> queue_link q = p \<and> 0 < queue_weight d queues q" using good(2) by blast
qed

lemma applyVoShares_facts:
  assumes "draws_positive draw" "\<forall>c \<in> set (t_share_config d). 0 \<le> sc_active c"
    "applyVoShares draw d queues = (chosen, unschedulable)"
  shows "distinct (map queue_link chosen)" "set chosen \<subseteq> {q \<in> set queues. 0 < queue_weight d queues q}"
    "queue_link ` set chosen = queue_link ` {q \<in> set queues. queue_weight d queues q \<noteq> 0}"
    "set unschedulable = {q \<in> set queues. queue_weight d queues q = 0}"
proof -
  define ks where "ks = om_keys (vosPerPair queues)"
  have ks: "distinct ks" "set ks = queue_link ` set queues"
    using vosPerPair(1,2) [of queues] by (simp_all add: ks_def om_keys_def om_ok_def strict_sorted_iff)
  have c: "chosen = List.map_filter (\<lambda>p. fst (chosen_for draw d queues p)) ks"
    "unschedulable = concat (map (\<lambda>p. snd (chosen_for draw d queues p)) ks)"
    using applyVoShares_eq [OF ks_def, of draw d] assms(3) by simp_all
  note spec = chosen_for_spec [OF assms(1,2)]
  have in_chosen: "q \<in> set chosen \<longleftrightarrow> queue_link q \<in> set ks \<and> fst (chosen_for draw d queues (queue_link q)) = Some q" for q
    unfolding c set_map_filter_option using spec(3) by blast
  have "map queue_link (List.map_filter (\<lambda>p. fst (chosen_for draw d queues p)) ps)
      = filter (\<lambda>p. fst (chosen_for draw d queues p) \<noteq> None) ps" for ps
    using spec(3) by (induction ps) (auto simp: map_filter_simps split: option.splits)
  then show "distinct (map queue_link chosen)" using ks(1) by (simp add: c)
  show "queue_link ` set chosen = queue_link ` {q \<in> set queues. queue_weight d queues q \<noteq> 0}"
  proof (intro equalityI subsetI)
    fix p assume "p \<in> queue_link ` set chosen"
    then show "p \<in> queue_link ` {q \<in> set queues. queue_weight d queues q \<noteq> 0}" using in_chosen spec(3) by fastforce
  next
    fix p assume "p \<in> queue_link ` {q \<in> set queues. queue_weight d queues q \<noteq> 0}"
    then have "fst (chosen_for draw d queues p) \<noteq> None" "p \<in> set ks" using spec(2) [of queues p] ks(2) by blast+
    then obtain q where "fst (chosen_for draw d queues p) = Some q" "p \<in> set ks" by blast
    then show "p \<in> queue_link ` set chosen" using in_chosen spec(3) by blast
  qed
  show "set unschedulable = {q \<in> set queues. queue_weight d queues q = 0}"
    unfolding c(2) set_concat set_map image_image spec(1) ks(2) by blast
  show "set chosen \<subseteq> {q \<in> set queues. 0 < queue_weight d queues q}" using in_chosen spec(3) by blast
qed

text \<open>
  C16: VO shares. Assume that no configured weight is negative and that the draw yields a position
  with a positive weight. Then at most one queue is chosen for a link; a chosen queue is one that
  waits and has a positive weight; a link on which some VO has a positive weight gets one; and the
  queues reported as unschedulable are exactly those whose weight is zero.
\<close>

theorem vo_shares_choice:
  assumes "draws_positive draw" "\<forall>c \<in> set (t_share_config d). 0 \<le> sc_active c"
    "applyVoShares draw d queues = (chosen, unschedulable)"
  shows "distinct (map queue_link chosen) \<and>
    set chosen \<subseteq> {q \<in> set queues. 0 < queue_weight d queues q} \<and>
    queue_link ` set chosen = queue_link ` {q \<in> set queues. queue_weight d queues q \<noteq> 0} \<and>
    set unschedulable = {q \<in> set queues. queue_weight d queues q = 0}"
  using applyVoShares_facts [OF assms] by blast

text \<open>Two VOs on a link of which one has no share, and a link without configuration.\<close>

definition sample_queues :: "QueueId list" where
  "sample_queues =
     [\<lparr>q_sourceSe = ''b'', q_destSe = ''c'', q_voName = ''cms'', q_activeCount = 0\<rparr>,
      \<lparr>q_sourceSe = ''a'', q_destSe = ''b'', q_voName = ''atlas'', q_activeCount = 2\<rparr>,
      \<lparr>q_sourceSe = ''a'', q_destSe = ''b'', q_voName = ''cms'', q_activeCount = 1\<rparr>]"

definition sample_shares_db :: db where
  "sample_shares_db = (sample_db [] [])
     \<lparr>t_share_config := [\<lparr>sc_source = ''a'', sc_destination = ''b'', sc_vo = ''atlas'', sc_active = 5\<rparr>]\<rparr>"

definition first_positive :: "link \<Rightarrow> real list \<Rightarrow> nat" where
  "first_positive p ws = length (takeWhile (\<lambda>w. w \<le> 0) ws)"

lemma first_positive: "draws_positive first_positive"
  unfolding draws_positive_def
proof (intro allI impI)
  fix p :: link and ws :: "real list"
  assume "\<exists>w \<in> set ws. 0 < w"
  then have "takeWhile (\<lambda>w. w \<le> 0) ws \<noteq> ws" using set_takeWhileD [of _ "\<lambda>w. w \<le> 0" ws] by fastforce
  then have "first_positive p ws < length ws"
    unfolding first_positive_def by (metis length_takeWhile_le order_le_less takeWhile_eq_take take_all_iff)
  then show "first_positive p ws < length ws \<and> 0 < ws ! first_positive p ws"
    using nth_length_takeWhile [of "\<lambda>w. w \<le> 0" ws] by (simp add: first_positive_def)
qed

lemma sample_shares:
  "applyVoShares first_positive sample_shares_db sample_queues
     = ([\<lparr>q_sourceSe = ''a'', q_destSe = ''b'', q_voName = ''atlas'', q_activeCount = 2\<rparr>,
         \<lparr>q_sourceSe = ''b'', q_destSe = ''c'', q_voName = ''cms'', q_activeCount = 0\<rparr>],
        [\<lparr>q_sourceSe = ''a'', q_destSe = ''b'', q_voName = ''cms'', q_activeCount = 1\<rparr>])"
  by code_simp

theorem vo_shares_choice_witness:
  "set [\<lparr>q_sourceSe = ''a'', q_destSe = ''b'', q_voName = ''cms'', q_activeCount = 1\<rparr>]
     = {q \<in> set sample_queues. queue_weight sample_shares_db sample_queues q = 0}"
  using vo_shares_choice [OF first_positive _ sample_shares] by (simp add: sample_shares_db_def)

end
