(* ===== verification/FileStatus.thy ===== *)
theory FileStatus
  imports Schema
begin

section \<open>The life of a file: updateFileTransferStatusInternal and its helpers\<close>

text \<open>
  \<^verbatim>\<open>src/db/mysql/MySqlAPI.cpp\<close>, the functions that move one row of \<^verbatim>\<open>t_file\<close> through its
  states: \<open>updateFileTransferStatusInternal\<close> and what it calls when a replica fails
  (\<open>useFileReplica\<close>, \<open>getBestNextReplica\<close>) or a hop succeeds (\<open>useNextHop\<close>).

  Each definition is one function of the source run to its \<^verbatim>\<open>COMMIT\<close>. Where a SELECT has no
  ORDER BY, the first row of the list stands for the row the server happens to return.
\<close>

text \<open>The arguments of a status update that only end up in columns of the row, and the pid.\<close>

record report =
  processId :: int
  errorReason :: string
  filesize :: int
  duration :: real
  throughput :: real
  will_retry :: bool
  fileMetadata :: string

text \<open>\<^verbatim>\<open>SELECT MIN(..)\<close>: NULL on an empty selection.\<close>

fun sql_min :: "('a::linorder) list \<Rightarrow> 'a option" where
  "sql_min [] = None"
| "sql_min (x # xs) = (case sql_min xs of None \<Rightarrow> Some x | Some m \<Rightarrow> Some (min x m))"

text \<open>The least identifier of a selection, where 0 stands for no identifier.\<close>

definition min_id :: "nat list \<Rightarrow> nat" where
  "min_id xs = (case sql_min xs of None \<Rightarrow> 0 | Some i \<Rightarrow> i)"

definition not_used_of :: "job_id \<Rightarrow> db \<Rightarrow> file_row list" where
  "not_used_of jobId d = filter (\<lambda>r. f_file_state r = NOT_USED) (files_of_job jobId d)"

subsection \<open>Multihop jobs\<close>

definition getNextHop :: "job_id \<Rightarrow> db \<Rightarrow> nat" where
  "getNextHop jobId d = min_id (map f_file_id (not_used_of jobId d))"

definition useNextHop :: "job_id \<Rightarrow> db \<Rightarrow> db" where
  "useNextHop jobId d =
     (let nextFileId = getNextHop jobId d in
      if nextFileId = 0 then d
      else update_files (\<lambda>r. f_file_id r = nextFileId \<and> f_file_state r = NOT_USED)
             (\<lambda>r. r\<lparr>f_file_state := SUBMITTED, f_finish_time := None\<rparr>) d)"

definition setNullDestSURLMultiHop :: "job_id \<Rightarrow> db \<Rightarrow> db" where
  "setNullDestSURLMultiHop jobId d =
     update_files (\<lambda>r. f_job_id r = jobId \<and> f_file_state r = NOT_USED)
       (\<lambda>r. r\<lparr>f_dest_surl_uuid := None\<rparr>) d"

definition isArchivingTransfer :: "job_id \<Rightarrow> JobType \<Rightarrow> int \<Rightarrow> db \<Rightarrow> bool" where
  "isArchivingTransfer jobId jobType archiveTimeout d =
     (let nextHop = (if jobType = kTypeMultiHop then getNextHop jobId d else 0)
      in nextHop = 0 \<and> archiveTimeout > -1)"

subsection \<open>Multiple replica jobs\<close>

text \<open>The loop over the candidate links stops at the first link with an empty queue.\<close>

fun link_queues :: "('l \<Rightarrow> nat) \<Rightarrow> 'l list \<Rightarrow> ('l \<times> nat) list" where
  "link_queues queued [] = []"
| "link_queues queued (l # ls) =
     (l, queued l) # (if queued l = 0 then [] else link_queues queued ls)"

text \<open>\<^verbatim>\<open>std::min_element\<close> with \<open>pairCompare\<close>: the first entry with the least queue.\<close>

fun min_element :: "('l \<times> nat) list \<Rightarrow> ('l \<times> nat) option" where
  "min_element [] = None"
| "min_element (p # ps) =
     (case min_element ps of None \<Rightarrow> Some p | Some q \<Rightarrow> Some (if snd q < snd p then q else p))"

definition submitted_on_link :: "string \<Rightarrow> db \<Rightarrow> string \<times> string \<Rightarrow> nat" where
  "submitted_on_link voName d l =
     length (filter (\<lambda>r. f_file_state r = SUBMITTED \<and> f_source_se r = fst l \<and> f_dest_se r = snd l
                         \<and> f_vo_name r = voName) (t_file d))"

text \<open>
  The links of the candidate rows with their queues form a \<^verbatim>\<open>std::map\<close>; the row taken is
  the first one on the link with the shortest queue.
\<close>

definition pick_by_link :: "('r \<Rightarrow> 'l::linorder) \<Rightarrow> ('l \<Rightarrow> nat) \<Rightarrow> 'r list \<Rightarrow> 'r option" where
  "pick_by_link link queued rows =
     (case min_element (sort_key fst (link_queues queued (remdups (map link rows)))) of
        None \<Rightarrow> None | Some p \<Rightarrow> select_first (\<lambda>r. link r = fst p) rows)"

definition getBestNextReplica :: "job_id \<Rightarrow> string \<Rightarrow> db \<Rightarrow> nat" where
  "getBestNextReplica jobId voName d =
     (case pick_by_link (\<lambda>r. (f_source_se r, f_dest_se r)) (submitted_on_link voName d)
             (not_used_of jobId d) of
        None \<Rightarrow> 0 | Some r \<Rightarrow> f_file_id r)"

definition submit_replica :: "job_id \<Rightarrow> string option \<Rightarrow> nat \<Rightarrow> db \<Rightarrow> db" where
  "submit_replica jobId destSurlUuid i d =
     update_files (\<lambda>r. f_job_id r = jobId \<and> f_file_id r = i \<and> f_file_state r = NOT_USED)
       (\<lambda>r. r\<lparr>f_file_state := SUBMITTED, f_finish_time := None, f_dest_surl_uuid := destSurlUuid\<rparr>) d"

definition useFileReplica :: "job_id \<Rightarrow> nat \<Rightarrow> string option \<Rightarrow> db \<Rightarrow> db" where
  "useFileReplica jobId fileId destSurlUuid d =
     (let alreadyActive = length (filter (\<lambda>r. f_file_state r \<in> {READY, ACTIVE}) (files_of_job jobId d));
          row = file_by_id fileId d;
          selectionStrategy =
            (case row of None \<Rightarrow> '''' | Some r \<Rightarrow>
               (case f_selection_strategy r of None \<Rightarrow> ''orderly'' | Some s \<Rightarrow> s));
          vo_name = (case row of None \<Rightarrow> '''' | Some r \<Rightarrow> f_vo_name r);
          nextReplica = min_id (map f_file_id (not_used_of jobId d))
      in if alreadyActive > 0 then d
         else if selectionStrategy = ''auto'' then
           (let bestFileId = getBestNextReplica jobId vo_name d
            in if bestFileId > 0 then submit_replica jobId destSurlUuid bestFileId d else d)
         else submit_replica jobId destSurlUuid nextReplica d)"

subsection \<open>The status update\<close>

text \<open>
  The SET clause. \<open>req\<close> is the requested state, which decides the columns; \<open>new\<close> is the
  state that is stored: it differs when a finished transfer goes on to be archived, because
  the statement binds the variable and the variable is reassigned before it runs.
\<close>

definition set_transfer_status ::
  "env \<Rightarrow> file_state \<Rightarrow> file_state \<Rightarrow> report \<Rightarrow> file_row \<Rightarrow> file_row" where
  "set_transfer_status e req new m r =
     r\<lparr>f_file_state := new,
       f_reason := errorReason m,
       f_finish_time := (if req \<in> {FINISHED, FAILED, CANCELED} then Some (now e) else f_finish_time r),
       f_dest_surl_uuid := (if req \<in> {FINISHED, FAILED, CANCELED} then None else f_dest_surl_uuid r),
       f_start_time := (if req \<in> {ACTIVE, READY} then Some (now e) else f_start_time r),
       f_transfer_host := Some (hostname e),
       f_transferred := (if req = FINISHED then filesize m
                         else if req \<in> {FAILED, CANCELED} then 0 else f_transferred r),
       f_staging_finished := (if req = STAGING \<and> f_file_state r = STAGING then Some (now e)
                              else f_staging_finished r),
       f_staging_start := (if req = STAGING \<and> f_file_state r \<noteq> STAGING then Some (now e)
                           else f_staging_start r),
       f_file_metadata := (if fileMetadata m \<noteq> [] then fileMetadata m else f_file_metadata r),
       f_pid := Some (processId m),
       f_filesize := filesize m,
       f_tx_duration := duration m,
       f_throughput := throughput m,
       f_current_failures := of_bool (will_retry m)\<rparr>"

text \<open>
  Messages without job or file id are resolved through the pid of an active transfer. When
  there is none, the given ids are kept.
\<close>

definition resolve_ids :: "job_id \<Rightarrow> nat \<Rightarrow> int \<Rightarrow> db \<Rightarrow> job_id \<times> nat" where
  "resolve_ids jobId fileId pid d =
     (if jobId = [] \<or> fileId = 0 then
        (case select_first (\<lambda>r. f_pid r = Some pid \<and> f_file_state r = ACTIVE) (t_file d) of
           None \<Rightarrow> (jobId, fileId) | Some r \<Rightarrow> (f_job_id r, f_file_id r))
      else (jobId, fileId))"

text \<open>The three guards that leave the row alone.\<close>

definition status_refused :: "file_state \<Rightarrow> file_state \<Rightarrow> int \<Rightarrow> bool" where
  "status_refused stored req pid \<longleftrightarrow>
     stored \<in> {FAILED, FINISHED, CANCELED} \<or>
     (stored = ACTIVE \<and> req = READY) \<or>
     (stored = req \<and> \<not> (req = READY \<and> pid \<noteq> 0))"

text \<open>What happens to the rest of the job once the row is written.\<close>

definition after_status ::
  "JobType \<Rightarrow> job_state option \<Rightarrow> job_id \<Rightarrow> nat \<Rightarrow> file_state \<Rightarrow> string option \<Rightarrow> db \<Rightarrow> db" where
  "after_status jobType jobState jobId fileId new destSurlUuid d =
     (let live = (jobState \<noteq> Some J_CANCELED \<and> jobState \<noteq> Some J_FAILED) in
      case jobType of
        kTypeMultipleReplica \<Rightarrow>
          if live \<and> new \<in> {FAILED, CANCELED} then useFileReplica jobId fileId destSurlUuid d else d
      | kTypeMultiHop \<Rightarrow>
          if live \<and> new = FINISHED then useNextHop jobId d else setNullDestSURLMultiHop jobId d
      | _ \<Rightarrow> d)"

text \<open>
  The whole function. It returns whether the row was updated and a state; \<open>None\<close> is the
  empty string. On success that string is empty: the outer \<^verbatim>\<open>storedState\<close> is never
  assigned, since the one inside the \<^verbatim>\<open>try\<close> block hides it.

  When there is no job with that id the code leaves \<^verbatim>\<open>jobType\<close> unset; the model takes a
  regular job. \<^verbatim>\<open>archiveTimeout\<close> is then the \<^verbatim>\<open>atoi\<close> of the empty string.

  \<^verbatim>\<open>get_affected_rows\<close> counts the rows whose content changed, so writing a row back as it
  was also ends in a rollback.
\<close>

definition updateFileTransferStatusInternal ::
  "env \<Rightarrow> job_id \<Rightarrow> nat \<Rightarrow> file_state \<Rightarrow> report \<Rightarrow> db \<Rightarrow> db \<times> bool \<times> file_state option" where
  "updateFileTransferStatusInternal e jobId0 fileId0 req m d =
     (case resolve_ids jobId0 fileId0 (processId m) d of (jobId, fileId) \<Rightarrow>
      let job = job_by_id jobId d;
          jobType = (case job of None \<Rightarrow> kTypeRegular | Some j \<Rightarrow> job_type_of j);
          jobState = map_option j_job_state job;
          archiveTimeout =
            (case job of None \<Rightarrow> 0 | Some j \<Rightarrow> (case j_archive_timeout j of None \<Rightarrow> -1 | Some t \<Rightarrow> t))
      in case file_by_id fileId d of
           None \<Rightarrow> (d, False, None)
         | Some row \<Rightarrow>
             let stored = f_file_state row in
             if status_refused stored req (processId m) then (d, False, Some stored)
             else
               let new = (if req = FINISHED \<and> isArchivingTransfer jobId jobType archiveTimeout d
                          then ARCHIVING else req);
                   set = set_transfer_status e req new m
               in if set row = row then (d, False, Some stored)
                  else (after_status jobType jobState jobId fileId new (f_dest_surl_uuid row)
                          (update_files (\<lambda>r. f_file_id r = fileId \<and> f_file_state r = stored) set d),
                        True, None))"

text \<open>
  What may happen to another row of the same job: nothing, or an unused file is submitted,
  or an unused file loses its destination lock.
\<close>

definition sibling_change :: "job_id \<Rightarrow> file_row \<Rightarrow> file_row \<Rightarrow> bool" where
  "sibling_change jobId r r' \<longleftrightarrow> r' = r \<or>
     (f_job_id r = jobId \<and> f_file_state r = NOT_USED \<and>
      ((\<exists>u. r' = r\<lparr>f_file_state := SUBMITTED, f_finish_time := None, f_dest_surl_uuid := u\<rparr>)
       \<or> r' = r\<lparr>f_dest_surl_uuid := None\<rparr>))"

text \<open>
  The frame of a status update: any other file is untouched, or it is an unused file of the
  same job that is submitted or gives up its destination lock.
\<close>

definition status_frame :: "job_id \<Rightarrow> nat \<Rightarrow> file_row \<Rightarrow> file_row \<Rightarrow> bool" where
  "status_frame jobId fileId r r' \<longleftrightarrow> (f_file_id r \<noteq> fileId \<longrightarrow> sibling_change jobId r r')"

text \<open>The destination locks that are taken.\<close>

definition held_uuids :: "db \<Rightarrow> string set" where
  "held_uuids d = set (List.map_filter f_dest_surl_uuid (t_file d))"

definition updateTransferStatus ::
  "env \<Rightarrow> job_id \<Rightarrow> nat \<Rightarrow> file_state \<Rightarrow> report \<Rightarrow> db \<Rightarrow> db \<times> bool \<times> file_state option" where
  "updateTransferStatus = updateFileTransferStatusInternal"

text \<open>A job with one running and two unused files, of either kind that keeps files in reserve.\<close>

definition sample_status_db :: "JobType \<Rightarrow> db" where
  "sample_status_db ty = sample_db
     [(sample_file 1 ''j'' 0 ACTIVE)\<lparr>f_dest_surl_uuid := Some ''u''\<rparr>,
      sample_file 2 ''j'' 0 NOT_USED, sample_file 3 ''j'' 0 NOT_USED, sample_file 4 ''k'' 0 SUBMITTED]
     [sample_job ''j'' (Some ty) J_ACTIVE, sample_job ''k'' None J_SUBMITTED]"

definition sample_report :: report where
  "sample_report = \<lparr>processId = 0, errorReason = ''timeout'', filesize = 10, duration = 1, throughput = 2,
     will_retry = False, fileMetadata = ''''\<rparr>"

subsection \<open>The selections\<close>

lemma sql_min_None: "sql_min xs = None \<longleftrightarrow> xs = []"
  by (cases xs) (auto split: option.splits)

lemma sql_min_Some:
  "sql_min xs = Some m \<longleftrightarrow> m \<in> set xs \<and> (\<forall>x \<in> set xs. m \<le> x)"
proof (induction xs arbitrary: m)
  case Nil
  then show ?case by simp
next
  case (Cons x xs)
  show ?case
  proof (cases "sql_min xs")
    case None
    then show ?thesis by (auto simp: sql_min_None)
  next
    case (Some k)
    then have "k \<in> set xs" "\<forall>y \<in> set xs. k \<le> y" using Cons.IH by auto
    then show ?thesis using Some by (auto simp: min_def intro: order_antisym)
  qed
qed

lemma set_not_used_of:
  "r \<in> set (not_used_of jobId d) \<longleftrightarrow> r \<in> set (t_file d) \<and> f_job_id r = jobId \<and> f_file_state r = NOT_USED"
  by (simp add: not_used_of_def files_of_job_def conj_assoc)

lemma min_id_Nil: "0 \<notin> set xs \<Longrightarrow> min_id xs = 0 \<longleftrightarrow> xs = []"
  by (auto simp: min_id_def sql_min_None sql_min_Some split: option.splits)

lemma min_id_least:
  assumes "xs \<noteq> []"
  shows "min_id xs \<in> set xs \<and> (\<forall>x \<in> set xs. min_id xs \<le> x)"
proof -
  from assms obtain m where "sql_min xs = Some m" using sql_min_None by fastforce
  then show ?thesis using sql_min_Some [of xs m] by (simp add: min_id_def)
qed

lemma not_used_ids_pos: "wf_db d \<Longrightarrow> 0 \<notin> set (map f_file_id (not_used_of jobId d))"
  unfolding wf_db_def not_used_of_def files_of_job_def by auto

lemma getNextHop_0: "wf_db d \<Longrightarrow> getNextHop jobId d = 0 \<longleftrightarrow> not_used_of jobId d = []"
  unfolding getNextHop_def using min_id_Nil [OF not_used_ids_pos] by simp

lemma getNextHop_least:
  assumes "not_used_of jobId d \<noteq> []"
  shows "getNextHop jobId d \<in> f_file_id ` set (not_used_of jobId d)
    \<and> (\<forall>i \<in> f_file_id ` set (not_used_of jobId d). getNextHop jobId d \<le> i)"
  using min_id_least [of "map f_file_id (not_used_of jobId d)"] assms
  unfolding getNextHop_def by simp

text \<open>The best replica is an unused file of the job, or 0 when there is none.\<close>

lemma set_link_queues: "p \<in> set (link_queues q ls) \<Longrightarrow> fst p \<in> set ls \<and> snd p = q (fst p)"
  by (induction ls) (auto split: if_splits)

lemma link_queues_Nil: "link_queues q ls = [] \<longleftrightarrow> ls = []"
  by (cases ls) auto

lemma min_element_None: "min_element ps = None \<longleftrightarrow> ps = []"
  by (cases ps) (auto split: option.splits)

lemma min_element_in: "min_element ps = Some p \<Longrightarrow> p \<in> set ps \<and> (\<forall>q \<in> set ps. snd p \<le> snd q)"
proof (induction ps arbitrary: p)
  case Nil
  then show ?case by simp
next
  case (Cons a ps)
  show ?case
  proof (cases "min_element ps")
    case None
    with Cons.prems show ?thesis by (simp add: min_element_None)
  next
    case (Some q)
    with Cons.prems Cons.IH [OF Some] show ?thesis by (auto split: if_splits)
  qed
qed

lemma pick_by_link_in: "pick_by_link link queued rows = Some r \<Longrightarrow> r \<in> set rows"
  by (auto simp: pick_by_link_def split: option.splits dest: select_first_Some)

lemma pick_by_link_None: "pick_by_link link queued rows = None \<longleftrightarrow> rows = []"
proof -
  let ?ps = "sort_key fst (link_queues queued (remdups (map link rows)))"
  have ps: "?ps = [] \<longleftrightarrow> rows = []"
    using link_queues_Nil [of queued "remdups (map link rows)"] set_sort [of fst]
    by (metis map_is_Nil_conv remdups_eq_nil_iff set_empty)
  show ?thesis
  proof (cases "min_element ?ps")
    case None
    then show ?thesis using ps by (simp add: pick_by_link_def min_element_None)
  next
    case (Some p)
    then have "p \<in> set (link_queues queued (remdups (map link rows)))"
      using min_element_in by fastforce
    then have "fst p \<in> link ` set rows" by (auto dest: set_link_queues)
    then have "select_first (\<lambda>r. link r = fst p) rows \<noteq> None"
      by (auto simp: select_first_None)
    then show ?thesis using Some ps by (auto simp: pick_by_link_def)
  qed
qed

lemma getBestNextReplica_in:
  assumes "0 < getBestNextReplica jobId vo d"
  shows "getBestNextReplica jobId vo d \<in> f_file_id ` set (not_used_of jobId d)"
proof (cases "pick_by_link (\<lambda>r. (f_source_se r, f_dest_se r)) (submitted_on_link vo d) (not_used_of jobId d)")
  case None
  then show ?thesis using assms by (simp add: getBestNextReplica_def)
next
  case (Some r)
  then show ?thesis using pick_by_link_in [OF Some] by (simp add: getBestNextReplica_def)
qed

lemma getBestNextReplica_pos:
  assumes "wf_db d" "not_used_of jobId d \<noteq> []"
  shows "0 < getBestNextReplica jobId vo d"
proof (cases "pick_by_link (\<lambda>r. (f_source_se r, f_dest_se r)) (submitted_on_link vo d) (not_used_of jobId d)")
  case None
  then show ?thesis using assms(2) by (simp add: pick_by_link_None)
next
  case (Some r)
  then show ?thesis
    using pick_by_link_in [OF Some] not_used_ids_pos [OF assms(1), of jobId]
    by (simp add: getBestNextReplica_def) (metis gr0I imageI)
qed

subsection \<open>Siblings\<close>

lemma sibling_change_refl [simp]: "sibling_change jobId r r"
  by (simp add: sibling_change_def)

lemma sibling_change_frozen: "sibling_change jobId r r' \<Longrightarrow> file_frozen r r'"
  by (elim sibling_change_def [THEN iffD1, elim_format] disjE conjE exE)
    (simp_all add: file_frozen_def terminal_file_def)

lemma not_used_by_id:
  assumes "wf_db d" "i \<in> f_file_id ` set (not_used_of jobId d)" "r \<in> set (t_file d)" "f_file_id r = i"
  shows "f_job_id r = jobId \<and> f_file_state r = NOT_USED"
proof -
  from assms(2) obtain s where s: "s \<in> set (not_used_of jobId d)" "f_file_id s = i" by (rule imageE) simp
  then have "s \<in> set (t_file d)" by (simp add: set_not_used_of)
  then have "r = s" using wf_db_file_unique [OF assms(1,3)] s(2) assms(4) by simp
  with s(1) show ?thesis by (simp add: set_not_used_of)
qed

lemma sibling_changeI:
  "f_job_id r = jobId \<Longrightarrow> f_file_state r = NOT_USED
    \<Longrightarrow> sibling_change jobId r (r\<lparr>f_file_state := SUBMITTED, f_finish_time := None, f_dest_surl_uuid := u\<rparr>)"
  unfolding sibling_change_def by (intro disjI2 conjI disjI1 exI) (assumption | rule refl)+

lemma sibling_changeI':
  assumes "f_job_id r = jobId" "f_file_state r = NOT_USED"
  shows "sibling_change jobId r (r\<lparr>f_file_state := SUBMITTED, f_finish_time := None\<rparr>)"
  using sibling_changeI [OF assms, of "f_dest_surl_uuid r"] by simp

lemma useNextHop_siblings:
  assumes "wf_db d"
  shows "rows_rel (sibling_change jobId) d (useNextHop jobId d)"
proof (cases "getNextHop jobId d = 0")
  case True
  then show ?thesis by (simp add: useNextHop_def)
next
  case False
  then have hop: "getNextHop jobId d \<in> f_file_id ` set (not_used_of jobId d)"
    using getNextHop_least [of jobId d] getNextHop_0 [OF assms, of jobId] by simp
  show ?thesis
    unfolding useNextHop_def Let_def if_not_P [OF False]
    by (rule rows_rel_update_files) (simp_all add: sibling_changeI' not_used_by_id [OF assms hop])
qed

lemma setNull_siblings: "rows_rel (sibling_change jobId) d (setNullDestSURLMultiHop jobId d)"
  unfolding setNullDestSURLMultiHop_def
  by (rule rows_rel_update_files) (simp_all add: sibling_change_def)

lemma submit_replica_siblings: "rows_rel (sibling_change jobId) d (submit_replica jobId uuid i d)"
  unfolding submit_replica_def by (rule rows_rel_update_files) (simp_all add: sibling_changeI)

lemma if_nest_cases:
  "(if a then d else if b then (if c then f x else d) else f y) = d
   \<or> (\<exists>i. (if a then d else if b then (if c then f x else d) else f y) = f i)"
  by auto

lemma if_choice: "x \<in> A \<Longrightarrow> y \<in> A \<Longrightarrow> \<exists>i \<in> A. (if b then f x else f y) = f i"
  by auto

lemma useFileReplica_none_or_submit:
  "useFileReplica jobId fileId uuid d = d
   \<or> (\<exists>i. useFileReplica jobId fileId uuid d = submit_replica jobId uuid i d)"
  unfolding useFileReplica_def Let_def by (rule if_nest_cases)

lemma useFileReplica_cases:
  obtains (none) "useFileReplica jobId fileId uuid d = d"
  | (submit) i where "useFileReplica jobId fileId uuid d = submit_replica jobId uuid i d"
  using useFileReplica_none_or_submit [of jobId fileId uuid d] by (elim disjE exE)

lemma useFileReplica_siblings:
  "rows_rel (sibling_change jobId) d (useFileReplica jobId fileId uuid d)"
  by (rule useFileReplica_cases [of jobId fileId uuid d]) (simp_all add: submit_replica_siblings)

lemma after_status_siblings:
  "wf_db d \<Longrightarrow> rows_rel (sibling_change jobId) d (after_status jobType jobState jobId fileId new uuid d)"
  unfolding after_status_def Let_def
  by (cases jobType) (simp_all add: useFileReplica_siblings useNextHop_siblings setNull_siblings)

text \<open>The constraints of the schema survive, including the unique key on the destination lock.\<close>

lemma wf_db_assign_uuid:
  assumes "wf_db d" "keeps_keys f" "\<And>r. P r \<Longrightarrow> f_file_id r = i" "\<And>r. f_dest_surl_uuid (f r) = u"
    "\<And>x. u = Some x \<Longrightarrow> x \<notin> held_uuids d"
  shows "wf_db (update_files P f d)"
proof -
  have "distinct (List.map_filter f_dest_surl_uuid (update_where P f (t_file d)))"
    using assms distinct_map_filter_assign [of f_file_id "t_file d" f_dest_surl_uuid P i f u]
    by (simp add: wf_db_def held_uuids_def)
  moreover have ids: "map f_file_id (update_where P f (t_file d)) = map f_file_id (t_file d)"
    "map f_job_id (update_where P f (t_file d)) = map f_job_id (t_file d)"
    using assms(2) by (simp_all add: map_update_where)
  moreover have "f_file_id ` set (update_where P f (t_file d)) = f_file_id ` set (t_file d)"
    "f_job_id ` set (update_where P f (t_file d)) = f_job_id ` set (t_file d)"
    using ids by (metis list.set_map)+
  ultimately show ?thesis using assms(1) by (simp add: wf_db_def)
qed

lemma wf_db_useNextHop: "wf_db d \<Longrightarrow> wf_db (useNextHop jobId d)"
  unfolding useNextHop_def Let_def
  by (auto intro!: wf_db_update_files keeps_keysI clears_uuidI)

lemma wf_db_setNull: "wf_db d \<Longrightarrow> wf_db (setNullDestSURLMultiHop jobId d)"
  unfolding setNullDestSURLMultiHop_def
  by (auto intro!: wf_db_update_files keeps_keysI clears_uuidI)

lemma keeps_keys_submit [simp]:
  "keeps_keys (\<lambda>r. r\<lparr>f_file_state := s, f_finish_time := t, f_dest_surl_uuid := uuid\<rparr>)"
  by (rule keeps_keysI) simp_all

lemma wf_db_submit_replica:
  assumes "wf_db d" "\<And>x. uuid = Some x \<Longrightarrow> x \<notin> held_uuids d"
  shows "wf_db (submit_replica jobId uuid i d)"
  unfolding submit_replica_def
  by (rule wf_db_assign_uuid [where i = i and u = uuid]) (use assms in simp_all)

lemma wf_db_useFileReplica:
  assumes "wf_db d" "\<And>x. uuid = Some x \<Longrightarrow> x \<notin> held_uuids d"
  shows "wf_db (useFileReplica jobId fileId uuid d)"
  by (rule useFileReplica_cases [of jobId fileId uuid d])
    (simp_all add: assms(1) wf_db_submit_replica [OF assms])

lemma wf_db_after_status:
  assumes "wf_db d" "\<And>x. uuid = Some x \<Longrightarrow> new \<in> {FAILED, CANCELED} \<Longrightarrow> x \<notin> held_uuids d"
  shows "wf_db (after_status jobType jobState jobId fileId new uuid d)"
  unfolding after_status_def Let_def using assms
  by (cases jobType) (simp_all add: wf_db_useFileReplica wf_db_useNextHop wf_db_setNull)

subsection \<open>The status update, case by case\<close>

lemma keeps_keys_set_transfer_status [simp]:
  "keeps_keys (set_transfer_status e req new m)"
  by (rule keeps_keysI) (simp_all add: set_transfer_status_def)

lemma clears_uuid_set_transfer_status [simp]:
  "clears_uuid (set_transfer_status e req new m)"
  by (rule clears_uuidI) (simp add: set_transfer_status_def)

lemma state_set_transfer_status [simp]:
  "f_file_state (set_transfer_status e req new m r) = new"
  by (simp add: set_transfer_status_def)

lemma uuid_set_transfer_status:
  "terminal_file req \<Longrightarrow> f_dest_surl_uuid (set_transfer_status e req new m r) = None"
  by (auto simp: set_transfer_status_def terminal_file_def)

text \<open>Either nothing happens or one row is rewritten and its siblings follow.\<close>

lemma updateFileTransferStatus_cases:
  assumes "updateFileTransferStatusInternal e jobId0 fileId0 req m d = (d', ok, st)"
  obtains (refused) "d' = d" "ok = False"
  | (updated) jobId fileId row jobType jobState new set where
      "resolve_ids jobId0 fileId0 (processId m) d = (jobId, fileId)" "file_by_id fileId d = Some row"
      "\<not> status_refused (f_file_state row) req (processId m)" "new = req \<or> req = FINISHED \<and> new = ARCHIVING"
      "set = set_transfer_status e req new m"
      "d' = after_status jobType jobState jobId fileId new (f_dest_surl_uuid row)
              (update_files (\<lambda>r. f_file_id r = fileId \<and> f_file_state r = f_file_state row) set d)"
      "ok = True" "st = None"
  using assms unfolding updateFileTransferStatusInternal_def Let_def
  by (cases "resolve_ids jobId0 fileId0 (processId m) d")
     (auto split: option.splits if_splits intro: that)

lemma t_job_after_status [simp]: "t_job (after_status jobType jobState jobId fileId new uuid d) = t_job d"
  unfolding after_status_def Let_def useFileReplica_def submit_replica_def useNextHop_def
    setNullDestSURLMultiHop_def
  by (cases jobType) simp_all

lemma status_refused_terminal: "terminal_file s \<Longrightarrow> status_refused s req pid"
  by (auto simp: status_refused_def terminal_file_def)

lemma status_write_frozen:
  assumes "\<not> status_refused stored req pid"
  shows "rows_rel file_frozen d (update_files (\<lambda>r. f_file_id r = i \<and> f_file_state r = stored)
           (set_transfer_status e req new m) d)"
  using assms by (intro rows_frozen_update_files) (auto dest: status_refused_terminal)

lemma status_write_wf:
  "wf_db d \<Longrightarrow> wf_db (update_files P (set_transfer_status e req new m) d)"
  by (rule wf_db_update_files) simp_all

lemma status_write_releases_uuid:
  assumes "wf_db d" "file_by_id i d = Some row" "f_dest_surl_uuid row = Some x" "terminal_file req"
  shows "x \<notin> held_uuids (update_files (\<lambda>r. f_file_id r = i \<and> f_file_state r = f_file_state row)
           (set_transfer_status e req new m) d)"
  unfolding held_uuids_def t_file_update_files
proof (rule map_filter_cleared [where r = row])
  show "distinct (List.map_filter f_dest_surl_uuid (t_file d))" using assms(1) by (simp add: wf_db_def)
  show "row \<in> set (t_file d)" "f_file_id row = i \<and> f_file_state row = f_file_state row"
    using file_by_id_Some [OF assms(2)] by simp_all
  show "f_dest_surl_uuid row = Some x" by (fact assms(3))
  show "f_dest_surl_uuid (set_transfer_status e req new m s) = None" for s
    by (rule uuid_set_transfer_status) (fact assms(4))
qed

lemma updateFileTransferStatus_t_job:
  assumes "updateFileTransferStatusInternal e jobId fileId req m d = (d', ok, st)"
  shows "t_job d' = t_job d"
  using assms by (cases rule: updateFileTransferStatus_cases) simp_all

lemma updateFileTransferStatus_wf:
  assumes "wf_db d" "updateFileTransferStatusInternal e jobId0 fileId0 req m d = (d', ok, st)"
  shows "wf_db d'"
  using assms(2)
proof (cases rule: updateFileTransferStatus_cases)
  case refused
  then show ?thesis using assms(1) by simp
next
  case (updated jobId fileId row jobType jobState new set)
  let ?d1 = "update_files (\<lambda>r. f_file_id r = fileId \<and> f_file_state r = f_file_state row) set d"
  have "x \<notin> held_uuids ?d1" if "f_dest_surl_uuid row = Some x" "new \<in> {FAILED, CANCELED}" for x
    unfolding updated(5) using that updated(4)
    by (intro status_write_releases_uuid [OF assms(1) updated(2)]) (auto simp: terminal_file_def)
  moreover have "wf_db ?d1" unfolding updated(5) by (rule status_write_wf) (fact assms(1))
  ultimately show ?thesis unfolding updated(6) by (intro wf_db_after_status)
qed

lemma updateFileTransferStatus_frozen:
  assumes "wf_db d" "updateFileTransferStatusInternal e jobId0 fileId0 req m d = (d', ok, st)"
  shows "rows_rel file_frozen d d'"
  using assms(2)
proof (cases rule: updateFileTransferStatus_cases)
  case refused
  then show ?thesis by simp
next
  case (updated jobId fileId row jobType jobState new set)
  let ?d1 = "update_files (\<lambda>r. f_file_id r = fileId \<and> f_file_state r = f_file_state row) set d"
  have "rows_rel file_frozen d ?d1" unfolding updated(5) by (rule status_write_frozen) (fact updated(3))
  moreover have "wf_db ?d1" unfolding updated(5) by (rule status_write_wf) (fact assms(1))
  then have "rows_rel (sibling_change jobId) ?d1 d'"
    unfolding updated(6) by (rule after_status_siblings)
  ultimately show ?thesis
    by (rule rows_rel_trans) (blast intro: file_frozen_trans sibling_change_frozen)
qed

lemma updateFileTransferStatus_frame:
  assumes "wf_db d" "updateFileTransferStatusInternal e jobId0 fileId0 req m d = (d', ok, st)"
    and ids: "resolve_ids jobId0 fileId0 (processId m) d = (jobId, fileId)"
  shows "rows_rel (status_frame jobId fileId) d d'"
  using assms(2)
proof (cases rule: updateFileTransferStatus_cases)
  case refused
  then show ?thesis by (simp add: status_frame_def)
next
  case (updated jobId' fileId' row jobType jobState new set)
  then have eq: "jobId' = jobId" "fileId' = fileId" using ids by simp_all
  let ?d1 = "update_files (\<lambda>r. f_file_id r = fileId \<and> f_file_state r = f_file_state row) set d"
  have "rows_rel (\<lambda>r r'. f_file_id r' = f_file_id r \<and> (f_file_id r \<noteq> fileId \<longrightarrow> r' = r)) d ?d1"
    unfolding updated(5) by (rule rows_rel_update_files) simp_all
  moreover have "wf_db ?d1" unfolding updated(5) by (rule status_write_wf) (fact assms(1))
  then have "rows_rel (sibling_change jobId) ?d1 d'"
    unfolding updated(6) eq by (rule after_status_siblings)
  ultimately show ?thesis
    by (rule rows_rel_trans) (unfold status_frame_def, metis)
qed

text \<open>What a successful update leaves in the row itself.\<close>

lemma sibling_change_other: "sibling_change jobId r r' \<Longrightarrow> f_file_state r \<noteq> NOT_USED \<Longrightarrow> r' = r"
  by (simp add: sibling_change_def)

lemma sibling_change_id: "sibling_change jobId r r' \<Longrightarrow> f_file_id r' = f_file_id r"
  by (drule sibling_change_frozen) (simp add: file_frozen_def)

lemma siblings_keep_row:
  assumes "file_by_id i d = Some r" "rows_rel (sibling_change jobId) d d'" "f_file_state r \<noteq> NOT_USED"
  shows "file_by_id i d' = Some r"
proof -
  from assms(2) have "\<exists>r'. file_by_id i d' = Some r' \<and> sibling_change jobId r r'"
    by (rule rows_rel_file_by_id) (erule sibling_change_id, rule assms(1))
  then show ?thesis using assms(3) by (auto dest: sibling_change_other)
qed

lemma updateFileTransferStatus_row:
  assumes "wf_db d" "updateFileTransferStatusInternal e jobId0 fileId0 req m d = (d', True, st)"
    "resolve_ids jobId0 fileId0 (processId m) d = (jobId, fileId)" "req \<noteq> NOT_USED"
  shows "\<exists>row new. file_by_id fileId d = Some row \<and> (new = req \<or> req = FINISHED \<and> new = ARCHIVING)
    \<and> file_by_id fileId d' = Some (set_transfer_status e req new m row) \<and> st = None"
  using assms(2)
proof (cases rule: updateFileTransferStatus_cases)
  case refused
  then show ?thesis by simp
next
  case (updated jobId' fileId' row jobType jobState new set)
  then have eq: "jobId' = jobId" "fileId' = fileId" using assms(3) by simp_all
  let ?d1 = "update_files (\<lambda>r. f_file_id r = fileId \<and> f_file_state r = f_file_state row) set d"
  have "file_by_id fileId ?d1 = Some (set row)"
    using updated(2) file_by_id_Some [OF updated(2)] unfolding eq updated(5)
    by (simp add: file_by_id_update_files)
  moreover have "wf_db ?d1" unfolding updated(5) by (rule status_write_wf) (fact assms(1))
  then have "rows_rel (sibling_change jobId) ?d1 d'"
    unfolding updated(6) eq by (rule after_status_siblings)
  moreover have "f_file_state (set row) \<noteq> NOT_USED" using updated(4,5) assms(4) by auto
  ultimately have "file_by_id fileId d' = Some (set row)" by (rule siblings_keep_row)
  then show ?thesis using updated(2,4,5,8) eq by blast
qed

text \<open>The update of a row that is neither refused nor already as requested.\<close>

lemma updateFileTransferStatus_eq:
  assumes "resolve_ids jobId0 fileId0 (processId m) d = (jobId, fileId)" "job_by_id jobId d = Some j"
    "file_by_id fileId d = Some row" "\<not> status_refused (f_file_state row) req (processId m)"
    "new \<noteq> f_file_state row"
    "new = (if req = FINISHED \<and> isArchivingTransfer jobId (job_type_of j)
                (case j_archive_timeout j of None \<Rightarrow> -1 | Some t \<Rightarrow> t) d then ARCHIVING else req)"
  shows "updateFileTransferStatusInternal e jobId0 fileId0 req m d =
    (after_status (job_type_of j) (Some (j_job_state j)) jobId fileId new (f_dest_surl_uuid row)
       (update_files (\<lambda>r. f_file_id r = fileId \<and> f_file_state r = f_file_state row)
          (set_transfer_status e req new m) d), True, None)"
proof -
  have "set_transfer_status e req new m row \<noteq> row"
    using assms(5) by (metis state_set_transfer_status)
  then show ?thesis
    unfolding updateFileTransferStatusInternal_def Let_def assms(1) using assms(2-)
    by simp
qed

text \<open>
  Failover. When a replica fails in a live job, no other replica is running and an unused one
  is left, one unused replica is submitted and takes over the destination lock.
\<close>

lemma submit_replica_row:
  assumes "file_by_id i d = Some r" "f_job_id r = jobId" "f_file_state r = NOT_USED"
  shows "file_by_id i (submit_replica jobId uuid i d)
    = Some (r\<lparr>f_file_state := SUBMITTED, f_finish_time := None, f_dest_surl_uuid := uuid\<rparr>)"
  using assms file_by_id_Some [OF assms(1)]
  by (simp add: submit_replica_def file_by_id_update_files)

lemma useFileReplica_chooses:
  assumes "wf_db d" "not_used_of jobId d \<noteq> []"
    "filter (\<lambda>r. f_file_state r \<in> {READY, ACTIVE}) (files_of_job jobId d) = []"
  shows "\<exists>i \<in> f_file_id ` set (not_used_of jobId d).
    useFileReplica jobId fileId uuid d = submit_replica jobId uuid i d"
proof -
  have least: "min_id (map f_file_id (not_used_of jobId d)) \<in> f_file_id ` set (not_used_of jobId d)"
    using getNextHop_least [OF assms(2)] by (simp add: getNextHop_def)
  have best: "0 < getBestNextReplica jobId vo d"
    "getBestNextReplica jobId vo d \<in> f_file_id ` set (not_used_of jobId d)" for vo
    using getBestNextReplica_pos [OF assms(1,2)] getBestNextReplica_in by simp_all
  show ?thesis
    unfolding useFileReplica_def Let_def assms(3)
    by (simp only: list.size less_irrefl if_False best(1) if_True) (rule if_choice, rule best(2), rule least)
qed

lemma useFileReplica_submits:
  assumes "wf_db d" "not_used_of jobId d \<noteq> []"
    "\<And>r. r \<in> set (files_of_job jobId d) \<Longrightarrow> f_file_state r \<notin> {READY, ACTIVE}"
  shows "\<exists>r. r \<in> set (not_used_of jobId d) \<and> file_by_id (f_file_id r) (useFileReplica jobId fileId uuid d)
    = Some (r\<lparr>f_file_state := SUBMITTED, f_finish_time := None, f_dest_surl_uuid := uuid\<rparr>)"
proof -
  have "filter (\<lambda>r. f_file_state r \<in> {READY, ACTIVE}) (files_of_job jobId d) = []"
    using assms(3) by (simp add: filter_empty_conv)
  then obtain i where i: "i \<in> f_file_id ` set (not_used_of jobId d)"
    "useFileReplica jobId fileId uuid d = submit_replica jobId uuid i d"
    using useFileReplica_chooses [OF assms(1,2)] by meson
  from i(1) obtain r where r: "r \<in> set (not_used_of jobId d)" "f_file_id r = i" by (rule imageE) simp
  then have "file_by_id i d = Some r"
    using wf_db_file_by_id [OF assms(1), of r] by (simp add: set_not_used_of)
  then have "file_by_id i (submit_replica jobId uuid i d)
    = Some (r\<lparr>f_file_state := SUBMITTED, f_finish_time := None, f_dest_surl_uuid := uuid\<rparr>)"
    using r(1) by (intro submit_replica_row) (simp_all add: set_not_used_of)
  then show ?thesis using r i(2) by (intro exI [of _ r]) simp
qed

lemma not_used_of_status_write:
  assumes "wf_db d" "file_by_id i d = Some row" "f_file_state row \<noteq> NOT_USED" "new \<noteq> NOT_USED"
  shows "not_used_of jobId (update_files (\<lambda>r. f_file_id r = i \<and> f_file_state r = f_file_state row)
            (set_transfer_status e req new m) d) = not_used_of jobId d"
  unfolding not_used_of_def files_of_job_def t_file_update_files filter_filter
  by (rule filter_update_where) (use assms(3,4) in simp)

lemma active_status_write:
  assumes "r' \<in> set (files_of_job jobId (update_files (\<lambda>r. f_file_id r = i \<and> f_file_state r = stored)
            (set_transfer_status e req new m) d))"
    "new \<notin> {READY, ACTIVE}"
    "\<And>r. r \<in> set (files_of_job jobId d) \<Longrightarrow> f_file_id r \<noteq> i \<Longrightarrow> f_file_state r \<notin> {READY, ACTIVE}"
    "\<And>r. r \<in> set (t_file d) \<Longrightarrow> f_file_id r = i \<Longrightarrow> f_file_state r = stored"
  shows "f_file_state r' \<notin> {READY, ACTIVE}"
proof -
  let ?P = "\<lambda>r. f_file_id r = i \<and> f_file_state r = stored"
  from assms(1) have r': "r' \<in> set (update_where ?P (set_transfer_status e req new m) (t_file d))"
    and job: "f_job_id r' = jobId" by (simp_all add: files_of_job_def)
  from r' show ?thesis
  proof (cases rule: in_update_whereE)
    case (changed r)
    then show ?thesis using assms(2) by simp
  next
    case kept
    then have "f_file_id r' \<noteq> i" using assms(4) by blast
    then show ?thesis using assms(3) kept(1) job by (simp add: files_of_job_def)
  qed
qed

lemma replica_failover_rows:
  assumes wf: "wf_db d" and job: "job_by_id jobId d = Some j" "job_type_of j = kTypeMultipleReplica"
    "j_job_state j \<notin> {J_CANCELED, J_FAILED}"
    and frow: "file_by_id fileId d = Some row" "\<not> terminal_file (f_file_state row)"
      "f_file_state row \<noteq> NOT_USED"
    and ids: "jobId \<noteq> []" "fileId \<noteq> 0" and req: "req \<in> {FAILED, CANCELED}"
    and left: "not_used_of jobId d \<noteq> []"
    and idle: "\<And>r. r \<in> set (files_of_job jobId d) \<Longrightarrow> f_file_id r \<noteq> fileId \<Longrightarrow> f_file_state r \<notin> {READY, ACTIVE}"
  shows "\<exists>r. r \<in> set (not_used_of jobId d) \<and>
    file_by_id (f_file_id r) (fst (updateFileTransferStatusInternal e jobId fileId req m d))
      = Some (r\<lparr>f_file_state := SUBMITTED, f_finish_time := None, f_dest_surl_uuid := f_dest_surl_uuid row\<rparr>)"
proof -
  let ?d1 = "update_files (\<lambda>r. f_file_id r = fileId \<and> f_file_state r = f_file_state row)
               (set_transfer_status e req req m) d"
  have res: "resolve_ids jobId fileId (processId m) d = (jobId, fileId)"
    using ids by (simp add: resolve_ids_def)
  have "\<not> status_refused (f_file_state row) req (processId m)" "req \<noteq> f_file_state row" "req \<noteq> FINISHED"
    using frow(2) req by (auto simp: status_refused_def terminal_file_def)
  then have eq: "fst (updateFileTransferStatusInternal e jobId fileId req m d)
      = useFileReplica jobId fileId (f_dest_surl_uuid row) ?d1"
    using updateFileTransferStatus_eq [OF res job(1) frow(1), of req req] job(2,3) req
    by (simp add: after_status_def)
  have nu: "not_used_of jobId ?d1 = not_used_of jobId d"
    using wf frow(1,3) req by (intro not_used_of_status_write) auto
  have "f_file_state r \<notin> {READY, ACTIVE}" if "r \<in> set (files_of_job jobId ?d1)" for r
  proof (rule active_status_write [OF that])
    show "req \<notin> {READY, ACTIVE}" using req by auto
    show "f_file_state s \<notin> {READY, ACTIVE}" if "s \<in> set (files_of_job jobId d)" "f_file_id s \<noteq> fileId" for s
      using idle that by simp
    show "f_file_state s = f_file_state row" if "s \<in> set (t_file d)" "f_file_id s = fileId" for s
      using wf_db_file_by_id [OF wf that(1)] that(2) frow(1) by simp
  qed
  moreover have "wf_db ?d1" by (rule status_write_wf) (fact wf)
  ultimately show ?thesis
    using useFileReplica_submits [of ?d1 jobId fileId "f_dest_surl_uuid row"] left
    unfolding eq nu by blast
qed

text \<open>The next hop of a multihop job.\<close>

lemma useNextHop_row:
  assumes "file_by_id i d = Some r" "f_file_state r = NOT_USED" "getNextHop jobId d = i" "i \<noteq> 0"
  shows "file_by_id i (useNextHop jobId d) = Some (r\<lparr>f_file_state := SUBMITTED, f_finish_time := None\<rparr>)"
proof -
  have keys: "keeps_keys (\<lambda>r. r\<lparr>f_file_state := SUBMITTED, f_finish_time := None\<rparr>)"
    by (rule keeps_keysI) simp_all
  show ?thesis
    using assms file_by_id_Some [OF assms(1)]
    by (simp add: useNextHop_def Let_def file_by_id_update_files [OF keys])
qed

lemma multihop_advance:
  assumes wf: "wf_db d" and job: "job_by_id jobId d = Some j" "job_type_of j = kTypeMultiHop"
    "j_job_state j \<notin> {J_CANCELED, J_FAILED}"
    and frow: "file_by_id fileId d = Some row" "\<not> terminal_file (f_file_state row)"
      "f_file_state row \<noteq> NOT_USED"
    and ids: "jobId \<noteq> []" "fileId \<noteq> 0"
    and left: "not_used_of jobId d \<noteq> []"
  shows "\<exists>r. r \<in> set (not_used_of jobId d) \<and> (\<forall>s \<in> set (not_used_of jobId d). f_file_id r \<le> f_file_id s) \<and>
    file_by_id (f_file_id r) (fst (updateFileTransferStatusInternal e jobId fileId FINISHED m d))
      = Some (r\<lparr>f_file_state := SUBMITTED, f_finish_time := None\<rparr>)"
proof -
  let ?d1 = "update_files (\<lambda>r. f_file_id r = fileId \<and> f_file_state r = f_file_state row)
               (set_transfer_status e FINISHED FINISHED m) d"
  have res: "resolve_ids jobId fileId (processId m) d = (jobId, fileId)"
    using ids by (simp add: resolve_ids_def)
  have "\<not> isArchivingTransfer jobId (job_type_of j) a d" for a
    using left getNextHop_0 [OF wf, of jobId] job(2) by (simp add: isArchivingTransfer_def)
  moreover have "\<not> status_refused (f_file_state row) FINISHED (processId m)" "FINISHED \<noteq> f_file_state row"
    using frow(2) by (auto simp: status_refused_def terminal_file_def)
  ultimately have eq: "fst (updateFileTransferStatusInternal e jobId fileId FINISHED m d) = useNextHop jobId ?d1"
    using updateFileTransferStatus_eq [OF res job(1) frow(1), of FINISHED FINISHED] job(2,3)
    by (simp add: after_status_def)
  have nu: "not_used_of jobId ?d1 = not_used_of jobId d"
    using wf frow(1,3) by (intro not_used_of_status_write) auto
  then have hop: "getNextHop jobId ?d1 = getNextHop jobId d" by (simp add: getNextHop_def)
  from getNextHop_least [OF left] obtain r where r: "r \<in> set (not_used_of jobId d)"
    "f_file_id r = getNextHop jobId d" "\<forall>i \<in> f_file_id ` set (not_used_of jobId d). getNextHop jobId d \<le> i"
    by (metis (no_types) imageE)
  have "r \<in> set (not_used_of jobId ?d1)" using r(1) nu by simp
  then have r1: "r \<in> set (t_file ?d1)" "f_file_state r = NOT_USED" by (simp_all add: set_not_used_of)
  moreover have "wf_db ?d1" by (rule status_write_wf) (fact wf)
  ultimately have "file_by_id (f_file_id r) ?d1 = Some r" by (intro wf_db_file_by_id)
  moreover have "f_file_id r \<noteq> 0" using r(2) left getNextHop_0 [OF wf, of jobId] by simp
  ultimately show ?thesis
    unfolding eq using r r1 by (intro exI [of _ r] conjI ballI useNextHop_row) (simp_all add: hop)
qed

lemma terminal_rows_kept:
  assumes "wf_db d" "updateFileTransferStatusInternal e jobId0 fileId0 req m d = (d', ok, st)"
    and row: "file_by_id i d = Some r" "terminal_file (f_file_state r)"
  shows "file_by_id i d' = Some r"
  using assms(2)
proof (cases rule: updateFileTransferStatus_cases)
  case refused
  then show ?thesis using row by simp
next
  case (updated jobId fileId row' jobType jobState new set)
  let ?d1 = "update_files (\<lambda>r. f_file_id r = fileId \<and> f_file_state r = f_file_state row') set d"
  have "f_file_state row' \<noteq> f_file_state r" using updated(3) row(2) status_refused_terminal by metis
  then have "file_by_id i ?d1 = Some r"
    using row(1) unfolding updated(5) by (simp add: file_by_id_update_files)
  moreover have "wf_db ?d1" unfolding updated(5) by (rule status_write_wf) (fact assms(1))
  then have "rows_rel (sibling_change jobId) ?d1 d'" unfolding updated(6) by (rule after_status_siblings)
  moreover have "f_file_state r \<noteq> NOT_USED" using row(2) by (auto simp: terminal_file_def)
  ultimately show ?thesis by (rule siblings_keep_row)
qed

subsection \<open>Properties\<close>

lemma sample_report_pid [simp]: "processId sample_report = 0"
  by (simp add: sample_report_def)

lemma sample_status_wf: "wf_db (sample_status_db ty)"
  by (simp add: wf_db_def sample_status_db_def List.map_filter_simps)

text \<open>
  C1: a status update keeps the constraints of the schema (unique destination locks included)
  and the jobs table; it changes nothing when it reports that the row was not updated; a file in
  a terminal state stays exactly as it is; and the only other rows it can change are unused files
  of the same job, which are submitted or give up their destination lock.
\<close>

theorem status_update_safe:
  assumes "wf_db d"
  shows "case updateFileTransferStatusInternal e jobId fileId req m d of (d', ok, st) \<Rightarrow>
    wf_db d' \<and> t_job d' = t_job d \<and> (\<not> ok \<longrightarrow> d' = d) \<and>
    (case resolve_ids jobId fileId (processId m) d of (j, i) \<Rightarrow> rows_rel (status_frame j i) d d') \<and>
    (\<forall>r \<in> set (t_file d). terminal_file (f_file_state r) \<longrightarrow> r \<in> set (t_file d'))"
proof (clarsimp split: prod.split, intro conjI allI impI)
  fix d' ok st
  assume upd: "updateFileTransferStatusInternal e jobId fileId req m d = (d', ok, st)"
  show "wf_db d'" using assms upd by (rule updateFileTransferStatus_wf)
  show "t_job d' = t_job d" using upd by (rule updateFileTransferStatus_t_job)
  show "d' = d" if "\<not> ok" using upd that by (cases rule: updateFileTransferStatus_cases) simp_all
  show "rows_rel (status_frame j i) d d'" if "resolve_ids jobId fileId (processId m) d = (j, i)" for j i
    using assms upd that by (rule updateFileTransferStatus_frame)
  show "\<forall>r \<in> set (t_file d). terminal_file (f_file_state r) \<longrightarrow> r \<in> set (t_file d')"
  proof (intro ballI impI)
    fix r assume "r \<in> set (t_file d)" "terminal_file (f_file_state r)"
    then have "file_by_id (f_file_id r) d' = Some r"
      using terminal_rows_kept [OF assms upd] wf_db_file_by_id [OF assms] by metis
    then show "r \<in> set (t_file d')" by (auto dest: file_by_id_Some)
  qed
qed

theorem status_update_safe_witness:
  "wf_db (sample_status_db kTypeMultiHop) \<and>
   wf_db (fst (updateFileTransferStatusInternal sample_env ''j'' 1 FINISHED sample_report
     (sample_status_db kTypeMultiHop)))"
  using status_update_safe [OF sample_status_wf [of kTypeMultiHop], of "''j''" 1 sample_report sample_env FINISHED]
  by (simp add: sample_status_wf split: prod.splits)

text \<open>
  Two servers never both start a transfer. The scheduler claims a file by writing READY with
  pid 0; once that update has succeeded, any further attempt to claim it is refused, with the state
  READY as the answer and the database as it was.
\<close>

lemma no_double_start:
  assumes "wf_db d" "jobId \<noteq> []" "fileId \<noteq> 0" "processId m' = 0"
    "updateFileTransferStatusInternal e jobId fileId READY m d = (d', True, st)"
  shows "updateFileTransferStatusInternal e' jobId fileId READY m' d' = (d', False, Some READY)"
proof -
  have res: "resolve_ids jobId fileId p d'' = (jobId, fileId)" for p d''
    using assms(2,3) by (simp add: resolve_ids_def)
  from updateFileTransferStatus_row [OF assms(1,5) res] obtain row where
    "file_by_id fileId d' = Some (set_transfer_status e READY READY m row)" by auto
  then show ?thesis
    unfolding updateFileTransferStatusInternal_def res using assms(4)
    by (simp add: status_refused_def)
qed

text \<open>A waiting file of the sample.\<close>

lemma sample_claim:
  "updateFileTransferStatusInternal sample_env ''k'' 4 READY sample_report (sample_status_db kTypeRegular)
    = (fst (updateFileTransferStatusInternal sample_env ''k'' 4 READY sample_report (sample_status_db kTypeRegular)),
       True, None)"
  using updateFileTransferStatus_eq [of "''k''" 4 sample_report "sample_status_db kTypeRegular" "''k''" 4
      "sample_job ''k'' None J_SUBMITTED" "sample_file 4 ''k'' 0 SUBMITTED" READY READY sample_env]
  by (simp add: resolve_ids_def sample_status_db_def job_by_id_def file_by_id_def status_refused_def)

text \<open>
  C7: failover. When a file of a live multiple replica job fails or is canceled, no other replica
  of the job is running and an unused replica is left, then one unused replica is submitted and
  takes over the destination lock of the failed one.
\<close>

theorem replica_failover:
  assumes "wf_db d" "job_by_id jobId d = Some j" "job_type_of j = kTypeMultipleReplica"
    "j_job_state j \<notin> {J_CANCELED, J_FAILED}"
    "file_by_id fileId d = Some row" "\<not> terminal_file (f_file_state row)" "f_file_state row \<noteq> NOT_USED"
    "jobId \<noteq> []" "fileId \<noteq> 0" "req \<in> {FAILED, CANCELED}" "not_used_of jobId d \<noteq> []"
    "\<And>r. r \<in> set (files_of_job jobId d) \<Longrightarrow> f_file_id r \<noteq> fileId \<Longrightarrow> f_file_state r \<notin> {READY, ACTIVE}"
  shows "\<exists>r. r \<in> set (not_used_of jobId d) \<and>
    file_by_id (f_file_id r) (fst (updateFileTransferStatusInternal e jobId fileId req m d))
      = Some (r\<lparr>f_file_state := SUBMITTED, f_finish_time := None, f_dest_surl_uuid := f_dest_surl_uuid row\<rparr>)"
  using assms by (rule replica_failover_rows)

theorem replica_failover_witness:
  "\<exists>r. r \<in> set (not_used_of ''j'' (sample_status_db kTypeMultipleReplica)) \<and>
    file_by_id (f_file_id r) (fst (updateFileTransferStatusInternal sample_env ''j'' 1 FAILED sample_report
       (sample_status_db kTypeMultipleReplica)))
      = Some (r\<lparr>f_file_state := SUBMITTED, f_finish_time := None, f_dest_surl_uuid := Some ''u''\<rparr>)"
proof -
  let ?d = "sample_status_db kTypeMultipleReplica"
  have j: "job_by_id ''j'' ?d = Some (sample_job ''j'' (Some kTypeMultipleReplica) J_ACTIVE)"
    by (simp add: job_by_id_def sample_status_db_def)
  have r: "file_by_id 1 ?d = Some ((sample_file 1 ''j'' 0 ACTIVE)\<lparr>f_dest_surl_uuid := Some ''u''\<rparr>)"
    by (simp add: file_by_id_def sample_status_db_def)
  have nu: "not_used_of ''j'' ?d = [sample_file 2 ''j'' 0 NOT_USED, sample_file 3 ''j'' 0 NOT_USED]"
    by (simp add: not_used_of_def files_of_job_def sample_status_db_def)
  have idle: "f_file_state r \<notin> {READY, ACTIVE}" if "r \<in> set (files_of_job ''j'' ?d)" "f_file_id r \<noteq> 1" for r
    using that by (auto simp: files_of_job_def sample_status_db_def)
  show ?thesis
    using replica_failover [OF sample_status_wf j _ _ r, of FAILED sample_env sample_report] idle
    by (simp add: nu job_type_of_def terminal_file_def)
qed

text \<open>
  C8: when a hop of a live multihop job finishes and unused hops are left, the unused hop with the
  least file id is submitted and keeps its other columns.
\<close>

theorem multihop_next_hop:
  assumes "wf_db d" "job_by_id jobId d = Some j" "job_type_of j = kTypeMultiHop"
    "j_job_state j \<notin> {J_CANCELED, J_FAILED}"
    "file_by_id fileId d = Some row" "\<not> terminal_file (f_file_state row)" "f_file_state row \<noteq> NOT_USED"
    "jobId \<noteq> []" "fileId \<noteq> 0" "not_used_of jobId d \<noteq> []"
  shows "\<exists>r. r \<in> set (not_used_of jobId d) \<and> (\<forall>s \<in> set (not_used_of jobId d). f_file_id r \<le> f_file_id s) \<and>
    file_by_id (f_file_id r) (fst (updateFileTransferStatusInternal e jobId fileId FINISHED m d))
      = Some (r\<lparr>f_file_state := SUBMITTED, f_finish_time := None\<rparr>)"
  using assms by (rule multihop_advance)

theorem multihop_next_hop_witness:
  "file_by_id 2 (fst (updateFileTransferStatusInternal sample_env ''j'' 1 FINISHED sample_report
       (sample_status_db kTypeMultiHop))) = Some (sample_file 2 ''j'' 0 SUBMITTED)"
proof -
  let ?d = "sample_status_db kTypeMultiHop"
  have sub: "(sample_file 2 ''j'' 0 NOT_USED)\<lparr>f_file_state := SUBMITTED, f_finish_time := None\<rparr>
    = sample_file 2 ''j'' 0 SUBMITTED" by (simp add: sample_file_def)
  have j: "job_by_id ''j'' ?d = Some (sample_job ''j'' (Some kTypeMultiHop) J_ACTIVE)"
    by (simp add: job_by_id_def sample_status_db_def)
  have r: "file_by_id 1 ?d = Some ((sample_file 1 ''j'' 0 ACTIVE)\<lparr>f_dest_surl_uuid := Some ''u''\<rparr>)"
    by (simp add: file_by_id_def sample_status_db_def)
  have nu: "not_used_of ''j'' ?d = [sample_file 2 ''j'' 0 NOT_USED, sample_file 3 ''j'' 0 NOT_USED]"
    by (simp add: not_used_of_def files_of_job_def sample_status_db_def)
  show ?thesis
    using multihop_next_hop [OF sample_status_wf j _ _ r, of sample_env sample_report]
    by (auto simp: nu sub job_type_of_def terminal_file_def)
qed

end
