(* ===== verification/JobStatus.thy ===== *)
theory JobStatus
  imports FileStatus
begin

section \<open>The life of a job: updateJobTransferStatusInternal\<close>

text \<open>
  \<^verbatim>\<open>src/db/mysql/MySqlAPI.cpp\<close>, \<open>updateJobTransferStatusInternal\<close>: after the state of a file
  has changed, the state of its job is derived from all its files. The function counts
  distinct file indexes, so the replicas of one index are one file; from the counts it decides
  whether the job is over and how it ended.

  The specification of that decision is \<open>job_spec\<close>, stated on the outcome of each index, and
  \<open>job_decision_refines\<close> shows that the counting computes it.
\<close>

record job_counts =
  inJob :: int
  canceled :: int
  finished :: int
  staging :: int
  archiving :: int
  failed :: int

definition count_index :: "(file_state \<Rightarrow> bool) \<Rightarrow> file_row list \<Rightarrow> int" where
  "count_index P rows = int (count_distinct f_file_index (filter (\<lambda>r. P (f_file_state r)) rows))"

definition job_counts_of :: "job_id \<Rightarrow> db \<Rightarrow> job_counts" where
  "job_counts_of jobId d =
     (let rows = files_of_job jobId d;
          numberOfFilesInJob = count_index (\<lambda>s. True) rows;
          numberOfFilesNotCanceled = count_index (\<lambda>s. s \<noteq> CANCELED) rows;
          numberOfFilesCanceled = numberOfFilesInJob - numberOfFilesNotCanceled;
          numberOfFilesNotCanceledNorFailed = count_index (\<lambda>s. s \<noteq> CANCELED \<and> s \<noteq> FAILED) rows
      in \<lparr>inJob = numberOfFilesInJob, canceled = numberOfFilesCanceled,
          finished = count_index (\<lambda>s. s = FINISHED) rows,
          staging = count_index (\<lambda>s. s = STAGING \<or> s = STARTED) rows,
          archiving = count_index (\<lambda>s. s = ARCHIVING) rows,
          failed = numberOfFilesInJob - numberOfFilesNotCanceledNorFailed - numberOfFilesCanceled\<rparr>)"

definition numberOfFilesTerminal :: "job_counts \<Rightarrow> int" where
  "numberOfFilesTerminal c = canceled c + failed c + finished c"

definition jobFinished :: "JobType \<Rightarrow> job_counts \<Rightarrow> bool" where
  "jobFinished jobType c \<longleftrightarrow> inJob c = numberOfFilesTerminal c \<or>
     (jobType = kTypeMultiHop \<and> failed c + canceled c > 0)"

definition failed_reason :: string where
  "failed_reason = ''One or more files failed. Please have a look at the details for more information''"

definition job_verdict :: "JobType \<Rightarrow> job_counts \<Rightarrow> job_state \<times> string" where
  "job_verdict jobType c =
     (if finished c > 0 \<and> failed c > 0 then
        (if jobType = kTypeMultiHop then J_FAILED else J_FINISHEDDIRTY, failed_reason)
      else if inJob c = finished c then (J_FINISHED, '''')
      else if failed c > 0 then (J_FAILED, failed_reason)
      else if canceled c > 0 then (J_CANCELED, failed_reason)
      else (J_FAILED, ''Inconsistent internal state!''))"

text \<open>
  \<^verbatim>\<open>UPDATE t_job SET .. WHERE job_id = :jobId AND job_state NOT IN (..)\<close> with the four
  terminal states. One update also excludes ACTIVE, which it could only write over itself.
\<close>

definition update_live_job :: "job_id \<Rightarrow> (job_row \<Rightarrow> job_row) \<Rightarrow> db \<Rightarrow> db" where
  "update_live_job jobId f d =
     update_jobs (\<lambda>j. j_job_id j = jobId \<and> \<not> terminal_job (j_job_state j)) f d"

definition end_job :: "env \<Rightarrow> job_state \<Rightarrow> string \<Rightarrow> job_row \<Rightarrow> job_row" where
  "end_job e st reason j = j\<lparr>j_job_state := st, j_job_finished := Some (now e), j_reason := reason\<rparr>"

definition source_of :: "job_id \<Rightarrow> file_state \<Rightarrow> db \<Rightarrow> string" where
  "source_of jobId st d =
     (case select_first (\<lambda>r. f_file_state r = st) (files_of_job jobId d) of
        None \<Rightarrow> '''' | Some r \<Rightarrow> f_source_se r)"

definition cancel_unused :: "job_id \<Rightarrow> db \<Rightarrow> db" where
  "cancel_unused jobId d =
     update_files (\<lambda>r. f_job_id r = jobId \<and> f_file_state r = NOT_USED)
       (\<lambda>r. r\<lparr>f_file_state := CANCELED\<rparr>) d"

text \<open>
  The part after the counting: the job is over. \<open>cancelUnused\<close> is the server option
  \<^verbatim>\<open>CancelUnusedMultihopFiles\<close>. A job that already has the state computed here is left
  alone, and so are its unused files.
\<close>

definition finish_job ::
  "env \<Rightarrow> bool \<Rightarrow> job_id \<Rightarrow> job_row \<Rightarrow> string \<Rightarrow> job_counts \<Rightarrow> db \<Rightarrow> db" where
  "finish_job e cancelUnused jobId job sourceSe c d =
     (case job_verdict (job_type_of job) c of (state, reason) \<Rightarrow>
        if j_job_state job = state then d
        else
          let d1 = update_live_job jobId
                     (\<lambda>j. if sourceSe \<noteq> '''' then (end_job e state reason j)\<lparr>j_source_se := Some sourceSe\<rparr>
                          else end_job e state reason j) d
          in if cancelUnused \<and> job_type_of job = kTypeMultiHop then cancel_unused jobId d1 else d1)"

definition set_job_state :: "job_state option \<Rightarrow> job_row \<Rightarrow> job_row" where
  "set_job_state st j = (case st of None \<Rightarrow> j | Some s \<Rightarrow> j\<lparr>j_job_state := s\<rparr>)"

text \<open>The part after the counting: the job goes on.\<close>

definition continue_job :: "job_id \<Rightarrow> file_state \<Rightarrow> job_row \<Rightarrow> job_counts \<Rightarrow> db \<Rightarrow> db" where
  "continue_job jobId state job c d =
     (let unstaged = (j_job_state job = J_STAGING \<and> staging c = 0) in
      if state \<in> {ACTIVE, STAGING, SUBMITTED} \<or> unstaged then
        update_live_job jobId
          (set_job_state (if unstaged then Some J_SUBMITTED else job_state_named state)) d
      else if archiving c > 0 \<and> inJob c = numberOfFilesTerminal c + archiving c then
        update_live_job jobId (set_job_state (Some J_ARCHIVING)) d
      else d)"

text \<open>
  The whole function. It always returns true. Without a row in \<^verbatim>\<open>t_job\<close> none of its
  statements matches a row: a file cannot belong to a job that does not exist.
\<close>

definition updateJobTransferStatusInternal :: "env \<Rightarrow> bool \<Rightarrow> job_id \<Rightarrow> file_state \<Rightarrow> db \<Rightarrow> db" where
  "updateJobTransferStatusInternal e cancelUnused jobId state d =
     (case job_by_id jobId d of None \<Rightarrow> d | Some job \<Rightarrow>
        let jobType = job_type_of job; currentState = j_job_state job in
        if job_state_named state = Some currentState then d
        else if currentState = J_STAGING \<and> state = STARTED then d
        else if jobType = kTypeMultipleReplica \<and> currentState = J_ARCHIVING \<and> state = FAILED then
          update_live_job jobId
            (\<lambda>j. (end_job e J_FAILED ''Archive monitoring failed in a multiple replica job'' j)
                   \<lparr>j_source_se := Some (source_of jobId FAILED d)\<rparr>) d
        else if state = ACTIVE \<and> jobType = kTypeRegular then
          update_live_job jobId (set_job_state (Some J_ACTIVE)) d
        else if state \<in> {FINISHED, FAILED} \<and> jobType = kTypeRegular \<and>
                (\<exists>r \<in> set (files_of_job jobId d). f_file_state r = SUBMITTED) then d
        else
          let sourceSe = (if state = FINISHED \<and> jobType = kTypeMultipleReplica
                          then source_of jobId FINISHED d else '''');
              c = job_counts_of jobId d
          in if jobFinished jobType c then finish_job e cancelUnused jobId job sourceSe c d
             else continue_job jobId state job c d)"

subsection \<open>Specification: the outcome of each file index\<close>

datatype outcome = Finished | Failed | Canceled | Ongoing

definition replica_states :: "int \<Rightarrow> file_row list \<Rightarrow> file_state set" where
  "replica_states i rows = f_file_state ` {r \<in> set rows. f_file_index r = Some i}"

definition indexes :: "file_row list \<Rightarrow> int set" where
  "indexes rows = {i. \<exists>r \<in> set rows. f_file_index r = Some i}"

text \<open>
  One replica that finished is enough; a file is canceled when all replicas are, and failed when
  all replicas are canceled or failed and at least one failed.
\<close>

definition index_outcome :: "file_state set \<Rightarrow> outcome" where
  "index_outcome S =
     (if FINISHED \<in> S then Finished
      else if S \<subseteq> {CANCELED} then Canceled
      else if S \<subseteq> {CANCELED, FAILED} then Failed else Ongoing)"

definition outcomes :: "file_row list \<Rightarrow> outcome set" where
  "outcomes rows = (\<lambda>i. index_outcome (replica_states i rows)) ` indexes rows"

definition job_spec :: "JobType \<Rightarrow> outcome set \<Rightarrow> job_state option" where
  "job_spec jobType Os =
     (if Ongoing \<notin> Os \<or> (jobType = kTypeMultiHop \<and> (Failed \<in> Os \<or> Canceled \<in> Os)) then
        Some (if Failed \<in> Os then
                (if Finished \<in> Os \<and> jobType \<noteq> kTypeMultiHop then J_FINISHEDDIRTY else J_FAILED)
              else if Canceled \<in> Os then J_CANCELED else J_FINISHED)
      else None)"

definition job_decision :: "JobType \<Rightarrow> job_counts \<Rightarrow> job_state option" where
  "job_decision jobType c = (if jobFinished jobType c then Some (fst (job_verdict jobType c)) else None)"

text \<open>
  The effect on the other table: an unused file of the job may be canceled.
\<close>

definition cancel_change :: "job_id \<Rightarrow> file_row \<Rightarrow> file_row \<Rightarrow> bool" where
  "cancel_change jobId r r' \<longleftrightarrow> r' = r \<or>
     (f_job_id r = jobId \<and> f_file_state r = NOT_USED \<and> r' = r\<lparr>f_file_state := CANCELED\<rparr>)"

subsection \<open>The counts are cardinalities of outcome classes\<close>

definition with_outcome :: "outcome \<Rightarrow> file_row list \<Rightarrow> int set" where
  "with_outcome out rows = {i \<in> indexes rows. index_outcome (replica_states i rows) = out}"

definition some_replica :: "(file_state \<Rightarrow> bool) \<Rightarrow> file_row list \<Rightarrow> int set" where
  "some_replica P rows = {i \<in> indexes rows. \<exists>s \<in> replica_states i rows. P s}"

lemma finite_indexes [simp]: "finite (indexes rows)"
  unfolding indexes_def by (rule finite_keys)

lemma finite_with_outcome [simp]: "finite (with_outcome out rows)"
  by (rule finite_subset [OF _ finite_indexes [of rows]]) (auto simp: with_outcome_def)

lemma count_index_card: "count_index P rows = int (card (some_replica P rows))"
proof -
  have "{k. \<exists>r \<in> set (filter (\<lambda>r. P (f_file_state r)) rows). f_file_index r = Some k} = some_replica P rows"
    by (auto simp: some_replica_def indexes_def replica_states_def)
  then show ?thesis by (simp only: count_index_def count_distinct_card)
qed

lemma replica_states_nonempty: "i \<in> indexes rows \<Longrightarrow> replica_states i rows \<noteq> {}"
  by (auto simp: indexes_def replica_states_def)

text \<open>The four classes split the indexes, and each SQL selection is a union of classes.\<close>

lemma some_replica_classes:
  shows "some_replica (\<lambda>s. True) rows = indexes rows"
    and "indexes rows - some_replica (\<lambda>s. s \<noteq> CANCELED) rows = with_outcome Canceled rows"
    and "some_replica (\<lambda>s. s = FINISHED) rows = with_outcome Finished rows"
    and "indexes rows - some_replica (\<lambda>s. s \<noteq> CANCELED \<and> s \<noteq> FAILED) rows
         = with_outcome Canceled rows \<union> with_outcome Failed rows"
proof -
  show "some_replica (\<lambda>s. True) rows = indexes rows"
    using replica_states_nonempty by (auto simp: some_replica_def)
  show "indexes rows - some_replica (\<lambda>s. s \<noteq> CANCELED) rows = with_outcome Canceled rows"
    by (auto simp: some_replica_def with_outcome_def index_outcome_def split: if_splits)
  show "some_replica (\<lambda>s. s = FINISHED) rows = with_outcome Finished rows"
    by (auto simp: some_replica_def with_outcome_def index_outcome_def split: if_splits)
  show "indexes rows - some_replica (\<lambda>s. s \<noteq> CANCELED \<and> s \<noteq> FAILED) rows
         = with_outcome Canceled rows \<union> with_outcome Failed rows"
    by (auto simp: some_replica_def with_outcome_def index_outcome_def split: if_splits)
qed

lemma some_replica_subset: "some_replica P rows \<subseteq> indexes rows"
  by (auto simp: some_replica_def)

lemma count_complement:
  "int (card (indexes rows)) - count_index P rows = int (card (indexes rows - some_replica P rows))"
proof -
  have "card (some_replica P rows) \<le> card (indexes rows)"
    by (rule card_mono) (simp_all add: some_replica_subset)
  moreover have "card (indexes rows - some_replica P rows) = card (indexes rows) - card (some_replica P rows)"
    by (rule card_Diff_subset) (auto intro: finite_subset [OF some_replica_subset] simp: some_replica_subset)
  ultimately show ?thesis by (simp add: count_index_card)
qed

lemma with_outcome_disjoint: "a \<noteq> b \<Longrightarrow> with_outcome a rows \<inter> with_outcome b rows = {}"
  by (auto simp: with_outcome_def)

lemma with_outcome_cover:
  "indexes rows = with_outcome Finished rows \<union> with_outcome Failed rows \<union> with_outcome Canceled rows
     \<union> with_outcome Ongoing rows"
proof (rule set_eqI)
  fix i
  show "i \<in> indexes rows \<longleftrightarrow> i \<in> with_outcome Finished rows \<union> with_outcome Failed rows
     \<union> with_outcome Canceled rows \<union> with_outcome Ongoing rows"
    by (cases "index_outcome (replica_states i rows)") (simp_all add: with_outcome_def)
qed

lemma card_with_outcome_cover:
  "card (indexes rows) = card (with_outcome Finished rows) + card (with_outcome Failed rows)
     + card (with_outcome Canceled rows) + card (with_outcome Ongoing rows)"
  unfolding with_outcome_cover [of rows]
  by (simp add: card_Un_disjoint with_outcome_disjoint Int_Un_distrib2)

lemma job_counts_classes:
  fixes jobId d
  defines "rows \<equiv> files_of_job jobId d"
  shows "inJob (job_counts_of jobId d) = int (card (indexes rows))"
    and "finished (job_counts_of jobId d) = int (card (with_outcome Finished rows))"
    and "canceled (job_counts_of jobId d) = int (card (with_outcome Canceled rows))"
    and "failed (job_counts_of jobId d) = int (card (with_outcome Failed rows))"
proof -
  let ?c = "job_counts_of jobId d"
  have all: "count_index (\<lambda>s. True) rows = int (card (indexes rows))"
    by (simp add: count_index_card some_replica_classes)
  show "inJob ?c = int (card (indexes rows))"
    by (simp add: job_counts_of_def Let_def all flip: rows_def)
  show "finished ?c = int (card (with_outcome Finished rows))"
    by (simp add: job_counts_of_def Let_def count_index_card some_replica_classes flip: rows_def)
  show canc: "canceled ?c = int (card (with_outcome Canceled rows))"
    by (simp add: job_counts_of_def Let_def all count_complement some_replica_classes flip: rows_def)
  have "inJob ?c - count_index (\<lambda>s. s \<noteq> CANCELED \<and> s \<noteq> FAILED) rows
      = int (card (with_outcome Canceled rows)) + int (card (with_outcome Failed rows))"
    by (simp add: job_counts_of_def Let_def all count_complement some_replica_classes card_Un_disjoint
        with_outcome_disjoint flip: rows_def)
  moreover have "failed ?c = inJob ?c - count_index (\<lambda>s. s \<noteq> CANCELED \<and> s \<noteq> FAILED) rows - canceled ?c"
    by (simp add: job_counts_of_def Let_def flip: rows_def)
  ultimately show "failed ?c = int (card (with_outcome Failed rows))" using canc by linarith
qed

lemma outcome_count: "card (with_outcome out rows) > 0 \<longleftrightarrow> out \<in> outcomes rows"
  by (auto simp: card_gt_0_iff with_outcome_def outcomes_def)

lemma subset_Finished: "Failed \<notin> Os \<and> Canceled \<notin> Os \<and> Ongoing \<notin> Os \<longleftrightarrow> Os \<subseteq> {Finished}"
proof (intro iffI subsetI)
  fix x assume "Failed \<notin> Os \<and> Canceled \<notin> Os \<and> Ongoing \<notin> Os" "x \<in> Os"
  then show "x \<in> {Finished}" by (cases x) auto
qed auto

lemma outcome_counts:
  fixes jobId d
  defines "rows \<equiv> files_of_job jobId d" and "c \<equiv> job_counts_of jobId d"
  shows "finished c > 0 \<longleftrightarrow> Finished \<in> outcomes rows"
    and "failed c > 0 \<longleftrightarrow> Failed \<in> outcomes rows"
    and "canceled c > 0 \<longleftrightarrow> Canceled \<in> outcomes rows"
    and "inJob c = numberOfFilesTerminal c \<longleftrightarrow> Ongoing \<notin> outcomes rows"
    and "inJob c = finished c \<longleftrightarrow> outcomes rows \<subseteq> {Finished}"
    and "failed c \<ge> 0" "canceled c \<ge> 0"
proof -
  note cc = job_counts_classes [of jobId d, folded rows_def c_def]
  note cov = card_with_outcome_cover [of rows]
  note oc = outcome_count [of _ rows]
  show "finished c > 0 \<longleftrightarrow> Finished \<in> outcomes rows" "failed c > 0 \<longleftrightarrow> Failed \<in> outcomes rows"
    "canceled c > 0 \<longleftrightarrow> Canceled \<in> outcomes rows" "failed c \<ge> 0" "canceled c \<ge> 0"
    by (simp_all add: cc flip: oc)
  show "inJob c = numberOfFilesTerminal c \<longleftrightarrow> Ongoing \<notin> outcomes rows"
    using cov oc [of Ongoing] by (auto simp: cc numberOfFilesTerminal_def)
  have "inJob c = finished c \<longleftrightarrow> \<not> 0 < card (with_outcome Failed rows)
      \<and> \<not> 0 < card (with_outcome Canceled rows) \<and> \<not> 0 < card (with_outcome Ongoing rows)"
    using cov unfolding cc by linarith
  also have "\<dots> \<longleftrightarrow> outcomes rows \<subseteq> {Finished}"
    unfolding oc using subset_Finished by simp
  finally show "inJob c = finished c \<longleftrightarrow> outcomes rows \<subseteq> {Finished}" .
qed

lemma job_decision_spec:
  "job_decision jobType (job_counts_of jobId d) = job_spec jobType (outcomes (files_of_job jobId d))"
proof -
  let ?c = "job_counts_of jobId d" and ?Os = "outcomes (files_of_job jobId d)"
  note oc = outcome_counts [where jobId = jobId and d = d]
  have "0 < failed ?c + canceled ?c \<longleftrightarrow> Failed \<in> ?Os \<or> Canceled \<in> ?Os"
    using oc(2,3,6,7) by linarith
  then have fin: "jobFinished jobType ?c \<longleftrightarrow> Ongoing \<notin> ?Os \<or> jobType = kTypeMultiHop \<and> (Failed \<in> ?Os \<or> Canceled \<in> ?Os)"
    by (simp add: jobFinished_def oc(4))
  show ?thesis
    unfolding job_decision_def job_spec_def fin job_verdict_def oc(1-3,5) subset_Finished [symmetric]
    by auto
qed

subsection \<open>What the update does to the tables\<close>

lemma job_id_end_job [simp]: "j_job_id (end_job e st reason j) = j_job_id j"
  and job_state_end_job [simp]: "j_job_state (end_job e st reason j) = st"
  by (simp_all add: end_job_def)

lemma job_id_set_job_state [simp]: "j_job_id (set_job_state st j) = j_job_id j"
  by (simp add: set_job_state_def split: option.split)

text \<open>
  Every branch is a composition of two writes, so the effect of the function is described by
  what these writes may do.
\<close>

inductive job_write :: "job_id \<Rightarrow> db \<Rightarrow> db \<Rightarrow> bool" for jobId where
  none: "job_write jobId d d"
| live: "(\<And>j. j_job_id (f j) = j_job_id j) \<Longrightarrow> job_write jobId d (update_live_job jobId f d)"
| cancel: "(\<And>j. j_job_id (f j) = j_job_id j)
    \<Longrightarrow> job_write jobId d (cancel_unused jobId (update_live_job jobId f d))"

lemma finish_job_write: "job_write jobId d (finish_job e cu jobId job src c d)"
  unfolding finish_job_def Let_def
  by (auto split: prod.split intro!: job_write.intros)

lemma continue_job_write: "job_write jobId d (continue_job jobId state job c d)"
  unfolding continue_job_def Let_def by (auto intro!: job_write.intros)

lemma updateJobTransferStatus_write:
  "job_write jobId d (updateJobTransferStatusInternal e cu jobId state d)"
  unfolding updateJobTransferStatusInternal_def Let_def
  by (auto split: option.split intro!: job_write.intros finish_job_write continue_job_write)

lemma keeps_keys_set_state [simp]: "keeps_keys (\<lambda>r. r\<lparr>f_file_state := s\<rparr>)"
  by (rule keeps_keysI) simp_all

lemma clears_uuid_set_state [simp]: "clears_uuid (\<lambda>r. r\<lparr>f_file_state := s\<rparr>)"
  by (rule clears_uuidI) simp

lemma wf_db_update_live_job:
  "wf_db d \<Longrightarrow> (\<And>j. j_job_id (f j) = j_job_id j) \<Longrightarrow> wf_db (update_live_job jobId f d)"
  unfolding update_live_job_def by (rule wf_db_update_jobs)

lemma wf_db_cancel_unused: "wf_db d \<Longrightarrow> wf_db (cancel_unused jobId d)"
  unfolding cancel_unused_def by (rule wf_db_update_files) simp_all

lemma job_write_wf: "job_write jobId d d' \<Longrightarrow> wf_db d \<Longrightarrow> wf_db d'"
  by (induction rule: job_write.induct) (simp_all add: wf_db_update_live_job wf_db_cancel_unused)

lemma t_file_update_live_job [simp]: "t_file (update_live_job jobId f d) = t_file d"
  by (simp add: update_live_job_def)

lemma cancel_unused_change:
  "t_file d1 = t_file d \<Longrightarrow> rows_rel (cancel_change jobId) d (cancel_unused jobId d1)"
  unfolding cancel_unused_def rows_rel_def t_file_update_files
  by (simp, rule list_all2_update_where) (simp_all add: cancel_change_def)

lemma job_write_files: "job_write jobId d d' \<Longrightarrow> rows_rel (cancel_change jobId) d d'"
  by (induction rule: job_write.induct)
    (simp_all add: cancel_unused_change, simp_all add: rows_rel_def cancel_change_def list.rel_refl)

lemma job_in_update_live:
  "j \<in> set (t_job d) \<Longrightarrow> terminal_job (j_job_state j) \<or> j_job_id j \<noteq> jobId
    \<Longrightarrow> j \<in> set (t_job (update_live_job jobId f d))"
  by (force simp: update_live_job_def set_update_where)

lemma t_job_cancel_unused [simp]: "t_job (cancel_unused jobId d) = t_job d"
  by (simp add: cancel_unused_def)

lemma job_write_jobs:
  "job_write jobId d d' \<Longrightarrow> j \<in> set (t_job d) \<Longrightarrow> terminal_job (j_job_state j) \<or> j_job_id j \<noteq> jobId
    \<Longrightarrow> j \<in> set (t_job d')"
  by (induction rule: job_write.induct) (simp_all add: job_in_update_live)

lemma job_by_id_update_live:
  assumes "job_by_id jobId d = Some j" "\<not> terminal_job (j_job_state j)" "\<And>j. j_job_id (f j) = j_job_id j"
  shows "job_by_id jobId (update_live_job jobId f d) = Some (f j)"
  using assms job_by_id_Some [OF assms(1)]
  by (simp add: update_live_job_def job_by_id_update_jobs)

lemma job_by_id_cancel_unused [simp]: "job_by_id jobId (cancel_unused i d) = job_by_id jobId d"
  by (simp add: cancel_unused_def)

lemma finish_job_state:
  assumes "job_by_id jobId d = Some j" "\<not> terminal_job (j_job_state j)"
  shows "map_option j_job_state (job_by_id jobId (finish_job e cu jobId j src c d))
    = Some (fst (job_verdict (job_type_of j) c))"
  using assms by (auto simp: finish_job_def Let_def job_by_id_update_live split: prod.split)

lemma job_state_named_terminal:
  "state \<in> {FINISHED, FAILED, CANCELED} \<Longrightarrow> \<not> terminal_job s \<Longrightarrow> job_state_named state \<noteq> Some s"
  by (auto simp: terminal_job_def)

lemma cancel_change_frozen: "cancel_change jobId r r' \<Longrightarrow> file_frozen r r'"
  by (auto simp: cancel_change_def file_frozen_def terminal_file_def)

lemma updateJobTransferStatus_wf: "wf_db d \<Longrightarrow> wf_db (updateJobTransferStatusInternal e cu jobId state d)"
  by (rule job_write_wf [OF updateJobTransferStatus_write])

lemma updateJobTransferStatus_frozen:
  "rows_rel file_frozen d (updateJobTransferStatusInternal e cu jobId state d)"
  using job_write_files [OF updateJobTransferStatus_write, of jobId d e cu state]
  unfolding rows_rel_def by (rule list_all2_mono) (rule cancel_change_frozen)

lemma updateJobTransferStatus_verdict:
  assumes "job_by_id jobId d = Some j" "\<not> terminal_job (j_job_state j)"
    "state \<in> {FINISHED, FAILED, CANCELED}"
    "\<not> (job_type_of j = kTypeMultipleReplica \<and> j_job_state j = J_ARCHIVING \<and> state = FAILED)"
    "\<And>r. r \<in> set (files_of_job jobId d) \<Longrightarrow> f_file_state r \<noteq> SUBMITTED"
    "job_spec (job_type_of j) (outcomes (files_of_job jobId d)) = Some s"
  shows "map_option j_job_state (job_by_id jobId (updateJobTransferStatusInternal e cu jobId state d)) = Some s"
proof -
  have fin: "jobFinished (job_type_of j) (job_counts_of jobId d)"
    "fst (job_verdict (job_type_of j) (job_counts_of jobId d)) = s"
    using job_decision_spec [of "job_type_of j" jobId d] assms(6)
    by (simp_all add: job_decision_def split: if_splits)
  have "\<not> (\<exists>r \<in> set (files_of_job jobId d). f_file_state r = SUBMITTED)" using assms(5) by blast
  then have "\<exists>src. updateJobTransferStatusInternal e cu jobId state d
      = finish_job e cu jobId j src (job_counts_of jobId d) d"
    unfolding updateJobTransferStatusInternal_def Let_def
    using assms(1-4) fin(1) job_state_named_terminal [OF assms(3,2)] by auto
  then show ?thesis using finish_job_state [OF assms(1,2)] fin(2) by auto
qed

subsection \<open>Properties\<close>

text \<open>
  C3: the decision taken from the SQL counts of distinct file indexes (is the job over, and in
  which state) is the one specified on the outcome of every index: a job ends when every index is
  finished, failed or canceled (a multihop job as soon as one hop failed or was canceled), and the
  final state is given by which outcomes occur.
\<close>

theorem job_decision_refines:
  "job_decision jobType (job_counts_of jobId d) = job_spec jobType (outcomes (files_of_job jobId d))"
  by (rule job_decision_spec)

text \<open>
  The branch of the decision that reports "Inconsistent internal state!" cannot be reached.
\<close>

lemma inconsistent_state_unreachable:
  assumes "jobFinished jobType (job_counts_of jobId d)"
  shows "snd (job_verdict jobType (job_counts_of jobId d)) \<noteq> ''Inconsistent internal state!''"
proof -
  let ?c = "job_counts_of jobId d" and ?Os = "outcomes (files_of_job jobId d)"
  note oc = outcome_counts [where jobId = jobId and d = d]
  have "?Os \<subseteq> {Finished} \<or> failed ?c > 0 \<or> canceled ?c > 0"
    using assms oc(2-4,6,7) subset_Finished [of ?Os] by (auto simp: jobFinished_def)
  then show ?thesis using oc(5) by (auto simp: job_verdict_def failed_reason_def)
qed

text \<open>
  C10: a job update keeps the constraints of the schema; a job in a terminal state and every other
  job stay exactly as they are; and the only effect on files is that unused files of this job may
  be canceled.
\<close>

theorem job_update_safe:
  assumes "wf_db d"
  shows "wf_db (updateJobTransferStatusInternal e cu jobId state d)
    \<and> (\<forall>j \<in> set (t_job d). terminal_job (j_job_state j) \<or> j_job_id j \<noteq> jobId
         \<longrightarrow> j \<in> set (t_job (updateJobTransferStatusInternal e cu jobId state d)))
    \<and> rows_rel (cancel_change jobId) d (updateJobTransferStatusInternal e cu jobId state d)"
  using updateJobTransferStatus_write [of jobId d e cu state] assms
  by (intro conjI ballI impI) (erule job_write_wf job_write_jobs job_write_files; assumption)+

theorem job_update_safe_witness:
  "wf_db (sample_status_db kTypeMultiHop) \<and>
   wf_db (updateJobTransferStatusInternal sample_env True ''j'' FAILED (sample_status_db kTypeMultiHop))"
  using job_update_safe [OF sample_status_wf] sample_status_wf by simp

text \<open>
  C4: when a final status message arrives for a live job and the files decide the job, the update
  stores exactly the specified final state. (A regular job with a file still in SUBMITTED is
  skipped by the code, and so is the archiving failure of a multiple replica job.)
\<close>

theorem job_update_reaches_verdict:
  assumes "job_by_id jobId d = Some j" "\<not> terminal_job (j_job_state j)"
    "state \<in> {FINISHED, FAILED, CANCELED}"
    "\<not> (job_type_of j = kTypeMultipleReplica \<and> j_job_state j = J_ARCHIVING \<and> state = FAILED)"
    "\<And>r. r \<in> set (files_of_job jobId d) \<Longrightarrow> f_file_state r \<noteq> SUBMITTED"
    "job_spec (job_type_of j) (outcomes (files_of_job jobId d)) = Some s"
  shows "map_option j_job_state (job_by_id jobId (updateJobTransferStatusInternal e cu jobId state d)) = Some s"
  using assms by (rule updateJobTransferStatus_verdict)

text \<open>A job with a finished and a failed file.\<close>

definition sample_dirty_db :: db where
  "sample_dirty_db = sample_db [sample_file 1 ''j'' 0 FINISHED, sample_file 2 ''j'' 1 FAILED]
     [sample_job ''j'' None J_ACTIVE]"

lemma sample_dirty_spec: "job_spec kTypeRegular (outcomes (files_of_job ''j'' sample_dirty_db)) = Some J_FINISHEDDIRTY"
  unfolding job_decision_spec [symmetric] sample_dirty_db_def
  by (simp add: job_decision_def job_verdict_def jobFinished_def numberOfFilesTerminal_def job_counts_of_def
      Let_def count_index_def count_distinct_def files_of_job_def List.map_filter_simps)

theorem job_update_reaches_verdict_witness:
  "map_option j_job_state (job_by_id ''j''
     (updateJobTransferStatusInternal sample_env True ''j'' FAILED sample_dirty_db)) = Some J_FINISHEDDIRTY"
proof (rule job_update_reaches_verdict)
  show "job_by_id ''j'' sample_dirty_db = Some (sample_job ''j'' None J_ACTIVE)"
    by (simp add: job_by_id_def sample_dirty_db_def)
  show "job_spec (job_type_of (sample_job ''j'' None J_ACTIVE)) (outcomes (files_of_job ''j'' sample_dirty_db))
    = Some J_FINISHEDDIRTY"
    using sample_dirty_spec by (simp add: job_type_of_def)
qed (auto simp: terminal_job_def job_type_of_def files_of_job_def sample_dirty_db_def)

end
