(* ===== verification/Uri.thy ===== *)
theory Uri
  imports Prelude "HOL-Library.Word"
begin

section \<open>URIs\<close>

text \<open>
  \<^verbatim>\<open>src/common/Uri.cpp\<close> and \<^verbatim>\<open>Uri.h\<close>: splitting a storage URL, the name of a storage element, and
  the test for a transfer inside one site.

  The regular expression of RFC 2396, appendix B, has disjoint character classes on both sides of
  each delimiter, so its match is the left-to-right split written out here; it matches every
  string.
\<close>

record Uri =
  fullUri :: string
  queryString :: string
  path :: string
  protocol :: string
  host :: string
  port :: "32 word"

text \<open>\<^verbatim>\<open>std::string::find\<close> and \<^verbatim>\<open>rfind\<close> of a character; \<open>None\<close> is \<^verbatim>\<open>npos\<close>.\<close>

definition str_find :: "char \<Rightarrow> string \<Rightarrow> nat option" where
  "str_find c s = (if c \<in> set s then Some (length (takeWhile (\<lambda>x. x \<noteq> c) s)) else None)"

definition str_rfind :: "char \<Rightarrow> string \<Rightarrow> nat option" where
  "str_rfind c s =
     (if c \<in> set s then Some (length s - 1 - length (takeWhile (\<lambda>x. x \<noteq> c) (rev s))) else None)"

definition is_digit :: "char \<Rightarrow> bool" where
  "is_digit c \<longleftrightarrow> CHR ''0'' \<le> c \<and> c \<le> CHR ''9''"

definition is_space :: "char \<Rightarrow> bool" where
  "is_space c \<longleftrightarrow> c \<in> {CHR '' '', CHR 0x09, CHR 0x0A, CHR 0x0B, CHR 0x0C, CHR 0x0D}"

fun digits_value :: "int \<Rightarrow> string \<Rightarrow> int" where
  "digits_value acc [] = acc"
| "digits_value acc (c # cs) =
     (if is_digit c then digits_value (acc * 10 + (of_char c - 48)) cs else acc)"

text \<open>\<^verbatim>\<open>atoi\<close> on values that fit an \<^verbatim>\<open>int\<close>; larger ones are undefined behaviour in C.\<close>

definition atoi :: "string \<Rightarrow> int" where
  "atoi s =
     (case dropWhile is_space s of
        [] \<Rightarrow> 0
      | c # cs \<Rightarrow> (if c = CHR ''-'' then - digits_value 0 cs
                  else if c = CHR ''+'' then digits_value 0 cs else digits_value 0 (c # cs)))"

definition extractPort :: "Uri \<Rightarrow> Uri" where
  "extractPort u0 =
     (let bracket_close_i = str_rfind CHR '']'' (host u0); colon_i = str_rfind CHR '':'' (host u0) in
      case colon_i of
        None \<Rightarrow> u0
      | Some colon \<Rightarrow>
          if (case bracket_close_i of None \<Rightarrow> False | Some b \<Rightarrow> b > colon) then u0
          else u0\<lparr>host := take colon (host u0), port := word_of_int (atoi (drop (colon + 1) (host u0)))\<rparr>)"

definition outside :: "string \<Rightarrow> char \<Rightarrow> bool" where
  "outside delims c \<longleftrightarrow> c \<notin> set delims"

text \<open>The groups of the regular expression, each with what is left after it.\<close>

definition match_protocol :: "string \<Rightarrow> string \<times> string" where
  "match_protocol s =
     (let p = takeWhile (outside '':/?#'') s in
      case dropWhile (outside '':/?#'') s of
        c # r \<Rightarrow> if c = CHR '':'' \<and> p \<noteq> [] then (p, r) else ([], s)
      | [] \<Rightarrow> ([], s))"

definition match_authority :: "string \<Rightarrow> string \<times> string" where
  "match_authority s =
     (if take 2 s = ''//'' then (takeWhile (outside ''/?#'') (drop 2 s), dropWhile (outside ''/?#'') (drop 2 s))
      else ([], s))"

definition match_query :: "string \<Rightarrow> string" where
  "match_query s = (case s of [] \<Rightarrow> [] | c # r \<Rightarrow> if c = CHR ''?'' then takeWhile (outside ''#'') r else [])"

definition parse :: "string \<Rightarrow> Uri" where
  "parse uri =
     (case match_protocol uri of (proto, r1) \<Rightarrow>
      (case match_authority r1 of (auth, r2) \<Rightarrow>
         extractPort \<lparr>fullUri = uri, queryString = match_query (dropWhile (outside ''?#'') r2),
           path = takeWhile (outside ''?#'') r2, protocol = proto, host = auth, port = 0\<rparr>))"

definition getSeName :: "Uri \<Rightarrow> string" where
  "getSeName u = protocol u @ ''://'' @ host u"

definition domain_of :: "string \<Rightarrow> string" where
  "domain_of h = (case str_find CHR ''.'' h of None \<Rightarrow> [] | Some i \<Rightarrow> drop i h)"

definition isLanTransfer :: "string \<Rightarrow> string \<Rightarrow> bool" where
  "isLanTransfer source dest \<longleftrightarrow>
     (if source = dest then True
      else if domain_of source = domain_of dest then True else False)"

text \<open>Decimal notation, to state how ports are written.\<close>

fun decimal :: "nat \<Rightarrow> string" where
  "decimal n = (if n < 10 then [char_of (48 + n)] else decimal (n div 10) @ [char_of (48 + n mod 10)])"

declare decimal.simps [simp del]

subsection \<open>Searching\<close>

lemma str_rfind_last:
  assumes "c \<notin> set b"
  shows "str_rfind c (a @ c # b) = Some (length a)"
proof -
  have "takeWhile (\<lambda>x. x \<noteq> c) (rev b @ c # rev a) = rev b"
    using assms by (subst takeWhile_append2) auto
  then show ?thesis by (simp add: str_rfind_def)
qed

lemma str_rfind_None: "str_rfind c s = None \<longleftrightarrow> c \<notin> set s"
  by (simp add: str_rfind_def)

lemma takeWhile_outside:
  assumes "set a \<inter> set delims = {}" "b = [] \<or> hd b \<in> set delims"
  shows "takeWhile (outside delims) (a @ b) = a \<and> dropWhile (outside delims) (a @ b) = b"
  using assms by (cases b) (auto simp: outside_def takeWhile_append dropWhile_append)

subsection \<open>Decimal numbers\<close>

lemma of_char_digit: "d < 10 \<Longrightarrow> of_char (char_of (48 + d) :: char) = (int (48 + d) :: int)"
proof -
  assume d: "d < 10"
  have "of_char (char_of (48 + d) :: char) = int (of_char (char_of (48 + d) :: char))"
    by (simp only: of_nat_of_char)
  also have "\<dots> = int (48 + d)" using d by (simp only: of_char_of) simp
  finally show ?thesis .
qed

lemma is_digit_digit: "d < 10 \<Longrightarrow> is_digit (char_of (48 + d))" for d :: nat
  by (simp add: is_digit_def less_eq_char_def)

lemma digits_value_append_digit:
  "(\<forall>c \<in> set s. is_digit c) \<Longrightarrow> d < 10 \<Longrightarrow> digits_value acc (s @ [char_of (48 + d)])
     = digits_value acc s * 10 + int d"
  by (induction s arbitrary: acc) (simp_all add: is_digit_digit of_char_digit)

lemma decimal_digits: "\<forall>c \<in> set (decimal n). is_digit c"
  by (induction n rule: decimal.induct) (subst decimal.simps, auto simp: is_digit_digit)

lemma digits_value_decimal: "digits_value 0 (decimal n) = int n"
proof (induction n rule: decimal.induct)
  case (1 n)
  show ?case
  proof (cases "n < 10")
    case True
    then show ?thesis by (subst decimal.simps) (simp add: is_digit_digit of_char_digit)
  next
    case False
    have "digits_value 0 (decimal n) = digits_value 0 (decimal (n div 10) @ [char_of (48 + n mod 10)])"
      using False by (subst decimal.simps) simp
    also have "\<dots> = int (n div 10) * 10 + int (n mod 10)"
      using 1 [OF False] decimal_digits by (subst digits_value_append_digit) simp_all
    also have "\<dots> = int n" by presburger
    finally show ?thesis .
  qed
qed

lemma decimal_nonempty: "decimal n \<noteq> []"
  by (subst decimal.simps) simp

lemma atoi_digits: "\<forall>c \<in> set s. is_digit c \<Longrightarrow> s \<noteq> [] \<Longrightarrow> atoi s = digits_value 0 s"
  by (cases s) (auto simp: atoi_def is_space_def is_digit_def less_eq_char_def)

lemma atoi_decimal: "atoi (decimal n) = int n"
  using atoi_digits [OF decimal_digits decimal_nonempty] digits_value_decimal by simp

lemma colon_not_digit: "\<forall>c \<in> set s. is_digit c \<Longrightarrow> CHR '':'' \<notin> set s \<and> CHR '']'' \<notin> set s \<and>
    CHR ''/'' \<notin> set s \<and> CHR ''?'' \<notin> set s \<and> CHR ''#'' \<notin> set s"
  by (auto simp: is_digit_def less_eq_char_def)

subsection \<open>Splitting\<close>

lemma match_protocol_app:
  assumes "proto \<noteq> []" "set proto \<inter> set '':/?#'' = {}"
  shows "match_protocol (proto @ CHR '':'' # r) = (proto, r)"
  using takeWhile_outside [OF assms(2), of "CHR '':'' # r"] assms(1)
  by (simp add: match_protocol_def Let_def)

lemma match_authority_app:
  assumes "set auth \<inter> set ''/?#'' = {}" "r = [] \<or> hd r \<in> set ''/?#''"
  shows "match_authority (''//'' @ auth @ r) = (auth, r)"
  using takeWhile_outside [OF assms] by (simp add: match_authority_def)

lemma match_query_app: "CHR ''#'' \<notin> set q \<Longrightarrow> match_query (CHR ''?'' # q) = q"
  using takeWhile_outside [of q "''#''" "[]"] by (simp add: match_query_def)

lemma extractPort_host_port:
  assumes "CHR '':'' \<notin> set p" "CHR '']'' \<notin> set p"
  shows "extractPort (u\<lparr>host := h @ CHR '':'' # p\<rparr>) = u\<lparr>host := h, port := word_of_int (atoi p)\<rparr>"
proof -
  have "case str_rfind CHR '']'' (h @ CHR '':'' # p) of None \<Rightarrow> True | Some b \<Rightarrow> b < length h"
  proof (cases "CHR '']'' \<in> set h")
    case True
    then obtain a b where ab: "h = a @ CHR '']'' # b" "CHR '']'' \<notin> set b" using split_list_last by metis
    then have "str_rfind CHR '']'' (h @ CHR '':'' # p) = Some (length a)"
      using str_rfind_last [of "CHR '']''" "b @ CHR '':'' # p" a] assms(2) by simp
    then show ?thesis using ab(1) by simp
  next
    case False
    then show ?thesis using assms(2) str_rfind_None [of "CHR '']''" "h @ CHR '':'' # p"] by simp
  qed
  then show ?thesis
    using str_rfind_last [OF assms(1), of h] by (auto simp: extractPort_def Let_def split: option.splits)
qed

subsection \<open>Properties\<close>

text \<open>
  C26: parsing a URL that was put together from its parts gives the parts back: scheme, host (a
  bracketed IPv6 address too), port, path and query.
\<close>

theorem uri_roundtrip:
  assumes "proto \<noteq> []" "set proto \<inter> set '':/?#'' = {}" "set h \<inter> set ''/?#'' = {}"
    "p = [] \<or> hd p = CHR ''/''" "set p \<inter> set ''?#'' = {}" "CHR ''#'' \<notin> set q"
  shows "parse (proto @ ''://'' @ h @ '':'' @ decimal n @ p @ ''?'' @ q) =
    \<lparr>fullUri = proto @ ''://'' @ h @ '':'' @ decimal n @ p @ ''?'' @ q, queryString = q, path = p,
     protocol = proto, host = h, port = word_of_int (int n)\<rparr>"
proof -
  let ?uri = "proto @ ''://'' @ h @ '':'' @ decimal n @ p @ ''?'' @ q"
  let ?auth = "h @ CHR '':'' # decimal n" and ?r2 = "p @ CHR ''?'' # q"
  note dec = colon_not_digit [OF decimal_digits, of n]
  have "match_protocol ?uri = (proto, ''//'' @ ?auth @ ?r2)"
    using match_protocol_app [OF assms(1,2), of "''//'' @ ?auth @ ?r2"] by simp
  moreover have "match_authority (''//'' @ ?auth @ ?r2) = (?auth, ?r2)"
    using assms(3,4) dec by (intro match_authority_app) (cases p; auto)+
  moreover have "takeWhile (outside ''?#'') ?r2 = p \<and> dropWhile (outside ''?#'') ?r2 = CHR ''?'' # q"
    using assms(5) by (intro takeWhile_outside) simp_all
  ultimately show ?thesis
    using extractPort_host_port [where p = "decimal n" and h = h and u = "\<lparr>fullUri = ?uri, queryString = q, path = p,
       protocol = proto, host = [], port = 0\<rparr>"] dec
    by (simp add: parse_def match_query_app [OF assms(6)] atoi_decimal)
qed

theorem uri_roundtrip_witness:
  "port (parse (''https'' @ ''://'' @ ''[2001::1]'' @ '':'' @ decimal 8443 @ ''/f'' @ ''?'' @ ''a=b'')) = 8443 \<and>
   host (parse (''https'' @ ''://'' @ ''[2001::1]'' @ '':'' @ decimal 8443 @ ''/f'' @ ''?'' @ ''a=b'')) = ''[2001::1]''"
proof -
  have "parse (''https'' @ ''://'' @ ''[2001::1]'' @ '':'' @ decimal 8443 @ ''/f'' @ ''?'' @ ''a=b'') =
    \<lparr>fullUri = ''https'' @ ''://'' @ ''[2001::1]'' @ '':'' @ decimal 8443 @ ''/f'' @ ''?'' @ ''a=b'',
     queryString = ''a=b'', path = ''/f'', protocol = ''https'', host = ''[2001::1]'',
     port = word_of_int (int 8443)\<rparr>"
    by (rule uri_roundtrip) simp_all
  then show ?thesis by (simp only:) simp
qed

text \<open>
  Being in the same site is an equivalence on storage names: it holds exactly when the parts
  from the first dot on agree, where a name without a dot has an empty domain.
\<close>

lemma isLanTransfer_domain: "isLanTransfer s d \<longleftrightarrow> domain_of s = domain_of d"
  by (auto simp: isLanTransfer_def)

end
