(* ===== verification/ProtocolParameters.thy ===== *)
theory ProtocolParameters
  imports Uri
begin

section \<open>The transfer parameters kept with a file\<close>

text \<open>
  \<^verbatim>\<open>TransferFile::ProtocolParameters\<close> in \<^verbatim>\<open>src/db/generic/TransferFile.h\<close>: the column
  \<^verbatim>\<open>internal_file_params\<close> holds a comma separated list. \<open>updateProtocol\<close> in
  \<^verbatim>\<open>src/db/mysql/MySqlAPI.cpp\<close> writes three of its items. A \<^verbatim>\<open>boost::tribool\<close> is a
  \<open>bool option\<close> with \<open>None\<close> for indeterminate; the exception of a failed \<^verbatim>\<open>lexical_cast\<close> is \<open>None\<close>.
\<close>

record ProtocolParameters =
  nostreams :: int
  timeout :: int
  buffersize :: int
  strictCopy :: bool
  ipv6 :: "bool option"
  udt :: "bool option"
  s3Alternate :: bool

definition empty_params :: ProtocolParameters where
  "empty_params = \<lparr>nostreams = 1, timeout = 0, buffersize = 0, strictCopy = False, ipv6 = None, udt = None,
     s3Alternate = False\<rparr>"

text \<open>\<^verbatim>\<open>boost::split\<close> on commas; empty items are kept.\<close>

fun split_commas :: "string \<Rightarrow> string list" where
  "split_commas [] = [[]]"
| "split_commas (c # cs) =
     (if c = CHR '','' then [] # split_commas cs
      else case split_commas cs of [] \<Rightarrow> [[c]] | w # ws \<Rightarrow> (c # w) # ws)"

text \<open>\<^verbatim>\<open>boost::lexical_cast<int>\<close>: an optional sign, digits to the end, and the range of \<^verbatim>\<open>int\<close>.\<close>

definition lexical_cast_int :: "string \<Rightarrow> int option" where
  "lexical_cast_int s =
     (let neg = (s \<noteq> [] \<and> hd s = CHR ''-'');
          ds = (if s \<noteq> [] \<and> hd s \<in> {CHR ''-'', CHR ''+''} then tl s else s);
          v = (if neg then - digits_value 0 ds else digits_value 0 ds)
      in if ds = [] \<or> (\<exists>c \<in> set ds. \<not> is_digit c) then None
         else if v < - (2 ^ 31) \<or> v \<ge> 2 ^ 31 then None else Some v)"

definition starts_with :: "string \<Rightarrow> string \<Rightarrow> bool" where
  "starts_with s p \<longleftrightarrow> take (length p) s = p"

definition parse_item :: "string \<Rightarrow> ProtocolParameters \<Rightarrow> ProtocolParameters option" where
  "parse_item i ps =
     (if starts_with i ''nostreams:'' then map_option (\<lambda>v. ps\<lparr>nostreams := v\<rparr>) (lexical_cast_int (drop 10 i))
      else if starts_with i ''timeout:'' then map_option (\<lambda>v. ps\<lparr>timeout := v\<rparr>) (lexical_cast_int (drop 8 i))
      else if starts_with i ''buffersize:'' then map_option (\<lambda>v. ps\<lparr>buffersize := v\<rparr>) (lexical_cast_int (drop 11 i))
      else if i = ''strict'' then Some (ps\<lparr>strictCopy := True\<rparr>)
      else if i = ''ipv4'' then Some (ps\<lparr>ipv6 := Some False\<rparr>)
      else if i = ''ipv6'' then Some (ps\<lparr>ipv6 := Some True\<rparr>)
      else if i = ''s3alternate'' then Some (ps\<lparr>s3Alternate := True\<rparr>)
      else Some ps)"

fun parse_items :: "string list \<Rightarrow> ProtocolParameters \<Rightarrow> ProtocolParameters option" where
  "parse_items [] ps = Some ps"
| "parse_items (i # is) ps = (case parse_item i ps of None \<Rightarrow> None | Some ps' \<Rightarrow> parse_items is ps')"

definition parse_params :: "string \<Rightarrow> ProtocolParameters option" where
  "parse_params serialized = parse_items (split_commas serialized) empty_params"

text \<open>An \<^verbatim>\<open>int\<close> written to a stream.\<close>

definition show_int :: "int \<Rightarrow> string" where
  "show_int i = (if i < 0 then CHR ''-'' # decimal (nat (- i)) else decimal (nat i))"

definition serialize_params :: "int \<Rightarrow> int \<Rightarrow> int \<Rightarrow> string" where
  "serialize_params streams time buffer =
     ''nostreams:'' @ show_int streams @ '',timeout:'' @ show_int time @ '',buffersize:'' @ show_int buffer"

definition int32 :: "int \<Rightarrow> bool" where
  "int32 i \<longleftrightarrow> - (2 ^ 31) \<le> i \<and> i < 2 ^ 31"

subsection \<open>Reading back\<close>

lemma split_commas_nonempty: "split_commas s \<noteq> []"
  by (induction s) (auto split: list.split)

lemma split_commas_plain: "CHR '','' \<notin> set s \<Longrightarrow> split_commas s = [s]"
  by (induction s) auto

lemma split_commas_append: "CHR '','' \<notin> set s \<Longrightarrow> split_commas (s @ CHR '','' # t) = s # split_commas t"
  by (induction s) auto

lemma hd_decimal: "is_digit (hd (decimal n))"
  using decimal_digits [of n] decimal_nonempty [of n] by simp

lemma hd_decimal_sign: "hd (decimal n) \<noteq> CHR ''-'' \<and> hd (decimal n) \<noteq> CHR ''+''"
  using hd_decimal [of n] by (auto simp: is_digit_def less_eq_char_def)

lemma lexical_cast_show: "int32 i \<Longrightarrow> lexical_cast_int (show_int i) = Some i"
  using decimal_digits decimal_nonempty hd_decimal_sign
  by (auto simp: lexical_cast_int_def show_int_def Let_def digits_value_decimal int32_def)

lemma comma_show_int: "CHR '','' \<notin> set (show_int i)"
proof -
  have "CHR '','' \<notin> set (decimal n)" for n
    using decimal_digits [of n] by (auto simp: is_digit_def less_eq_char_def)
  then show ?thesis by (simp add: show_int_def)
qed

lemma split_serialized:
  "split_commas (serialize_params a b c) = [''nostreams:'' @ show_int a, ''timeout:'' @ show_int b, ''buffersize:'' @ show_int c]"
proof -
  have eq: "serialize_params a b c = (''nostreams:'' @ show_int a) @ CHR '','' # (''timeout:'' @ show_int b) @
      CHR '','' # (''buffersize:'' @ show_int c)"
    by (simp add: serialize_params_def)
  show ?thesis
    unfolding eq using comma_show_int
    by (subst split_commas_append, simp, subst split_commas_append, simp, subst split_commas_plain, simp_all)
qed

subsection \<open>Properties\<close>

text \<open>
  The parameters that \<open>updateProtocol\<close> serializes are read back unchanged, for all values of
  the type \<^verbatim>\<open>int\<close>.
\<close>

lemma params_roundtrip:
  assumes "int32 a" "int32 b" "int32 c"
  shows "parse_params (serialize_params a b c) = Some (empty_params\<lparr>nostreams := a, timeout := b, buffersize := c\<rparr>)"
  unfolding parse_params_def split_serialized
  by (simp add: parse_item_def starts_with_def lexical_cast_show assms)

end
