(* ===== verification/JobLifecycle.thy ===== *)
theory JobLifecycle
  imports JobStatus ProtocolParameters
begin

section \<open>Retries, cancellations and the other operations on files and jobs\<close>

text \<open>
  \<^verbatim>\<open>src/db/mysql/MySqlAPI.cpp\<close> and \<^verbatim>\<open>Config.cpp\<close>: the remaining operations through which the
  server changes \<^verbatim>\<open>t_file\<close> and \<^verbatim>\<open>t_job\<close>, outside staging, archiving and deletion.

  The interface \<open>file_operation\<close> states what all of them promise: the constraints of the schema
  stay and a file in a terminal state keeps it. Each operation interprets it.
\<close>

subsection \<open>Retries\<close>

definition DEFAULT_RETRY_DELAY :: int where
  "DEFAULT_RETRY_DELAY = 120"

definition ETIMEDOUT :: int where
  "ETIMEDOUT = 110"

text \<open>\<^verbatim>\<open>ORDER BY vo_name DESC LIMIT 1\<close> over the rows of the VO, of \<^verbatim>\<open>*\<close> and of NULL.\<close>

definition server_config_for :: "string \<Rightarrow> db \<Rightarrow> server_config_row option" where
  "server_config_for vo d =
     (case select_first (\<lambda>c. c_vo_name c = Some (max vo ''*'')) (t_server_config d) of
        Some c \<Rightarrow> Some c
      | None \<Rightarrow>
          (case select_first (\<lambda>c. c_vo_name c = Some (min vo ''*'')) (t_server_config d) of
             Some c \<Rightarrow> Some c | None \<Rightarrow> select_first (\<lambda>c. c_vo_name c = None) (t_server_config d)))"

text \<open>A NULL in the server configuration is read without an indicator, which throws.\<close>

definition getRetry :: "job_id \<Rightarrow> db \<Rightarrow> fts_error + int" where
  "getRetry jobId d =
     (let job = job_by_id jobId d;
          own = (case job of None \<Rightarrow> Some 0 | Some j \<Rightarrow> j_retry j);
          vo = (case job of None \<Rightarrow> '''' | Some j \<Rightarrow> j_vo_name j);
          nRetries =
            (if own = None \<or> own = Some 0 then
               (case server_config_for vo d of
                  None \<Rightarrow> Inr 0
                | Some c \<Rightarrow> (case c_retry c of None \<Rightarrow> Inl UserError | Some n \<Rightarrow> Inr n))
             else Inr (if the own \<le> 0 then -1 else the own))
      in case nRetries of
           Inl err \<Rightarrow> Inl err
         | Inr n \<Rightarrow>
             if n > 0 \<and> (case job of None \<Rightarrow> False
                         | Some j \<Rightarrow> job_type_of j \<in> {kTypeMultipleReplica, kTypeMultiHop})
             then Inr 0 else Inr n)"

definition getRetryTimes :: "job_id \<Rightarrow> nat \<Rightarrow> db \<Rightarrow> int" where
  "getRetryTimes jobId fileId d =
     (case select_first (\<lambda>r. f_file_id r = fileId \<and> f_job_id r = jobId) (t_file d) of
        None \<Rightarrow> 0 | Some r \<Rightarrow> (case f_retry r of None \<Rightarrow> 0 | Some n \<Rightarrow> n))"

definition getMaxTimeInQueue :: "string \<Rightarrow> db \<Rightarrow> int" where
  "getMaxTimeInQueue vo d =
     (case server_config_for vo d of
        None \<Rightarrow> 0 | Some c \<Rightarrow> (case c_max_time_queue c of None \<Rightarrow> 0 | Some t \<Rightarrow> t))"

text \<open>\<^verbatim>\<open>INSERT IGNORE\<close>: an entry for the same attempt, or for no file, is dropped.\<close>

definition log_retry :: "env \<Rightarrow> nat \<Rightarrow> int \<Rightarrow> string \<Rightarrow> string \<Rightarrow> db \<Rightarrow> db" where
  "log_retry e fileId retryNo reason logFile d =
     (if (\<exists>x \<in> set (t_file_retry_errors d). e_file_id x = fileId \<and> e_attempt x = retryNo)
         \<or> file_by_id fileId d = None then d
      else d\<lparr>t_file_retry_errors := t_file_retry_errors d @
             [\<lparr>e_file_id = fileId, e_attempt = retryNo, e_datetime = now e, e_reason = reason,
               e_transfer_host = Some (hostname e), e_log_file = Some logFile\<rparr>]\<rparr>)"

definition retry_staging :: "int \<Rightarrow> file_row \<Rightarrow> file_row" where
  "retry_staging retryNo r = r\<lparr>f_retry := Some retryNo, f_current_failures := 0, f_file_state := STAGING,
     f_filesize := 0, f_internal_file_params := None, f_transfer_host := None, f_pid := None,
     f_start_time := None, f_staging_start := None, f_staging_finished := None\<rparr>"

definition retry_submitted :: "timestamp \<Rightarrow> int \<Rightarrow> file_row \<Rightarrow> file_row" where
  "retry_submitted t retryNo r = r\<lparr>f_retry := Some retryNo, f_retry_timestamp := Some t, f_file_state := SUBMITTED,
     f_throughput := 0, f_current_failures := 1, f_start_time := None, f_transfer_host := None,
     f_log_file := None, f_log_file_debug := None\<rparr>"

text \<open>The staging exception: a staged file that timed out is staged again.\<close>

definition retry_file :: "bool \<Rightarrow> timestamp \<Rightarrow> job_id \<Rightarrow> nat \<Rightarrow> int \<Rightarrow> db \<Rightarrow> db" where
  "retry_file stage tTime jobId fileId retryNo d =
     (if stage then
        update_files (\<lambda>r. f_file_id r = fileId \<and> f_job_id r = jobId
            \<and> f_file_state r \<notin> {FINISHED, STAGING, SUBMITTED, FAILED, CANCELED}) (retry_staging retryNo) d
      else
        update_files (\<lambda>r. f_file_id r = fileId \<and> f_job_id r = jobId
            \<and> f_file_state r \<notin> {FINISHED, SUBMITTED, FAILED, CANCELED}) (retry_submitted tTime retryNo) d)"

definition retry_job :: "bool \<Rightarrow> job_id \<Rightarrow> db \<Rightarrow> db" where
  "retry_job reuse jobId d = (if reuse then update_live_job jobId (set_job_state (Some J_ACTIVE)) d else d)"

text \<open>
  \<open>setRetryTransfer\<close>. The columns \<^verbatim>\<open>retry_delay\<close>, \<^verbatim>\<open>bring_online\<close> and \<^verbatim>\<open>copy_pin_lifetime\<close> are
  read without an indicator: a NULL in one of them makes the function roll back and throw.
\<close>

definition setRetryTransfer ::
  "env \<Rightarrow> job_id \<Rightarrow> nat \<Rightarrow> int \<Rightarrow> string \<Rightarrow> string \<Rightarrow> int \<Rightarrow> db \<Rightarrow> fts_error + db" where
  "setRetryTransfer e jobId fileId retryNo reason logFile errcode d =
     (let job = job_by_id jobId d in
      if (case job of None \<Rightarrow> False
          | Some j \<Rightarrow> j_retry_delay j = None \<or> j_bring_online j = None \<or> j_copy_pin_lifetime j = None)
      then Inl UserError
      else
        let retry_delay = (case job of None \<Rightarrow> 0 | Some j \<Rightarrow> the (j_retry_delay j));
            bring_online = (case job of None \<Rightarrow> -1 | Some j \<Rightarrow> the (j_bring_online j));
            copy_pin_lifetime = (case job of None \<Rightarrow> -1 | Some j \<Rightarrow> the (j_copy_pin_lifetime j));
            tTime = now e + (if retry_delay > 0 then retry_delay else DEFAULT_RETRY_DELAY);
            reuse = (case job of None \<Rightarrow> False | Some j \<Rightarrow> j_job_type j = Some kTypeSessionReuse);
            stage = ((bring_online > 0 \<or> copy_pin_lifetime > 0) \<and> errcode = ETIMEDOUT)
        in Inr (log_retry e fileId retryNo reason logFile
                 (retry_file stage tTime jobId fileId retryNo (retry_job reuse jobId d))))"

subsection \<open>Failing and canceling\<close>

definition fail_file :: "env \<Rightarrow> string \<Rightarrow> file_row \<Rightarrow> file_row" where
  "fail_file e message r = r\<lparr>f_file_state := FAILED, f_finish_time := Some (now e), f_dest_surl_uuid := None,
     f_reason := message\<rparr>"

definition fork_reason :: string where
  "fork_reason = ''Transfer failed to fork, check fts3server.log for more details''"

text \<open>The update of the job has no guard: it also overwrites a terminal state.\<close>

definition forkFailed :: "env \<Rightarrow> job_id \<Rightarrow> db \<Rightarrow> db" where
  "forkFailed e jobId d =
     update_jobs (\<lambda>j. j_job_id j = jobId) (end_job e J_FAILED fork_reason)
       (update_files (\<lambda>r. f_job_id r = jobId \<and> \<not> terminal_file (f_file_state r))
          (\<lambda>r. (fail_file e fork_reason r)\<lparr>f_transfer_host := Some (hostname e)\<rparr>) d)"

text \<open>
  The job found through the pid decides whether to act, but the files are selected with the
  argument as it was given, so nothing is updated when it was empty.
\<close>

definition terminateReuseProcess :: "env \<Rightarrow> job_id \<Rightarrow> int \<Rightarrow> string \<Rightarrow> bool \<Rightarrow> db \<Rightarrow> db" where
  "terminateReuseProcess e jobId pid message force d =
     (let job_id = (if jobId = [] then
                      (case select_first (\<lambda>r. f_pid r = Some pid \<and> f_file_state r = ACTIVE) (t_file d) of
                         None \<Rightarrow> jobId | Some r \<Rightarrow> f_job_id r)
                    else jobId);
          doUpdate = (\<not> force \<and> (case job_by_id job_id d of None \<Rightarrow> False
                       | Some j \<Rightarrow> j_job_type j \<in> {Some kTypeSessionReuse, Some kTypeMultiHop}))
      in if force \<or> doUpdate then
           update_files (\<lambda>r. f_job_id r = jobId \<and> \<not> terminal_file (f_file_state r)) (fail_file e message) d
         else d)"

definition cancel_file :: "env \<Rightarrow> string \<Rightarrow> file_row \<Rightarrow> file_row" where
  "cancel_file e reason r = r\<lparr>f_finish_time := Some (now e), f_dest_surl_uuid := None, f_file_state := CANCELED,
     f_reason := reason\<rparr>"

text \<open>The unused files of a multihop job are left to the update of the job.\<close>

definition cancel_states :: "job_row \<Rightarrow> file_state set" where
  "cancel_states j =
     (if j_job_type j \<noteq> Some kTypeMultiHop then {SUBMITTED, NOT_USED, STAGING, ON_HOLD, ON_HOLD_STAGING}
      else {SUBMITTED, STAGING, ON_HOLD, ON_HOLD_STAGING})"

definition cancel_job :: "env \<Rightarrow> bool \<Rightarrow> string \<Rightarrow> job_row \<Rightarrow> db \<Rightarrow> db" where
  "cancel_job e cu message j d =
     updateJobTransferStatusInternal e cu (j_job_id j) CANCELED
       (update_files (\<lambda>r. f_job_id r = j_job_id j \<and> f_file_state r \<in> cancel_states j) (cancel_file e message) d)"

definition expired_global :: "env \<Rightarrow> int \<Rightarrow> string \<Rightarrow> job_row \<Rightarrow> bool" where
  "expired_global e maxTime vo j \<longleftrightarrow> j_submit_time j < now e - maxTime * 3600
     \<and> j_job_state j \<in> {J_SUBMITTED, J_STAGING} \<and> j_job_finished j = None \<and> j_vo_name j = vo"

definition expired_own :: "env \<Rightarrow> string \<Rightarrow> job_row \<Rightarrow> bool" where
  "expired_own e vo j \<longleftrightarrow> (case j_max_time_in_queue j of None \<Rightarrow> False | Some t \<Rightarrow> t < now e) \<and> j_vo_name j = vo
     \<and> j_job_state j \<in> {J_SUBMITTED, J_ACTIVE, J_STAGING} \<and> j_job_finished j = None"

definition global_message :: string where
  "global_message = ''Job has been canceled because it stayed in the queue for too long (global timeout)''"

definition queue_message :: string where
  "queue_message =
     ''Job has been canceled because it stayed in the queue for too long (max-time-in-queue timeout)''"

definition cancelExpiredJobsForVo ::
  "env \<Rightarrow> bool \<Rightarrow> int \<Rightarrow> string \<Rightarrow> db \<times> job_id list \<Rightarrow> db \<times> job_id list" where
  "cancelExpiredJobsForVo e cu maxTime vo dj =
     (let d = fst dj;
          js1 = (if maxTime > 0 then filter (expired_global e maxTime vo) (t_job d) else []);
          d1 = fold (cancel_job e cu global_message) js1 d;
          js2 = filter (expired_own e vo) (t_job d1);
          d2 = fold (cancel_job e cu queue_message) js2 d1
      in (d2, snd dj @ map j_job_id js1 @ map j_job_id js2))"

definition getVos :: "db \<Rightarrow> string list" where
  "getVos d = remdups (map j_vo_name (t_job d))"

text \<open>\<open>segment_start\<close> is \<^verbatim>\<open>hashSegment.start\<close>: only the first host does this.\<close>

definition setToFailOldQueuedJobs :: "env \<Rightarrow> bool \<Rightarrow> nat \<Rightarrow> db \<Rightarrow> db \<times> job_id list" where
  "setToFailOldQueuedJobs e cu segment_start d =
     (if segment_start \<noteq> 0 then (d, [])
      else fold (\<lambda>vo dj. cancelExpiredJobsForVo e cu (getMaxTimeInQueue vo (fst dj)) vo dj) (getVos d) (d, []))"

text \<open>The canceled transfers of this host that still run: they get a finish time, once.\<close>

definition to_kill :: "env \<Rightarrow> file_row \<Rightarrow> bool" where
  "to_kill e r \<longleftrightarrow> f_file_state r = CANCELED \<and> f_finish_time r = None \<and> f_transfer_host r = Some (hostname e)
     \<and> f_staging_start r = None"

definition getCancelJob :: "env \<Rightarrow> db \<Rightarrow> db \<times> int list" where
  "getCancelJob e d =
     (let rows = filter (to_kill e) (t_file d);
          ids = map f_file_id rows
      in (update_files (\<lambda>r. f_file_id r \<in> set ids) (\<lambda>r. r\<lparr>f_finish_time := Some (now e)\<rparr>) d,
          filter (\<lambda>p. p > 0) (map (\<lambda>r. case f_pid r of None \<Rightarrow> 0 | Some p \<Rightarrow> p) rows)))"

subsection \<open>Bookkeeping\<close>

definition updateFileStatusReuse :: "env \<Rightarrow> job_id \<Rightarrow> file_state \<Rightarrow> db \<Rightarrow> db \<times> nat" where
  "updateFileStatusReuse e jobId status d =
     (let P = (\<lambda>r. f_job_id r = jobId \<and> f_file_state r = SUBMITTED);
          f = (\<lambda>r. r\<lparr>f_file_state := status, f_start_time := Some (now e), f_transfer_host := Some (hostname e)\<rparr>);
          updated = affected_rows P f (t_file d);
          d1 = update_files P f d
      in (if updated > 0 then
            update_jobs (\<lambda>j. j_job_id j = jobId \<and> j_job_state j = J_SUBMITTED)
              (set_job_state (job_state_named status)) d1
          else d1, updated))"

definition setPidForJob :: "job_id \<Rightarrow> int \<Rightarrow> db \<Rightarrow> db" where
  "setPidForJob jobId pid d = update_files (\<lambda>r. f_job_id r = jobId) (\<lambda>r. r\<lparr>f_pid := Some pid\<rparr>) d"

record progress_message =
  pm_file_id :: nat
  pm_transfer_status :: string
  pm_throughput :: real
  pm_transferred :: int

definition progress_update :: "progress_message \<Rightarrow> db \<Rightarrow> db" where
  "progress_update m d =
     (if pm_file_id m > 0 \<and> pm_transfer_status m = ''ACTIVE'' \<and> pm_throughput m > 0 then
        update_files (\<lambda>r. f_file_id r = pm_file_id m)
          (\<lambda>r. r\<lparr>f_throughput := pm_throughput m, f_transferred := pm_transferred m\<rparr>) d
      else d)"

definition updateFileTransferProgressVector :: "progress_message list \<Rightarrow> db \<Rightarrow> db" where
  "updateFileTransferProgressVector messages d = fold progress_update messages d"

record protocol_message =
  tm_file_id :: nat
  tm_transfer_status :: string
  tm_filesize :: int
  tm_nostreams :: int
  tm_timeout :: int
  tm_buffersize :: int

definition protocol_update :: "protocol_message \<Rightarrow> db \<Rightarrow> db" where
  "protocol_update m d =
     (if tm_transfer_status m = ''UPDATE'' then
        update_files (\<lambda>r. f_file_id r = tm_file_id m)
          (\<lambda>r. r\<lparr>f_internal_file_params := Some (serialize_params (tm_nostreams m) (tm_timeout m) (tm_buffersize m)),
                 f_filesize := tm_filesize m\<rparr>) d
      else d)"

definition updateProtocol :: "protocol_message list \<Rightarrow> db \<Rightarrow> db" where
  "updateProtocol messages d = fold protocol_update messages d"

record log_message =
  lm_file_id :: nat
  lm_log_path :: string
  lm_has_debug_file :: bool

text \<open>Messages that changed a row are erased from the map, the others stay for the next time.\<close>

definition log_update :: "log_message \<Rightarrow> file_row \<Rightarrow> file_row" where
  "log_update m r = r\<lparr>f_log_file := Some (lm_log_path m), f_log_file_debug := Some (lm_has_debug_file m)\<rparr>"

fun transferLogFileVector :: "(int \<times> log_message) list \<Rightarrow> db \<Rightarrow> db \<times> (int \<times> log_message) list" where
  "transferLogFileVector [] d = (d, [])"
| "transferLogFileVector ((k, m) # ms) d =
     (let P = (\<lambda>r. f_file_id r = lm_file_id m);
          updated = affected_rows P (log_update m) (t_file d)
      in case transferLogFileVector ms (update_files P (log_update m) d) of
           (d', left) \<Rightarrow> (d', if updated > 0 then left else (k, m) # left))"

subsection \<open>Queries of the supervisors\<close>

definition getActiveCount :: "string \<Rightarrow> string \<Rightarrow> db \<Rightarrow> int" where
  "getActiveCount source dest d =
     int (length (filter (\<lambda>r. f_source_se r = source \<and> f_dest_se r = dest \<and> f_file_state r = ACTIVE
                           \<and> job_by_id (f_job_id r) d \<noteq> None) (t_file d)))"

definition isTrAllowed :: "string \<Rightarrow> string \<Rightarrow> db \<Rightarrow> fts_error + bool" where
  "isTrAllowed source dest d =
     (case select_first (\<lambda>r. o_source_se r = source \<and> o_dest_se r = dest) (t_optimizer d) of
        None \<Rightarrow> Inr (getActiveCount source dest d < 2)
      | Some r \<Rightarrow> (case o_active r of None \<Rightarrow> Inl UserError
                  | Some maxActive \<Rightarrow> Inr (getActiveCount source dest d < maxActive)))"

text \<open>The time after which a transfer counts as stalled; \<open>None\<close> when the parameters do not parse.\<close>

definition stall_timeout :: "file_row \<Rightarrow> int option" where
  "stall_timeout r =
     (case f_internal_file_params r of
        None \<Rightarrow> Some 7200
      | Some ps \<Rightarrow> map_option (\<lambda>q. if timeout q = 0 then 7200 else timeout q + 3600) (parse_params ps))"

definition stall_candidate :: "env \<Rightarrow> db \<Rightarrow> file_row \<Rightarrow> bool" where
  "stall_candidate e d r \<longleftrightarrow> f_file_state r \<in> {ACTIVE, READY} \<and> f_transfer_host r = Some (hostname e)
     \<and> (case job_by_id (f_job_id r) d of None \<Rightarrow> False
        | Some j \<Rightarrow> (case j_job_type j of None \<Rightarrow> False | Some t \<Rightarrow> t \<noteq> kTypeSessionReuse))"

text \<open>The rows collected, and whether the loop ended with an exception (a NULL start time, bad parameters).\<close>

fun reap_rows :: "env \<Rightarrow> file_row list \<Rightarrow> file_row list \<times> fts_error option" where
  "reap_rows e [] = ([], None)"
| "reap_rows e (r # rs) =
     (case (f_start_time r, stall_timeout r) of
        (Some start, Some tmo) \<Rightarrow>
          (case reap_rows e rs of (xs, err) \<Rightarrow> (if now e - start > tmo then r # xs else xs, err))
      | _ \<Rightarrow> ([], Some UserError))"

definition reapStalledTransfers :: "env \<Rightarrow> db \<Rightarrow> file_row list \<times> fts_error option" where
  "reapStalledTransfers e d = reap_rows e (filter (stall_candidate e d) (t_file d))"

subsection \<open>The interface of an operation on files\<close>

locale file_operation =
  fixes op :: "db \<Rightarrow> db"
  assumes keeps_wf: "wf_db d \<Longrightarrow> wf_db (op d)"
    and keeps_frozen: "wf_db d \<Longrightarrow> rows_rel file_frozen d (op d)"
begin

lemma terminal_row:
  assumes "wf_db d" "file_by_id i d = Some r" "terminal_file (f_file_state r)"
  shows "\<exists>r'. file_by_id i (op d) = Some r' \<and> f_file_state r' = f_file_state r"
proof -
  from keeps_frozen [OF assms(1)] have "\<exists>r'. file_by_id i (op d) = Some r' \<and> file_frozen r r'"
    by (rule rows_rel_file_by_id) (simp_all add: file_frozen_def assms(2))
  then show ?thesis using assms(3) by (auto simp: file_frozen_def)
qed

lemma repeated: "wf_db d \<Longrightarrow> wf_db ((op ^^ n) d) \<and> rows_rel file_frozen d ((op ^^ n) d)"
proof (induction n)
  case (Suc n)
  then have "wf_db ((op ^^ n) d)" "rows_rel file_frozen d ((op ^^ n) d)" by simp_all
  then show ?case using keeps_wf keeps_frozen rows_frozen_trans by simp
qed simp

end

lemma file_operation_id: "file_operation (\<lambda>d. d)"
  by unfold_locales simp_all

lemma file_operation_comp:
  assumes "file_operation f" "file_operation g"
  shows "file_operation (\<lambda>d. g (f d))"
proof -
  note f = file_operation.keeps_wf [OF assms(1)] file_operation.keeps_frozen [OF assms(1)]
  note g = file_operation.keeps_wf [OF assms(2)] file_operation.keeps_frozen [OF assms(2)]
  show ?thesis
  proof unfold_locales
    fix d assume d: "wf_db d"
    show "wf_db (g (f d))" using f(1) [OF d] by (rule g(1))
    show "rows_rel file_frozen d (g (f d))" using f(2) [OF d] g(2) [OF f(1) [OF d]] by (rule rows_frozen_trans)
  qed
qed

lemma file_operation_fold: "(\<And>x. file_operation (f x)) \<Longrightarrow> file_operation (fold f xs)"
proof (induction xs)
  case Nil
  then show ?case using file_operation_id by (simp add: id_def)
next
  case (Cons x xs)
  then show ?case using file_operation_comp [of "f x" "fold f xs"] by (simp add: comp_def)
qed

lemma file_operation_if: "file_operation f \<Longrightarrow> file_operation g \<Longrightarrow> file_operation (\<lambda>d. if b then f d else g d)"
  by (cases b) simp_all

lemma file_operation_choice:
  "file_operation f \<Longrightarrow> file_operation g \<Longrightarrow> \<exists>h. file_operation h \<and> (if b then f d else g d) = h d"
  by auto

lemma file_operation_update:
  assumes "keeps_keys f" "clears_uuid f"
    "\<And>r. P r \<Longrightarrow> terminal_file (f_file_state r) \<Longrightarrow> f_file_state (f r) = f_file_state r"
  shows "file_operation (update_files P f)"
  by unfold_locales (simp_all add: wf_db_update_files rows_frozen_update_files assms)

lemma file_operation_update_jobs: "(\<And>j. j_job_id (f j) = j_job_id j) \<Longrightarrow> file_operation (update_jobs P f)"
  by unfold_locales (simp_all add: wf_db_update_jobs)

text \<open>An operation whose parts depend on the database it starts from.\<close>

lemma file_operationI:
  assumes "\<And>d. \<exists>g. file_operation g \<and> op d = g d"
  shows "file_operation op"
proof unfold_locales
  fix d assume d: "wf_db d"
  obtain g where g: "file_operation g" "op d = g d" using assms by blast
  show "wf_db (op d)" "rows_rel file_frozen d (op d)"
    using file_operation.keeps_wf [OF g(1) d] file_operation.keeps_frozen [OF g(1) d] g(2) by simp_all
qed

subsection \<open>Every operation provides it\<close>

interpretation file_status: file_operation
  "\<lambda>d. fst (updateFileTransferStatusInternal e jobId fileId req m d)"
proof unfold_locales
  fix d assume d: "wf_db d"
  obtain d' ok st where u: "updateFileTransferStatusInternal e jobId fileId req m d = (d', ok, st)"
    by (cases "updateFileTransferStatusInternal e jobId fileId req m d")
  show "wf_db (fst (updateFileTransferStatusInternal e jobId fileId req m d))"
    using updateFileTransferStatus_wf [OF d u] u by simp
  show "rows_rel file_frozen d (fst (updateFileTransferStatusInternal e jobId fileId req m d))"
    using updateFileTransferStatus_frozen [OF d u] u by simp
qed

interpretation job_status: file_operation "updateJobTransferStatusInternal e cu jobId state"
  by unfold_locales (simp_all add: updateJobTransferStatus_wf updateJobTransferStatus_frozen)

lemma keeps_keys_ops [simp]:
  "keeps_keys (retry_staging n)" "keeps_keys (retry_submitted t n)" "keeps_keys (fail_file e msg)"
  "keeps_keys (cancel_file e msg)" "keeps_keys (log_update lm)"
  by (rule keeps_keysI; simp add: retry_staging_def retry_submitted_def fail_file_def cancel_file_def log_update_def)+

lemma clears_uuid_ops [simp]:
  "clears_uuid (retry_staging n)" "clears_uuid (retry_submitted t n)" "clears_uuid (fail_file e msg)"
  "clears_uuid (cancel_file e msg)" "clears_uuid (log_update lm)"
  by (rule clears_uuidI; simp add: retry_staging_def retry_submitted_def fail_file_def cancel_file_def log_update_def)+

lemma tables_log_retry [simp]: "t_file (log_retry e i n reason lf d) = t_file d" "t_job (log_retry e i n reason lf d) = t_job d"
  by (simp_all add: log_retry_def)

lemma wf_db_tables: "t_file d' = t_file d \<Longrightarrow> t_job d' = t_job d \<Longrightarrow> wf_db d' = wf_db d"
  by (simp add: wf_db_def)

lemma file_operation_tables:
  assumes "\<And>d. t_file (op d) = t_file d" "\<And>d. t_job (op d) = t_job d"
  shows "file_operation op"
  using assms wf_db_tables [of "op d" d for d] by unfold_locales (simp_all add: rows_rel_def list.rel_refl)

interpretation retry_log: file_operation "log_retry e fileId n reason logFile"
  by (rule file_operation_tables) simp_all

lemma update_live_job_operation: "(\<And>j. j_job_id (f j) = j_job_id j) \<Longrightarrow> file_operation (update_live_job jobId f)"
  unfolding update_live_job_def [abs_def] by (rule file_operation_update_jobs)

lemma retry_file_operation: "file_operation (retry_file stage t jobId fileId n)"
  unfolding retry_file_def [abs_def]
  by (intro file_operation_if file_operation_update) (auto simp: terminal_file_def)

lemma retry_job_operation: "file_operation (retry_job reuse jobId)"
  unfolding retry_job_def [abs_def]
  by (intro file_operation_if file_operation_id update_live_job_operation) simp

text \<open>A retry is a sequence of three operations, or an error that leaves the database alone.\<close>

definition db_after :: "db \<Rightarrow> fts_error + db \<Rightarrow> db" where
  "db_after d x = (case x of Inl err \<Rightarrow> d | Inr d' \<Rightarrow> d')"

lemma db_after_if: "db_after d (if b then Inl x else Inr y) = (if b then d else y)"
  by (simp add: db_after_def)

lemma if_else_exists: "(if c then d else F x y z) = d \<or> (\<exists>x' y' z'. (if c then d else F x y z) = F x' y' z')"
  by auto

lemma setRetryTransfer_shape:
  "db_after d (setRetryTransfer e jobId fileId n reason lf err d) = d \<or>
   (\<exists>stage t reuse. db_after d (setRetryTransfer e jobId fileId n reason lf err d)
      = log_retry e fileId n reason lf (retry_file stage t jobId fileId n (retry_job reuse jobId d)))"
  unfolding setRetryTransfer_def Let_def db_after_if
  by (rule if_else_exists [where F = "\<lambda>stage t reuse. log_retry e fileId n reason lf
        (retry_file stage t jobId fileId n (retry_job reuse jobId d))"])

lemma retry_operation:
  "file_operation (\<lambda>d. log_retry e fileId n reason lf (retry_file stage t jobId fileId n (retry_job reuse jobId d)))"
  by (rule file_operation_comp [OF file_operation_comp [OF retry_job_operation retry_file_operation]
        retry_log.file_operation_axioms])

interpretation retry: file_operation
  "\<lambda>d. db_after d (setRetryTransfer e jobId fileId n reason logFile errcode d)"
proof (rule file_operationI)
  fix d
  show "\<exists>g. file_operation g \<and> db_after d (setRetryTransfer e jobId fileId n reason logFile errcode d) = g d"
    using setRetryTransfer_shape [of d e jobId fileId n reason logFile errcode]
  proof (elim disjE exE)
    assume "db_after d (setRetryTransfer e jobId fileId n reason logFile errcode d) = d"
    then show ?thesis using file_operation_id by blast
  next
    fix stage t reuse
    assume "db_after d (setRetryTransfer e jobId fileId n reason logFile errcode d)
      = log_retry e fileId n reason logFile (retry_file stage t jobId fileId n (retry_job reuse jobId d))"
    then show ?thesis using retry_operation by blast
  qed
qed

interpretation fork_failed: file_operation "forkFailed e jobId"
proof -
  have "keeps_keys (\<lambda>r. (fail_file e m r)\<lparr>f_transfer_host := h\<rparr>)" for m h
    by (rule keeps_keysI) (simp_all add: fail_file_def)
  moreover have "clears_uuid (\<lambda>r. (fail_file e m r)\<lparr>f_transfer_host := h\<rparr>)" for m h
    by (rule clears_uuidI) (simp add: fail_file_def)
  ultimately show "file_operation (forkFailed e jobId)"
    unfolding forkFailed_def [abs_def]
    by (intro file_operation_comp [OF file_operation_update file_operation_update_jobs]) simp_all
qed

lemma fail_live_operation:
  "file_operation (update_files (\<lambda>r. f_job_id r = jobId \<and> \<not> terminal_file (f_file_state r)) (fail_file e message))"
  by (rule file_operation_update) simp_all

interpretation terminate_reuse: file_operation "terminateReuseProcess e jobId pid message force"
proof (rule file_operationI)
  fix d
  show "\<exists>g. file_operation g \<and> terminateReuseProcess e jobId pid message force d = g d"
    unfolding terminateReuseProcess_def Let_def
    by (rule file_operation_choice [OF fail_live_operation file_operation_id])
qed

lemma cancel_states_live: "s \<in> cancel_states j \<Longrightarrow> \<not> terminal_file s"
  by (auto simp: cancel_states_def terminal_file_def split: if_splits)

lemma cancel_job_operation: "file_operation (cancel_job e cu message j)"
  unfolding cancel_job_def [abs_def]
  by (intro file_operation_comp [OF _ job_status.file_operation_axioms] file_operation_update)
    (auto dest: cancel_states_live)

interpretation cancel_expired: file_operation "\<lambda>d. fst (cancelExpiredJobsForVo e cu maxTime vo (d, js))"
proof (rule file_operationI)
  fix d
  have "file_operation (\<lambda>d. fold (cancel_job e cu queue_message) b (fold (cancel_job e cu global_message) a d))" for a b
    by (rule file_operation_comp [OF file_operation_fold file_operation_fold]) (rule cancel_job_operation)+
  then show "\<exists>g. file_operation g \<and> fst (cancelExpiredJobsForVo e cu maxTime vo (d, js)) = g d"
    unfolding cancelExpiredJobsForVo_def Let_def fst_conv by blast
qed

lemma cancel_expired_fold:
  "wf_db (fst dj) \<Longrightarrow>
    wf_db (fst (fold (\<lambda>vo dj. cancelExpiredJobsForVo e cu (mt vo (fst dj)) vo dj) vos dj)) \<and>
    rows_rel file_frozen (fst dj) (fst (fold (\<lambda>vo dj. cancelExpiredJobsForVo e cu (mt vo (fst dj)) vo dj) vos dj))"
proof (induction vos arbitrary: dj)
  case (Cons vo vos)
  obtain d js where dj: "dj = (d, js)" by (cases dj)
  let ?dj = "cancelExpiredJobsForVo e cu (mt vo (fst dj)) vo dj"
  have 1: "wf_db (fst ?dj)" "rows_rel file_frozen (fst dj) (fst ?dj)"
    using Cons.prems cancel_expired.keeps_wf cancel_expired.keeps_frozen unfolding dj fst_conv by blast+
  then show ?case using Cons.IH [OF 1(1)] rows_frozen_trans [OF 1(2)] by (simp only: fold_simps)
qed simp

interpretation fail_old_queued: file_operation "\<lambda>d. fst (setToFailOldQueuedJobs e cu start d)"
proof unfold_locales
  fix d assume "wf_db d"
  then have "wf_db (fst (fold (\<lambda>vo dj. cancelExpiredJobsForVo e cu (getMaxTimeInQueue vo (fst dj)) vo dj) (getVos d) (d, [])))
    \<and> rows_rel file_frozen d (fst (fold (\<lambda>vo dj. cancelExpiredJobsForVo e cu (getMaxTimeInQueue vo (fst dj)) vo dj)
        (getVos d) (d, [])))"
    using cancel_expired_fold [of "(d, [])" e cu getMaxTimeInQueue "getVos d"] by simp
  then show "wf_db (fst (setToFailOldQueuedJobs e cu start d))"
    "rows_rel file_frozen d (fst (setToFailOldQueuedJobs e cu start d))"
    using \<open>wf_db d\<close> by (simp_all add: setToFailOldQueuedJobs_def)
qed

text \<open>Updates that do not touch the state of a file.\<close>

lemma bookkeeping_operation:
  assumes "\<And>r. f_file_id (f r) = f_file_id r" "\<And>r. f_job_id (f r) = f_job_id r"
    "\<And>r. f_file_index (f r) = f_file_index r" "\<And>r. f_dest_surl_uuid (f r) = f_dest_surl_uuid r"
    "\<And>r. f_file_state (f r) = f_file_state r"
  shows "file_operation (update_files P f)"
  by (intro file_operation_update keeps_keysI clears_uuidI disjI1) (rule assms)+

interpretation cancel_running: file_operation "\<lambda>d. fst (getCancelJob e d)"
proof (rule file_operationI)
  fix d
  have "file_operation (update_files P (\<lambda>r. r\<lparr>f_finish_time := t\<rparr>))" for P t
    by (rule bookkeeping_operation) simp_all
  then show "\<exists>g. file_operation g \<and> fst (getCancelJob e d) = g d"
    unfolding getCancelJob_def Let_def fst_conv by blast
qed

interpretation set_pid: file_operation "setPidForJob jobId pid"
  unfolding setPidForJob_def [abs_def] by (rule bookkeeping_operation) simp_all

interpretation progress: file_operation "updateFileTransferProgressVector messages"
proof -
  have "file_operation (progress_update m)" for m
    unfolding progress_update_def [abs_def]
    by (intro file_operation_if bookkeeping_operation file_operation_id) simp_all
  then show "file_operation (updateFileTransferProgressVector messages)"
    unfolding updateFileTransferProgressVector_def [abs_def] by (rule file_operation_fold)
qed

interpretation protocol: file_operation "updateProtocol messages"
proof -
  have "file_operation (protocol_update m)" for m
    unfolding protocol_update_def [abs_def]
    by (intro file_operation_if bookkeeping_operation file_operation_id) simp_all
  then show "file_operation (updateProtocol messages)"
    unfolding updateProtocol_def [abs_def] by (rule file_operation_fold)
qed

lemma fst_transferLog: "fst (transferLogFileVector ms d) =
    fold (\<lambda>(k, m). update_files (\<lambda>r. f_file_id r = lm_file_id m) (log_update m)) ms d"
  by (induction ms d rule: transferLogFileVector.induct) (simp_all add: Let_def split_beta)

interpretation log_files: file_operation "\<lambda>d. fst (transferLogFileVector ms d)"
  unfolding fst_transferLog
proof (rule file_operation_fold)
  show "file_operation (case x of (k, m) \<Rightarrow> update_files (\<lambda>r. f_file_id r = lm_file_id m) (log_update m))" for x
    by (cases x) (simp add: bookkeeping_operation log_update_def)
qed

interpretation reuse_status: file_operation "\<lambda>d. fst (updateFileStatusReuse e jobId status d)"
proof (rule file_operationI)
  fix d
  let ?f = "\<lambda>r. r\<lparr>f_file_state := status, f_start_time := Some (now e), f_transfer_host := Some (hostname e)\<rparr>"
  have "keeps_keys ?f" by (rule keeps_keysI) simp_all
  moreover have "clears_uuid ?f" by (rule clears_uuidI) simp
  ultimately have files: "file_operation (update_files (\<lambda>r. f_job_id r = jobId \<and> f_file_state r = SUBMITTED) ?f)"
    by (rule file_operation_update) (simp add: terminal_file_def)
  have "file_operation (update_jobs P (set_job_state s))" for P s
    by (rule file_operation_update_jobs) simp
  from file_operation_comp [OF files this] files
  show "\<exists>g. file_operation g \<and> fst (updateFileStatusReuse e jobId status d) = g d"
    unfolding updateFileStatusReuse_def Let_def fst_conv by (rule file_operation_choice)
qed

lemma setRetryTransfer_row:
  assumes "job_by_id jobId d = Some j" "j_retry_delay j = Some delay" "j_bring_online j = Some bo"
    "j_copy_pin_lifetime j = Some pin" "\<not> ((bo > 0 \<or> pin > 0) \<and> err = ETIMEDOUT)"
    "file_by_id fileId d = Some r" "f_job_id r = jobId" "f_file_state r \<notin> {FINISHED, SUBMITTED, FAILED, CANCELED}"
  shows "\<exists>d'. setRetryTransfer e jobId fileId n reason lf err d = Inr d' \<and>
    file_by_id fileId d'
      = Some (retry_submitted (now e + (if delay > 0 then delay else DEFAULT_RETRY_DELAY)) n r) \<and>
    (\<exists>x \<in> set (t_file_retry_errors d'). e_file_id x = fileId \<and> e_attempt x = n)"
proof -
  let ?t = "now e + (if delay > 0 then delay else DEFAULT_RETRY_DELAY)"
  define d1 where "d1 = retry_job (j_job_type j = Some kTypeSessionReuse) jobId d"
  define stage where "stage \<longleftrightarrow> (bo > 0 \<or> pin > 0) \<and> err = ETIMEDOUT"
  define d2 where "d2 = retry_file stage ?t jobId fileId n d1"
  have "\<not> stage" using assms(5) by (simp only: stage_def not_False_eq_True)
  have r: "f_file_id r = fileId" using file_by_id_Some [OF assms(6)] by simp
  have "file_by_id fileId d1 = Some r"
    using assms(6) by (simp add: d1_def retry_job_def update_live_job_def)
  then have "file_by_id fileId d2 = Some (retry_submitted ?t n r)"
    using assms(7,8) r \<open>\<not> stage\<close> by (simp add: d2_def retry_file_def file_by_id_update_files)
  moreover from this have "file_by_id fileId (log_retry e fileId n reason lf d2) = Some (retry_submitted ?t n r)"
    by (simp add: file_by_id_def)
  moreover have "\<exists>x \<in> set (t_file_retry_errors (log_retry e fileId n reason lf d2)). e_file_id x = fileId \<and> e_attempt x = n"
    using \<open>file_by_id fileId d2 = _\<close> by (auto simp: log_retry_def)
  moreover have "setRetryTransfer e jobId fileId n reason lf err d = Inr (log_retry e fileId n reason lf d2)"
    using assms(1-4) by (simp add: setRetryTransfer_def Let_def d1_def d2_def stage_def)
  ultimately show ?thesis by blast
qed

subsection \<open>Properties\<close>

definition sample_retry_db :: db where
  "sample_retry_db = sample_db [sample_file 1 ''j'' 0 ACTIVE, sample_file 2 ''j'' 1 CANCELED]
     [(sample_job ''j'' None J_ACTIVE)\<lparr>j_retry_delay := Some 60, j_bring_online := Some (-1), j_copy_pin_lifetime := Some (-1)\<rparr>]"



text \<open>
  A job whose retry delay, bring-online or pin lifetime is NULL cannot be retried: the function
  throws, whatever the file.
\<close>

lemma retry_null_column:
  assumes "job_by_id jobId d = Some j" "j_retry_delay j = None \<or> j_bring_online j = None \<or> j_copy_pin_lifetime j = None"
  shows "setRetryTransfer e jobId fileId n reason lf err d = Inl UserError"
  using assms by (auto simp: setRetryTransfer_def Let_def)

text \<open>
  Multiple replica and multihop jobs are never retried: the number of retries the database
  reports for them is not positive.
\<close>

lemma replica_jobs_not_retried:
  assumes "job_by_id jobId d = Some j" "job_type_of j \<in> {kTypeMultipleReplica, kTypeMultiHop}"
    "getRetry jobId d = Inr n"
  shows "n \<le> 0"
  using assms by (auto simp: getRetry_def Let_def split: if_splits option.splits sum.splits)

text \<open>
  A canceled transfer is handed to the killer once: a second look for canceled transfers on
  the same host finds none and changes nothing.
\<close>

lemma cancel_reported_once:
  assumes "wf_db d" "hostname e' = hostname e"
  shows "getCancelJob e' (fst (getCancelJob e d)) = (fst (getCancelJob e d), [])"
proof -
  let ?ids = "set (map f_file_id (filter (to_kill e) (t_file d)))"
  let ?P = "\<lambda>r. f_file_id r \<in> ?ids" and ?f = "\<lambda>r. r\<lparr>f_finish_time := Some (now e)\<rparr>"
  have "\<not> to_kill e' r" if "r \<in> set (update_where ?P ?f (t_file d))" for r
    using that
  proof (cases rule: in_update_whereE)
    case (changed s)
    then show ?thesis by (simp add: to_kill_def)
  next
    case kept
    then have "\<not> to_kill e r" by auto
    then show ?thesis using assms(2) by (simp add: to_kill_def)
  qed
  then have none: "filter (to_kill e') (t_file (fst (getCancelJob e d))) = []"
    by (simp add: getCancelJob_def Let_def filter_empty_conv)
  have "update_files (\<lambda>r. False) g x = x" for g x by (simp add: update_files_def update_where_def)
  then show ?thesis using none by (simp add: getCancelJob_def [of e'] Let_def)
qed

lemma reap_rows_exact:
  "reap_rows e rs = (xs, None) \<Longrightarrow>
    set xs = {r \<in> set rs. \<exists>start tmo. f_start_time r = Some start \<and> stall_timeout r = Some tmo \<and> now e - start > tmo}"
proof (induction rs arbitrary: xs)
  case (Cons r rs)
  then obtain start tmo ys where "f_start_time r = Some start" "stall_timeout r = Some tmo"
    "reap_rows e rs = (ys, None)" "xs = (if now e - start > tmo then r # ys else ys)"
    by (auto split: option.splits prod.splits)
  then show ?case using Cons.IH [of ys] by auto
qed simp

text \<open>
  When the search for stalled transfers ends without an exception it has found exactly the
  running transfers of this host that are older than their timeout.
\<close>

lemma stalled_transfers_exact:
  assumes "reapStalledTransfers e d = (xs, None)"
  shows "set xs = {r \<in> set (t_file d). stall_candidate e d r \<and>
    (\<exists>start tmo. f_start_time r = Some start \<and> stall_timeout r = Some tmo \<and> now e - start > tmo)}"
  using reap_rows_exact assms unfolding reapStalledTransfers_def by auto

text \<open>
  The timeout the transfer process reports and \<open>updateProtocol\<close> stores is the one the search
  for stalled transfers applies, plus one hour; zero means two hours.
\<close>

lemma reported_timeout_applies:
  assumes "int32 (tm_nostreams m)" "int32 (tm_timeout m)" "int32 (tm_buffersize m)"
    "tm_transfer_status m = ''UPDATE''" "file_by_id (tm_file_id m) d = Some r"
  shows "\<exists>r'. file_by_id (tm_file_id m) (updateProtocol [m] d) = Some r' \<and>
    stall_timeout r' = Some (if tm_timeout m = 0 then 7200 else tm_timeout m + 3600)"
proof -
  let ?f = "\<lambda>r. r\<lparr>f_internal_file_params := Some (serialize_params (tm_nostreams m) (tm_timeout m) (tm_buffersize m)),
     f_filesize := tm_filesize m\<rparr>"
  have "keeps_keys ?f" by (rule keeps_keysI) simp_all
  then have "file_by_id (tm_file_id m) (updateProtocol [m] d) = Some (?f r)"
    using assms(4,5) file_by_id_Some [OF assms(5)]
    by (simp add: updateProtocol_def protocol_update_def file_by_id_update_files)
  moreover have "parse_params (serialize_params (tm_nostreams m) (tm_timeout m) (tm_buffersize m))
      = Some (empty_params\<lparr>nostreams := tm_nostreams m, timeout := tm_timeout m, buffersize := tm_buffersize m\<rparr>)"
    unfolding parse_params_def split_serialized
    by (simp add: parse_item_def starts_with_def lexical_cast_show assms(1-3))
  ultimately show ?thesis by (simp add: stall_timeout_def)
qed

text \<open>
  Called without a job id, \<open>terminateReuseProcess\<close> fails no file, even when the process id
  identifies a running transfer: the files are selected with the empty id.
\<close>

lemma terminate_without_job_id:
  assumes "[] \<notin> f_job_id ` set (t_file d)"
  shows "terminateReuseProcess e [] pid message force d = d"
proof -
  have "f_job_id r \<noteq> []" if "r \<in> set (t_file d)" for r using assms that by (metis imageI)
  then have "update_files (\<lambda>r. f_job_id r = [] \<and> \<not> terminal_file (f_file_state r)) (fail_file e message) d = d"
    by (simp add: update_files_def update_where_id)
  then show ?thesis by (simp add: terminateReuseProcess_def Let_def)
qed

end
