(* ===== verification/Optimizer.thy ===== *)
theory Optimizer
  imports Schema Uri "HOL-Library.Signed_Division"
begin

section \<open>The optimizer: how many connections a link may use\<close>

text \<open>
  \<^verbatim>\<open>src/server/services/optimizer\<close>: \<open>Optimizer.cpp\<close>, \<open>OptimizerConnections.cpp\<close> and
  \<open>OptimizerStreams.cpp\<close>. For every pair of storages with work to do, the optimizer compares the
  success rate and the throughput with what it remembers of its last decision and moves the
  number of connections by a step; then it splits the connections into streams.

  \<^item> The abstract class \<open>OptimizerDataSource\<close> is a record of operations on a state of any type, the
    argument \<open>ds\<close> of every definition. The laws its two stores promise are the locale
    \<open>optimizer_store\<close>; the theory OptimizerDataSource interprets it for the SQL implementation.
  \<^item> \<^verbatim>\<open>double\<close> is \<open>real\<close>, \<^verbatim>\<open>int\<close> and \<^verbatim>\<open>time_t\<close> are \<open>int\<close>: the quantities are counts, rates and seconds.
    Integer division truncates (\<open>sdiv\<close>).
  \<^item> \<open>getThroughputInfo\<close> is the one query that can throw on the data itself (a running transfer
    without start time); \<open>None\<close> is the exception. It leaves the run with what was stored before.
  \<^item> The callbacks are present, as in the service.
  \<^item> The assertions of the code are not part of its behaviour in a release build. When they hold is
    a theorem.
\<close>

datatype OptimizerMode = kOptimizerDisabled | kOptimizerConservative | kOptimizerNormal | kOptimizerAggressive

fun mode_value :: "OptimizerMode \<Rightarrow> int" where
  "mode_value kOptimizerDisabled = 0"
| "mode_value kOptimizerConservative = 1"
| "mode_value kOptimizerNormal = 2"
| "mode_value kOptimizerAggressive = 3"

lemma mode_value_inject [simp]: "mode_value a = mode_value b \<longleftrightarrow> a = b"
  by (cases a; cases b) simp_all

instantiation OptimizerMode :: linorder
begin

definition less_eq_OptimizerMode :: "OptimizerMode \<Rightarrow> OptimizerMode \<Rightarrow> bool" where
  "less_eq_OptimizerMode a b \<longleftrightarrow> mode_value a \<le> mode_value b"

definition less_OptimizerMode :: "OptimizerMode \<Rightarrow> OptimizerMode \<Rightarrow> bool" where
  "less_OptimizerMode a b \<longleftrightarrow> mode_value a < mode_value b"

instance
  by standard (auto simp: less_eq_OptimizerMode_def less_OptimizerMode_def)

end

text \<open>A pair of storage names; its order is the one of \<^verbatim>\<open>operator <\<close> in \<^verbatim>\<open>Pair.h\<close>.\<close>

type_synonym Pair = "string \<times> string"

definition pair_isLanTransfer :: "Pair \<Rightarrow> bool" where
  "pair_isLanTransfer p = isLanTransfer (fst p) (snd p)"

record Range =
  r_min :: int
  r_max :: int
  r_specific :: bool
  r_storageSpecific :: bool

record StorageLimits =
  l_source :: int
  l_destination :: int
  l_throughputSource :: real
  l_throughputDestination :: real

record PairState =
  timestamp :: int
  throughput :: real
  avgDuration :: int
  successRate :: real
  retryCount :: int
  activeCount :: int
  queueSize :: int
  ema :: real
  filesizeAvg :: real
  filesizeStdDev :: real
  connections :: int

definition new_PairState :: PairState where
  "new_PairState = \<lparr>timestamp = 0, throughput = 0, avgDuration = 0, successRate = 0, retryCount = 0,
     activeCount = 0, queueSize = 0, ema = 0, filesizeAvg = 0, filesizeStdDev = 0, connections = 1\<rparr>"

type_synonym rationale = "rationale_item list"

record 's data_source =
  getActivePairs :: "'s \<Rightarrow> Pair list"
  getOptimizerMode :: "string \<Rightarrow> string \<Rightarrow> 's \<Rightarrow> OptimizerMode"
  getPairLimits :: "Pair \<Rightarrow> 's \<Rightarrow> Range \<times> StorageLimits"
  getOptimizerValue :: "Pair \<Rightarrow> 's \<Rightarrow> int"
  getThroughputInfo :: "Pair \<Rightarrow> int \<Rightarrow> 's \<Rightarrow> (real \<times> real \<times> real) option"
  getAverageDuration :: "Pair \<Rightarrow> int \<Rightarrow> 's \<Rightarrow> int"
  getSuccessRateForPair :: "Pair \<Rightarrow> int \<Rightarrow> 's \<Rightarrow> real \<times> int"
  getActive :: "Pair \<Rightarrow> 's \<Rightarrow> int"
  getSubmitted :: "Pair \<Rightarrow> 's \<Rightarrow> int"
  getThroughputAsSource :: "string \<Rightarrow> 's \<Rightarrow> real"
  getThroughputAsDestination :: "string \<Rightarrow> 's \<Rightarrow> real"
  storeOptimizerDecision :: "Pair \<Rightarrow> int \<Rightarrow> PairState \<Rightarrow> int \<Rightarrow> rationale \<Rightarrow> 's \<Rightarrow> 's"
  storeOptimizerStreams :: "Pair \<Rightarrow> int \<Rightarrow> 's \<Rightarrow> 's"

text \<open>
  The members of the class. \<open>notified\<close> collects what the callbacks were told, newest first.
\<close>

record optimizer =
  inMemoryStore :: "Pair \<rightharpoonup> PairState"
  notified :: "(Pair \<times> int \<times> PairState \<times> int \<times> rationale) list"
  optimizerSteadyInterval :: int
  maxNumberOfStreams :: int
  maxSuccessRate :: int
  lowSuccessRate :: int
  baseSuccessRate :: int
  decreaseStepSize :: int
  increaseStepSize :: int
  increaseAggressiveStepSize :: int
  emaAlpha :: real

definition new_optimizer :: optimizer where
  "new_optimizer = \<lparr>inMemoryStore = Map.empty, notified = [], optimizerSteadyInterval = 60,
     maxNumberOfStreams = 10, maxSuccessRate = 100, lowSuccessRate = 97, baseSuccessRate = 96,
     decreaseStepSize = 1, increaseStepSize = 1, increaseAggressiveStepSize = 2, emaAlpha = 1 / 10\<rparr>"

definition DEFAULT_MIN_ACTIVE :: int where
  "DEFAULT_MIN_ACTIVE = 2"

definition DEFAULT_LAN_ACTIVE :: int where
  "DEFAULT_LAN_ACTIVE = 10"

subsection \<open>The pieces of the decision\<close>

definition exponentialMovingAverage :: "real \<Rightarrow> real \<Rightarrow> real \<Rightarrow> real" where
  "exponentialMovingAverage sample alpha cur =
     (if sample > 0 then sample * alpha + (1 - alpha) * cur else cur)"

text \<open>In seconds.\<close>

definition calculateTimeFrame :: "int \<Rightarrow> int" where
  "calculateTimeFrame avg =
     (if avg > 0 \<and> avg < 30 then 5 * 60 else if avg > 30 \<and> avg < 900 then 15 * 60 else 30 * 60)"

definition getOptimizerWorkingRange :: "'s data_source \<Rightarrow> Pair \<Rightarrow> 's \<Rightarrow> Range \<times> StorageLimits" where
  "getOptimizerWorkingRange ds pair s =
     (case getPairLimits ds pair s of (rng, limits) \<Rightarrow>
        let range1 = (if r_min rng \<le> 0
                      then rng\<lparr>r_min := (if pair_isLanTransfer pair then DEFAULT_LAN_ACTIVE else DEFAULT_MIN_ACTIVE)\<rparr>
                      else rng);
            range2 = (if \<not> r_max range1 > 0
                      then range1\<lparr>r_max := max (min (l_source limits) (l_destination limits)) (r_min range1),
                                  r_storageSpecific := True\<rparr>
                      else range1)
        in (range2, limits))"

text \<open>
  \<^verbatim>\<open>round(log10(a)) < round(log10(b))\<close> on doubles: the logarithm of zero is minus infinity, that
  of a negative number is not a number and compares as false; \<^verbatim>\<open>round\<close> rounds halves away from
  zero.
\<close>

definition c_round :: "real \<Rightarrow> int" where
  "c_round x = (if x \<ge> 0 then \<lfloor>x + 1 / 2\<rfloor> else \<lceil>x - 1 / 2\<rceil>)"

definition log10_less :: "real \<Rightarrow> real \<Rightarrow> bool" where
  "log10_less a b \<longleftrightarrow>
     (if a < 0 \<or> b < 0 then False else if b = 0 then False else if a = 0 then True
      else c_round (log 10 a) < c_round (log 10 b))"

definition optimizeLowSuccessRate ::
  "PairState \<Rightarrow> PairState \<Rightarrow> int \<Rightarrow> int \<Rightarrow> int \<Rightarrow> int \<times> rationale" where
  "optimizeLowSuccessRate current previous previousValue base decreaseStep =
     (if successRate current > successRate previous \<and> successRate current \<ge> of_int base
         \<and> retryCount current \<le> retryCount previous
      then (previousValue, [Txt ''Bad link efficiency but progressively improving''])
      else if successRate current < successRate previous
      then (previousValue - decreaseStep, [Txt ''Bad link efficiency''])
      else (previousValue - decreaseStep, [Txt ''Bad link efficiency, no changes'']))"

definition optimizeNotEnoughInformation :: "int \<Rightarrow> int \<times> rationale" where
  "optimizeNotEnoughInformation previousValue =
     (previousValue, [Txt ''Steady, not enough throughput information''])"

definition optimizeGoodSuccessRate ::
  "PairState \<Rightarrow> PairState \<Rightarrow> int \<Rightarrow> int \<Rightarrow> int \<Rightarrow> int \<times> rationale" where
  "optimizeGoodSuccessRate current previous previousValue decreaseStep increaseStep =
     (if queueSize current < previousValue then (previousValue, [Txt ''Queue emptying. Hold on.''])
      else if ema current < ema previous then
        (if log10_less (filesizeAvg current) (filesizeAvg previous) then
           (previousValue + increaseStep,
            [Txt ''Good link efficiency, throughput deterioration, avg. filesize decreasing''])
         else if log10_less (ema current) (ema previous) then
           (previousValue - decreaseStep, [Txt ''Good link efficiency, throughput deterioration''])
         else (previousValue, [Txt ''Good link efficiency, small throughput deterioration'']))
      else if ema current > ema previous then
        (previousValue + increaseStep,
         [Txt ''Good link efficiency, current average throughput is larger than the preceding average''])
      else (previousValue + increaseStep, [Txt ''Good link efficiency. Increment'']))"

text \<open>The margins, then the limits that depend on the queue.\<close>

definition apply_margins :: "Range \<Rightarrow> int \<times> rationale \<Rightarrow> int \<times> rationale" where
  "apply_margins rng dr =
     (case dr of (decision, why) \<Rightarrow>
        if decision < r_min rng then
          (r_min rng, why @ [Txt ''. Hit lower range limit''] @
             (if \<not> r_specific rng then [Txt ''. Using *->* link configuration''] else []))
        else if decision > r_max rng then
          (r_max rng, why @ [Txt ''. Hit upper range limit''] @
             (if \<not> r_specific rng then [Txt ''. Using *->* link configuration'']
              else if r_storageSpecific rng then [Txt ''. Link not configured. Using SE limits''] else []))
        else (decision, why))"

definition apply_queue ::
  "optimizer \<Rightarrow> OptimizerMode \<Rightarrow> PairState \<Rightarrow> int \<Rightarrow> int \<times> rationale \<Rightarrow> int \<times> rationale" where
  "apply_queue opt optMode current previousValue dr =
     (let dr1 = (if optMode = kOptimizerConservative \<and> fst dr > previousValue \<and> queueSize current < fst dr
                 then (previousValue, snd dr @ [Txt ''. Not enough files in the queue'']) else dr)
      in if optMode \<ge> kOptimizerNormal \<and> fst dr1 > previousValue
            \<and> fst dr1 > queueSize current * maxNumberOfStreams opt
         then (previousValue, snd dr1 @ [Txt ''. Too many streams'']) else dr1)"

definition optimize_decision ::
  "optimizer \<Rightarrow> OptimizerMode \<Rightarrow> Range \<Rightarrow> PairState \<Rightarrow> PairState \<Rightarrow> int \<Rightarrow> int \<times> rationale" where
  "optimize_decision opt optMode rng current previous previousValue =
     (let dr = (if successRate current < of_int (lowSuccessRate opt) then
                  optimizeLowSuccessRate current previous previousValue (baseSuccessRate opt) (decreaseStepSize opt)
                else if ema current = 0 then optimizeNotEnoughInformation previousValue
                else optimizeGoodSuccessRate current previous previousValue (decreaseStepSize opt)
                       (if optMode \<ge> kOptimizerNormal then increaseAggressiveStepSize opt
                        else increaseStepSize opt))
      in apply_queue opt optMode current previousValue (apply_margins rng dr))"

definition setOptimizerDecision ::
  "'s data_source \<Rightarrow> Pair \<Rightarrow> int \<Rightarrow> PairState \<Rightarrow> int \<Rightarrow> rationale \<Rightarrow> optimizer \<times> 's \<Rightarrow> optimizer \<times> 's" where
  "setOptimizerDecision ds pair decision current diff why os =
     (case os of (opt, s) \<Rightarrow>
        (opt\<lparr>inMemoryStore := (inMemoryStore opt)(pair \<mapsto> current\<lparr>connections := decision\<rparr>),
             notified := (pair, decision, current, diff, why) # notified opt\<rparr>,
         storeOptimizerDecision ds pair decision current diff why s))"

text \<open>What the function measures; the average is over half an hour, the rest over its time frame.\<close>

definition measure_pair :: "'s data_source \<Rightarrow> int \<Rightarrow> Pair \<Rightarrow> 's \<Rightarrow> PairState option" where
  "measure_pair ds t pair s =
     (let avg = getAverageDuration ds pair (30 * 60) s;
          timeFrame = calculateTimeFrame avg;
          rate = getSuccessRateForPair ds pair timeFrame s
      in case getThroughputInfo ds pair timeFrame s of
           None \<Rightarrow> None
         | Some info \<Rightarrow>
             Some (new_PairState\<lparr>timestamp := t, avgDuration := avg, throughput := fst info,
               filesizeAvg := fst (snd info), filesizeStdDev := snd (snd info),
               successRate := fst rate, retryCount := snd rate,
               activeCount := getActive ds pair s, queueSize := getSubmitted ds pair s\<rparr>))"

text \<open>The limit on the throughput of one end.\<close>

definition over_limit :: "real \<Rightarrow> real \<Rightarrow> bool" where
  "over_limit limit rate \<longleftrightarrow> limit > 0 \<and> rate > limit"

text \<open>There is no value yet.\<close>

definition start_decision :: "Range \<Rightarrow> int \<times> rationale" where
  "start_decision rng =
     (if r_specific rng then (r_max rng, [Txt ''No information. Use configured range max.''])
      else (r_min rng + (r_max rng - r_min rng) sdiv 2, [Txt ''No information. Start halfway.'']))"

definition start_pair ::
  "'s data_source \<Rightarrow> Pair \<Rightarrow> Range \<Rightarrow> PairState \<Rightarrow> optimizer \<times> 's \<Rightarrow> optimizer \<times> 's" where
  "start_pair ds pair rng current os =
     (let dr = start_decision rng in
      case setOptimizerDecision ds pair (fst dr) current (fst dr) (snd dr) os of (opt1, s1) \<Rightarrow>
        (opt1\<lparr>inMemoryStore := (inMemoryStore opt1)(pair \<mapsto> current\<lparr>ema := throughput current\<rparr>)\<rparr>, s1))"

text \<open>There is a value: compare with the previous state, which on the first run is the current one.\<close>

definition update_pair ::
  "'s data_source \<Rightarrow> OptimizerMode \<Rightarrow> Pair \<Rightarrow> Range \<Rightarrow> StorageLimits \<Rightarrow> int \<Rightarrow> PairState
     \<Rightarrow> optimizer \<times> 's \<Rightarrow> (optimizer \<times> 's) \<times> bool" where
  "update_pair ds optMode pair rng limits previousValue current os =
     (let opt = fst os; s = snd os;
          firstRun = (inMemoryStore opt pair = None);
          current0 = (if firstRun then current\<lparr>ema := throughput current\<rparr> else current);
          opt0 = (if firstRun then opt\<lparr>inMemoryStore := (inMemoryStore opt)(pair \<mapsto> current0)\<rparr> else opt);
          previous = (case inMemoryStore opt0 pair of None \<Rightarrow> new_PairState | Some p \<Rightarrow> p);
          current1 = current0\<lparr>ema := exponentialMovingAverage (throughput current0) (emaAlpha opt) (ema previous)\<rparr>
      in if r_min rng = r_max rng then
           (setOptimizerDecision ds pair (r_min rng) current1 0 [Txt ''Range fixed''] (opt0, s), True)
         else if over_limit (l_throughputSource limits) (getThroughputAsSource ds (fst pair) s) then
           (setOptimizerDecision ds pair (previousValue - decreaseStepSize opt) current1 0
              [Txt ''Source throughput limitation reached ('', Num (l_throughputSource limits), Txt '')''] (opt0, s), True)
         else if over_limit (l_throughputDestination limits) (getThroughputAsDestination ds (snd pair) s) then
           (setOptimizerDecision ds pair (previousValue - decreaseStepSize opt) current1 0
              [Txt ''Destination throughput limitation reached ('', Num (l_throughputDestination limits), Txt '')'']
              (opt0, s), True)
         else if \<not> firstRun \<and> successRate current1 = successRate previous \<and> ema current1 = ema previous
                 \<and> timestamp current1 - timestamp previous < optimizerSteadyInterval opt then ((opt0, s), False)
         else
           let dr = optimize_decision opt optMode rng current1 previous previousValue
           in (setOptimizerDecision ds pair (fst dr) current1 (fst dr - previousValue) (snd dr) (opt0, s), True))"

text \<open>
  The function: whether a decision was stored, or \<open>None\<close> for an exception, with the state
  it leaves.
\<close>

definition optimizeConnectionsForPair ::
  "'s data_source \<Rightarrow> int \<Rightarrow> OptimizerMode \<Rightarrow> Pair \<Rightarrow> optimizer \<times> 's \<Rightarrow> (optimizer \<times> 's) \<times> bool option" where
  "optimizeConnectionsForPair ds t optMode pair os =
     (case getOptimizerWorkingRange ds pair (snd os) of (rng, limits) \<Rightarrow>
      let previousValue = getOptimizerValue ds pair (snd os) in
      (case measure_pair ds t pair (snd os) of
         None \<Rightarrow> (os, None)
       | Some current \<Rightarrow>
           if previousValue = 0 then (start_pair ds pair rng current os, Some True)
           else case update_pair ds optMode pair rng limits previousValue current os of
                  (os1, stored) \<Rightarrow> (os1, Some stored)))"

subsection \<open>Streams\<close>

definition streamsDecision :: "int \<Rightarrow> PairState \<Rightarrow> int" where
  "streamsDecision maxStreams st =
     (let availableTransfers = activeCount st + queueSize st in
      if availableTransfers > 0 then
        (let k = connections st sdiv availableTransfers in
         if k \<le> 0 then 1 else if k > maxStreams then max maxStreams 1 else k)
      else 1)"

definition optimizeStreamsForPair ::
  "'s data_source \<Rightarrow> OptimizerMode \<Rightarrow> Pair \<Rightarrow> optimizer \<times> 's \<Rightarrow> optimizer \<times> 's" where
  "optimizeStreamsForPair ds optMode pair os =
     (case os of (opt, s) \<Rightarrow>
        if optMode \<le> kOptimizerConservative then (opt, storeOptimizerStreams ds pair 1 s)
        else
          let state = (case inMemoryStore opt pair of None \<Rightarrow> new_PairState | Some st \<Rightarrow> st)
          in (opt\<lparr>inMemoryStore := (inMemoryStore opt)(pair \<mapsto> state)\<rparr>,
              storeOptimizerStreams ds pair (streamsDecision (maxNumberOfStreams opt) state) s))"

subsection \<open>A run\<close>

text \<open>The error is that of the exception \<open>run\<close> rethrows.\<close>

definition runOptimizerForPair ::
  "'s data_source \<Rightarrow> int \<Rightarrow> Pair \<Rightarrow> optimizer \<times> 's \<Rightarrow> (optimizer \<times> 's) \<times> fts_error option" where
  "runOptimizerForPair ds t pair os =
     (let optMode = getOptimizerMode ds (fst pair) (snd pair) (snd os) in
      case optimizeConnectionsForPair ds t optMode pair os of (os1, stored) \<Rightarrow>
        (case stored of
           None \<Rightarrow> (os1, Some SystemError)
         | Some b \<Rightarrow> (if b then optimizeStreamsForPair ds optMode pair os1 else os1, None)))"

fun run_pairs :: "'s data_source \<Rightarrow> int \<Rightarrow> Pair list \<Rightarrow> optimizer \<times> 's \<Rightarrow> (optimizer \<times> 's) \<times> fts_error option" where
  "run_pairs ds t [] os = (os, None)"
| "run_pairs ds t (p # ps) os =
     (case runOptimizerForPair ds t p os of (os1, err) \<Rightarrow>
        (case err of None \<Rightarrow> run_pairs ds t ps os1 | Some e \<Rightarrow> (os1, Some e)))"

definition run :: "'s data_source \<Rightarrow> int \<Rightarrow> optimizer \<times> 's \<Rightarrow> (optimizer \<times> 's) \<times> fts_error option" where
  "run ds t os = run_pairs ds t (sort (getActivePairs ds (snd os))) os"

text \<open>The condition the assertion in \<open>getOptimizerWorkingRange\<close> states, and being in the range.\<close>

definition valid_range :: "Range \<Rightarrow> bool" where
  "valid_range rng \<longleftrightarrow> r_min rng > 0 \<and> r_max rng \<ge> r_min rng"

definition in_range :: "Range \<Rightarrow> int \<Rightarrow> bool" where
  "in_range rng v \<longleftrightarrow> r_min rng \<le> v \<and> v \<le> r_max rng"

lemma sdiv_nonneg: "0 \<le> a \<Longrightarrow> 0 < b \<Longrightarrow> a sdiv b = a div b" for a b :: int
  by (cases "a = 0") (simp_all add: signed_divide_int_def sgn_mult)

subsection \<open>The decision stays in the range and moves by a step\<close>

lemma apply_margins_in_range: "valid_range rng \<Longrightarrow> in_range rng (fst (apply_margins rng dr))"
  by (auto simp: apply_margins_def in_range_def valid_range_def split: prod.split)

lemma apply_queue_cases:
  "fst (apply_queue opt optMode current pv dr) = fst dr \<or> fst (apply_queue opt optMode current pv dr) = pv"
  by (simp add: apply_queue_def Let_def)

lemma optimize_decision_in_range:
  assumes "valid_range rng" "in_range rng pv"
  shows "in_range rng (fst (optimize_decision opt optMode rng current previous pv))"
proof -
  obtain dr where dr: "optimize_decision opt optMode rng current previous pv
      = apply_queue opt optMode current pv (apply_margins rng dr)"
    by (simp add: optimize_decision_def Let_def)
  show ?thesis
    unfolding dr using apply_queue_cases [of opt optMode current pv "apply_margins rng dr"]
      apply_margins_in_range [OF assms(1), of dr] assms(2) by metis
qed

text \<open>One decision moves by at most the configured steps.\<close>

definition step_ok :: "optimizer \<Rightarrow> int \<Rightarrow> int \<Rightarrow> bool" where
  "step_ok opt pv v \<longleftrightarrow> pv - decreaseStepSize opt \<le> v
     \<and> v \<le> pv + max (increaseStepSize opt) (increaseAggressiveStepSize opt)"

definition positive_steps :: "optimizer \<Rightarrow> bool" where
  "positive_steps opt \<longleftrightarrow> decreaseStepSize opt \<ge> 0 \<and> increaseStepSize opt \<ge> 0 \<and> increaseAggressiveStepSize opt \<ge> 0"

lemma low_rate_step: "positive_steps opt \<Longrightarrow>
    step_ok opt pv (fst (optimizeLowSuccessRate c p pv b (decreaseStepSize opt)))"
  by (auto simp: optimizeLowSuccessRate_def step_ok_def positive_steps_def)

lemma no_info_step: "positive_steps opt \<Longrightarrow> step_ok opt pv (fst (optimizeNotEnoughInformation pv))"
  by (auto simp: optimizeNotEnoughInformation_def step_ok_def positive_steps_def)

lemma good_rate_step: "positive_steps opt \<Longrightarrow> i = increaseStepSize opt \<or> i = increaseAggressiveStepSize opt \<Longrightarrow>
    step_ok opt pv (fst (optimizeGoodSuccessRate c p pv (decreaseStepSize opt) i))"
  by (auto simp: optimizeGoodSuccessRate_def step_ok_def positive_steps_def)

lemma margins_step:
  "in_range rng pv \<Longrightarrow> positive_steps opt \<Longrightarrow> step_ok opt pv (fst dr) \<Longrightarrow> step_ok opt pv (fst (apply_margins rng dr))"
  by (auto simp: apply_margins_def in_range_def step_ok_def positive_steps_def split: prod.split)

lemma queue_step: "positive_steps opt \<Longrightarrow> step_ok opt pv (fst dr) \<Longrightarrow> step_ok opt pv (fst (apply_queue opt m c pv dr))"
  using apply_queue_cases [of opt m c pv dr] by (auto simp: step_ok_def positive_steps_def)

lemma optimize_decision_step:
  assumes "in_range rng pv" "positive_steps opt"
  shows "step_ok opt pv (fst (optimize_decision opt optMode rng current previous pv))"
  unfolding optimize_decision_def Let_def
  by (intro queue_step margins_step assms)
    (simp add: low_rate_step no_info_step good_rate_step assms(2))

subsection \<open>The working range\<close>

text \<open>
  The range is valid when the configured one is: no maximum, or a minimum not above the
  maximum, where an unset minimum counts as its default.
\<close>

definition effective_min :: "Pair \<Rightarrow> Range \<Rightarrow> int" where
  "effective_min pair rng =
     (if r_min rng \<le> 0 then (if pair_isLanTransfer pair then DEFAULT_LAN_ACTIVE else DEFAULT_MIN_ACTIVE)
      else r_min rng)"

lemma working_range_valid:
  "valid_range (fst (getOptimizerWorkingRange ds pair s)) \<longleftrightarrow>
     (let rng = fst (getPairLimits ds pair s) in r_max rng \<le> 0 \<or> effective_min pair rng \<le> r_max rng)"
  by (auto simp: getOptimizerWorkingRange_def valid_range_def effective_min_def Let_def
      DEFAULT_LAN_ACTIVE_def DEFAULT_MIN_ACTIVE_def split: prod.splits)

lemma start_decision_in_range:
  assumes "valid_range rng"
  shows "in_range rng (fst (start_decision rng))"
proof -
  have "(r_max rng - r_min rng) sdiv 2 = (r_max rng - r_min rng) div 2"
    using assms by (simp add: valid_range_def sdiv_nonneg)
  then show ?thesis using assms by (auto simp: start_decision_def in_range_def valid_range_def)
qed

subsection \<open>The interface of the store\<close>

text \<open>The conditions under which one pair is kept in its range, and being there.\<close>

definition ready :: "'s data_source \<Rightarrow> Pair \<Rightarrow> 's \<Rightarrow> bool" where
  "ready ds p s \<longleftrightarrow> (case getOptimizerWorkingRange ds p s of (rng, lims) \<Rightarrow>
     valid_range rng \<and> l_throughputSource lims \<le> 0 \<and> l_throughputDestination lims \<le> 0 \<and>
     (getOptimizerValue ds p s = 0 \<or> in_range rng (getOptimizerValue ds p s)))"

definition settled :: "'s data_source \<Rightarrow> Pair \<Rightarrow> 's \<Rightarrow> bool" where
  "settled ds p s \<longleftrightarrow> in_range (fst (getOptimizerWorkingRange ds p s)) (getOptimizerValue ds p s)"

text \<open>The ways the visit of one pair can go.\<close>

lemma runOptimizerForPair_cases:
  fixes ds p os
  defines "wr \<equiv> getOptimizerWorkingRange ds p (snd os)" and "pv \<equiv> getOptimizerValue ds p (snd os)"
  obtains (failed) "runOptimizerForPair ds t p os = (os, Some SystemError)"
  | (started) m c where "pv = 0"
      "runOptimizerForPair ds t p os = (optimizeStreamsForPair ds m p (start_pair ds p (fst wr) c os), None)"
  | (updated) m c where "pv \<noteq> 0"
      "runOptimizerForPair ds t p os
         = (optimizeStreamsForPair ds m p (fst (update_pair ds m p (fst wr) (snd wr) pv c os)), None)"
  | (skipped) m c where "pv \<noteq> 0"
      "runOptimizerForPair ds t p os = (fst (update_pair ds m p (fst wr) (snd wr) pv c os), None)"
proof (cases "measure_pair ds t p (snd os)")
  case None
  then have "runOptimizerForPair ds t p os = (os, Some SystemError)"
    by (simp add: runOptimizerForPair_def optimizeConnectionsForPair_def split_beta)
  then show thesis by (rule failed)
next
  case (Some c)
  let ?m = "getOptimizerMode ds (fst p) (snd p) (snd os)"
  let ?up = "update_pair ds ?m p (fst wr) (snd wr) pv c os"
  have run: "runOptimizerForPair ds t p os =
    (if pv = 0 then (optimizeStreamsForPair ds ?m p (start_pair ds p (fst wr) c os), None)
     else (if snd ?up then optimizeStreamsForPair ds ?m p (fst ?up) else fst ?up, None))"
    using Some by (simp add: runOptimizerForPair_def optimizeConnectionsForPair_def Let_def split_beta wr_def pv_def)
  show thesis
  proof (cases "pv = 0")
    case True
    then show thesis using run by (intro started) simp_all
  next
    case False
    then show thesis using run updated [of ?m c] skipped [of ?m c] by (cases "snd ?up") simp_all
  qed
qed

text \<open>What the optimizer relies on when it writes a decision and reads it back in the next run.\<close>

locale optimizer_store =
  fixes ds :: "'s data_source"
  assumes value_stored: "getOptimizerValue ds q (storeOptimizerDecision ds p v st diff why s)
      = (if q = p then v else getOptimizerValue ds q s)"
    and value_streams: "getOptimizerValue ds q (storeOptimizerStreams ds p n s) = getOptimizerValue ds q s"
begin

lemma value_set:
  "getOptimizerValue ds q (snd (setOptimizerDecision ds p v st diff why os))
     = (if q = p then v else getOptimizerValue ds q (snd os))"
  by (cases os) (simp add: setOptimizerDecision_def value_stored)

lemma value_streams_pair:
  "getOptimizerValue ds q (snd (optimizeStreamsForPair ds m p os)) = getOptimizerValue ds q (snd os)"
  by (cases os) (simp add: optimizeStreamsForPair_def Let_def value_streams)

lemma value_start:
  "getOptimizerValue ds q (snd (start_pair ds p rng c os))
     = (if q = p then fst (start_decision rng) else getOptimizerValue ds q (snd os))"
  unfolding start_pair_def Let_def using value_set by (simp add: split_beta)

lemma value_update_other:
  "q \<noteq> p \<Longrightarrow> getOptimizerValue ds q (snd (fst (update_pair ds m p rng lims pv c os))) = getOptimizerValue ds q (snd os)"
  by (simp add: update_pair_def Let_def value_set)

text \<open>Without throughput limits an update leaves the value in the range.\<close>

lemma value_update:
  assumes "valid_range rng" "in_range rng pv" "getOptimizerValue ds p (snd os) = pv"
    "l_throughputSource lims \<le> 0" "l_throughputDestination lims \<le> 0"
  shows "in_range rng (getOptimizerValue ds p (snd (fst (update_pair ds m p rng lims pv c os))))"
proof -
  have "in_range rng (r_min rng)" "in_range rng (r_max rng)"
    using assms(1) by (simp_all add: valid_range_def in_range_def)
  then show ?thesis
    using assms optimize_decision_in_range [OF assms(1,2)]
    by (simp add: update_pair_def Let_def value_set over_limit_def)
qed

text \<open>
  A throughput limit lowers the value by a step without regard to the range, and a value of zero
  is taken for no value, whatever the limit.
\<close>

lemma value_over_limit:
  assumes "getOptimizerWorkingRange ds p (snd os) = (rng, lims)" "r_min rng \<noteq> r_max rng"
    "over_limit (l_throughputSource lims) (getThroughputAsSource ds (fst p) (snd os))"
    "measure_pair ds t p (snd os) = Some c" "getOptimizerValue ds p (snd os) \<noteq> 0"
  shows "getOptimizerValue ds p (snd (fst (runOptimizerForPair ds t p os)))
    = getOptimizerValue ds p (snd os) - decreaseStepSize (fst os)"
  using assms
  by (simp add: runOptimizerForPair_def optimizeConnectionsForPair_def update_pair_def Let_def split_beta
      value_set value_streams_pair)

lemma value_restart:
  assumes "getOptimizerWorkingRange ds p (snd os) = (rng, lims)"
    "measure_pair ds t p (snd os) = Some c" "getOptimizerValue ds p (snd os) = 0"
  shows "getOptimizerValue ds p (snd (fst (runOptimizerForPair ds t p os))) = fst (start_decision rng)"
  using assms
  by (simp add: runOptimizerForPair_def optimizeConnectionsForPair_def Let_def split_beta
      value_start value_streams_pair)

text \<open>A run changes the values of the pairs it visits only.\<close>

lemma value_run_pair_other:
  assumes "q \<noteq> p"
  shows "getOptimizerValue ds q (snd (fst (runOptimizerForPair ds t p os))) = getOptimizerValue ds q (snd os)"
  by (cases rule: runOptimizerForPair_cases [of ds t p os])
    (simp_all add: assms value_update_other value_streams_pair value_start)

lemma value_run_other:
  "q \<notin> set ps \<Longrightarrow> getOptimizerValue ds q (snd (fst (run_pairs ds t ps os))) = getOptimizerValue ds q (snd os)"
proof (induction ps arbitrary: os)
  case (Cons p ps)
  then have "getOptimizerValue ds q (snd (fst (runOptimizerForPair ds t p os))) = getOptimizerValue ds q (snd os)"
    by (intro value_run_pair_other) auto
  with Cons show ?case by (auto split: option.splits prod.splits)
qed simp

end

text \<open>A source whose configuration does not depend on what is stored.\<close>

locale optimizer_source = optimizer_store +
  assumes limits_stored: "getPairLimits ds q (storeOptimizerDecision ds p v st diff why s) = getPairLimits ds q s"
    and limits_streams: "getPairLimits ds q (storeOptimizerStreams ds p n s) = getPairLimits ds q s"
begin

lemma limits_set: "getPairLimits ds q (snd (setOptimizerDecision ds p v st diff why os)) = getPairLimits ds q (snd os)"
  by (cases os) (simp add: setOptimizerDecision_def limits_stored)

lemma limits_streams_pair:
  "getPairLimits ds q (snd (optimizeStreamsForPair ds m p os)) = getPairLimits ds q (snd os)"
  by (cases os) (simp add: optimizeStreamsForPair_def Let_def limits_streams)

lemma limits_start: "getPairLimits ds q (snd (start_pair ds p rng c os)) = getPairLimits ds q (snd os)"
  unfolding start_pair_def Let_def using limits_set by (simp add: split_beta)

lemma limits_update:
  "getPairLimits ds q (snd (fst (update_pair ds m p rng lims pv c os))) = getPairLimits ds q (snd os)"
  by (simp add: update_pair_def Let_def limits_set)

lemma limits_run_pair:
  "getPairLimits ds q (snd (fst (runOptimizerForPair ds t p os))) = getPairLimits ds q (snd os)"
  by (cases rule: runOptimizerForPair_cases [of ds t p os])
    (simp_all add: limits_update limits_streams_pair limits_start)

lemma range_run_pair:
  "getOptimizerWorkingRange ds q (snd (fst (runOptimizerForPair ds t p os))) = getOptimizerWorkingRange ds q (snd os)"
  by (simp add: getOptimizerWorkingRange_def limits_run_pair)

lemma run_pair_settles:
  assumes "ready ds p (snd os)" "runOptimizerForPair ds t p os = (os1, None)"
  shows "settled ds p (snd os1)"
proof -
  obtain rng lims where wr: "getOptimizerWorkingRange ds p (snd os) = (rng, lims)" by (cases "getOptimizerWorkingRange ds p (snd os)")
  with assms(1) have r: "valid_range rng" "l_throughputSource lims \<le> 0" "l_throughputDestination lims \<le> 0"
    "getOptimizerValue ds p (snd os) = 0 \<or> in_range rng (getOptimizerValue ds p (snd os))"
    by (simp_all add: ready_def)
  have "in_range rng (getOptimizerValue ds p (snd os1))"
  proof (cases rule: runOptimizerForPair_cases [of ds t p os])
    case failed
    then show ?thesis using assms(2) by simp
  next
    case (started m c)
    then show ?thesis
      using assms(2) wr start_decision_in_range [OF r(1)] by (auto simp: value_streams_pair value_start)
  next
    case (updated m c)
    then have "in_range rng (getOptimizerValue ds p (snd os))" using r(4) by simp
    from value_update [OF r(1) this refl r(2,3)] show ?thesis
      using updated(2) assms(2) wr by (auto simp: value_streams_pair)
  next
    case (skipped m c)
    then have "in_range rng (getOptimizerValue ds p (snd os))" using r(4) by simp
    from value_update [OF r(1) this refl r(2,3)] show ?thesis using skipped(2) assms(2) wr by auto
  qed
  moreover have "getOptimizerWorkingRange ds p (snd os1) = (rng, lims)"
    using range_run_pair [of p t p os] wr assms(2) by simp
  ultimately show ?thesis using assms(2) by (simp add: settled_def)
qed

lemma range_run_pairs:
  "getOptimizerWorkingRange ds q (snd (fst (run_pairs ds t ps os))) = getOptimizerWorkingRange ds q (snd os)"
proof (induction ps arbitrary: os)
  case (Cons p ps)
  then show ?case using range_run_pair [of q t p os] by (auto split: option.splits prod.splits)
qed simp

lemma run_pairs_settle:
  assumes "\<And>p. p \<in> set ps \<Longrightarrow> ready ds p (snd os)" "run_pairs ds t ps os = (os', None)" "distinct ps" "p \<in> set ps"
  shows "settled ds p (snd os')"
  using assms
proof (induction ps arbitrary: os)
  case (Cons a ps)
  obtain os1 where os1: "runOptimizerForPair ds t a os = (os1, None)" and rest: "run_pairs ds t ps os1 = (os', None)"
    using Cons.prems(2) by (auto split: prod.splits option.splits)
  have same: "getOptimizerWorkingRange ds q (snd os1) = getOptimizerWorkingRange ds q (snd os)" for q
    using range_run_pair [of q t a os] os1 by simp
  have other: "getOptimizerValue ds q (snd os1) = getOptimizerValue ds q (snd os)" if "q \<noteq> a" for q
    using value_run_pair_other [OF that, of t os] os1 by simp
  show ?case
  proof (cases "p = a")
    case True
    then have "ready ds p (snd os)" using Cons.prems(1) by simp
    then have "settled ds p (snd os1)" using run_pair_settles os1 True by blast
    moreover have "p \<notin> set ps" using True Cons.prems(3) by simp
    then have "getOptimizerValue ds p (snd os') = getOptimizerValue ds p (snd os1)"
      using value_run_other [of p ps t os1] rest by simp
    moreover have "getOptimizerWorkingRange ds p (snd os') = getOptimizerWorkingRange ds p (snd os1)"
      using range_run_pairs [of p t ps os1] rest by simp
    ultimately show ?thesis by (simp add: settled_def)
  next
    case False
    have "ready ds q (snd os1)" if "q \<in> set ps" for q
    proof -
      have "q \<noteq> a" "ready ds q (snd os)" using that Cons.prems(1,3) by auto
      then show ?thesis using same [of q] other [of q] by (simp add: ready_def)
    qed
    then show ?thesis using Cons.IH [OF _ rest] Cons.prems(3,4) False by auto
  qed
qed simp

end

subsection \<open>Properties\<close>

text \<open>A pair with a full queue, before and after an improvement.\<close>

definition sample_state :: "int \<Rightarrow> real \<Rightarrow> real \<Rightarrow> PairState" where
  "sample_state t rate avg = new_PairState\<lparr>timestamp := t, successRate := rate, ema := avg, throughput := avg,
     activeCount := 4, queueSize := 100, connections := 8\<rparr>"

definition sample_range :: Range where
  "sample_range = \<lparr>r_min = 2, r_max = 10, r_specific = True, r_storageSpecific = False\<rparr>"

text \<open>
  C11: with a valid range and a previous value inside it, the decision of the optimizer is inside
  the range again, hence positive as the code asserts, and at most one decrease step below or one
  increase step above the previous value.
\<close>

theorem optimizer_decision_bounded:
  assumes "valid_range rng" "in_range rng pv" "positive_steps opt"
  shows "in_range rng (fst (optimize_decision opt optMode rng current previous pv))
    \<and> step_ok opt pv (fst (optimize_decision opt optMode rng current previous pv))
    \<and> fst (optimize_decision opt optMode rng current previous pv) > 0"
proof (intro conjI)
  show r: "in_range rng (fst (optimize_decision opt optMode rng current previous pv))"
    using assms(1,2) by (rule optimize_decision_in_range)
  show "step_ok opt pv (fst (optimize_decision opt optMode rng current previous pv))"
    using assms(2,3) by (rule optimize_decision_step)
  show "fst (optimize_decision opt optMode rng current previous pv) > 0"
    using r assms(1) by (simp add: in_range_def valid_range_def)
qed

theorem optimizer_decision_bounded_witness:
  "fst (optimize_decision new_optimizer kOptimizerNormal sample_range (sample_state 1 100 5) (sample_state 0 100 4) 9) = 10
   \<and> in_range sample_range (fst (optimize_decision new_optimizer kOptimizerNormal sample_range
       (sample_state 1 100 5) (sample_state 0 100 4) 9))"
proof -
  have "in_range sample_range (fst (optimize_decision new_optimizer kOptimizerNormal sample_range
       (sample_state 1 100 5) (sample_state 0 100 4) 9))"
    using optimizer_decision_bounded [of sample_range 9 new_optimizer kOptimizerNormal
        "sample_state 1 100 5" "sample_state 0 100 4"]
    by (simp add: sample_range_def valid_range_def in_range_def positive_steps_def new_optimizer_def)
  then show ?thesis
    by (simp add: optimize_decision_def Let_def optimizeGoodSuccessRate_def apply_margins_def apply_queue_def
        sample_state_def sample_range_def new_optimizer_def new_PairState_def less_eq_OptimizerMode_def)
qed

text \<open>
  The working range satisfies the assertion of the code exactly when no maximum is configured
  or the configured maximum is not below the minimum, the default of an unset minimum included.
\<close>

lemma working_range_assertion:
  "valid_range (fst (getOptimizerWorkingRange ds pair s)) \<longleftrightarrow>
     r_max (fst (getPairLimits ds pair s)) \<le> 0 \<or>
     effective_min pair (fst (getPairLimits ds pair s)) \<le> r_max (fst (getPairLimits ds pair s))"
  using working_range_valid [of ds pair s] by (simp add: Let_def)

text \<open>
  The moving average stays between the old average and the new sample, for every weight
  between 0 and 1.
\<close>

lemma ema_between:
  assumes "0 \<le> alpha" "alpha \<le> 1" "sample > 0"
  shows "min sample cur \<le> exponentialMovingAverage sample alpha cur
    \<and> exponentialMovingAverage sample alpha cur \<le> max sample cur"
proof -
  let ?a = "min sample cur" and ?b = "max sample cur"
  have "?a * alpha + (1 - alpha) * ?a \<le> sample * alpha + (1 - alpha) * cur"
    using assms by (intro add_mono mult_right_mono mult_left_mono) simp_all
  moreover have "sample * alpha + (1 - alpha) * cur \<le> ?b * alpha + (1 - alpha) * ?b"
    using assms by (intro add_mono mult_right_mono mult_left_mono) simp_all
  ultimately show ?thesis using assms(3) by (simp add: exponentialMovingAverage_def algebra_simps)
qed

text \<open>
  The number of streams per transfer is at least 1 and at most the configured maximum (or 1),
  and when there is a connection for every transfer, all transfers together use no more
  connections than the optimizer granted.
\<close>

lemma streams_bounded:
  assumes "activeCount st + queueSize st > 0" "connections st \<ge> activeCount st + queueSize st"
  shows "1 \<le> streamsDecision m st \<and> streamsDecision m st \<le> max m 1
    \<and> streamsDecision m st * (activeCount st + queueSize st) \<le> connections st"
proof -
  let ?n = "activeCount st + queueSize st" and ?c = "connections st"
  have k: "?c sdiv ?n = ?c div ?n" using assms by (intro sdiv_nonneg) simp_all
  have pos: "1 \<le> ?c div ?n" using assms by (simp add: pos_imp_zdiv_pos_iff int_one_le_iff_zero_less)
  have fit: "v * ?n \<le> ?c" if "v \<le> ?c div ?n" for v
  proof -
    have "v * ?n \<le> ?c div ?n * ?n" using that assms(1) by (intro mult_right_mono) simp_all
    also have "\<dots> \<le> ?c" using assms(1) by (simp add: minus_mod_eq_div_mult [symmetric])
    finally show ?thesis .
  qed
  show ?thesis
    using assms(1) pos fit [of "streamsDecision m st"] by (auto simp: streamsDecision_def Let_def k)
qed

end
