(* ===== verification/OptimizerDataSource.thy ===== *)
theory OptimizerDataSource
  imports Optimizer
begin

section \<open>The optimizer's data source on the database\<close>

text \<open>
  \<^verbatim>\<open>src/db/mysql/OptimizerDataSource.cpp\<close>, class \<open>MySqlOptimizerDataSource\<close>, and
  \<open>getOptimizerModeInner\<close> of \<^verbatim>\<open>src/db/mysql/Config.cpp\<close>: the queries behind the optimizer, as a
  \<open>data_source\<close> on the tables. It provides the interface \<open>optimizer_source\<close>, so the lemmas about
  the optimizer hold for the server's database.

  A \<^verbatim>\<open>SELECT .. UNION SELECT .. LIMIT 1\<close> takes the first part that has a row.
\<close>

subsection \<open>Configuration\<close>

definition link_row_for :: "string \<Rightarrow> string \<Rightarrow> db \<Rightarrow> link_row option" where
  "link_row_for source dest d = select_first (\<lambda>k. k_source_se k = source \<and> k_dest_se k = dest) (t_link_config d)"

text \<open>The configuration that applies, with whether it is a specific one.\<close>

fun first_link :: "(bool \<times> string \<times> string) list \<Rightarrow> db \<Rightarrow> (bool \<times> link_row) option" where
  "first_link [] d = None"
| "first_link ((configured, source, dest) # ks) d =
     (case link_row_for source dest d of Some k \<Rightarrow> Some (configured, k) | None \<Rightarrow> first_link ks d)"

definition link_config_for :: "Pair \<Rightarrow> db \<Rightarrow> (bool \<times> link_row) option" where
  "link_config_for p d =
     first_link [(True, fst p, snd p), (True, fst p, ''*''), (True, ''*'', snd p), (False, ''*'', ''*'')] d"

text \<open>\<^verbatim>\<open>type_conversion<OptimizerMode>::from_base\<close>.\<close>

definition mode_from_base :: "int option \<Rightarrow> OptimizerMode" where
  "mode_from_base v =
     (case v of None \<Rightarrow> kOptimizerDisabled
      | Some n \<Rightarrow> if n > 3 then kOptimizerAggressive else if n < 0 then kOptimizerDisabled
                 else if n = 0 then kOptimizerDisabled else if n = 1 then kOptimizerConservative
                 else if n = 2 then kOptimizerNormal else kOptimizerAggressive)"

definition getOptimizerModeInner :: "string \<Rightarrow> string \<Rightarrow> db \<Rightarrow> OptimizerMode" where
  "getOptimizerModeInner source dest d =
     (case link_config_for (source, dest) d of
        Some (_, k) \<Rightarrow> mode_from_base (k_optimizer_mode k) | None \<Rightarrow> mode_from_base (Some 1))"

definition se_row_for :: "string \<Rightarrow> db \<Rightarrow> se_row option" where
  "se_row_for name d =
     (case select_first (\<lambda>r. s_storage r = name) (t_se d) of
        Some r \<Rightarrow> Some r | None \<Rightarrow> select_first (\<lambda>r. s_storage r = ''*'') (t_se d))"

definition or_zero :: "('a::zero) option \<Rightarrow> 'a" where
  "or_zero v = (case v of None \<Rightarrow> 0 | Some x \<Rightarrow> x)"

definition sql_getPairLimits :: "Pair \<Rightarrow> db \<Rightarrow> Range \<times> StorageLimits" where
  "sql_getPairLimits p d =
     (let src = se_row_for (fst p) d; dst = se_row_for (snd p) d;
          rng = (case link_config_for p d of
                   None \<Rightarrow> \<lparr>r_min = 0, r_max = 0, r_specific = False, r_storageSpecific = False\<rparr>
                 | Some (configured, k) \<Rightarrow>
                     (case (k_min_active k, k_max_active k) of
                        (Some lo, Some hi) \<Rightarrow>
                          \<lparr>r_min = lo, r_max = hi, r_specific = configured, r_storageSpecific = False\<rparr>
                      | _ \<Rightarrow> \<lparr>r_min = 0, r_max = 0, r_specific = configured, r_storageSpecific = False\<rparr>))
      in (rng,
          \<lparr>l_source = (case src of None \<Rightarrow> 0 | Some r \<Rightarrow> or_zero (s_outbound_max_active r)),
           l_destination = (case dst of None \<Rightarrow> 0 | Some r \<Rightarrow> or_zero (s_inbound_max_active r)),
           l_throughputSource = (case src of None \<Rightarrow> 0 | Some r \<Rightarrow> or_zero (s_outbound_max_throughput r)),
           l_throughputDestination = (case dst of None \<Rightarrow> 0 | Some r \<Rightarrow> or_zero (s_inbound_max_throughput r))\<rparr>))"

subsection \<open>Measurements\<close>

definition on_pair :: "Pair \<Rightarrow> file_row \<Rightarrow> bool" where
  "on_pair p r \<longleftrightarrow> f_source_se r = fst p \<and> f_dest_se r = snd p"

definition sql_getActivePairs :: "db \<Rightarrow> Pair list" where
  "sql_getActivePairs d =
     remdups (map (\<lambda>r. (f_source_se r, f_dest_se r)) (filter (\<lambda>r. f_file_state r \<in> {ACTIVE, SUBMITTED}) (t_file d)))"

definition getCountInState :: "Pair \<Rightarrow> file_state \<Rightarrow> db \<Rightarrow> int" where
  "getCountInState p st d = int (length (filter (\<lambda>r. on_pair p r \<and> f_file_state r = st) (t_file d)))"

definition sql_getOptimizerValue :: "Pair \<Rightarrow> db \<Rightarrow> int" where
  "sql_getOptimizerValue p d =
     (case select_first (\<lambda>r. o_source_se r = fst p \<and> o_dest_se r = snd p) (t_optimizer d) of
        None \<Rightarrow> 0 | Some r \<Rightarrow> or_zero (o_active r))"

definition finished_since :: "timestamp \<Rightarrow> file_row \<Rightarrow> bool" where
  "finished_since t r \<longleftrightarrow> (case f_finish_time r of None \<Rightarrow> False | Some f \<Rightarrow> f > t)"

text \<open>The bytes a transfer moved in the window; the quotients are integer divisions.\<close>

definition bytesInWindow :: "timestamp \<Rightarrow> timestamp \<Rightarrow> timestamp \<Rightarrow> file_row \<Rightarrow> real" where
  "bytesInWindow t windowStart start r =
     (case f_finish_time r of
        None \<Rightarrow>
          let periodInWindow = t - max start windowStart; duration = t - start in
          if duration > 0 then real_of_int (f_transferred r sdiv duration) * real_of_int periodInWindow else 0
      | Some fin \<Rightarrow>
          let periodInWindow = fin - max start windowStart; duration = fin - start in
          if duration > 0 \<and> f_filesize r > 0
          then real_of_int (f_filesize r sdiv duration) * real_of_int periodInWindow
          else if duration \<le> 0 then real_of_int (f_filesize r) else 0)"

definition throughput_rows :: "timestamp \<Rightarrow> Pair \<Rightarrow> int \<Rightarrow> db \<Rightarrow> file_row list" where
  "throughput_rows t p interval d =
     filter (\<lambda>r. on_pair p r \<and> f_file_state r = ACTIVE) (t_file d) @
     filter (\<lambda>r. on_pair p r \<and> f_file_state r \<in> {FINISHED, ARCHIVING} \<and> finished_since (t - interval - 1) r) (t_file d)"

definition sql_getThroughputInfo ::
  "timestamp \<Rightarrow> Pair \<Rightarrow> int \<Rightarrow> db \<Rightarrow> (real \<times> real \<times> real) option" where
  "sql_getThroughputInfo t p interval d =
     (let rows = throughput_rows t p interval d; windowStart = t - interval in
      if (\<exists>r \<in> set rows. f_start_time r = None) then None
      else
        let totalBytes = sum_list (map (\<lambda>r. bytesInWindow t windowStart (case f_start_time r of None \<Rightarrow> 0 | Some x \<Rightarrow> x) r) rows);
            filesizes = map real_of_int (filter (\<lambda>x. x > 0) (map f_filesize rows));
            n = real (length filesizes);
            avg = (if filesizes = [] then 0 else sum_list filesizes / n);
            dev = (if filesizes = [] then 0 else sqrt (sum_list (map (\<lambda>x. (avg - x)\<^sup>2) filesizes) / n))
        in Some (totalBytes / real_of_int interval, avg, dev))"

definition sql_getAverageDuration :: "timestamp \<Rightarrow> Pair \<Rightarrow> int \<Rightarrow> db \<Rightarrow> int" where
  "sql_getAverageDuration t p interval d =
     (let xs = map f_tx_duration (filter (\<lambda>r. on_pair p r \<and> f_file_state r \<in> {FINISHED, ARCHIVING}
                  \<and> f_tx_duration r > 0 \<and> finished_since (t - interval) r) (t_file d))
      in if xs = [] then 0 else \<lfloor>sum_list xs / real (length xs)\<rfloor>)"

text \<open>A failed transfer counts when it was recoverable, a waiting one when it is being retried.\<close>

definition counts_failed :: "file_row \<Rightarrow> bool" where
  "counts_failed r \<longleftrightarrow> (f_file_state r = FAILED \<and> f_current_failures r \<noteq> 0) \<or>
     (f_file_state r = SUBMITTED \<and> or_zero (f_retry r) \<noteq> 0)"

definition counts_finished :: "file_row \<Rightarrow> bool" where
  "counts_finished r \<longleftrightarrow> f_file_state r = FINISHED \<or> f_file_state r = ARCHIVING"

definition sql_getSuccessRateForPair :: "timestamp \<Rightarrow> Pair \<Rightarrow> int \<Rightarrow> db \<Rightarrow> real \<times> int" where
  "sql_getSuccessRateForPair t p interval d =
     (let rows = filter (\<lambda>r. on_pair p r \<and> finished_since (t - interval) r \<and> f_file_state r \<noteq> NOT_USED) (t_file d);
          nFailed = length (filter counts_failed rows);
          nFinished = length (filter counts_finished rows);
          nRetry = sum_list (map (\<lambda>r. or_zero (f_retry r)) (filter (\<lambda>r. f_file_state r = SUBMITTED \<and> or_zero (f_retry r) \<noteq> 0) rows))
      in (if nFinished + nFailed > 0 then real_of_int \<lceil>real nFinished * 100 / real (nFinished + nFailed)\<rceil> else 100,
          nRetry))"

definition sql_getThroughputAsSource :: "string \<Rightarrow> db \<Rightarrow> real" where
  "sql_getThroughputAsSource se d =
     sum_list (map f_throughput (filter (\<lambda>r. f_source_se r = se \<and> f_file_state r = ACTIVE) (t_file d)))"

definition sql_getThroughputAsDestination :: "string \<Rightarrow> db \<Rightarrow> real" where
  "sql_getThroughputAsDestination se d =
     sum_list (map f_throughput (filter (\<lambda>r. f_dest_se r = se \<and> f_file_state r = ACTIVE) (t_file d)))"

subsection \<open>Stores\<close>

definition optimizer_row_of :: "Pair \<Rightarrow> optimizer_row \<Rightarrow> bool" where
  "optimizer_row_of p r \<longleftrightarrow> o_source_se r = fst p \<and> o_dest_se r = snd p"

text \<open>\<^verbatim>\<open>INSERT .. ON DUPLICATE KEY UPDATE\<close>; a new row has one stream.\<close>

definition setNewOptimizerValue :: "timestamp \<Rightarrow> Pair \<Rightarrow> int \<Rightarrow> real \<Rightarrow> db \<Rightarrow> db" where
  "setNewOptimizerValue t p v avg d =
     (if select_first (optimizer_row_of p) (t_optimizer d) = None
      then d\<lparr>t_optimizer := t_optimizer d @
             [\<lparr>o_source_se = fst p, o_dest_se = snd p, o_active = Some v, o_ema = avg, o_nostreams = 1, o_datetime = t\<rparr>]\<rparr>
      else d\<lparr>t_optimizer := update_where (optimizer_row_of p)
             (\<lambda>r. r\<lparr>o_active := Some v, o_ema := avg, o_datetime := t\<rparr>) (t_optimizer d)\<rparr>)"

definition updateOptimizerEvolution ::
  "timestamp \<Rightarrow> Pair \<Rightarrow> int \<Rightarrow> int \<Rightarrow> rationale \<Rightarrow> PairState \<Rightarrow> db \<Rightarrow> db" where
  "updateOptimizerEvolution t p active diff why st d =
     d\<lparr>t_optimizer_evolution := t_optimizer_evolution d @
        [\<lparr>v_datetime = t, v_source_se = fst p, v_dest_se = snd p, v_active = active, v_diff = diff,
          v_rationale = why, v_ema = ema st, v_throughput = throughput st, v_success = successRate st,
          v_filesize_avg = filesizeAvg st, v_filesize_stddev = filesizeStdDev st,
          v_actual_active = activeCount st, v_queue_size = queueSize st\<rparr>]\<rparr>"

definition sql_storeOptimizerDecision ::
  "timestamp \<Rightarrow> Pair \<Rightarrow> int \<Rightarrow> PairState \<Rightarrow> int \<Rightarrow> rationale \<Rightarrow> db \<Rightarrow> db" where
  "sql_storeOptimizerDecision t p v st diff why d =
     updateOptimizerEvolution t p v diff why st (setNewOptimizerValue t p v (ema st) d)"

definition sql_storeOptimizerStreams :: "timestamp \<Rightarrow> Pair \<Rightarrow> int \<Rightarrow> db \<Rightarrow> db" where
  "sql_storeOptimizerStreams t p n d =
     d\<lparr>t_optimizer := update_where (optimizer_row_of p) (\<lambda>r. r\<lparr>o_nostreams := n, o_datetime := t\<rparr>) (t_optimizer d)\<rparr>"

definition MySqlOptimizerDataSource :: "timestamp \<Rightarrow> db data_source" where
  "MySqlOptimizerDataSource t =
     \<lparr>getActivePairs = sql_getActivePairs,
      getOptimizerMode = getOptimizerModeInner,
      getPairLimits = sql_getPairLimits,
      getOptimizerValue = sql_getOptimizerValue,
      getThroughputInfo = sql_getThroughputInfo t,
      getAverageDuration = sql_getAverageDuration t,
      getSuccessRateForPair = sql_getSuccessRateForPair t,
      getActive = (\<lambda>p. getCountInState p ACTIVE),
      getSubmitted = (\<lambda>p. getCountInState p SUBMITTED),
      getThroughputAsSource = sql_getThroughputAsSource,
      getThroughputAsDestination = sql_getThroughputAsDestination,
      storeOptimizerDecision = sql_storeOptimizerDecision t,
      storeOptimizerStreams = sql_storeOptimizerStreams t\<rparr>"

text \<open>A link with a range, a value at its lower end and a throughput limit that is exceeded.\<close>

definition sample_link_db :: "real option \<Rightarrow> db" where
  "sample_link_db limit = (sample_db
     [(sample_file 1 ''j'' 0 ACTIVE)\<lparr>f_start_time := Some 900, f_throughput := 50\<rparr>] [sample_job ''j'' None J_ACTIVE])
     \<lparr>t_link_config := [\<lparr>k_source_se = ''root://src'', k_dest_se = ''root://dst'', k_min_active = Some 1,
        k_max_active = Some 8, k_optimizer_mode = Some 2, k_tcp_buffer_size = None, k_nostreams = None,
        k_no_delegation = None, k_3rd_party_turl = None\<rparr>],
      t_se := [\<lparr>s_storage = ''root://src'', s_inbound_max_active = None, s_inbound_max_throughput = None,
        s_outbound_max_active = None, s_outbound_max_throughput = limit,
        s_ipv6 = None, s_udt = None, s_debug_level = None, s_tpc_support = None, s_skip_eviction = None\<rparr>],
      t_optimizer := [\<lparr>o_source_se = ''root://src'', o_dest_se = ''root://dst'', o_active = Some 1, o_ema = 0,
        o_nostreams = 1, o_datetime = 0\<rparr>]\<rparr>"

definition sample_pair :: Pair where
  "sample_pair = (''root://src'', ''root://dst'')"

definition sample_visit :: "timestamp \<Rightarrow> optimizer \<times> db \<Rightarrow> optimizer \<times> db" where
  "sample_visit t os = fst (runOptimizerForPair (MySqlOptimizerDataSource t) t sample_pair os)"

subsection \<open>The interface holds\<close>

lemma optimizer_row_of_inject: "optimizer_row_of p r \<Longrightarrow> optimizer_row_of q r \<longleftrightarrow> q = p"
  by (cases p; cases q) (auto simp: optimizer_row_of_def)

lemma sql_value_row: "sql_getOptimizerValue p d =
   (case select_first (optimizer_row_of p) (t_optimizer d) of None \<Rightarrow> 0 | Some r \<Rightarrow> or_zero (o_active r))"
  by (simp add: sql_getOptimizerValue_def optimizer_row_of_def [abs_def])

lemma select_optimizer_update:
  assumes "\<And>r. optimizer_row_of q (f r) = optimizer_row_of q r"
  shows "select_first (optimizer_row_of q) (update_where P f rows)
    = map_option (\<lambda>r. if P r then f r else r) (select_first (optimizer_row_of q) rows)"
  using assms by (induction rows) auto

lemma select_first_append: "select_first P (xs @ ys) =
   (case select_first P xs of None \<Rightarrow> select_first P ys | Some r \<Rightarrow> Some r)"
  by (induction xs) auto

lemma value_setNew:
  "sql_getOptimizerValue q (setNewOptimizerValue t p v avg d) = (if q = p then v else sql_getOptimizerValue q d)"
proof -
  have row: "optimizer_row_of a (r\<lparr>o_active := x, o_ema := y, o_datetime := z\<rparr>) = optimizer_row_of a r" for a r x y z
    by (simp add: optimizer_row_of_def)
  have new: "optimizer_row_of a \<lparr>o_source_se = fst p, o_dest_se = snd p, o_active = Some v, o_ema = avg,
        o_nostreams = 1, o_datetime = t\<rparr> \<longleftrightarrow> a = p" for a
    by (cases p; cases a) (auto simp: optimizer_row_of_def)
  show ?thesis
  proof (cases "select_first (optimizer_row_of p) (t_optimizer d)")
    case None
    then show ?thesis
      by (auto simp: sql_value_row setNewOptimizerValue_def select_first_append new or_zero_def split: option.split)
  next
    case (Some r)
    then have r: "optimizer_row_of p r" by (auto dest: select_first_Some)
    show ?thesis
    proof (cases "q = p")
      case True
      then show ?thesis
        using Some r by (simp add: sql_value_row setNewOptimizerValue_def select_optimizer_update row or_zero_def)
    next
      case False
      have "\<not> optimizer_row_of p s" if "select_first (optimizer_row_of q) (t_optimizer d) = Some s" for s
        using select_first_Some [OF that] False optimizer_row_of_inject by blast
      then show ?thesis
        using Some False
        by (auto simp: sql_value_row setNewOptimizerValue_def select_optimizer_update row split: option.split)
    qed
  qed
qed

lemma value_storeStreams: "sql_getOptimizerValue q (sql_storeOptimizerStreams t p n d) = sql_getOptimizerValue q d"
proof -
  have row: "optimizer_row_of q (r\<lparr>o_nostreams := a, o_datetime := c\<rparr>) = optimizer_row_of q r" for r a c
    by (simp add: optimizer_row_of_def)
  show ?thesis
    unfolding sql_value_row sql_storeOptimizerStreams_def
    by (auto simp: select_optimizer_update [OF row] split: option.splits)
qed

lemma tables_storeDecision [simp]:
  "t_link_config (sql_storeOptimizerDecision t p v st diff why d) = t_link_config d"
  "t_se (sql_storeOptimizerDecision t p v st diff why d) = t_se d"
  "t_file (sql_storeOptimizerDecision t p v st diff why d) = t_file d"
  "t_job (sql_storeOptimizerDecision t p v st diff why d) = t_job d"
  by (simp_all add: sql_storeOptimizerDecision_def updateOptimizerEvolution_def setNewOptimizerValue_def)

lemma tables_storeStreams [simp]:
  "t_link_config (sql_storeOptimizerStreams t p n d) = t_link_config d"
  "t_se (sql_storeOptimizerStreams t p n d) = t_se d"
  by (simp_all add: sql_storeOptimizerStreams_def)

lemma pairLimits_tables:
  assumes "t_link_config d' = t_link_config d" "t_se d' = t_se d"
  shows "sql_getPairLimits p d' = sql_getPairLimits p d"
proof -
  have "link_row_for a b d' = link_row_for a b d" for a b by (simp add: link_row_for_def assms(1))
  then have "first_link ks d' = first_link ks d" for ks
    by (induction ks) (auto split: option.split)
  then have "link_config_for p d' = link_config_for p d" by (simp only: link_config_for_def)
  moreover have "se_row_for n d' = se_row_for n d" for n unfolding se_row_for_def assms(2) ..
  ultimately show ?thesis by (simp only: sql_getPairLimits_def)
qed

lemma value_storeDecision:
  "sql_getOptimizerValue q (sql_storeOptimizerDecision t p v st diff why d) = (if q = p then v else sql_getOptimizerValue q d)"
proof -
  have "sql_getOptimizerValue q (updateOptimizerEvolution t p v diff why st d1) = sql_getOptimizerValue q d1" for d1
    by (simp add: sql_getOptimizerValue_def updateOptimizerEvolution_def)
  then show ?thesis by (simp only: sql_storeOptimizerDecision_def value_setNew)
qed

lemma limits_storeDecision: "sql_getPairLimits q (sql_storeOptimizerDecision t p v st diff why d) = sql_getPairLimits q d"
  by (rule pairLimits_tables) simp_all

lemma limits_storeStreams: "sql_getPairLimits q (sql_storeOptimizerStreams t p n d) = sql_getPairLimits q d"
  by (rule pairLimits_tables) simp_all

lemma mysql_sel [simp]:
  "getActivePairs (MySqlOptimizerDataSource t) = sql_getActivePairs"
  "getOptimizerMode (MySqlOptimizerDataSource t) = getOptimizerModeInner"
  "getPairLimits (MySqlOptimizerDataSource t) = sql_getPairLimits"
  "getOptimizerValue (MySqlOptimizerDataSource t) = sql_getOptimizerValue"
  "getThroughputInfo (MySqlOptimizerDataSource t) = sql_getThroughputInfo t"
  "getAverageDuration (MySqlOptimizerDataSource t) = sql_getAverageDuration t"
  "getSuccessRateForPair (MySqlOptimizerDataSource t) = sql_getSuccessRateForPair t"
  "getActive (MySqlOptimizerDataSource t) = (\<lambda>p. getCountInState p ACTIVE)"
  "getSubmitted (MySqlOptimizerDataSource t) = (\<lambda>p. getCountInState p SUBMITTED)"
  "getThroughputAsSource (MySqlOptimizerDataSource t) = sql_getThroughputAsSource"
  "getThroughputAsDestination (MySqlOptimizerDataSource t) = sql_getThroughputAsDestination"
  "storeOptimizerDecision (MySqlOptimizerDataSource t) = sql_storeOptimizerDecision t"
  "storeOptimizerStreams (MySqlOptimizerDataSource t) = sql_storeOptimizerStreams t"
  by (simp_all add: MySqlOptimizerDataSource_def)

interpretation mysql: optimizer_source "MySqlOptimizerDataSource t"
  by unfold_locales (simp_all only: mysql_sel value_storeDecision value_storeStreams
      limits_storeDecision limits_storeStreams)

subsection \<open>The success rate\<close>

lemma success_rate_range:
  "fst (sql_getSuccessRateForPair t p interval d) \<ge> 0 \<and> fst (sql_getSuccessRateForPair t p interval d) \<le> 100"
proof -
  define rows where "rows = filter (\<lambda>r. on_pair p r \<and> finished_since (t - interval) r \<and> f_file_state r \<noteq> NOT_USED) (t_file d)"
  define a where "a = length (filter counts_finished rows)"
  define b where "b = length (filter counts_failed rows)"
  have "fst (sql_getSuccessRateForPair t p interval d)
      = (if a + b > 0 then real_of_int \<lceil>real a * 100 / real (a + b)\<rceil> else 100)"
    by (simp add: sql_getSuccessRateForPair_def Let_def rows_def [symmetric] a_def b_def)
  moreover have "real a * 100 / real (a + b) \<le> 100" if "a + b > 0"
    using that by (simp add: divide_le_eq)
  then have "\<lceil>real a * 100 / real (a + b)\<rceil> \<le> 100" if "a + b > 0" using that by (simp add: ceiling_le_iff)
  moreover have "0 \<le> \<lceil>real a * 100 / real (a + b)\<rceil>"
    by (simp add: zero_le_ceiling order_less_le_trans [of "-1" 0])
  ultimately show ?thesis by auto
qed

subsection \<open>Properties\<close>

text \<open>
  C23: a complete run of the optimizer on the database leaves every link that has work with a
  number of connections inside its working range, provided the ranges are valid, no throughput
  limit is configured and the stored values were unset or in range before.
\<close>

theorem optimizer_run_in_range:
  assumes "\<And>p. p \<in> set (sql_getActivePairs d) \<Longrightarrow> ready (MySqlOptimizerDataSource t) p d"
    "run (MySqlOptimizerDataSource t) t (opt, d) = ((opt', d'), None)"
    "p \<in> set (sql_getActivePairs d)"
  shows "in_range (fst (getOptimizerWorkingRange (MySqlOptimizerDataSource t) p d')) (sql_getOptimizerValue p d')"
  using mysql.run_pairs_settle [of "sort (sql_getActivePairs d)" t "(opt, d)" t "(opt', d')" p] assms
  by (simp add: run_def settled_def sql_getActivePairs_def)

lemma sample_pairs: "sql_getActivePairs (sample_link_db limit) = [sample_pair]"
  by (simp add: sql_getActivePairs_def sample_link_db_def sample_file_def sample_pair_def)

lemma sample_limits: "sql_getPairLimits sample_pair (sample_link_db limit) =
   (\<lparr>r_min = 1, r_max = 8, r_specific = True, r_storageSpecific = False\<rparr>,
    \<lparr>l_source = 0, l_destination = 0, l_throughputSource = or_zero limit, l_throughputDestination = 0\<rparr>)"
  by (simp add: sql_getPairLimits_def link_config_for_def link_row_for_def se_row_for_def sample_link_db_def
      sample_pair_def or_zero_def Let_def)

lemma sample_range_link: "getOptimizerWorkingRange (MySqlOptimizerDataSource t) sample_pair (sample_link_db limit) =
   (\<lparr>r_min = 1, r_max = 8, r_specific = True, r_storageSpecific = False\<rparr>,
    \<lparr>l_source = 0, l_destination = 0, l_throughputSource = or_zero limit, l_throughputDestination = 0\<rparr>)"
  by (simp add: getOptimizerWorkingRange_def sample_limits Let_def)

lemma sample_value: "sql_getOptimizerValue sample_pair (sample_link_db limit) = 1"
  by (simp add: sql_getOptimizerValue_def sample_link_db_def sample_pair_def or_zero_def)

lemma sample_measure: "\<exists>c. measure_pair (MySqlOptimizerDataSource t) t' sample_pair (sample_link_db limit) = Some c"
  by (simp add: measure_pair_def Let_def sql_getThroughputInfo_def throughput_rows_def sample_link_db_def sample_pair_def
      sample_file_def on_pair_def finished_since_def)

lemma sample_run: "snd (run (MySqlOptimizerDataSource 1000) 1000 (new_optimizer, sample_link_db None)) = None"
proof -
  obtain c where "measure_pair (MySqlOptimizerDataSource 1000) 1000 sample_pair (sample_link_db None) = Some c"
    using sample_measure by blast
  then show ?thesis
    by (simp add: run_def sample_pairs runOptimizerForPair_def optimizeConnectionsForPair_def Let_def split_beta
        split: option.split)
qed

theorem optimizer_run_in_range_witness:
  "\<exists>opt' d'. run (MySqlOptimizerDataSource 1000) 1000 (new_optimizer, sample_link_db None) = ((opt', d'), None) \<and>
    in_range (fst (getOptimizerWorkingRange (MySqlOptimizerDataSource 1000) sample_pair d'))
      (sql_getOptimizerValue sample_pair d')"
proof -
  let ?ds = "MySqlOptimizerDataSource 1000"
  obtain opt' d' where r: "run ?ds 1000 (new_optimizer, sample_link_db None) = ((opt', d'), None)"
    using sample_run by (metis prod.collapse)
  have "ready ?ds sample_pair (sample_link_db None)"
    by (simp add: ready_def sample_range_link sample_value or_zero_def valid_range_def in_range_def)
  then have "in_range (fst (getOptimizerWorkingRange ?ds sample_pair d')) (sql_getOptimizerValue sample_pair d')"
    by (intro optimizer_run_in_range [OF _ r]) (simp_all add: sample_pairs)
  with r show ?thesis by blast
qed

text \<open>
  Links without work are not touched by a run, whether it completes or fails.
\<close>

lemma optimizer_run_frame:
  assumes "p \<notin> set (sql_getActivePairs d)"
  shows "sql_getOptimizerValue p (snd (fst (run (MySqlOptimizerDataSource t) t (opt, d)))) = sql_getOptimizerValue p d"
  using mysql.value_run_other [of p "sort (sql_getActivePairs d)" t t "(opt, d)"] assms
  by (simp add: run_def)

text \<open>The optimizer does not write to the files it measures.\<close>

lemma t_file_setDecision [simp]:
  "t_file (snd (setOptimizerDecision (MySqlOptimizerDataSource t) p v st diff why os)) = t_file (snd os)"
  "t_job (snd (setOptimizerDecision (MySqlOptimizerDataSource t) p v st diff why os)) = t_job (snd os)"
  by (simp_all add: setOptimizerDecision_def split_beta)

lemma t_file_streams [simp]:
  "t_file (snd (optimizeStreamsForPair (MySqlOptimizerDataSource t) m p os)) = t_file (snd os)"
  "t_job (snd (optimizeStreamsForPair (MySqlOptimizerDataSource t) m p os)) = t_job (snd os)"
  by (simp_all add: optimizeStreamsForPair_def Let_def sql_storeOptimizerStreams_def split_beta)

lemma t_file_start [simp]:
  "t_file (snd (start_pair (MySqlOptimizerDataSource t) p rng c os)) = t_file (snd os)"
  "t_job (snd (start_pair (MySqlOptimizerDataSource t) p rng c os)) = t_job (snd os)"
  using t_file_setDecision by (simp_all add: start_pair_def Let_def split_beta)

lemma t_file_update [simp]:
  "t_file (snd (fst (update_pair (MySqlOptimizerDataSource t) m p rng lims pv c os))) = t_file (snd os)"
  "t_job (snd (fst (update_pair (MySqlOptimizerDataSource t) m p rng lims pv c os))) = t_job (snd os)"
  by (simp_all add: update_pair_def Let_def)

lemma t_file_run_pair:
  "t_file (snd (fst (runOptimizerForPair (MySqlOptimizerDataSource t) t' p os))) = t_file (snd os)"
  "t_job (snd (fst (runOptimizerForPair (MySqlOptimizerDataSource t) t' p os))) = t_job (snd os)"
  by (cases rule: runOptimizerForPair_cases [of "MySqlOptimizerDataSource t" t' p os]; simp)+

lemma run_pairs_tables:
  "t_file (snd (fst (run_pairs (MySqlOptimizerDataSource t) t' ps os))) = t_file (snd os)
    \<and> t_job (snd (fst (run_pairs (MySqlOptimizerDataSource t) t' ps os))) = t_job (snd os)"
proof (induction ps arbitrary: os)
  case (Cons p ps)
  show ?case
    using Cons.IH [of "fst (runOptimizerForPair (MySqlOptimizerDataSource t) t' p os)"]
      t_file_run_pair [of t t' p os]
    by (auto simp: split_beta split: option.split)
qed simp

lemma measure_defined:
  "(\<exists>c. measure_pair ds t p s = Some c)
    \<longleftrightarrow> getThroughputInfo ds p (calculateTimeFrame (getAverageDuration ds p (30 * 60) s)) s \<noteq> None"
  by (simp add: measure_pair_def Let_def split: option.split)

lemma measure_tables:
  assumes "t_file d' = t_file d"
  shows "(\<exists>c. measure_pair (MySqlOptimizerDataSource t) t' p d' = Some c)
      = (\<exists>c. measure_pair (MySqlOptimizerDataSource t) t' p d = Some c)"
  unfolding measure_defined mysql_sel sql_getThroughputInfo_def throughput_rows_def sql_getAverageDuration_def assms ..


end
