(* ===== verification/Config.thy ===== *)
theory Config
  imports JobLifecycle OptimizerDataSource
begin

section \<open>Configuration of storages, links and VOs\<close>

text \<open>
  The queries of \<^verbatim>\<open>src/db/mysql/Config.cpp\<close> on \<^verbatim>\<open>t_se\<close>, \<^verbatim>\<open>t_link_config\<close> and
  \<^verbatim>\<open>t_server_config\<close>, and \<^verbatim>\<open>src/db/generic/StorageConfig.h\<close>. A \<^verbatim>\<open>boost::tribool\<close> is a
  \<open>bool option\<close>, indeterminate being \<open>None\<close>.
\<close>

datatype CopyMode = ANY | PULL | PUSH | STREAMING

record StorageConfig =
  sg_ipv6 :: "bool option"
  sg_udt :: "bool option"
  sg_debugLevel :: int
  sg_inboundMaxActive :: int
  sg_outboundMaxActive :: int
  sg_inboundMaxThroughput :: real
  sg_outboundMaxThroughput :: real

definition new_StorageConfig :: StorageConfig where
  "new_StorageConfig = \<lparr>sg_ipv6 = None, sg_udt = None, sg_debugLevel = 0, sg_inboundMaxActive = 0,
     sg_outboundMaxActive = 0, sg_inboundMaxThroughput = 0, sg_outboundMaxThroughput = 0\<rparr>"

definition fetch_StorageConfig :: "se_row \<Rightarrow> StorageConfig" where
  "fetch_StorageConfig r =
     \<lparr>sg_ipv6 = s_ipv6 r, sg_udt = s_udt r, sg_debugLevel = or_default 0 (s_debug_level r),
      sg_inboundMaxActive = or_default 0 (s_inbound_max_active r),
      sg_outboundMaxActive = or_default 0 (s_outbound_max_active r),
      sg_inboundMaxThroughput = or_default 0 (s_inbound_max_throughput r),
      sg_outboundMaxThroughput = or_default 0 (s_outbound_max_throughput r)\<rparr>"

text \<open>Everything that is not set in the first is taken from the second.\<close>

definition merge :: "StorageConfig \<Rightarrow> StorageConfig \<Rightarrow> StorageConfig" where
  "merge a b =
     \<lparr>sg_ipv6 = (if sg_ipv6 a = None then sg_ipv6 b else sg_ipv6 a),
      sg_udt = (if sg_udt a = None then sg_udt b else sg_udt a),
      sg_debugLevel = (if sg_debugLevel a \<le> 0 then sg_debugLevel b else sg_debugLevel a),
      sg_inboundMaxActive = (if sg_inboundMaxActive a \<le> 0 then sg_inboundMaxActive b else sg_inboundMaxActive a),
      sg_outboundMaxActive = (if sg_outboundMaxActive a \<le> 0 then sg_outboundMaxActive b else sg_outboundMaxActive a),
      sg_inboundMaxThroughput =
        (if sg_inboundMaxThroughput a \<le> 0 then sg_inboundMaxThroughput b else sg_inboundMaxThroughput a),
      sg_outboundMaxThroughput =
        (if sg_outboundMaxThroughput a \<le> 0 then sg_outboundMaxThroughput b else sg_outboundMaxThroughput a)\<rparr>"

definition se_row_of :: "string \<Rightarrow> db \<Rightarrow> se_row option" where
  "se_row_of storage d = select_first (\<lambda>r. s_storage r = storage) (t_se d)"

definition stored_config :: "string \<Rightarrow> db \<Rightarrow> StorageConfig" where
  "stored_config storage d = (case se_row_of storage d of None \<Rightarrow> new_StorageConfig | Some r \<Rightarrow> fetch_StorageConfig r)"

definition getStorageConfig :: "string \<Rightarrow> db \<Rightarrow> StorageConfig" where
  "getStorageConfig storage d = merge (stored_config storage d) (stored_config ''*'' d)"

definition getDebugLevel :: "string \<Rightarrow> string \<Rightarrow> db \<Rightarrow> int" where
  "getDebugLevel source destination d =
     (case List.map_filter s_debug_level (filter (\<lambda>r. s_storage r \<in> {source, destination}) (t_se d)) of
        [] \<Rightarrow> (case se_row_of ''*'' d of None \<Rightarrow> 0 | Some r \<Rightarrow> or_default 0 (s_debug_level r))
      | v # vs \<Rightarrow> fold max vs v)"

text \<open>\<^verbatim>\<open>isProtocolUDT\<close> and \<^verbatim>\<open>isProtocolIPv6\<close> differ in the column they read.\<close>

definition protocol_flag :: "(se_row \<Rightarrow> bool option) \<Rightarrow> string \<Rightarrow> string \<Rightarrow> db \<Rightarrow> bool option" where
  "protocol_flag col source dest d =
     (let enabled = (\<lambda>storage. case se_row_of storage d of None \<Rightarrow> None | Some r \<Rightarrow> col r)
      in case (enabled source, enabled dest) of
           (None, None) \<Rightarrow> enabled ''*''
         | (None, Some b) \<Rightarrow> Some b
         | (Some a, None) \<Rightarrow> Some a
         | (Some a, Some b) \<Rightarrow> Some (a \<and> b))"

definition isProtocolUDT :: "string \<Rightarrow> string \<Rightarrow> db \<Rightarrow> bool option" where
  "isProtocolUDT = protocol_flag s_udt"

definition isProtocolIPv6 :: "string \<Rightarrow> string \<Rightarrow> db \<Rightarrow> bool option" where
  "isProtocolIPv6 = protocol_flag s_ipv6"

definition getSkipEvictionFlag :: "string \<Rightarrow> db \<Rightarrow> bool" where
  "getSkipEvictionFlag source d = (case se_row_of source d of None \<Rightarrow> False | Some r \<Rightarrow> or_default False (s_skip_eviction r))"

text \<open>What the endpoint supports; anything unknown counts as full support.\<close>

definition tpc_support :: "string \<Rightarrow> db \<Rightarrow> string" where
  "tpc_support endpoint d =
     (case se_row_of endpoint d of
        None \<Rightarrow> ''FULL''
      | Some r \<Rightarrow>
          (case s_tpc_support r of
             None \<Rightarrow> ''FULL''
           | Some mode \<Rightarrow> if mode \<notin> {''FULL'', ''PULL'', ''PUSH'', ''NONE''} then ''FULL'' else mode))"

definition getCopyMode :: "string \<Rightarrow> string \<Rightarrow> db \<Rightarrow> CopyMode" where
  "getCopyMode source destination d =
     (let src = tpc_support source d; dst = tpc_support destination d in
      if dst = ''FULL'' \<or> dst = ''PULL'' then
        (if src = ''FULL'' \<or> src = ''PUSH'' then ANY else PULL)
      else
        (if src = ''FULL'' \<or> src = ''PUSH'' then PUSH else STREAMING))"

text \<open>The first of the given links whose row has a value in the column.\<close>

fun link_column :: "(link_row \<Rightarrow> 'a option) \<Rightarrow> (string \<times> string) list \<Rightarrow> db \<Rightarrow> 'a option" where
  "link_column col [] d = None"
| "link_column col (p # ps) d =
     (case link_row_for (fst p) (snd p) d of
        None \<Rightarrow> link_column col ps d
      | Some k \<Rightarrow> (case col k of None \<Rightarrow> link_column col ps d | Some v \<Rightarrow> Some v))"

definition getStreamsOptimization :: "string \<Rightarrow> string \<Rightarrow> db \<Rightarrow> int" where
  "getStreamsOptimization source dest d =
     (case link_column k_nostreams [(source, dest), (source, ''*''), (''*'', dest), (''*'', ''*'')] d of
        Some n \<Rightarrow> n
      | None \<Rightarrow>
          (case select_first (\<lambda>r. o_source_se r = source \<and> o_dest_se r = dest) (t_optimizer d) of
             None \<Rightarrow> 0 | Some r \<Rightarrow> o_nostreams r))"

definition getDisableDelegationFlag :: "string \<Rightarrow> string \<Rightarrow> db \<Rightarrow> bool" where
  "getDisableDelegationFlag source dest d \<longleftrightarrow>
     link_column k_no_delegation [(source, dest), (source, ''*''), (''*'', dest), (''*'', ''*'')] d = Some ''on''"

text \<open>The default link is not consulted here.\<close>

definition getThirdPartyTURL :: "string \<Rightarrow> string \<Rightarrow> db \<Rightarrow> string" where
  "getThirdPartyTURL source dest d =
     or_default '''' (link_column k_3rd_party_turl [(source, dest), (source, ''*''), (''*'', dest)] d)"

definition getGlobalTimeout :: "string \<Rightarrow> db \<Rightarrow> int" where
  "getGlobalTimeout vo d = (case server_config_for vo d of None \<Rightarrow> 0 | Some c \<Rightarrow> or_default 0 (c_global_timeout c))"

definition getSecPerMb :: "string \<Rightarrow> db \<Rightarrow> int" where
  "getSecPerMb vo d = (case server_config_for vo d of None \<Rightarrow> 0 | Some c \<Rightarrow> or_default 0 (c_sec_per_mb c))"

definition getDisableStreamingFlag :: "string \<Rightarrow> db \<Rightarrow> bool" where
  "getDisableStreamingFlag vo d \<longleftrightarrow>
     (case server_config_for vo d of None \<Rightarrow> False | Some c \<Rightarrow> c_no_streaming c = Some ''on'')"

definition publishUserDn :: "string \<Rightarrow> db \<Rightarrow> bool" where
  "publishUserDn vo d \<longleftrightarrow>
     (case select_first (\<lambda>c. c_vo_name c = Some vo) (t_server_config d) of
        None \<Rightarrow> False | Some c \<Rightarrow> c_show_user_dn c = Some ''on'')"

subsection \<open>Laws\<close>

lemma merge_new [simp]: "merge new_StorageConfig b = b"
  by (simp add: merge_def new_StorageConfig_def)

lemma protocol_flag_sym: "protocol_flag col source dest d = protocol_flag col dest source d"
  by (auto simp: protocol_flag_def Let_def split: option.splits)

definition can_pull :: "string \<Rightarrow> db \<Rightarrow> bool" where
  "can_pull se d \<longleftrightarrow> tpc_support se d \<in> {''FULL'', ''PULL''}"

definition can_push :: "string \<Rightarrow> db \<Rightarrow> bool" where
  "can_push se d \<longleftrightarrow> tpc_support se d \<in> {''FULL'', ''PUSH''}"

text \<open>The mode that is chosen never asks for what an endpoint cannot do.\<close>

lemma getCopyMode_supported:
  "getCopyMode source dest d \<in> {ANY, PULL} \<longleftrightarrow> can_pull dest d"
  "getCopyMode source dest d \<in> {ANY, PUSH} \<longleftrightarrow> can_push source d"
  by (simp_all add: getCopyMode_def can_pull_def can_push_def Let_def)

end
