(* ===== verification/TransfersService.thy ===== *)
theory TransfersService
  imports TransferFileHandler VoShares Config "HOL-Library.While_Combinator"
begin

section \<open>The scheduling turn\<close>

text \<open>
  \<^verbatim>\<open>src/server/services/transfers/TransfersService.cpp\<close>: how many transfers each storage can take,
  the loop that hands files to the pool of executors, and the turn of the service.

  \<^item> What is started is the list of files handed to the pool, in order.
  \<^item> \<^verbatim>\<open>DelegCred::getProxyFile\<close> is a parameter that yields the path of the proxy, or \<open>None\<close> where it
    throws; the exception ends the loop.
  \<^item> Interruption of the thread, which ends the turn early, is not modelled; nor is logging.
\<close>

subsection \<open>Slots\<close>

definition slot_limit :: "int \<Rightarrow> int" where
  "slot_limit maxActive = (if maxActive > 0 then maxActive else 60)"

type_synonym slots = "string \<Rightarrow> int option"

text \<open>The pair of \<^verbatim>\<open>slotsLeftForDestination\<close> and \<^verbatim>\<open>slotsLeftForSource\<close>.\<close>

definition fill_storage :: "string \<Rightarrow> db \<Rightarrow> slots \<times> slots \<Rightarrow> slots \<times> slots" where
  "fill_storage se d ds =
     (let seConfig = getStorageConfig se d
      in ((fst ds)(se \<mapsto> slot_limit (sg_inboundMaxActive seConfig)), (snd ds)(se \<mapsto> slot_limit (sg_outboundMaxActive seConfig))))"

definition subtract :: "string \<Rightarrow> int \<Rightarrow> slots \<Rightarrow> slots" where
  "subtract se n m = m(se \<mapsto> or_default 0 (m se) - n)"

definition count_queue :: "db \<Rightarrow> QueueId \<Rightarrow> slots \<times> slots \<Rightarrow> slots \<times> slots" where
  "count_queue d q ds0 =
     (let ds1 = (if fst ds0 (q_destSe q) = None then fill_storage (q_destSe q) d ds0 else ds0);
          ds2 = (if snd ds1 (q_sourceSe q) = None then fill_storage (q_sourceSe q) d ds1 else ds1)
      in (subtract (q_destSe q) (int (q_activeCount q)) (fst ds2), subtract (q_sourceSe q) (int (q_activeCount q)) (snd ds2)))"

definition slots_left :: "db \<Rightarrow> QueueId list \<Rightarrow> slots \<times> slots" where
  "slots_left d queues = fold (count_queue d) queues (Map.empty, Map.empty)"

subsection \<open>The loop\<close>

record scheduling =
  tfh :: handler
  availableUrlCopySlots :: int
  slotsLeftForDestination :: slots
  slotsLeftForSource :: slots
  scheduledByActivity :: "string \<Rightarrow> int option"
  proxies :: "string \<times> string \<Rightarrow> string option"
  started :: "(TransferFile \<times> string) list"
  threw :: bool

text \<open>\<^verbatim>\<open>m[k]\<close> of a map of integers: a missing entry is zero.\<close>

definition slot_at :: "slots \<Rightarrow> string \<Rightarrow> int" where
  "slot_at m se = or_default 0 (m se)"

definition start_transfer :: "TransferFile \<Rightarrow> string \<Rightarrow> scheduling \<Rightarrow> scheduling" where
  "start_transfer tf proxy s =
     s\<lparr>scheduledByActivity := (scheduledByActivity s)
         (tf_activity tf \<mapsto> or_default 0 (scheduledByActivity s (tf_activity tf)) + 1),
       started := started s @ [(tf, proxy)],
       availableUrlCopySlots := availableUrlCopySlots s - 1,
       slotsLeftForDestination := subtract (tf_destSe tf) 1 (slotsLeftForDestination s),
       slotsLeftForSource := subtract (tf_sourceSe tf) 1 (slotsLeftForSource s)\<rparr>"

definition consider_file :: "TransferFile \<Rightarrow> string \<Rightarrow> scheduling \<Rightarrow> scheduling" where
  "consider_file tf proxy s =
     (if slot_at (slotsLeftForDestination s) (tf_destSe tf) \<le> 0 then s
      else if slot_at (slotsLeftForSource s) (tf_sourceSe tf) \<le> 0 then s
      else start_transfer tf proxy s)"

definition visit_vo :: "(string \<Rightarrow> string \<Rightarrow> string option) \<Rightarrow> string \<Rightarrow> scheduling \<Rightarrow> scheduling" where
  "visit_vo getProxyFile vo s =
     (case get vo (tfh s) of
        (h, None) \<Rightarrow> s\<lparr>tfh := h\<rparr>
      | (h, Some tf) \<Rightarrow>
          let s1 = s\<lparr>tfh := h\<rparr> in
          if tf_fileId tf = 0 \<or> tf_userDn tf = '''' \<or> tf_credId tf = '''' then s1
          else
            let s2 = (if scheduledByActivity s1 (tf_activity tf) = None
                      then s1\<lparr>scheduledByActivity := (scheduledByActivity s1)(tf_activity tf \<mapsto> 0)\<rparr> else s1);
                key = (tf_credId tf, tf_userDn tf)
            in (case proxies s2 key of
                  Some proxy \<Rightarrow> consider_file tf proxy s2
                | None \<Rightarrow>
                    (case getProxyFile (tf_userDn tf) (tf_credId tf) of
                       None \<Rightarrow> s2\<lparr>threw := True\<rparr>
                     | Some proxy \<Rightarrow> consider_file tf proxy (s2\<lparr>proxies := (proxies s2)(key \<mapsto> proxy)\<rparr>))))"

fun visit_vos :: "(string \<Rightarrow> string \<Rightarrow> string option) \<Rightarrow> string list \<Rightarrow> scheduling \<Rightarrow> scheduling" where
  "visit_vos getProxyFile [] s = s"
| "visit_vos getProxyFile (vo # vs) s =
     (if availableUrlCopySlots s \<le> 0 \<or> threw s then s else visit_vos getProxyFile vs (visit_vo getProxyFile vo s))"

definition scheduling_on :: "scheduling \<Rightarrow> bool" where
  "scheduling_on s \<longleftrightarrow> \<not> handler_empty (tfh s) \<and> 0 < availableUrlCopySlots s \<and> \<not> threw s"

definition schedule_loop :: "(string \<Rightarrow> string \<Rightarrow> string option) \<Rightarrow> scheduling \<Rightarrow> scheduling option" where
  "schedule_loop getProxyFile =
     while_option scheduling_on (\<lambda>s. visit_vos getProxyFile (om_keys (vos (tfh s))) s)"

definition new_scheduling :: "handler \<Rightarrow> int \<Rightarrow> slots \<times> slots \<Rightarrow> scheduling" where
  "new_scheduling h available ds =
     \<lparr>tfh = h, availableUrlCopySlots = available, slotsLeftForDestination = fst ds, slotsLeftForSource = snd ds,
      scheduledByActivity = Map.empty, proxies = Map.empty, started = [], threw = False\<rparr>"

subsection \<open>What the loop relies on\<close>

text \<open>
  A source of files: asked for a client that waits it gives up one file, otherwise it stays as it
  is. Asking every client in turn makes progress as long as somebody waits.
\<close>

locale file_source =
  fixes "next" :: "'v \<Rightarrow> 's \<Rightarrow> 's \<times> 'f option" and left :: "'s \<Rightarrow> nat" and waiting :: "'s \<Rightarrow> 'v set"
    and ok :: "'s \<Rightarrow> bool"
  assumes next_waiting: "ok s \<Longrightarrow> v \<in> waiting s \<Longrightarrow> \<exists>s' f. next v s = (s', Some f) \<and> ok s' \<and> left s = Suc (left s')"
    and next_idle: "v \<notin> waiting s \<Longrightarrow> next v s = (s, None)"
    and left_zero: "ok s \<Longrightarrow> waiting s = {} \<longleftrightarrow> left s = 0"
begin

definition sweep :: "'v list \<Rightarrow> 's \<Rightarrow> 's" where
  "sweep vs = fold (\<lambda>v s. fst (next v s)) vs"

lemma next_cases:
  assumes "ok s"
  shows "ok (fst (next v s)) \<and> left (fst (next v s)) \<le> left s \<and> (v \<in> waiting s \<longrightarrow> left (fst (next v s)) < left s)"
proof (cases "v \<in> waiting s")
  case True
  then show ?thesis using next_waiting [OF assms True] by auto
qed (simp add: next_idle assms)

lemma sweep_ok: "ok s \<Longrightarrow> ok (sweep vs s) \<and> left (sweep vs s) \<le> left s"
proof (induction vs arbitrary: s)
  case (Cons v vs)
  have "ok (fst (next v s)) \<and> left (fst (next v s)) \<le> left s" using next_cases [OF Cons.prems] by blast
  then show ?case using Cons.IH [of "fst (next v s)"] by (auto simp: sweep_def)
qed (simp add: sweep_def)

lemma sweep_progress:
  assumes "ok s" "waiting s \<subseteq> set vs" "waiting s \<noteq> {}"
  shows "left (sweep vs s) < left s"
  using assms
proof (induction vs arbitrary: s)
  case (Cons v vs)
  show ?case
  proof (cases "v \<in> waiting s")
    case True
    then have "ok (fst (next v s))" "left (fst (next v s)) < left s" using next_cases [OF Cons.prems(1), of v] by simp_all
    then show ?thesis using sweep_ok [of "fst (next v s)" vs] by (simp add: sweep_def)
  next
    case False
    then have "waiting s \<subseteq> set vs" using Cons.prems(2) by auto
    then show ?thesis using Cons.IH [of s] Cons.prems(1,3) next_idle [OF False] by (simp add: sweep_def)
  qed
qed simp

end

definition handler_inv :: "handler \<Rightarrow> bool" where
  "handler_inv h \<longleftrightarrow> handler_ok h \<and> files_ok h"

definition waiting_vos :: "handler \<Rightarrow> string set" where
  "waiting_vos h = fst ` set (voToFileIndexes h)"

lemma waiting_vos_find: "vo \<in> waiting_vos h \<longleftrightarrow> om_find (voToFileIndexes h) vo \<noteq> None"
  by (simp add: waiting_vos_def om_find_def map_of_eq_None_iff)

lemma handler_size_zero: "handler_ok h \<Longrightarrow> waiting_vos h = {} \<longleftrightarrow> handler_size h = 0"
proof
  assume h: "handler_ok h" "handler_size h = 0"
  show "waiting_vos h = {}"
  proof (rule ccontr)
    assume "waiting_vos h \<noteq> {}"
    then have "voToFileIndexes h \<noteq> []" by (auto simp: waiting_vos_def)
    then obtain vp where vp: "vp \<in> set (voToFileIndexes h)" using hd_in_set by blast
    then have "snd vp \<noteq> []" "pairs_ok (snd vp) (nextPairForVo h (fst vp))" using h(1) unfolding handler_ok_def by blast+
    then obtain p where "p \<in> set (snd vp)" "snd p \<noteq> []" by (cases "snd vp") (auto simp: pairs_ok_def)
    then have "0 < queue_size (snd vp)" unfolding queue_size_def
      by (metis (no_types, lifting) bot_nat_0.not_eq_extremum image_eqI length_0_conv list.set_map sum_list_eq_0_iff)
    then show False using h(2) vp by (auto simp: handler_size_def)
  qed
qed (simp add: waiting_vos_def handler_size_def)

interpretation file_queue: file_source get handler_size waiting_vos handler_inv
proof
  fix h vo assume "handler_inv h" "vo \<in> waiting_vos h"
  then obtain pairs where "handler_ok h" "files_ok h" "om_find (voToFileIndexes h) vo = Some pairs"
    by (auto simp: handler_inv_def waiting_vos_find)
  then obtain h' tf where "get vo h = (h', Some tf)" "handler_ok h'" "files_ok h'"
    "indexes_left h = indexes_left h' + {#index_of tf#}" by (rule get_some) blast
  then show "\<exists>h' tf. get vo h = (h', Some tf) \<and> handler_inv h' \<and> handler_size h = Suc (handler_size h')"
    by (simp add: handler_inv_def handler_size_indexes)
qed (simp_all add: waiting_vos_find get_none handler_inv_def handler_size_zero)

subsection \<open>Termination and limits\<close>

lemma start_transfer_sel [simp]:
  "tfh (start_transfer tf proxy s) = tfh s" "threw (start_transfer tf proxy s) = threw s"
  "proxies (start_transfer tf proxy s) = proxies s" "started (start_transfer tf proxy s) = started s @ [(tf, proxy)]"
  "availableUrlCopySlots (start_transfer tf proxy s) = availableUrlCopySlots s - 1"
  "slot_at (slotsLeftForDestination (start_transfer tf proxy s)) se =
     slot_at (slotsLeftForDestination s) se - (if tf_destSe tf = se then 1 else 0)"
  "slot_at (slotsLeftForSource (start_transfer tf proxy s)) se =
     slot_at (slotsLeftForSource s) se - (if tf_sourceSe tf = se then 1 else 0)"
  by (simp_all add: start_transfer_def subtract_def slot_at_def or_default_def)

lemma tfh_visit_vo: "tfh (visit_vo gp vo s) = fst (get vo (tfh s))"
  by (simp add: visit_vo_def consider_file_def Let_def split: prod.splits option.splits)

lemma visit_vos_sweep:
  "\<exists>k. tfh (visit_vos gp vs s) = file_queue.sweep (take k vs) (tfh s) \<and>
     (0 < availableUrlCopySlots (visit_vos gp vs s) \<and> \<not> threw (visit_vos gp vs s) \<longrightarrow> length vs \<le> k)"
proof (induction vs arbitrary: s)
  case (Cons vo vs)
  show ?case
  proof (cases "availableUrlCopySlots s \<le> 0 \<or> threw s")
    case True
    then show ?thesis by (intro exI [of _ 0]) (auto simp: file_queue.sweep_def)
  next
    case False
    obtain k where "tfh (visit_vos gp vs (visit_vo gp vo s)) = file_queue.sweep (take k vs) (tfh (visit_vo gp vo s))"
      "0 < availableUrlCopySlots (visit_vos gp vs (visit_vo gp vo s)) \<and> \<not> threw (visit_vos gp vs (visit_vo gp vo s)) \<longrightarrow> length vs \<le> k"
      using Cons.IH by blast
    then show ?thesis using False by (intro exI [of _ "Suc k"]) (simp add: file_queue.sweep_def tfh_visit_vo)
  qed
qed (auto simp: file_queue.sweep_def)

text \<open>What has been handed out so far, against what was there at the start.\<close>

definition to_dest :: "string \<Rightarrow> (TransferFile \<times> string) list \<Rightarrow> int" where
  "to_dest se fs = int (length (filter (\<lambda>f. tf_destSe (fst f) = se) fs))"

definition from_source :: "string \<Rightarrow> (TransferFile \<times> string) list \<Rightarrow> int" where
  "from_source se fs = int (length (filter (\<lambda>f. tf_sourceSe (fst f) = se) fs))"

definition well_credentialed :: "(string \<Rightarrow> string \<Rightarrow> string option) \<Rightarrow> TransferFile \<times> string \<Rightarrow> bool" where
  "well_credentialed gp f \<longleftrightarrow> tf_fileId (fst f) \<noteq> 0 \<and> tf_userDn (fst f) \<noteq> '''' \<and> tf_credId (fst f) \<noteq> '''' \<and>
     gp (tf_userDn (fst f)) (tf_credId (fst f)) = Some (snd f)"

definition files_kept :: "scheduling \<Rightarrow> scheduling \<Rightarrow> bool" where
  "files_kept s0 s \<longleftrightarrow> handler_inv (tfh s) \<and> vos (tfh s) = vos (tfh s0) \<and>
     mset (map (\<lambda>f. index_of (fst f)) (started s)) + indexes_left (tfh s) \<subseteq># indexes_left (tfh s0) \<and>
     (\<forall>x. count (mset (map fst (started s))) x + stored_count (tfh s) x \<le> stored_count (tfh s0) x)"

definition slots_used :: "int \<Rightarrow> int \<Rightarrow> int \<Rightarrow> bool" where
  "slots_used n slot slot0 \<longleftrightarrow> n + slot = slot0 \<and> (n = 0 \<or> 0 \<le> slot)"

definition slots_kept :: "scheduling \<Rightarrow> scheduling \<Rightarrow> bool" where
  "slots_kept s0 s \<longleftrightarrow> slots_used (int (length (started s))) (availableUrlCopySlots s) (availableUrlCopySlots s0) \<and>
     (\<forall>se. slots_used (to_dest se (started s)) (slot_at (slotsLeftForDestination s) se) (slot_at (slotsLeftForDestination s0) se)) \<and>
     (\<forall>se. slots_used (from_source se (started s)) (slot_at (slotsLeftForSource s) se) (slot_at (slotsLeftForSource s0) se))"

definition proxies_ok :: "(string \<Rightarrow> string \<Rightarrow> string option) \<Rightarrow> scheduling \<Rightarrow> bool" where
  "proxies_ok gp s \<longleftrightarrow> (\<forall>c u p. proxies s (c, u) = Some p \<longrightarrow> gp u c = Some p)"

definition accounted :: "(string \<Rightarrow> string \<Rightarrow> string option) \<Rightarrow> scheduling \<Rightarrow> scheduling \<Rightarrow> bool" where
  "accounted gp s0 s \<longleftrightarrow> files_kept s0 s \<and> slots_kept s0 s \<and> proxies_ok gp s \<and> (\<forall>f \<in> set (started s). well_credentialed gp f)"

definition same_limits :: "scheduling \<Rightarrow> scheduling \<Rightarrow> bool" where
  "same_limits s s' \<longleftrightarrow> started s' = started s \<and> availableUrlCopySlots s' = availableUrlCopySlots s \<and>
     slotsLeftForDestination s' = slotsLeftForDestination s \<and> slotsLeftForSource s' = slotsLeftForSource s"

lemma get_accounts:
  assumes "handler_inv h" "get vo h = (h', r)"
  shows "handler_inv h'" "vos h' = vos h"
    "indexes_left h = indexes_left h' + (case r of None \<Rightarrow> {#} | Some tf \<Rightarrow> {#index_of tf#})"
    "stored_count h x = stored_count h' x + (if r = Some x then 1 else 0)"
proof -
  have "files_ok h" using assms(1) by (simp add: handler_inv_def)
  then show "stored_count h x = stored_count h' x + (if r = Some x then 1 else 0)" using assms(2) by (rule stored_count_get)
  have "handler_inv h' \<and> vos h' = vos h \<and> indexes_left h = indexes_left h' + (case r of None \<Rightarrow> {#} | Some tf \<Rightarrow> {#index_of tf#})"
  proof (cases "om_find (voToFileIndexes h) vo")
    case None
    then show ?thesis using get_none [OF None] assms by auto
  next
    case (Some pairs)
    have "handler_ok h" "files_ok h" using assms(1) by (simp_all add: handler_inv_def)
    from this Some obtain h'' tf where "get vo h = (h'', Some tf)" "handler_ok h''" "files_ok h''"
      "indexes_left h = indexes_left h'' + {#index_of tf#}" "vos h'' = vos h" by (rule get_some) blast
    then show ?thesis using assms(2) by (auto simp: handler_inv_def)
  qed
  then show "handler_inv h'" "vos h' = vos h"
    "indexes_left h = indexes_left h' + (case r of None \<Rightarrow> {#} | Some tf \<Rightarrow> {#index_of tf#})" by blast+
qed

lemma slots_used_bound: "slots_used n slot slot0 \<Longrightarrow> n \<le> max 0 slot0"
  by (auto simp: slots_used_def)

text \<open>Visiting a VO starts one file, or nothing.\<close>

definition visit_outcome :: "(string \<Rightarrow> string \<Rightarrow> string option) \<Rightarrow> scheduling \<Rightarrow> handler \<Rightarrow> TransferFile option \<Rightarrow> scheduling \<Rightarrow> bool" where
  "visit_outcome gp s h r s' \<longleftrightarrow>
     same_limits s s' \<and> tfh s' = h \<and> proxies_ok gp s' \<or>
     (\<exists>s1 tf proxy. s' = start_transfer tf proxy s1 \<and> r = Some tf \<and> same_limits s s1 \<and> tfh s1 = h \<and> proxies_ok gp s1 \<and>
        well_credentialed gp (tf, proxy) \<and> 0 < slot_at (slotsLeftForDestination s) (tf_destSe tf) \<and>
        0 < slot_at (slotsLeftForSource s) (tf_sourceSe tf))"

lemma consider_outcome:
  assumes "same_limits s s1" "tfh s1 = h" "proxies_ok gp s1" "well_credentialed gp (tf, proxy)"
  shows "visit_outcome gp s h (Some tf) (consider_file tf proxy s1)"
  using assms unfolding visit_outcome_def consider_file_def by (auto simp: same_limits_def)

lemma visit_vo_outcome:
  assumes "proxies_ok gp s" "get vo (tfh s) = (h, r)"
  shows "visit_outcome gp s h r (visit_vo gp vo s)"
proof (cases "r = None \<or> tf_fileId (the r) = 0 \<or> tf_userDn (the r) = '''' \<or> tf_credId (the r) = ''''")
  case True
  then have "visit_vo gp vo s = s\<lparr>tfh := h\<rparr>" using assms(2) by (auto simp: visit_vo_def Let_def split: option.splits)
  then show ?thesis using assms(1) by (simp add: visit_outcome_def same_limits_def proxies_ok_def)
next
  case False
  then obtain tf where tf: "r = Some tf" "tf_fileId tf \<noteq> 0" "tf_userDn tf \<noteq> ''''" "tf_credId tf \<noteq> ''''" by auto
  define key where "key = (tf_credId tf, tf_userDn tf)"
  define s1 where "s1 = s\<lparr>tfh := h\<rparr>"
  define s2 where "s2 = (if scheduledByActivity s1 (tf_activity tf) = None
    then s1\<lparr>scheduledByActivity := (scheduledByActivity s1)(tf_activity tf \<mapsto> 0)\<rparr> else s1)"
  have s2: "same_limits s s2" "tfh s2 = h" "proxies s2 = proxies s" by (simp_all add: s2_def s1_def same_limits_def)
  have v: "visit_vo gp vo s =
      (case proxies s2 key of
         Some proxy \<Rightarrow> consider_file tf proxy s2
       | None \<Rightarrow>
           (case gp (tf_userDn tf) (tf_credId tf) of
              None \<Rightarrow> s2\<lparr>threw := True\<rparr>
            | Some proxy \<Rightarrow> consider_file tf proxy (s2\<lparr>proxies := (proxies s2)(key \<mapsto> proxy)\<rparr>)))"
    unfolding visit_vo_def assms(2) tf(1) prod.case option.case Let_def s2_def s1_def key_def
    using tf(2-4) by (simp only: simp_thms if_False)
  show ?thesis
  proof (cases "proxies s2 key")
    case (Some proxy)
    then show ?thesis
      using v tf s2 assms(1) consider_outcome [of s s2 h gp tf proxy]
      by (simp add: well_credentialed_def proxies_ok_def key_def)
  next
    case None
    then show ?thesis
      using v tf s2 assms(1) consider_outcome [of s "s2\<lparr>proxies := (proxies s2)(key \<mapsto> proxy)\<rparr>" h gp tf proxy for proxy]
      by (auto simp: well_credentialed_def proxies_ok_def key_def same_limits_def visit_outcome_def split: option.splits)
  qed
qed

lemma slots_used_more: "slots_used n slot slot0 \<Longrightarrow> 0 < slot \<Longrightarrow> slots_used (1 + n) (slot - 1) slot0 \<and> slots_used (n + 1) (slot - 1) slot0"
  by (simp add: slots_used_def)

lemma count_started [simp]:
  "to_dest se (fs @ [(tf, proxy)]) = to_dest se fs + (if tf_destSe tf = se then 1 else 0)"
  "from_source se (fs @ [(tf, proxy)]) = from_source se fs + (if tf_sourceSe tf = se then 1 else 0)"
  by (simp_all add: to_dest_def from_source_def)

lemma visit_vo_accounted:
  assumes "accounted gp s0 s" "0 < availableUrlCopySlots s"
  shows "accounted gp s0 (visit_vo gp vo s)"
proof -
  obtain h r where g: "get vo (tfh s) = (h, r)" by fastforce
  have a: "files_kept s0 s" "slots_kept s0 s" "proxies_ok gp s" "\<forall>f \<in> set (started s). well_credentialed gp f"
    using assms(1) by (simp_all add: accounted_def)
  have h: "handler_inv h" "vos h = vos (tfh s)"
    "indexes_left (tfh s) = indexes_left h + (case r of None \<Rightarrow> {#} | Some tf \<Rightarrow> {#index_of tf#})"
    "\<And>x. stored_count (tfh s) x = stored_count h x + (if r = Some x then 1 else 0)"
    using get_accounts [OF _ g] a(1) by (simp_all add: files_kept_def)
  have left: "mset (map (\<lambda>f. index_of (fst f)) (started s)) + (indexes_left h + (case r of None \<Rightarrow> {#} | Some tf \<Rightarrow> {#index_of tf#}))
      \<subseteq># indexes_left (tfh s0)" using a(1) h(3) by (simp add: files_kept_def)
  have "visit_outcome gp s h r (visit_vo gp vo s)" using a(3) g by (rule visit_vo_outcome)
  then show ?thesis
    unfolding visit_outcome_def
  proof (elim disjE exE conjE)
    assume v: "same_limits s (visit_vo gp vo s)" "tfh (visit_vo gp vo s) = h" "proxies_ok gp (visit_vo gp vo s)"
    have "mset (map (\<lambda>f. index_of (fst f)) (started s)) + indexes_left h \<subseteq># indexes_left (tfh s0)"
      by (rule subset_mset.order_trans [OF _ left]) simp
    moreover have "count (mset (map fst (started s))) x + stored_count h x \<le> stored_count (tfh s0) x" for x
      using a(1) h(4) [of x] unfolding files_kept_def by (metis add_leD1 add.assoc)
    ultimately show ?thesis using v a h by (simp add: accounted_def files_kept_def slots_kept_def same_limits_def)
  next
    fix s1 tf proxy
    assume v: "visit_vo gp vo s = start_transfer tf proxy s1" "r = Some tf" "same_limits s s1" "tfh s1 = h" "proxies_ok gp s1"
      "well_credentialed gp (tf, proxy)" "0 < slot_at (slotsLeftForDestination s) (tf_destSe tf)"
      "0 < slot_at (slotsLeftForSource s) (tf_sourceSe tf)"
    then have lim: "started s1 = started s" "availableUrlCopySlots s1 = availableUrlCopySlots s"
      "slotsLeftForDestination s1 = slotsLeftForDestination s" "slotsLeftForSource s1 = slotsLeftForSource s"
      by (simp_all add: same_limits_def)
    have "count (mset (map fst (started s @ [(tf, proxy)]))) x + stored_count h x \<le> stored_count (tfh s0) x" for x
    proof -
      have "count (mset (map fst (started s))) x + stored_count (tfh s) x \<le> stored_count (tfh s0) x"
        using a(1) unfolding files_kept_def by blast
      then show ?thesis using h(4) [of x] v(2) by (cases "x = tf") simp_all
    qed
    moreover have "mset (map (\<lambda>f. index_of (fst f)) (started s @ [(tf, proxy)])) + indexes_left h \<subseteq># indexes_left (tfh s0)"
      using left v(2) by simp
    moreover have "vos h = vos (tfh s0)" using h(2) a(1) by (simp add: files_kept_def)
    ultimately have "files_kept s0 (start_transfer tf proxy s1)"
      unfolding files_kept_def start_transfer_sel lim v(4) using h(1) by blast
    moreover have "slots_kept s0 (start_transfer tf proxy s1)"
      using a(2) v(7,8) assms(2) unfolding slots_kept_def by (simp add: lim slots_used_more)
    ultimately show ?thesis using v(5,6) a(4) by (simp add: accounted_def v(1) lim proxies_ok_def)
  qed
qed

lemma visit_vos_accounted: "accounted gp s0 s \<Longrightarrow> accounted gp s0 (visit_vos gp vs s)"
  by (induction gp vs s rule: visit_vos.induct) (simp_all add: visit_vo_accounted)

lemma handler_inv_vos: "handler_inv h \<Longrightarrow> waiting_vos h \<subseteq> set (om_keys (vos h))"
  by (auto simp: handler_inv_def handler_ok_def waiting_vos_def om_keys_def)

text \<open>One round of the loop uses up files, or the slots.\<close>

definition rounds_left :: "scheduling \<Rightarrow> nat" where
  "rounds_left s = handler_size (tfh s) + (if 0 < availableUrlCopySlots s \<and> \<not> threw s then 1 else 0)"

lemma round_progress:
  assumes "handler_inv (tfh s)" "scheduling_on s"
  shows "rounds_left (visit_vos gp (om_keys (vos (tfh s))) s) < rounds_left s"
proof -
  define s' where "s' = visit_vos gp (om_keys (vos (tfh s))) s"
  obtain k where k: "tfh s' = file_queue.sweep (take k (om_keys (vos (tfh s)))) (tfh s)"
    "0 < availableUrlCopySlots s' \<and> \<not> threw s' \<longrightarrow> length (om_keys (vos (tfh s))) \<le> k"
    using visit_vos_sweep [of gp "om_keys (vos (tfh s))" s] unfolding s'_def by blast
  have le: "handler_size (tfh s') \<le> handler_size (tfh s)"
    unfolding k(1) using file_queue.sweep_ok [OF assms(1)] by blast
  show ?thesis
  proof (cases "0 < availableUrlCopySlots s' \<and> \<not> threw s'")
    case True
    then have "tfh s' = file_queue.sweep (om_keys (vos (tfh s))) (tfh s)" using k by simp
    moreover have "waiting_vos (tfh s) \<noteq> {}" using assms(2) by (simp add: scheduling_on_def handler_empty_def waiting_vos_def)
    ultimately have "handler_size (tfh s') < handler_size (tfh s)"
      using file_queue.sweep_progress [OF assms(1) handler_inv_vos [OF assms(1)]] by simp
    then show ?thesis using assms(2) by (simp add: rounds_left_def s'_def scheduling_on_def)
  next
    case False
    then show ?thesis using assms(2) le by (auto simp: rounds_left_def s'_def scheduling_on_def)
  qed
qed

lemma new_scheduling_accounted:
  assumes "handler_inv h"
  shows "accounted gp (new_scheduling h n ds) (new_scheduling h n ds)"
  using assms by (simp add: accounted_def files_kept_def slots_kept_def slots_used_def proxies_ok_def new_scheduling_def to_dest_def from_source_def)

lemma schedule_loop_result:
  assumes "handler_inv h"
  obtains s where "schedule_loop gp (new_scheduling h n ds) = Some s" "accounted gp (new_scheduling h n ds) s" "\<not> scheduling_on s"
proof -
  define s0 where "s0 = new_scheduling h n ds"
  have "\<exists>t. while_option scheduling_on (\<lambda>s. visit_vos gp (om_keys (vos (tfh s))) s) s0 = Some t"
  proof (rule measure_while_option_Some [where P = "accounted gp s0" and f = rounds_left])
    fix s assume "accounted gp s0 s" "scheduling_on s"
    then show "accounted gp s0 (visit_vos gp (om_keys (vos (tfh s))) s) \<and>
        rounds_left (visit_vos gp (om_keys (vos (tfh s))) s) < rounds_left s"
      by (intro conjI visit_vos_accounted round_progress) (assumption | simp add: accounted_def files_kept_def)+
  qed (simp add: s0_def new_scheduling_accounted assms)
  then obtain t where t: "while_option scheduling_on (\<lambda>s. visit_vos gp (om_keys (vos (tfh s))) s) s0 = Some t" ..
  have "accounted gp s0 t"
    by (rule while_option_rule [OF _ t]) (simp_all add: visit_vos_accounted s0_def new_scheduling_accounted assms)
  then show ?thesis using that t while_option_stop [OF t] by (simp add: schedule_loop_def s0_def)
qed

text \<open>
  The scheduling loop ends. For every set of ready files in which each VO has at least one,
  whatever the slots and the credentials, the loop stops after finitely many rounds; then either
  nothing is left to schedule, or the slots for agents are used up, or a credential could not be
  obtained.
\<close>

lemma scheduling_terminates:
  assumes "\<forall>vf \<in> set files. snd vf \<noteq> []"
  shows "\<exists>s. schedule_loop gp (new_scheduling (new_TransferFileHandler files) available ds) = Some s \<and>
    (handler_size (tfh s) = 0 \<or> availableUrlCopySlots s \<le> 0 \<or> threw s)"
proof -
  have "handler_inv (new_TransferFileHandler files)" using new_handler(1,2) [OF assms] by (simp add: handler_inv_def)
  then obtain s where "schedule_loop gp (new_scheduling (new_TransferFileHandler files) available ds) = Some s" "\<not> scheduling_on s"
    by (rule schedule_loop_result)
  then show ?thesis by (auto simp: scheduling_on_def handler_empty_def handler_size_def)
qed

text \<open>What the loop has started when it stops.\<close>

lemma started_facts:
  assumes "\<forall>vf \<in> set files. snd vf \<noteq> []"
    "schedule_loop gp (new_scheduling (new_TransferFileHandler files) available (dst, src)) = Some s"
  shows "int (length (started s)) \<le> max 0 available"
    "to_dest se (started s) \<le> max 0 (slot_at dst se)" "from_source se (started s) \<le> max 0 (slot_at src se)"
    "mset (map (\<lambda>f. index_of (fst f)) (started s)) \<subseteq># (\<Sum>vf \<leftarrow> files. mset_set (index_of ` set (snd vf)))"
    "mset (map fst (started s)) \<subseteq># (\<Sum>vf \<leftarrow> files. mset (snd vf))"
    "f \<in> set (started s) \<Longrightarrow> well_credentialed gp f"
proof -
  define s0 where "s0 = new_scheduling (new_TransferFileHandler files) available (dst, src)"
  have "handler_inv (new_TransferFileHandler files)" using new_handler(1,2) [OF assms(1)] by (simp add: handler_inv_def)
  then have "accounted gp s0 s" by (rule schedule_loop_result [of _ gp available "(dst, src)"]) (use assms(2) in \<open>simp add: s0_def\<close>)
  then have a: "files_kept s0 s" "slots_kept s0 s" "f \<in> set (started s) \<Longrightarrow> well_credentialed gp f" for f
    unfolding accounted_def by blast+
  have s0: "availableUrlCopySlots s0 = available" "slotsLeftForDestination s0 = dst" "slotsLeftForSource s0 = src"
    "tfh s0 = new_TransferFileHandler files" by (simp_all add: s0_def new_scheduling_def)
  show "int (length (started s)) \<le> max 0 available"
    "to_dest se (started s) \<le> max 0 (slot_at dst se)" "from_source se (started s) \<le> max 0 (slot_at src se)"
    using a(2) unfolding slots_kept_def s0 by (blast dest: slots_used_bound)+
  have "mset (map (\<lambda>f. index_of (fst f)) (started s)) + indexes_left (tfh s) \<subseteq># indexes_left (tfh s0)"
    using a(1) unfolding files_kept_def by blast
  then show "mset (map (\<lambda>f. index_of (fst f)) (started s)) \<subseteq># (\<Sum>vf \<leftarrow> files. mset_set (index_of ` set (snd vf)))"
    unfolding s0(4) new_handler(3) [OF assms(1)] by (rule subset_mset.order_trans [rotated]) simp
  have "count (mset (map fst (started s))) x \<le> count (\<Sum>vf \<leftarrow> files. mset (snd vf)) x" for x
    using a(1) unfolding files_kept_def s0(4) stored_count_new by (meson add_leD1)
  then show "mset (map fst (started s)) \<subseteq># (\<Sum>vf \<leftarrow> files. mset (snd vf))" by (rule mset_subset_eqI)
  show "f \<in> set (started s) \<Longrightarrow> well_credentialed gp f" by (rule a(3))
qed

text \<open>
  C12: what a scheduling turn starts. The number of transfers started does not exceed the slots
  for agents; for every storage, the transfers started towards it and out of it do not exceed the
  slots it had left; the files started are among those that were ready, each index of a VO at most
  once; and each has an id, a user and a credential whose proxy was obtained.
\<close>

theorem scheduling_within_limits:
  assumes "\<forall>vf \<in> set files. snd vf \<noteq> []"
    "schedule_loop gp (new_scheduling (new_TransferFileHandler files) available (dst, src)) = Some s"
  shows "int (length (started s)) \<le> max 0 available \<and>
    (\<forall>se. to_dest se (started s) \<le> max 0 (slot_at dst se) \<and> from_source se (started s) \<le> max 0 (slot_at src se)) \<and>
    mset (map fst (started s)) \<subseteq># (\<Sum>vf \<leftarrow> files. mset (snd vf)) \<and>
    mset (map (\<lambda>f. index_of (fst f)) (started s)) \<subseteq># (\<Sum>vf \<leftarrow> files. mset_set (index_of ` set (snd vf))) \<and>
    (\<forall>f. f \<in> set (started s) \<longrightarrow> well_credentialed gp f)"
  using started_facts [OF assms] by blast

theorem scheduling_within_limits_witness:
  "\<exists>s. schedule_loop (\<lambda>u c. Some ''/tmp/x509'') (new_scheduling (new_TransferFileHandler sample_files) 2 (\<lambda>_. Some 1, \<lambda>_. Some 60)) = Some s \<and>
    int (length (started s)) \<le> 2 \<and> to_dest ''b'' (started s) \<le> 1"
proof -
  obtain s where s: "schedule_loop (\<lambda>u c. Some ''/tmp/x509'')
      (new_scheduling (new_TransferFileHandler sample_files) 2 (\<lambda>_. Some 1, \<lambda>_. Some 60)) = Some s"
    using schedule_loop_result [of "new_TransferFileHandler sample_files"] new_handler(1,2) [OF sample_nonempty]
    unfolding handler_inv_def by blast
  show ?thesis
    using scheduling_within_limits [OF sample_nonempty s] s by (simp add: slot_at_def or_default_def)
qed

end
