(* ===== verification/ActivityShares.thy ===== *)
theory ActivityShares
  imports OrderedMap Schema Uri "HOL-Library.Monad_Syntax"
begin

section \<open>Shares between the activities of a VO\<close>

text \<open>
  \<^verbatim>\<open>getActivityShareConf\<close> in \<^verbatim>\<open>src/db/mysql/Config.cpp\<close> reads the shares of a VO,
  \<^verbatim>\<open>getActivitiesInQueue\<close> and \<^verbatim>\<open>getFilesNumPerActivity\<close> in \<^verbatim>\<open>src/db/mysql/MySqlAPI.cpp\<close> divide
  the slots of a link among the activities that wait.

  \<^item> A share is a decimal number; \<^verbatim>\<open>double\<close> is \<open>real\<close>.
  \<^item> The columns are compared and grouped by the collation of the database, which ignores case: a
    parameter \<open>coll\<close> that maps a text to its collation key. Groups come in the order of the table.
  \<^item> The numbers drawn by \<^verbatim>\<open>thread_random\<close>, divided by \<^verbatim>\<open>RAND_MAX\<close>, are a parameter \<open>rolls\<close>.
\<close>

subsection \<open>The configuration of a VO\<close>

definition is_lower :: "char \<Rightarrow> bool" where
  "is_lower c \<longleftrightarrow> CHR ''a'' \<le> c \<and> c \<le> CHR ''z''"

definition is_upper :: "char \<Rightarrow> bool" where
  "is_upper c \<longleftrightarrow> CHR ''A'' \<le> c \<and> c \<le> CHR ''Z''"

definition name_char :: "char \<Rightarrow> bool" where
  "name_char c \<longleftrightarrow> is_lower c \<or> is_upper c \<or> is_digit c \<or> c = CHR '' '' \<or> c = CHR ''.'' \<or> c = CHR ''_'' \<or> c = CHR ''-''"

definition to_lower :: "string \<Rightarrow> string" where
  "to_lower = map (\<lambda>c. if is_upper c then char_of (of_char c + (32 :: nat)) else c)"

fun expect :: "char \<Rightarrow> string \<Rightarrow> string option" where
  "expect c [] = None"
| "expect c (x # xs) = (if x = c then Some xs else None)"

definition skip_spaces :: "string \<Rightarrow> string" where
  "skip_spaces = dropWhile is_space"

definition span_chars :: "(char \<Rightarrow> bool) \<Rightarrow> string \<Rightarrow> (string \<times> string) option" where
  "span_chars P s = (if takeWhile P s = [] then None else Some (takeWhile P s, dropWhile P s))"

text \<open>\<^verbatim>\<open>((0\.)?\d+)\<close> and its value.\<close>

definition parse_share :: "string \<Rightarrow> (real \<times> string) option" where
  "parse_share s = do {
     (ds, rest) \<leftarrow> span_chars is_digit s;
     (case rest of
        CHR ''.'' # rest' \<Rightarrow>
          (if ds = ''0''
           then do { (fs, rest'') \<leftarrow> span_chars is_digit rest';
                     Some (real_of_int (digits_value 0 fs) / 10 ^ length fs, rest'') }
           else Some (real_of_int (digits_value 0 ds), rest))
      | _ \<Rightarrow> Some (real_of_int (digits_value 0 ds), rest)) }"

text \<open>One item \<^verbatim>\<open>{"name": share}\<close>: the regular expression of the source, read from left to right.\<close>

definition parse_activity_share :: "string \<Rightarrow> (string \<times> real) option" where
  "parse_activity_share s0 = do {
     s1 \<leftarrow> expect (CHR ''{'') (skip_spaces s0);
     s2 \<leftarrow> expect (CHR 0x22) (skip_spaces s1);
     (name, s3) \<leftarrow> span_chars name_char s2;
     s4 \<leftarrow> expect (CHR 0x22) s3;
     s5 \<leftarrow> expect (CHR '':'') (skip_spaces s4);
     (share, s6) \<leftarrow> parse_share (skip_spaces s5);
     s7 \<leftarrow> expect (CHR ''}'') (skip_spaces s6);
     if skip_spaces s7 = [] then Some (name, share) else None }"

text \<open>\<^verbatim>\<open>boost::char_separator\<close>: empty tokens are dropped.\<close>

fun split_tokens :: "char \<Rightarrow> string \<Rightarrow> string list" where
  "split_tokens sep [] = []"
| "split_tokens sep (c # cs) =
     (if c = sep then split_tokens sep cs
      else case cs of
             [] \<Rightarrow> [[c]]
           | c' # _ \<Rightarrow> if c' = sep then [c] # split_tokens sep cs
                      else (case split_tokens sep cs of [] \<Rightarrow> [[c]] | w # ws \<Rightarrow> (c # w) # ws))"

text \<open>An item that does not match leaves an empty text, which does not convert to a number.\<close>

fun parse_shares :: "string list \<Rightarrow> (string, real) omap \<Rightarrow> fts_error + (string, real) omap" where
  "parse_shares [] ret = Inr ret"
| "parse_shares (t # ts) ret =
     (case parse_activity_share t of
        None \<Rightarrow> Inl UserError
      | Some (name, share) \<Rightarrow> parse_shares ts (om_put (to_lower name) share ret))"

definition getActivityShareConf :: "string \<Rightarrow> db \<Rightarrow> fts_error + (string, real) omap" where
  "getActivityShareConf vo d =
     (case select_first (\<lambda>c. as_vo c = vo \<and> as_active c = Some ''on'') (t_activity_share_config d) of
        None \<Rightarrow> Inr []
      | Some c \<Rightarrow>
          let str = as_activity_share c in
          if str = [] then Inr []
          else parse_shares (split_tokens (CHR '','') (take (length str - 2) (drop 1 str))) [])"

subsection \<open>What waits\<close>

text \<open>\<^verbatim>\<open>GROUP BY\<close>.\<close>

function (sequential) group_rows :: "('r \<Rightarrow> 'k) \<Rightarrow> 'r list \<Rightarrow> 'r list list" where
  "group_rows k [] = []"
| "group_rows k (r # rs) = (r # filter (\<lambda>x. k x = k r) rs) # group_rows k (filter (\<lambda>x. k x \<noteq> k r) rs)"
  by pat_completeness auto
termination by (relation "measure (\<lambda>(k, rs). length rs)") (auto simp: le_imp_less_Suc)

definition in_segment :: "nat \<times> nat \<Rightarrow> file_row \<Rightarrow> bool" where
  "in_segment seg r \<longleftrightarrow> fst seg \<le> f_hashed_id r \<and> f_hashed_id r \<le> snd seg"

definition waits_for_share :: "nat \<times> nat \<Rightarrow> string \<Rightarrow> string \<Rightarrow> string \<Rightarrow> db \<Rightarrow> file_row \<Rightarrow> bool" where
  "waits_for_share seg src dst vo d r \<longleftrightarrow>
     (\<exists>j \<in> set (t_job d). j_job_id j = f_job_id r \<and> j_vo_name j = f_vo_name r \<and>
        j_job_type j \<in> {Some kTypeRegular, Some kTypeMultipleReplica, None}) \<and>
     f_file_state r = SUBMITTED \<and> f_source_se r = src \<and> f_dest_se r = dst \<and> f_vo_name r = vo \<and> in_segment seg r"

definition activity_name :: "string option \<Rightarrow> string" where
  "activity_name a = to_lower (case a of None \<Rightarrow> ''default'' | Some n \<Rightarrow> if n = [] then ''default'' else n)"

definition getActivitiesInQueue ::
  "(string \<Rightarrow> string) \<Rightarrow> nat \<times> nat \<Rightarrow> string \<Rightarrow> string \<Rightarrow> string \<Rightarrow> db \<Rightarrow> (string, int) omap" where
  "getActivitiesInQueue coll seg src dst vo d =
     fold (\<lambda>g. om_put (activity_name (f_activity (hd g)))
             (int (count_distinct (\<lambda>r. map_option (\<lambda>i. (f_job_id r, i)) (f_file_index r)) g)))
       (group_rows (\<lambda>r. map_option coll (f_activity r)) (filter (waits_for_share seg src dst vo d) (t_file d))) []"

subsection \<open>Dividing the slots\<close>

record assignment =
  inQueue :: "(string, int) omap"
  share_sum :: real
  activityFilesNum :: "(string, int) omap"

definition default_activities :: "(string, real) omap \<Rightarrow> (string, int) omap \<Rightarrow> string list" where
  "default_activities shares queue = filter (\<lambda>a. om_find shares a = None \<or> a = ''default'') (om_keys queue)"

definition share_name :: "string list \<Rightarrow> string \<Rightarrow> string" where
  "share_name defaults a = (if a \<in> set defaults then ''default'' else a)"

definition initial_sum :: "(string, real) omap \<Rightarrow> (string, int) omap \<Rightarrow> real" where
  "initial_sum shares queue =
     (let defaults = default_activities shares queue
      in (\<Sum>a \<leftarrow> filter (\<lambda>a. a \<notin> set defaults) (om_keys queue). om_at 0 shares a)
         + (if defaults = [] then 0 else om_at 0 shares ''default''))"

fun pick_activity :: "(string \<Rightarrow> real) \<Rightarrow> real \<Rightarrow> real \<Rightarrow> real \<Rightarrow> (string, int) omap \<Rightarrow> string option" where
  "pick_activity share w r interval [] = None"
| "pick_activity share w r interval ((a, n) # queue) =
     (if n \<le> 0 then pick_activity share w r interval queue
      else
        let interval' = interval + share a / w in
        if r < interval' then Some a else pick_activity share w r interval' queue)"

definition assign_slot :: "(string, real) omap \<Rightarrow> string list \<Rightarrow> real \<Rightarrow> assignment \<Rightarrow> assignment" where
  "assign_slot shares defaults r s =
     (let share = (\<lambda>a. om_at 0 shares (share_name defaults a)) in
      if share_sum s \<le> 0 then s
      else case pick_activity share (share_sum s) r 0 (inQueue s) of
             None \<Rightarrow> s
           | Some a \<Rightarrow>
               let n = om_at 0 (inQueue s) a - 1; name = share_name defaults a
               in \<lparr>inQueue = om_put a n (inQueue s),
                   share_sum = (if n = 0 then share_sum s - share a else share_sum s),
                   activityFilesNum = om_put name (om_at 0 (activityFilesNum s) name + 1) (activityFilesNum s)\<rparr>)"

definition assign_slots ::
  "(string, real) omap \<Rightarrow> (string, int) omap \<Rightarrow> (nat \<Rightarrow> real) \<Rightarrow> nat \<Rightarrow> assignment" where
  "assign_slots shares queue rolls n =
     fold (\<lambda>i. assign_slot shares (default_activities shares queue) (rolls i)) [0..<n]
       \<lparr>inQueue = queue, share_sum = initial_sum shares queue, activityFilesNum = []\<rparr>"

text \<open>The slots per activity and the activities that fall to the default.\<close>

definition getFilesNumPerActivity ::
  "(string \<Rightarrow> string) \<Rightarrow> nat \<times> nat \<Rightarrow> (nat \<Rightarrow> real) \<Rightarrow> string \<Rightarrow> string \<Rightarrow> string \<Rightarrow> int \<Rightarrow> db \<Rightarrow>
     fts_error + (string, int) omap \<times> string list" where
  "getFilesNumPerActivity coll seg rolls src dst vo filesNum d =
     (case getActivityShareConf vo d of
        Inl err \<Rightarrow> Inl err
      | Inr shares \<Rightarrow>
          if shares = [] then Inr ([], [])
          else
            let queue = getActivitiesInQueue coll seg src dst vo d
            in Inr (activityFilesNum (assign_slots shares queue rolls (nat filesNum)), default_activities shares queue))"

subsection \<open>One slot\<close>

definition share_left :: "(string \<Rightarrow> real) \<Rightarrow> (string, int) omap \<Rightarrow> real" where
  "share_left share queue = (\<Sum>p \<leftarrow> queue. if 0 < snd p then share (fst p) else 0)"

definition waiting_as :: "(string \<Rightarrow> string) \<Rightarrow> string \<Rightarrow> (string, int) omap \<Rightarrow> int" where
  "waiting_as key name queue = (\<Sum>p \<leftarrow> queue. if key (fst p) = name then snd p else 0)"

definition total_of :: "(string, int) omap \<Rightarrow> int" where
  "total_of queue = (\<Sum>p \<leftarrow> queue. snd p)"

lemma pick_activity_Some:
  assumes "pick_activity share w r interval queue = Some a" "interval \<le> r" "0 < w"
  shows "\<exists>n. (a, n) \<in> set queue \<and> 0 < n \<and> 0 < share a"
  using assms(1,2)
proof (induction queue arbitrary: interval)
  case (Cons p queue)
  obtain b n where p: "p = (b, n)" by (cases p)
  show ?case
  proof (cases "n \<le> 0 \<or> interval + share b / w \<le> r")
    case True
    then show ?thesis using Cons p by (auto simp: Let_def split: if_splits)
  next
    case False
    then have "a = b" "0 < share b / w" using Cons.prems p by (auto simp: Let_def)
    then show ?thesis using False p assms(3) by (auto simp: zero_less_divide_iff)
  qed
qed simp

lemma pick_activity_total:
  assumes "interval \<le> r" "r < interval + share_left share queue / w"
  shows "\<exists>a. pick_activity share w r interval queue = Some a"
  using assms
proof (induction queue arbitrary: interval)
  case (Cons p queue)
  obtain b n where p: "p = (b, n)" by (cases p)
  show ?case
  proof (cases "0 < n \<and> r < interval + share b / w")
    case False
    then show ?thesis
      using Cons.IH [of "if 0 < n then interval + share b / w else interval"] Cons.prems p
      by (auto simp: share_left_def add_divide_distrib Let_def not_less not_le split: if_splits)
  qed (use p in \<open>simp add: Let_def\<close>)
qed (simp add: share_left_def)

text \<open>What one slot does: nothing, or one file of an activity with a positive share moves.\<close>

definition slot_moved :: "(string, real) omap \<Rightarrow> string list \<Rightarrow> string \<Rightarrow> int \<Rightarrow> assignment \<Rightarrow> assignment \<Rightarrow> bool" where
  "slot_moved shares defaults a n s s' \<longleftrightarrow>
     om_find (inQueue s) a = Some n \<and> 0 < n \<and> 0 < om_at 0 shares (share_name defaults a) \<and>
     s' = \<lparr>inQueue = om_put a (n - 1) (inQueue s),
           share_sum = (if n = 1 then share_sum s - om_at 0 shares (share_name defaults a) else share_sum s),
           activityFilesNum = om_put (share_name defaults a)
             (om_at 0 (activityFilesNum s) (share_name defaults a) + 1) (activityFilesNum s)\<rparr>"

lemma pick_moves:
  assumes "om_ok (inQueue s)" "0 \<le> r" "0 < share_sum s"
    "pick_activity (\<lambda>a. om_at 0 shares (share_name defaults a)) (share_sum s) r 0 (inQueue s) = Some a"
  shows "\<exists>n. slot_moved shares defaults a n s (assign_slot shares defaults r s)"
proof -
  obtain n where n: "(a, n) \<in> set (inQueue s)" "0 < n" "0 < om_at 0 shares (share_name defaults a)"
    using pick_activity_Some [OF assms(4,2,3)] by blast
  have "om_find (inQueue s) a = Some n" using assms(1) n(1) by (rule om_in_find)
  then have "slot_moved shares defaults a n s (assign_slot shares defaults r s)"
    using assms(3,4) n(2,3) by (simp add: slot_moved_def assign_slot_def Let_def om_at_def)
  then show ?thesis by blast
qed

lemma assign_slot_cases:
  assumes "om_ok (inQueue s)" "0 \<le> r"
  shows "assign_slot shares defaults r s = s \<or> (\<exists>a n. slot_moved shares defaults a n s (assign_slot shares defaults r s))"
proof (cases "share_sum s \<le> 0 \<or> pick_activity (\<lambda>a. om_at 0 shares (share_name defaults a)) (share_sum s) r 0 (inQueue s) = None")
  case True
  then show ?thesis by (auto simp: assign_slot_def Let_def)
next
  case False
  then show ?thesis using pick_moves [OF assms] by force
qed

lemma om_at_put: "om_ok m \<Longrightarrow> om_at v (om_put k w m) = (om_at v m)(k := w)"
  by (auto simp: om_at_def om_find_put)

lemma slot_moved_sums:
  assumes "slot_moved shares defaults a n s s'" "om_ok (inQueue s)" "om_ok (activityFilesNum s)"
  shows "om_ok (inQueue s')" "om_ok (activityFilesNum s')"
    "total_of (inQueue s') = total_of (inQueue s) - 1" "total_of (activityFilesNum s') = total_of (activityFilesNum s) + 1"
    "waiting_as (share_name defaults) name (inQueue s') + om_at 0 (activityFilesNum s') name
       = waiting_as (share_name defaults) name (inQueue s) + om_at 0 (activityFilesNum s) name"
    "share_left (\<lambda>a. om_at 0 shares (share_name defaults a)) (inQueue s') - share_sum s'
       = share_left (\<lambda>a. om_at 0 shares (share_name defaults a)) (inQueue s) - share_sum s"
proof -
  define key where "key = share_name defaults a"
  have s': "inQueue s' = om_put a (n - 1) (inQueue s)" "activityFilesNum s' = om_put key (om_at 0 (activityFilesNum s) key + 1) (activityFilesNum s)"
    "share_sum s' = (if n = 1 then share_sum s - om_at 0 shares key else share_sum s)" and n: "om_find (inQueue s) a = Some n" "0 < n"
    using assms(1) by (simp_all add: slot_moved_def key_def)
  show "om_ok (inQueue s')" "om_ok (activityFilesNum s')" using assms(2,3) by (simp_all add: s' om_ok_put)
  show "total_of (inQueue s') = total_of (inQueue s) - 1"
    using om_sum_put [OF assms(2), of "\<lambda>n. n" a "n - 1"] n by (simp add: s' total_of_def)
  show "total_of (activityFilesNum s') = total_of (activityFilesNum s) + 1"
    using om_sum_put [OF assms(3), of "\<lambda>n. n" key "om_at 0 (activityFilesNum s) key + 1"]
    by (simp add: s' total_of_def om_at_def split: option.splits)
  have "waiting_as (share_name defaults) name (inQueue s') = waiting_as (share_name defaults) name (inQueue s) - (if key = name then 1 else 0)"
    using om_sum_put_key [OF assms(2), of "\<lambda>a n. if share_name defaults a = name then n else 0" a "n - 1"] n
    by (simp add: s' waiting_as_def key_def split: if_splits)
  then show "waiting_as (share_name defaults) name (inQueue s') + om_at 0 (activityFilesNum s') name
      = waiting_as (share_name defaults) name (inQueue s) + om_at 0 (activityFilesNum s) name"
    using assms(3) by (simp add: s' om_at_put)
  show "share_left (\<lambda>a. om_at 0 shares (share_name defaults a)) (inQueue s') - share_sum s'
      = share_left (\<lambda>a. om_at 0 shares (share_name defaults a)) (inQueue s) - share_sum s"
    using om_sum_put_key [OF assms(2), of "\<lambda>a n. if 0 < n then om_at 0 shares (share_name defaults a) else 0" a "n - 1"] n
    by (cases "n = 1") (simp_all add: s' share_left_def key_def)
qed

subsection \<open>All slots\<close>

definition nonneg :: "(string, int) omap \<Rightarrow> bool" where
  "nonneg queue \<longleftrightarrow> (\<forall>p \<in> set queue. 0 \<le> snd p)"

definition slots_ok :: "(string, real) omap \<Rightarrow> string list \<Rightarrow> (string, int) omap \<Rightarrow> nat \<Rightarrow> assignment \<Rightarrow> bool" where
  "slots_ok shares defaults queue i s \<longleftrightarrow>
     om_ok (inQueue s) \<and> om_ok (activityFilesNum s) \<and> nonneg (inQueue s) \<and>
     total_of (inQueue s) + total_of (activityFilesNum s) = total_of queue \<and> total_of (activityFilesNum s) \<le> int i \<and>
     (\<forall>name. waiting_as (share_name defaults) name (inQueue s) + om_at 0 (activityFilesNum s) name
        = waiting_as (share_name defaults) name queue) \<and>
     (\<forall>p \<in> set (activityFilesNum s). 0 < snd p \<and> 0 < om_at 0 shares (fst p))"

lemma slots_ok_step:
  assumes "slots_ok shares defaults queue i s" "0 \<le> r"
  shows "slots_ok shares defaults queue (Suc i) (assign_slot shares defaults r s)"
proof -
  have ok: "om_ok (inQueue s)" "om_ok (activityFilesNum s)" using assms(1) by (simp_all add: slots_ok_def)
  show ?thesis
    using assign_slot_cases [OF ok(1) assms(2), of shares defaults]
  proof (elim disjE exE)
    assume "assign_slot shares defaults r s = s"
    then show ?thesis using assms(1) by (simp add: slots_ok_def)
  next
    fix a n assume m: "slot_moved shares defaults a n s (assign_slot shares defaults r s)"
    define s' where "s' = assign_slot shares defaults r s"
    define name where "name = share_name defaults a"
    note sums = slot_moved_sums [OF m ok, folded s'_def]
    have s': "inQueue s' = om_put a (n - 1) (inQueue s)" "0 < n" "0 < om_at 0 shares name"
      "activityFilesNum s' = om_put name (om_at 0 (activityFilesNum s) name + 1) (activityFilesNum s)"
      using m unfolding slot_moved_def s'_def name_def by simp_all
    have pos: "0 < snd p \<and> 0 < om_at 0 shares (fst p)" if "p \<in> set (activityFilesNum s)" for p
      using assms(1) that unfolding slots_ok_def by blast
    have "0 \<le> om_at 0 (activityFilesNum s) name"
      using pos [OF om_find_in] by (force simp: om_at_def split: option.splits)
    then have "\<forall>p \<in> set (activityFilesNum s'). 0 < snd p \<and> 0 < om_at 0 shares (fst p)"
      using pos s'(3) by (auto simp: s'(4) in_om_put [OF ok(2)])
    moreover have "nonneg (inQueue s')"
      using assms(1) s'(2) by (auto simp: s'(1) nonneg_def slots_ok_def in_om_put [OF ok(1)])
    ultimately show ?thesis
      using assms(1) sums unfolding slots_ok_def s'_def [symmetric] by simp
  qed
qed

lemma slots_ok_fold:
  assumes "om_ok queue" "nonneg queue" "\<forall>i. 0 \<le> rolls i"
  shows "slots_ok shares (default_activities shares queue) queue n (assign_slots shares queue rolls n)"
proof (induction n)
  case 0
  then show ?case using assms(1,2) by (simp add: assign_slots_def slots_ok_def total_of_def om_at_def om_find_def)
next
  case (Suc n)
  have "assign_slots shares queue rolls (Suc n) = assign_slot shares (default_activities shares queue) (rolls n) (assign_slots shares queue rolls n)"
    by (simp add: assign_slots_def)
  then show ?case using slots_ok_step [OF Suc] assms(3) by simp
qed

lemma waiting_as_nonneg: "nonneg queue \<Longrightarrow> 0 \<le> waiting_as key name queue"
  unfolding nonneg_def waiting_as_def by (induction queue) auto

text \<open>
  C17: slots are given to activities that can use them. However the dice fall, the slots given
  out are not more than there are, an activity gets no more slots than it has files waiting (all
  unknown activities together count as the default one), and an activity that gets a slot has a
  positive share.
\<close>

theorem activity_slots_bounded:
  assumes "om_ok queue" "nonneg queue" "\<forall>i. 0 \<le> rolls i" "nums = activityFilesNum (assign_slots shares queue rolls n)"
  shows "total_of nums \<le> int n \<and>
    (\<forall>name. om_at 0 nums name \<le> waiting_as (share_name (default_activities shares queue)) name queue) \<and>
    (\<forall>name k. (name, k) \<in> set nums \<longrightarrow> 0 < k \<and> 0 < om_at 0 shares name)"
proof -
  have ok: "slots_ok shares (default_activities shares queue) queue n (assign_slots shares queue rolls n)"
    using assms(1-3) by (rule slots_ok_fold)
  have "om_at 0 nums name \<le> waiting_as (share_name (default_activities shares queue)) name queue" for name
    using ok waiting_as_nonneg [of "inQueue (assign_slots shares queue rolls n)" "share_name (default_activities shares queue)" name]
    unfolding slots_ok_def assms(4) by smt
  then show ?thesis using ok by (auto simp: slots_ok_def assms(4))
qed

definition sample_queue :: "(string, int) omap" where
  "sample_queue = [(''data'', 3), (''prod'', 2)]"

definition sample_shares :: "(string, real) omap" where
  "sample_shares = [(''data'', 1 / 2), (''default'', 1 / 4), (''prod'', 1 / 4)]"

lemma sample_queue: "om_ok sample_queue" "nonneg sample_queue" "total_of sample_queue = 5"
  by (code_simp, simp_all add: nonneg_def sample_queue_def total_of_def)

theorem activity_slots_bounded_witness:
  "total_of (activityFilesNum (assign_slots sample_shares sample_queue (\<lambda>i. 1 / 4) 4)) \<le> 4"
  using activity_slots_bounded [OF sample_queue(1,2), of "\<lambda>i. 1 / 4" _ sample_shares 4, OF _ refl] by simp

subsection \<open>No slot is lost\<close>

lemma default_keys: "filter (\<lambda>a. a \<in> set (default_activities shares queue)) (om_keys queue) = default_activities shares queue"
  by (auto simp: default_activities_def intro: filter_cong)

lemma sum_list_split: "(\<Sum>x \<leftarrow> xs. f x) = (\<Sum>x \<leftarrow> filter (\<lambda>x. \<not> P x) xs. f x) + (\<Sum>x \<leftarrow> filter P xs. f x)"
  for f :: "'a \<Rightarrow> 'b::comm_monoid_add"
  by (induction xs) (simp_all add: ac_simps)

lemma initial_sum_left:
  assumes "length (default_activities shares queue) \<le> 1" "\<forall>p \<in> set queue. 0 < snd p"
  shows "share_left (\<lambda>a. om_at 0 shares (share_name (default_activities shares queue) a)) queue = initial_sum shares queue"
proof -
  define defaults where "defaults = default_activities shares queue"
  define share where "share = (\<lambda>a. om_at 0 shares (share_name defaults a))"
  have "share_left share queue = (\<Sum>a \<leftarrow> om_keys queue. share a)"
    using assms(2) unfolding share_left_def om_keys_def by (induction queue) auto
  also have "\<dots> = (\<Sum>a \<leftarrow> filter (\<lambda>a. a \<notin> set defaults) (om_keys queue). share a) + (\<Sum>a \<leftarrow> filter (\<lambda>a. a \<in> set defaults) (om_keys queue). share a)"
    by (rule sum_list_split)
  also have "(\<Sum>a \<leftarrow> filter (\<lambda>a. a \<notin> set defaults) (om_keys queue). share a) = (\<Sum>a \<leftarrow> filter (\<lambda>a. a \<notin> set defaults) (om_keys queue). om_at 0 shares a)"
    by (rule arg_cong [of _ _ sum_list]) (auto simp: share_def share_name_def)
  also have "filter (\<lambda>a. a \<in> set defaults) (om_keys queue) = defaults" unfolding defaults_def by (rule default_keys)
  also have "(\<Sum>a \<leftarrow> defaults. share a) = (if defaults = [] then 0 else om_at 0 shares ''default'')"
    using assms(1) by (cases defaults) (auto simp: share_def share_name_def defaults_def [symmetric])
  finally show ?thesis by (simp add: initial_sum_def Let_def defaults_def share_def)
qed

lemma positive_share_left:
  assumes "nonneg queue" "0 < total_of queue" "\<forall>p \<in> set queue. 0 < share (fst p)"
  shows "0 < share_left share queue"
  using assms unfolding nonneg_def total_of_def share_left_def
proof (induction queue)
  case (Cons p queue)
  have "0 \<le> (\<Sum>p \<leftarrow> queue. if 0 < snd p then share (fst p) else 0)"
    using Cons.prems(3) by (intro sum_list_nonneg) (auto intro: less_imp_le)
  moreover have "0 < (\<Sum>p \<leftarrow> queue. if 0 < snd p then share (fst p) else 0)" if "snd p = 0"
    using Cons that by auto
  ultimately show ?case using Cons.prems(1,3) by (cases "snd p = 0") (auto intro: add_pos_nonneg)
qed simp

lemma keys_kept:
  assumes "slot_moved shares defaults a n s s'" "om_ok (inQueue s)"
  shows "fst ` set (inQueue s') = fst ` set (inQueue s)"
proof -
  have "inQueue s' = om_put a (n - 1) (inQueue s)" "a \<in> fst ` set (inQueue s)"
    using assms(1) om_find_in [of "inQueue s" a n] unfolding slot_moved_def by (force simp: slot_moved_def)+
  then show ?thesis by (simp add: fst_om_put insert_absorb)
qed

lemma total_of_ge: "nonneg queue \<Longrightarrow> (a, n) \<in> set queue \<Longrightarrow> n \<le> total_of queue"
proof (induction queue)
  case (Cons p queue)
  then have "0 \<le> total_of queue" unfolding nonneg_def total_of_def by (intro sum_list_nonneg) auto
  then show ?case using Cons by (auto simp: nonneg_def total_of_def)
qed simp

lemma assign_slot_moves:
  assumes "om_ok (inQueue s)" "0 \<le> r" "0 < share_sum s"
    "r < share_left (\<lambda>a. om_at 0 shares (share_name defaults a)) (inQueue s) / share_sum s"
  shows "\<exists>a n. slot_moved shares defaults a n s (assign_slot shares defaults r s)"
proof -
  obtain a where "pick_activity (\<lambda>a. om_at 0 shares (share_name defaults a)) (share_sum s) r 0 (inQueue s) = Some a"
    using pick_activity_total [of 0 r _ "inQueue s" "share_sum s"] assms(2,4) by auto
  then show ?thesis using pick_moves [OF assms(1-3)] by blast
qed

lemma assign_slot_idle:
  assumes "om_ok (inQueue s)" "nonneg (inQueue s)" "total_of (inQueue s) = 0" "0 \<le> r"
  shows "assign_slot shares defaults r s = s"
proof -
  have "\<not> slot_moved shares defaults a n s s'" for a n s'
    using total_of_ge [OF assms(2), of a n] om_find_in [of "inQueue s" a n] assms(3) by (auto simp: slot_moved_def)
  then show ?thesis using assign_slot_cases [OF assms(1,4)] by blast
qed

text \<open>With one default activity the sum is the share of what is left, so every slot is used.\<close>

definition slots_exact :: "(string, real) omap \<Rightarrow> string list \<Rightarrow> (string, int) omap \<Rightarrow> nat \<Rightarrow> assignment \<Rightarrow> bool" where
  "slots_exact shares defaults queue n s \<longleftrightarrow>
     share_left (\<lambda>a. om_at 0 shares (share_name defaults a)) (inQueue s) = share_sum s \<and>
     fst ` set (inQueue s) = fst ` set queue \<and> total_of (activityFilesNum s) = min (int n) (total_of queue)"

lemma slots_exact_step:
  assumes "slots_ok shares defaults queue n s" "slots_exact shares defaults queue n s" "0 \<le> r" "r < 1"
    "\<forall>p \<in> set queue. 0 < om_at 0 shares (share_name defaults (fst p))"
  shows "slots_exact shares defaults queue (Suc n) (assign_slot shares defaults r s)"
proof -
  define share where "share = (\<lambda>a. om_at 0 shares (share_name defaults a))"
  have ok: "om_ok (inQueue s)" "om_ok (activityFilesNum s)" "nonneg (inQueue s)"
    "total_of (inQueue s) + total_of (activityFilesNum s) = total_of queue" using assms(1) by (simp_all add: slots_ok_def)
  have ex: "share_left share (inQueue s) = share_sum s" "fst ` set (inQueue s) = fst ` set queue"
    "total_of (activityFilesNum s) = min (int n) (total_of queue)" using assms(2) by (simp_all add: slots_exact_def share_def)
  show ?thesis
  proof (cases "int n < total_of queue")
    case False
    then have "total_of (inQueue s) = 0" using ex(3) ok(4) by simp
    then have "assign_slot shares defaults r s = s" using ok(1,3) assms(3) by (intro assign_slot_idle)
    then show ?thesis using assms(2) False by (simp add: slots_exact_def)
  next
    case True
    have "\<forall>p \<in> set (inQueue s). 0 < share (fst p)"
      using assms(5) ex(2) unfolding share_def by (metis imageE imageI)
    then have "0 < share_sum s" using positive_share_left [OF ok(3), of share] ex(1,3) ok(4) True by simp
    then obtain a k where m: "slot_moved shares defaults a k s (assign_slot shares defaults r s)"
      using assign_slot_moves [OF ok(1) assms(3), of shares defaults] assms(4) ex(1) by (auto simp: share_def)
    show ?thesis
      using slot_moved_sums(4,6) [OF m ok(1,2)] keys_kept [OF m ok(1)] ex True by (simp add: slots_exact_def share_def)
  qed
qed



text \<open>
  With two unknown activities the default share is added once and subtracted twice: when the first
  of them has no more files the sum is zero, and the second gets no slot.
\<close>

lemma two_default_activities:
  assumes "\<forall>i. 0 \<le> rolls i \<and> rolls i < 1"
  shows "activityFilesNum (assign_slots [(''default'', 1)] [(''x'', 1), (''y'', 1)] rolls 2) = [(''default'', 1)]"
proof -
  have "default_activities [(''default'', 1)] [(''x'', 1), (''y'', 1 :: int)] = [''x'', ''y'']" by code_simp
  moreover have "initial_sum [(''default'', 1)] [(''x'', 1), (''y'', 1)] = 1" by code_simp
  ultimately show ?thesis
    using assms by (simp add: assign_slots_def numeral_2_eq_2 assign_slot_def Let_def om_at_def om_find_def share_name_def)
qed

subsection \<open>The slots of a link\<close>

lemma fold_put_nonneg:
  assumes "om_ok m" "nonneg m" "\<And>g. 0 \<le> v g"
  shows "om_ok (fold (\<lambda>g. om_put (k g) (v g)) gs m) \<and> nonneg (fold (\<lambda>g. om_put (k g) (v g)) gs m)"
  using assms(1,2)
proof (induction gs arbitrary: m)
  case (Cons g gs)
  have "om_ok (om_put (k g) (v g) m)" "nonneg (om_put (k g) (v g) m)"
    using Cons.prems assms(3) by (auto simp: om_ok_put nonneg_def in_om_put)
  then show ?case using Cons.IH by simp
qed simp

lemma getActivitiesInQueue_ok:
  "om_ok (getActivitiesInQueue coll seg src dst vo d)" "nonneg (getActivitiesInQueue coll seg src dst vo d)"
  unfolding getActivitiesInQueue_def
  by (rule conjunct1 [OF fold_put_nonneg] conjunct2 [OF fold_put_nonneg]; simp add: nonneg_def)+

lemma getFilesNumPerActivity_bound:
  assumes "getFilesNumPerActivity coll seg rolls src dst vo filesNum d = Inr (nums, defaults)" "\<forall>i. 0 \<le> rolls i" "0 \<le> filesNum"
  shows "total_of nums \<le> filesNum \<and> (\<forall>an \<in> set nums. 0 < snd an)"
proof -
  obtain shares where shares: "getActivityShareConf vo d = Inr shares"
    using assms(1) by (cases "getActivityShareConf vo d") (simp_all add: getFilesNumPerActivity_def)
  show ?thesis
  proof (cases "shares = []")
    case True
    then show ?thesis using assms(1,3) shares by (simp add: getFilesNumPerActivity_def total_of_def)
  next
    case False
    define queue where "queue = getActivitiesInQueue coll seg src dst vo d"
    have ok: "om_ok queue" "nonneg queue" unfolding queue_def by (rule getActivitiesInQueue_ok)+
    have "nums = activityFilesNum (assign_slots shares queue rolls (nat filesNum))"
      using assms(1) shares False by (simp add: getFilesNumPerActivity_def queue_def Let_def)
    then show ?thesis using slots_ok_fold [OF ok assms(2), of shares "nat filesNum"] assms(3) by (simp add: slots_ok_def)
  qed
qed

end
