(* ===== verification/Scheduler.thy ===== *)
theory Scheduler
  imports ActivityShares VoShares JobLifecycle "HOL-Library.Multiset"
begin

section \<open>Which transfers are ready\<close>

text \<open>
  The queries of the scheduler in \<^verbatim>\<open>src/db/mysql/MySqlAPI.cpp\<close>: the queues with waiting files, and
  for each of them the files that may start now.

  \<^item> \<open>scheduler_env\<close> holds what the queries depend on besides the database: clock, the segment of
    hashes of this host, collation, the configured fixed priority, and what is drawn at random, the
    dice for the activities and the shuffled order, for each queue.
  \<^item> Throwing away what was collected and throwing is \<open>Inl\<close>.
  \<^item> \<open>uninit\<close> is the value of the variable that \<^verbatim>\<open>getReadySessionReuseTransfers\<close> leaves
    uninitialised when the optimizer knows nothing of the link.
\<close>

record scheduler_env =
  sv_now :: timestamp
  sv_segment :: "nat \<times> nat"
  sv_coll :: "string \<Rightarrow> string"
  sv_fixedPriority :: int
  sv_rolls :: "QueueId \<Rightarrow> nat \<Rightarrow> real"
  sv_shuffle :: "QueueId \<Rightarrow> (string \<times> int) list \<Rightarrow> (string \<times> int) list"

subsection \<open>Queues\<close>

definition active_of_vo :: "string \<Rightarrow> string \<Rightarrow> string \<Rightarrow> db \<Rightarrow> nat" where
  "active_of_vo src dst vo d =
     length (filter (\<lambda>r. f_source_se r = src \<and> f_dest_se r = dst \<and> f_vo_name r = vo \<and> f_file_state r = ACTIVE) (t_file d))"

definition queue_of_group :: "db \<Rightarrow> file_row list \<Rightarrow> QueueId" where
  "queue_of_group d g =
     (let r = hd g in
      \<lparr>q_sourceSe = f_source_se r, q_destSe = f_dest_se r, q_voName = f_vo_name r,
       q_activeCount = active_of_vo (f_source_se r) (f_dest_se r) (f_vo_name r) d\<rparr>)"

definition queue_key :: "file_row \<Rightarrow> string \<times> string \<times> string" where
  "queue_key r = (f_source_se r, f_dest_se r, f_vo_name r)"

definition getQueuesWithPending :: "db \<Rightarrow> QueueId list" where
  "getQueuesWithPending d =
     map (queue_of_group d) (group_rows queue_key (filter (\<lambda>r. f_file_state r = SUBMITTED) (t_file d)))"

definition getQueuesWithSessionReusePending :: "nat \<times> nat \<Rightarrow> db \<Rightarrow> QueueId list" where
  "getQueuesWithSessionReusePending seg d =
     map (queue_of_group d)
       (group_rows queue_key
          (filter (\<lambda>r. f_file_state r = SUBMITTED \<and> in_segment seg r \<and>
                     (\<exists>j \<in> set (t_job d). j_job_id j = f_job_id r \<and> j_job_type j = Some kTypeSessionReuse))
             (t_file d)))"

subsection \<open>Files of one queue\<close>

definition optimizer_active :: "string \<Rightarrow> string \<Rightarrow> db \<Rightarrow> int option option" where
  "optimizer_active src dst d =
     map_option o_active (select_first (\<lambda>r. o_source_se r = src \<and> o_dest_se r = dst) (t_optimizer d))"

definition files_num :: "QueueId \<Rightarrow> db \<Rightarrow> int" where
  "files_num q d =
     (case optimizer_active (q_sourceSe q) (q_destSe q) d of
        Some (Some m) \<Rightarrow> if m > 0 then m - getActiveCount (q_sourceSe q) (q_destSe q) d else 10
      | _ \<Rightarrow> 10)"

fun sql_max :: "int list \<Rightarrow> int option" where
  "sql_max [] = None"
| "sql_max (x # xs) = Some (fold max xs x)"

definition in_queue :: "QueueId \<Rightarrow> file_row \<Rightarrow> bool" where
  "in_queue q r \<longleftrightarrow> f_vo_name r = q_voName q \<and> f_source_se r = q_sourceSe q \<and> f_dest_se r = q_destSe q \<and>
     f_file_state r = SUBMITTED"

definition max_priority :: "scheduler_env \<Rightarrow> QueueId \<Rightarrow> db \<Rightarrow> int option" where
  "max_priority sv q d =
     (if sv_fixedPriority sv = 0
      then sql_max (map f_priority (filter (\<lambda>r. in_queue q r \<and> in_segment (sv_segment sv) r) (t_file d)))
      else Some (sv_fixedPriority sv))"

definition ready_row :: "scheduler_env \<Rightarrow> QueueId \<Rightarrow> int \<Rightarrow> JobType set \<Rightarrow> db \<Rightarrow> file_row \<Rightarrow> bool" where
  "ready_row sv q priority types d r \<longleftrightarrow>
     in_queue q r \<and> in_segment (sv_segment sv) r \<and>
     (case f_retry_timestamp r of None \<Rightarrow> True | Some t \<Rightarrow> t < sv_now sv) \<and>
     (case job_by_id (f_job_id r) d of
        None \<Rightarrow> False
      | Some j \<Rightarrow> j_priority j = priority \<and> (case j_job_type j of None \<Rightarrow> False | Some t \<Rightarrow> t \<in> types))"

text \<open>\<^verbatim>\<open>ORDER BY file_id ASC LIMIT n\<close>.\<close>

definition first_files :: "int \<Rightarrow> file_row list \<Rightarrow> file_row list" where
  "first_files n rows = take (nat n) (sort_key f_file_id rows)"

definition activity_matches :: "(string \<Rightarrow> string) \<Rightarrow> string list \<Rightarrow> string \<Rightarrow> file_row \<Rightarrow> bool" where
  "activity_matches coll defaults act r \<longleftrightarrow>
     (case f_activity r of
        None \<Rightarrow> act = ''default''
      | Some a \<Rightarrow> coll a = coll act \<or> (act = ''default'' \<and> (\<exists>b \<in> set ('''' # defaults). coll a = coll b)))"

definition set_last_replica :: "db \<Rightarrow> TransferFile \<Rightarrow> TransferFile" where
  "set_last_replica d tf =
     (let rows = files_of_job (tf_jobId tf) d
      in tf\<lparr>tf_lastReplica := length rows = length (filter (\<lambda>r. f_file_state r \<noteq> NOT_USED) rows)\<rparr>)"

text \<open>The highest index is read without an indicator: it throws when every index is NULL.\<close>

definition set_last_hop :: "db \<Rightarrow> TransferFile \<Rightarrow> fts_error + TransferFile" where
  "set_last_hop d tf =
     (case sql_max (List.map_filter f_file_index (files_of_job (tf_jobId tf) d)) of
        None \<Rightarrow> Inl UserError
      | Some m \<Rightarrow> Inr (tf\<lparr>tf_lastHop := m = tf_fileIndex tf\<rparr>))"

definition fetch_ready :: "db \<Rightarrow> file_row \<Rightarrow> fts_error + TransferFile" where
  "fetch_ready d r =
     (case job_by_id (f_job_id r) d of
        None \<Rightarrow> Inl UserError
      | Some j \<Rightarrow>
          (case fetch_TransferFile r j of
             Inl err \<Rightarrow> Inl err
           | Inr tf \<Rightarrow>
               if tf_jobType tf = kTypeMultipleReplica then Inr (set_last_replica d tf)
               else if tf_jobType tf = kTypeMultiHop then set_last_hop d tf
               else Inr tf))"

type_synonym vo_files = "(string, TransferFile list) omap"

definition push_file :: "TransferFile \<Rightarrow> vo_files \<Rightarrow> vo_files" where
  "push_file tf files = om_put (tf_voName tf) (om_at [] files (tf_voName tf) @ [tf]) files"

fun push_rows :: "(file_row \<Rightarrow> fts_error + TransferFile) \<Rightarrow> file_row list \<Rightarrow> vo_files \<Rightarrow> fts_error + vo_files" where
  "push_rows fetch [] files = Inr files"
| "push_rows fetch (r # rs) files =
     (case fetch r of Inl err \<Rightarrow> Inl err | Inr tf \<Rightarrow> push_rows fetch rs (push_file tf files))"

definition activity_rows :: "scheduler_env \<Rightarrow> QueueId \<Rightarrow> int \<Rightarrow> string list \<Rightarrow> db \<Rightarrow> string \<times> int \<Rightarrow> file_row list" where
  "activity_rows sv q priority defaults d an =
     first_files (snd an)
       (filter (\<lambda>r. ready_row sv q priority {kTypeRegular, kTypeMultipleReplica} d r \<and>
                  activity_matches (sv_coll sv) defaults (fst an) r) (t_file d))"

fun push_activities :: "scheduler_env \<Rightarrow> QueueId \<Rightarrow> int \<Rightarrow> string list \<Rightarrow> db \<Rightarrow> (string \<times> int) list \<Rightarrow> vo_files \<Rightarrow> fts_error + vo_files" where
  "push_activities sv q priority defaults d [] files = Inr files"
| "push_activities sv q priority defaults d (an # ans) files =
     (if snd an = 0 then push_activities sv q priority defaults d ans files
      else
        case push_rows (\<lambda>r. map_sum id (\<lambda>tf. tf\<lparr>tf_activity := fst an\<rparr>) (fetch_ready d r))
               (activity_rows sv q priority defaults d an) files of
          Inl err \<Rightarrow> Inl err
        | Inr files1 \<Rightarrow> push_activities sv q priority defaults d ans files1)"

definition ready_of_queue :: "scheduler_env \<Rightarrow> db \<Rightarrow> QueueId \<Rightarrow> vo_files \<Rightarrow> fts_error + vo_files" where
  "ready_of_queue sv d q files =
     (let filesNum = files_num q d in
      if filesNum \<le> 0 then Inr files
      else case max_priority sv q d of
             None \<Rightarrow> Inr files
           | Some priority \<Rightarrow>
               (case getFilesNumPerActivity (sv_coll sv) (sv_segment sv) (sv_rolls sv q)
                       (q_sourceSe q) (q_destSe q) (q_voName q) filesNum d of
                  Inl err \<Rightarrow> Inl err
                | Inr (nums, defaults) \<Rightarrow>
                    if nums = [] then
                      push_rows (fetch_ready d)
                        (first_files filesNum
                           (filter (ready_row sv q priority {kTypeRegular, kTypeMultipleReplica, kTypeMultiHop} d) (t_file d)))
                        files
                    else push_activities sv q priority defaults d (sv_shuffle sv q nums) files))"

fun getReadyTransfers :: "scheduler_env \<Rightarrow> db \<Rightarrow> QueueId list \<Rightarrow> vo_files \<Rightarrow> fts_error + vo_files" where
  "getReadyTransfers sv d [] files = Inr files"
| "getReadyTransfers sv d (q # qs) files =
     (case ready_of_queue sv d q files of Inl err \<Rightarrow> Inl err | Inr files1 \<Rightarrow> getReadyTransfers sv d qs files1)"

subsection \<open>Session reuse and forced starts\<close>

definition reuse_limit :: "int \<Rightarrow> QueueId \<Rightarrow> db \<Rightarrow> int" where
  "reuse_limit uninit q d =
     (case optimizer_active (q_sourceSe q) (q_destSe q) d of Some (Some m) \<Rightarrow> m | _ \<Rightarrow> uninit)
     - getActiveCount (q_sourceSe q) (q_destSe q) d"

definition reuse_jobs :: "int \<Rightarrow> QueueId \<Rightarrow> db \<Rightarrow> job_row list" where
  "reuse_jobs limit q d =
     take (nat limit)
       (sort_key (\<lambda>j. (- j_priority j, j_submit_time j))
          (filter (\<lambda>j. j_source_se j = Some (q_sourceSe q) \<and> j_dest_se j = Some (q_destSe q) \<and> j_vo_name j = q_voName q \<and>
                     j_job_type j = Some kTypeSessionReuse \<and> j_job_state j \<in> {J_SUBMITTED, J_ACTIVE} \<and>
                     (\<exists>r \<in> set (t_file d). f_job_id r = j_job_id j \<and> f_file_state r = SUBMITTED))
             (t_job d)))"

fun fetch_all :: "('r \<Rightarrow> fts_error + 'a) \<Rightarrow> 'r list \<Rightarrow> fts_error + 'a list" where
  "fetch_all fetch [] = Inr []"
| "fetch_all fetch (r # rs) =
     (case fetch r of Inl err \<Rightarrow> Inl err
      | Inr x \<Rightarrow> (case fetch_all fetch rs of Inl err \<Rightarrow> Inl err | Inr xs \<Rightarrow> Inr (x # xs)))"

definition reuse_files :: "scheduler_env \<Rightarrow> db \<Rightarrow> job_row \<Rightarrow> fts_error + TransferFile list" where
  "reuse_files sv d j =
     fetch_all (\<lambda>r. fetch_TransferFile r j)
       (filter (\<lambda>r. f_file_state r = SUBMITTED \<and> in_segment (sv_segment sv) r \<and>
                  (case f_retry_timestamp r of None \<Rightarrow> True | Some t \<Rightarrow> t < sv_now sv))
          (files_of_job (j_job_id j) d))"

type_synonym reuse_queues = "(string, (job_id \<times> TransferFile list) list) omap"

fun push_reuse_jobs :: "scheduler_env \<Rightarrow> db \<Rightarrow> string \<Rightarrow> job_row list \<Rightarrow> reuse_queues \<Rightarrow> fts_error + reuse_queues" where
  "push_reuse_jobs sv d vo [] files = Inr files"
| "push_reuse_jobs sv d vo (j # js) files =
     (case reuse_files sv d j of
        Inl err \<Rightarrow> Inl err
      | Inr tfs \<Rightarrow>
          push_reuse_jobs sv d vo js
            (if tfs = [] then files else om_put vo (om_at [] files vo @ [(j_job_id j, tfs)]) files))"

fun getReadySessionReuseTransfers ::
  "int \<Rightarrow> scheduler_env \<Rightarrow> db \<Rightarrow> QueueId list \<Rightarrow> reuse_queues \<Rightarrow> fts_error + reuse_queues" where
  "getReadySessionReuseTransfers uninit sv d [] files = Inr files"
| "getReadySessionReuseTransfers uninit sv d (q # qs) files =
     (let limit = reuse_limit uninit q d in
      if limit \<le> 0 then getReadySessionReuseTransfers uninit sv d qs files
      else case push_reuse_jobs sv d (q_voName q) (reuse_jobs limit q d) files of
             Inl err \<Rightarrow> Inl err
           | Inr files1 \<Rightarrow> getReadySessionReuseTransfers uninit sv d qs files1)"

definition getForceStartTransfers :: "db \<Rightarrow> fts_error + TransferFile list" where
  "getForceStartTransfers d =
     fetch_all (\<lambda>r. case job_by_id (f_job_id r) d of None \<Rightarrow> Inl UserError | Some j \<Rightarrow> fetch_TransferFile r j)
       (filter (\<lambda>r. f_file_state r = FORCE_START \<and> job_by_id (f_job_id r) d \<noteq> None) (t_file d))"

subsection \<open>What is collected\<close>

definition all_files :: "vo_files \<Rightarrow> TransferFile multiset" where
  "all_files files = (\<Sum>p \<leftarrow> files. mset (snd p))"

definition vo_files_ok :: "vo_files \<Rightarrow> bool" where
  "vo_files_ok files \<longleftrightarrow> om_ok files \<and> (\<forall>p \<in> set files. snd p \<noteq> [])"

definition collects :: "vo_files \<Rightarrow> TransferFile list \<Rightarrow> vo_files \<Rightarrow> bool" where
  "collects files tfs files' \<longleftrightarrow> vo_files_ok files' \<and> all_files files' = all_files files + mset tfs"

lemma collects_refl: "vo_files_ok files \<Longrightarrow> collects files [] files"
  by (simp add: collects_def)

lemma collects_trans: "collects a xs b \<Longrightarrow> collects b ys c \<Longrightarrow> collects a (xs @ ys) c"
  by (simp add: collects_def ac_simps)

lemma push_file_collects:
  assumes "vo_files_ok files"
  shows "collects files [tf] (push_file tf files)"
proof -
  have ok: "om_ok files" using assms by (simp add: vo_files_ok_def)
  have "all_files (push_file tf files) + mset (om_at [] files (tf_voName tf))
      = all_files files + {#tf#} + mset (om_at [] files (tf_voName tf))"
    using om_sum_put [OF ok, of mset "tf_voName tf" "om_at [] files (tf_voName tf) @ [tf]"]
    by (auto simp: all_files_def push_file_def om_at_def split: option.splits)
  moreover have "vo_files_ok (push_file tf files)"
    using assms by (auto simp: vo_files_ok_def push_file_def om_ok_put in_om_put)
  ultimately show ?thesis by (simp add: collects_def)
qed

lemma push_rows_collects:
  assumes "push_rows fetch rows files = Inr files'" "vo_files_ok files"
  shows "\<exists>tfs. collects files tfs files' \<and> list_all2 (\<lambda>r tf. fetch r = Inr tf) rows tfs"
  using assms
proof (induction rows arbitrary: files)
  case (Cons r rows)
  obtain tf where tf: "fetch r = Inr tf" using Cons.prems(1) by (cases "fetch r") simp_all
  have c: "collects files [tf] (push_file tf files)" using Cons.prems(2) by (rule push_file_collects)
  then have "vo_files_ok (push_file tf files)" by (simp add: collects_def)
  then obtain tfs where "collects (push_file tf files) tfs files'" "list_all2 (\<lambda>r tf. fetch r = Inr tf) rows tfs"
    using Cons.IH [of "push_file tf files"] Cons.prems(1) tf by auto
  then show ?case using collects_trans [OF c] tf by (intro exI [of _ "tf # tfs"]) simp
qed (auto intro: collects_refl)

text \<open>A file that may start: what the query promises of its row.\<close>

definition ready_file :: "scheduler_env \<Rightarrow> db \<Rightarrow> QueueId \<Rightarrow> TransferFile \<Rightarrow> bool" where
  "ready_file sv d q tf \<longleftrightarrow>
     (\<exists>r priority. r \<in> set (t_file d) \<and> max_priority sv q d = Some priority \<and>
        ready_row sv q priority {kTypeRegular, kTypeMultipleReplica, kTypeMultiHop} d r \<and>
        tf_fileId tf = f_file_id r \<and> tf_jobId tf = f_job_id r \<and> tf_sourceSe tf = f_source_se r \<and> tf_destSe tf = f_dest_se r)"

lemma fetch_ready_fields:
  assumes "fetch_ready d r = Inr tf"
  shows "tf_fileId tf = f_file_id r \<and> tf_jobId tf = f_job_id r \<and> tf_sourceSe tf = f_source_se r \<and> tf_destSe tf = f_dest_se r"
  using assms
  by (auto simp: fetch_ready_def fetch_TransferFile_def set_last_hop_def set_last_replica_def Let_def
      split: option.splits sum.splits if_splits)

lemma ready_row_mono: "ready_row sv q priority types d r \<Longrightarrow> types \<subseteq> types' \<Longrightarrow> ready_row sv q priority types' d r"
  by (auto simp: ready_row_def split: option.splits)

lemma fetched_ready:
  assumes "list_all2 (\<lambda>r tf. map_sum id g (fetch_ready d r) = Inr tf) rows tfs" "max_priority sv q d = Some priority"
    "\<And>r. r \<in> set rows \<Longrightarrow> r \<in> set (t_file d) \<and> ready_row sv q priority types d r"
    "types \<subseteq> {kTypeRegular, kTypeMultipleReplica, kTypeMultiHop}"
    "\<And>tf. tf_fileId (g tf) = tf_fileId tf \<and> tf_jobId (g tf) = tf_jobId tf \<and> tf_sourceSe (g tf) = tf_sourceSe tf \<and> tf_destSe (g tf) = tf_destSe tf"
    "tf \<in> set tfs"
  shows "ready_file sv d q tf"
proof -
  obtain r where r: "r \<in> set rows" "map_sum id g (fetch_ready d r) = Inr tf"
    using list_all2_right_row [OF assms(1,6)] by blast
  then obtain tf0 where "fetch_ready d r = Inr tf0" "tf = g tf0" by (cases "fetch_ready d r") auto
  then have "tf_fileId tf = f_file_id r \<and> tf_jobId tf = f_job_id r \<and> tf_sourceSe tf = f_source_se r \<and> tf_destSe tf = f_dest_se r"
    using fetch_ready_fields assms(5) by simp
  then show ?thesis
    using assms(2) assms(3) [OF r(1)] ready_row_mono [OF _ assms(4)] unfolding ready_file_def by blast
qed

lemma set_first_files: "set (first_files n rows) \<subseteq> set rows" and length_first_files: "int (length (first_files n rows)) \<le> max 0 n"
  by (auto simp: first_files_def dest: in_set_takeD)

lemma push_activities_collects:
  assumes "push_activities sv q priority defaults d ans files = Inr files'" "vo_files_ok files"
    "max_priority sv q d = Some priority" "\<forall>an \<in> set ans. 0 < snd an"
  shows "\<exists>tfs. collects files tfs files' \<and> int (length tfs) \<le> total_of ans \<and> (\<forall>tf \<in> set tfs. ready_file sv d q tf)"
  using assms(1,2,4)
proof (induction ans arbitrary: files)
  case (Cons an ans)
  define rows where "rows = activity_rows sv q priority defaults d an"
  define g where "g = (\<lambda>tf :: TransferFile. tf\<lparr>tf_activity := fst an\<rparr>)"
  obtain files1 where f1: "push_rows (\<lambda>r. map_sum id g (fetch_ready d r)) rows files = Inr files1"
    "push_activities sv q priority defaults d ans files1 = Inr files'"
    using Cons.prems(1,3) by (auto simp: rows_def g_def split: sum.splits)
  obtain tfs1 where c1: "collects files tfs1 files1" "list_all2 (\<lambda>r tf. map_sum id g (fetch_ready d r) = Inr tf) rows tfs1"
    using push_rows_collects [OF f1(1) Cons.prems(2)] by blast
  have rows: "r \<in> set (t_file d) \<and> ready_row sv q priority {kTypeRegular, kTypeMultipleReplica} d r" if "r \<in> set rows" for r
    using that set_first_files unfolding rows_def activity_rows_def by fastforce
  have "ready_file sv d q tf" if "tf \<in> set tfs1" for tf
    by (rule fetched_ready [OF c1(2) assms(3) rows _ _ that]) (auto simp: g_def)
  moreover have "int (length tfs1) \<le> snd an"
    using list_all2_lengthD [OF c1(2)] length_first_files Cons.prems(3) by (simp add: rows_def activity_rows_def) (metis max.absorb2 order.strict_implies_order)
  moreover obtain tfs2 where "collects files1 tfs2 files'" "int (length tfs2) \<le> total_of ans" "\<forall>tf \<in> set tfs2. ready_file sv d q tf"
    using Cons.IH [OF f1(2)] c1(1) Cons.prems(3) by (auto simp: collects_def)
  ultimately show ?case
    using collects_trans [OF c1(1)] by (intro exI [of _ "tfs1 @ tfs2"]) (auto simp: total_of_def)
qed (auto simp: total_of_def intro: collects_refl)

lemma total_of_perm: "mset xs = mset ys \<Longrightarrow> total_of xs = total_of ys"
  unfolding total_of_def by (metis mset_map sum_mset_sum_list)

text \<open>What is relied on of the random choices.\<close>

definition fair_choices :: "scheduler_env \<Rightarrow> bool" where
  "fair_choices sv \<longleftrightarrow> (\<forall>q i. 0 \<le> sv_rolls sv q i) \<and> (\<forall>q xs. mset (sv_shuffle sv q xs) = mset xs)"

definition queue_result :: "scheduler_env \<Rightarrow> db \<Rightarrow> QueueId \<Rightarrow> TransferFile list \<Rightarrow> bool" where
  "queue_result sv d q tfs \<longleftrightarrow> int (length tfs) \<le> max 0 (files_num q d) \<and> (\<forall>tf \<in> set tfs. ready_file sv d q tf)"

lemma ready_of_queue_collects:
  assumes "ready_of_queue sv d q files = Inr files'" "vo_files_ok files" "fair_choices sv"
  shows "\<exists>tfs. collects files tfs files' \<and> queue_result sv d q tfs"
proof (cases "files_num q d \<le> 0 \<or> max_priority sv q d = None")
  case True
  then have "files' = files" using assms(1) by (auto simp: ready_of_queue_def Let_def split: if_splits)
  then show ?thesis using assms(2) by (intro exI [of _ "[]"]) (simp add: collects_refl queue_result_def)
next
  case False
  then obtain priority where p: "0 < files_num q d" "max_priority sv q d = Some priority" by auto
  then obtain nums defaults where n: "getFilesNumPerActivity (sv_coll sv) (sv_segment sv) (sv_rolls sv q)
      (q_sourceSe q) (q_destSe q) (q_voName q) (files_num q d) d = Inr (nums, defaults)"
    using assms(1) by (auto simp: ready_of_queue_def Let_def split: sum.splits)
  show ?thesis
  proof (cases "nums = []")
    case True
    define rows where "rows = first_files (files_num q d)
      (filter (ready_row sv q priority {kTypeRegular, kTypeMultipleReplica, kTypeMultiHop} d) (t_file d))"
    have "push_rows (fetch_ready d) rows files = Inr files'"
      using assms(1) p n True by (simp add: ready_of_queue_def Let_def rows_def)
    then obtain tfs where c: "collects files tfs files'" "list_all2 (\<lambda>r tf. fetch_ready d r = Inr tf) rows tfs"
      using push_rows_collects [OF _ assms(2)] by blast
    then have l: "list_all2 (\<lambda>r tf. map_sum id id (fetch_ready d r) = Inr tf) rows tfs" by (simp add: map_sum.id)
    have "r \<in> set (t_file d) \<and> ready_row sv q priority {kTypeRegular, kTypeMultipleReplica, kTypeMultiHop} d r" if "r \<in> set rows" for r
      using that set_first_files unfolding rows_def by fastforce
    then have "ready_file sv d q tf" if "tf \<in> set tfs" for tf by (rule fetched_ready [OF l p(2) _ _ _ that]) auto
    moreover have "int (length tfs) \<le> max 0 (files_num q d)"
      using list_all2_lengthD [OF c(2), symmetric] length_first_files [of "files_num q d"] unfolding rows_def by (simp only:)
    ultimately show ?thesis using c(1) by (auto simp: queue_result_def)
  next
    case False
    have perm: "mset (sv_shuffle sv q nums) = mset nums" and rolls: "\<forall>i. 0 \<le> sv_rolls sv q i"
      using assms(3) by (simp_all add: fair_choices_def)
    have b: "total_of nums \<le> files_num q d" "\<forall>an \<in> set nums. 0 < snd an"
      using getFilesNumPerActivity_bound [OF n rolls] p(1) by simp_all
    then have "\<forall>an \<in> set (sv_shuffle sv q nums). 0 < snd an" using mset_eq_setD [OF perm] by simp
    moreover have "push_activities sv q priority defaults d (sv_shuffle sv q nums) files = Inr files'"
      using assms(1) p n False by (simp add: ready_of_queue_def Let_def)
    ultimately obtain tfs where "collects files tfs files'" "int (length tfs) \<le> total_of (sv_shuffle sv q nums)"
      "\<forall>tf \<in> set tfs. ready_file sv d q tf"
      using push_activities_collects [OF _ assms(2) p(2)] by blast
    then show ?thesis using b(1) total_of_perm [OF perm] by (auto simp: queue_result_def)
  qed
qed

lemma getReadyTransfers_collects:
  assumes "getReadyTransfers sv d qs files = Inr files'" "vo_files_ok files" "fair_choices sv"
  shows "\<exists>tfss. list_all2 (queue_result sv d) qs tfss \<and> collects files (concat tfss) files'"
  using assms(1,2)
proof (induction qs arbitrary: files)
  case (Cons q qs)
  obtain files1 where f: "ready_of_queue sv d q files = Inr files1" "getReadyTransfers sv d qs files1 = Inr files'"
    using Cons.prems(1) by (auto split: sum.splits)
  obtain tfs where t: "collects files tfs files1" "queue_result sv d q tfs"
    using ready_of_queue_collects [OF f(1) Cons.prems(2) assms(3)] by blast
  then obtain tfss where "list_all2 (queue_result sv d) qs tfss" "collects files1 (concat tfss) files'"
    using Cons.IH [OF f(2)] by (auto simp: collects_def)
  then show ?case using t collects_trans [OF t(1)] by (intro exI [of _ "tfs # tfss"]) simp
qed (auto intro: collects_refl)

lemma ready_file_link: "ready_file sv d q tf \<Longrightarrow> (tf_sourceSe tf, tf_destSe tf) = queue_link q"
  by (auto simp: ready_file_def ready_row_def in_queue_def queue_link_def)

lemma other_links:
  assumes "list_all2 (queue_result sv d) qs tfss" "p \<notin> queue_link ` set qs"
  shows "filter (\<lambda>tf. (tf_sourceSe tf, tf_destSe tf) = p) (concat tfss) = []"
  using assms
proof (induction rule: list_all2_induct)
  case (Cons q qs tfs tfss)
  have "(tf_sourceSe tf, tf_destSe tf) \<noteq> p" if "tf \<in> set tfs" for tf
    using Cons.hyps(1) Cons.prems that ready_file_link unfolding queue_result_def by fastforce
  then show ?case using Cons by (simp add: filter_empty_conv)
qed simp

lemma link_count:
  assumes "list_all2 (queue_result sv d) qs tfss" "distinct (map queue_link qs)" "q \<in> set qs"
  shows "int (length (filter (\<lambda>tf. (tf_sourceSe tf, tf_destSe tf) = queue_link q) (concat tfss))) \<le> max 0 (files_num q d)"
  using assms
proof (induction rule: list_all2_induct)
  case (Cons q' qs tfs tfss)
  show ?case
  proof (cases "q = q'")
    case True
    then have "filter (\<lambda>tf. (tf_sourceSe tf, tf_destSe tf) = queue_link q) (concat tfss) = []"
      using other_links [OF Cons.hyps(2)] Cons.prems(1) by simp
    moreover have "int (length (filter (\<lambda>tf. (tf_sourceSe tf, tf_destSe tf) = queue_link q) tfs)) \<le> int (length tfs)" by simp
    moreover have "int (length tfs) \<le> max 0 (files_num q d)" using Cons.hyps(1) True by (simp add: queue_result_def)
    ultimately show ?thesis unfolding concat.simps filter_append by (simp only: append_Nil2)
  next
    case False
    then have q: "q \<in> set qs" using Cons.prems(2) by simp
    then have "queue_link q \<in> queue_link ` set qs" by (rule imageI)
    then have q': "queue_link q \<noteq> queue_link q'" using Cons.prems(1) by auto
    have "filter (\<lambda>tf. (tf_sourceSe tf, tf_destSe tf) = queue_link q) tfs = []"
      using Cons.hyps(1) ready_file_link [of sv d q'] q' unfolding queue_result_def filter_empty_conv by (metis (no_types))
    then show ?thesis using Cons.IH q Cons.prems(1) by simp
  qed
qed simp

lemma getReadyTransfers_result:
  assumes "getReadyTransfers sv d queues [] = Inr files" "fair_choices sv"
  obtains tfss where "list_all2 (queue_result sv d) queues tfss" "all_files files = mset (concat tfss)" "\<forall>p \<in> set files. snd p \<noteq> []"
proof -
  have "vo_files_ok []" by (simp add: vo_files_ok_def)
  then obtain tfss where "list_all2 (queue_result sv d) queues tfss" "collects [] (concat tfss) files"
    using getReadyTransfers_collects [OF assms(1) _ assms(2)] by blast
  then show ?thesis using that by (simp add: collects_def all_files_def vo_files_ok_def)
qed

lemma ready_from_queue:
  assumes "getReadyTransfers sv d queues [] = Inr files" "fair_choices sv" "tf \<in># all_files files"
  shows "\<exists>q \<in> set queues. ready_file sv d q tf"
proof -
  obtain tfss where t: "list_all2 (queue_result sv d) queues tfss" "all_files files = mset (concat tfss)"
    using assms(1,2) by (rule getReadyTransfers_result)
  have "tf \<in> set (concat tfss)" using assms(3) unfolding t(2) by (simp only: set_mset_mset)
  then obtain tfs where "tfs \<in> set tfss" "tf \<in> set tfs" by auto
  then show ?thesis using list_all2_right_row [OF t(1)] unfolding queue_result_def by blast
qed

lemma ready_link_limit:
  assumes "getReadyTransfers sv d queues [] = Inr files" "fair_choices sv" "distinct (map queue_link queues)"
    "optimizer_active src dst d = Some (Some m)" "0 < m"
  shows "int (size (filter_mset (\<lambda>tf. (tf_sourceSe tf, tf_destSe tf) = (src, dst)) (all_files files))) \<le> max 0 (m - getActiveCount src dst d)"
proof -
  obtain tfss where t: "list_all2 (queue_result sv d) queues tfss" "all_files files = mset (concat tfss)"
    using assms(1,2) by (rule getReadyTransfers_result)
  have "int (length (filter (\<lambda>tf. (tf_sourceSe tf, tf_destSe tf) = (src, dst)) (concat tfss))) \<le> max 0 (m - getActiveCount src dst d)"
  proof (cases "(src, dst) \<in> queue_link ` set queues")
    case True
    then obtain q where q: "q \<in> set queues" "queue_link q = (src, dst)" by auto
    then have "files_num q d = m - getActiveCount src dst d" using assms(4,5) by (simp add: files_num_def queue_link_def)
    then show ?thesis using link_count [OF t(1) assms(3) q(1)] unfolding q(2) by (simp only:)
  next
    case False
    show ?thesis unfolding other_links [OF t(1) False] by simp
  qed
  then show ?thesis unfolding t(2) by (simp only: size_mset flip: mset_filter)
qed

text \<open>
  C15: what is ready. For queues with different links and any outcome of the random choices: every
  file returned is a submitted row of one of the queues in the segment of the host, past its retry
  time, of a job that is neither a session reuse nor of a priority other than the queue's highest;
  no VO has an empty list; and on a link with a positive optimizer value, the files returned and
  those already active together do not exceed that value.
\<close>

theorem ready_transfers_respect_optimizer:
  assumes "fair_choices sv" "distinct (map queue_link queues)" "getReadyTransfers sv d queues [] = Inr files"
  shows "(\<forall>tf. tf \<in># all_files files \<longrightarrow> (\<exists>q \<in> set queues. ready_file sv d q tf)) \<and>
    (\<forall>p \<in> set files. snd p \<noteq> []) \<and>
    (\<forall>src dst m. optimizer_active src dst d = Some (Some m) \<and> 0 < m \<longrightarrow>
       int (size (filter_mset (\<lambda>tf. (tf_sourceSe tf, tf_destSe tf) = (src, dst)) (all_files files)))
         \<le> max 0 (m - getActiveCount src dst d))"
proof (intro conjI allI impI)
  show "\<forall>p \<in> set files. snd p \<noteq> []" using assms(3,1) by (rule getReadyTransfers_result)
qed (use ready_from_queue [OF assms(3,1)] ready_link_limit [OF assms(3,1,2)] in blast)+

definition sample_sv :: scheduler_env where
  "sample_sv = \<lparr>sv_now = 1000, sv_segment = (0, 65535), sv_coll = to_lower, sv_fixedPriority = 0,
     sv_rolls = (\<lambda>_ _. 1 / 2), sv_shuffle = (\<lambda>_ xs. xs)\<rparr>"

lemma sample_sv_fair: "fair_choices sample_sv"
  by (simp add: fair_choices_def sample_sv_def)

definition sample_link_queue :: QueueId where
  "sample_link_queue = \<lparr>q_sourceSe = ''root://src'', q_destSe = ''root://dst'', q_voName = ''atlas'', q_activeCount = 1\<rparr>"

definition sample_ready_db :: "job_row list \<Rightarrow> activity_share_row list \<Rightarrow> db" where
  "sample_ready_db jobs shares =
     (sample_db [sample_file 1 ''j'' 0 SUBMITTED, sample_file 2 ''j'' 1 SUBMITTED, sample_file 3 ''j'' 2 ACTIVE,
                 sample_file 4 ''k'' 0 SUBMITTED] jobs)
       \<lparr>t_optimizer := [\<lparr>o_source_se = ''root://src'', o_dest_se = ''root://dst'', o_active = Some 3, o_ema = 0,
          o_nostreams = 1, o_datetime = 0\<rparr>], t_activity_share_config := shares\<rparr>"

definition ready_ids :: "fts_error + vo_files \<Rightarrow> nat list option" where
  "ready_ids res = (case res of Inl _ \<Rightarrow> None | Inr files \<Rightarrow> Some (map tf_fileId (concat (map snd files))))"

lemma ready_ids_Inr: "ready_ids res = Some ids \<Longrightarrow> \<exists>files. res = Inr files"
  by (cases res) (simp_all add: ready_ids_def)

lemma sample_columns [simp]:
  "f_source_se (sample_file i jobId idx st) = ''root://src''" "f_dest_se (sample_file i jobId idx st) = ''root://dst''"
  "f_vo_name (sample_file i jobId idx st) = ''atlas''" "f_activity (sample_file i jobId idx st) = None"
  "f_hashed_id (sample_file i jobId idx st) = 0" "f_priority (sample_file i jobId idx st) = 3"
  "f_retry_timestamp (sample_file i jobId idx st) = None"
  "j_priority (sample_job jobId ty jst) = 3" "j_vo_name (sample_job jobId ty jst) = ''atlas''"
  "j_user_dn (sample_job jobId ty jst) = Some ''/CN=user''" "j_cred_id (sample_job jobId ty jst) = Some ''cred''"
  by (simp_all add: sample_file_def sample_job_def)

lemmas sample_ready_defs = sample_ready_db_def sample_link_queue_def sample_sv_def ready_of_queue_def files_num_def
  optimizer_active_def getActiveCount_def max_priority_def ready_row_def in_queue_def in_segment_def job_by_id_def
  first_files_def fetch_ready_def fetch_TransferFile_def job_type_of_def push_file_def
  om_at_def om_find_def ready_ids_def set_last_hop_def files_of_job_def List.map_filter_def Let_def

lemma sample_ready:
  "ready_ids (getReadyTransfers sample_sv
     (sample_ready_db [sample_job ''j'' (Some kTypeRegular) J_ACTIVE, sample_job ''k'' (Some kTypeMultiHop) J_SUBMITTED] [])
     [sample_link_queue] []) = Some [1, 2]"
  by (simp add: sample_ready_defs getFilesNumPerActivity_def getActivityShareConf_def)

theorem ready_transfers_respect_optimizer_witness:
  "\<exists>files. getReadyTransfers sample_sv
      (sample_ready_db [sample_job ''j'' (Some kTypeRegular) J_ACTIVE, sample_job ''k'' (Some kTypeMultiHop) J_SUBMITTED] [])
      [sample_link_queue] [] = Inr files \<and>
    int (size (filter_mset (\<lambda>tf. (tf_sourceSe tf, tf_destSe tf) = (''root://src'', ''root://dst'')) (all_files files))) \<le> 2"
proof -
  define d where "d = sample_ready_db [sample_job ''j'' (Some kTypeRegular) J_ACTIVE, sample_job ''k'' (Some kTypeMultiHop) J_SUBMITTED] []"
  obtain files where f: "getReadyTransfers sample_sv d [sample_link_queue] [] = Inr files"
    using ready_ids_Inr [OF sample_ready] unfolding d_def by blast
  have "optimizer_active ''root://src'' ''root://dst'' d = Some (Some 3)" "getActiveCount ''root://src'' ''root://dst'' d = 1" unfolding d_def
    by (simp_all add: sample_ready_defs)
  then show ?thesis
    using ready_transfers_respect_optimizer [OF sample_sv_fair _ f] f unfolding d_def [symmetric] by force
qed

text \<open>
  Two consequences for who waits. With activity shares the query asks for regular and multiple
  replica jobs only: while a regular file of the VO waits for the link, multihop files do not start.
  And the highest priority is taken over all submitted files, session reuse jobs included: one of
  those with a higher priority keeps every other file from starting.
\<close>

definition default_share :: activity_share_row where
  "default_share = \<lparr>as_vo = ''atlas'', as_activity_share = ''[{'' @ [CHR 0x22] @ ''default'' @ [CHR 0x22] @ '': 1}]'',
     as_active = Some ''on''\<rparr>"

lemma default_share: "t_activity_share_config d = [default_share] \<Longrightarrow> getActivityShareConf ''atlas'' d = Inr [(''default'', 1)]"
proof -
  have "parse_shares (split_tokens (CHR '','') (take (length (as_activity_share default_share) - 2)
      (drop 1 (as_activity_share default_share)))) [] = Inr [(''default'', 1)]" "as_activity_share default_share \<noteq> []" by code_simp+
  then show "t_activity_share_config d = [default_share] \<Longrightarrow> getActivityShareConf ''atlas'' d = Inr [(''default'', 1)]"
    by (simp add: getActivityShareConf_def Let_def) (simp add: default_share_def)
qed

lemma one_default_slot:
  "0 \<le> r \<Longrightarrow> r < 1 \<Longrightarrow> activityFilesNum (assign_slots [(''default'', 1)] [(''default'', 1)] (\<lambda>i. r) 2) = [(''default'', 1)]"
  by (simp add: assign_slots_def numeral_2_eq_2 assign_slot_def Let_def om_at_def om_find_def share_name_def
      initial_sum_def default_activities_def om_keys_def)

lemma multihop_waits_for_regular:
  "ready_ids (getReadyTransfers sample_sv
     (sample_ready_db [sample_job ''j'' (Some kTypeMultiHop) J_ACTIVE, sample_job ''k'' (Some kTypeRegular) J_SUBMITTED]
        [default_share])
     [sample_link_queue] []) = Some [4]"
  "ready_ids (getReadyTransfers sample_sv
     (sample_ready_db [sample_job ''j'' (Some kTypeMultiHop) J_ACTIVE, sample_job ''k'' (Some kTypeRegular) J_SUBMITTED] [])
     [sample_link_queue] []) = Some [1, 2]"
proof -
  let ?d = "sample_ready_db [sample_job ''j'' (Some kTypeMultiHop) J_ACTIVE, sample_job ''k'' (Some kTypeRegular) J_SUBMITTED]"
  have "t_activity_share_config (?d [default_share]) = [default_share]" by (simp add: sample_ready_db_def)
  note conf = default_share [OF this]
  have "getActivitiesInQueue to_lower (0, 65535) ''root://src'' ''root://dst'' ''atlas'' (?d [default_share]) = [(''default'', 1)]"
    by (simp add: getActivitiesInQueue_def waits_for_share_def sample_ready_db_def in_segment_def activity_name_def
        count_distinct_def List.map_filter_def) (simp add: to_lower_def is_upper_def)
  then have nums: "getFilesNumPerActivity to_lower (0, 65535) (\<lambda>_. 1 / 2) ''root://src'' ''root://dst'' ''atlas'' 2 (?d [default_share])
      = Inr ([(''default'', 1)], [''default''])"
    using one_default_slot [of "1 / 2"] conf
    by (simp add: getFilesNumPerActivity_def Let_def default_activities_def om_keys_def)
  then show "ready_ids (getReadyTransfers sample_sv (?d [default_share]) [sample_link_queue] []) = Some [4]"
    by (simp add: sample_ready_defs activity_rows_def activity_matches_def)
  show "ready_ids (getReadyTransfers sample_sv (?d []) [sample_link_queue] []) = Some [1, 2]"
    by (simp add: sample_ready_defs getFilesNumPerActivity_def getActivityShareConf_def)
qed

lemma reuse_priority_blocks:
  "ready_ids (getReadyTransfers sample_sv
     ((sample_db [sample_file 1 ''j'' 0 SUBMITTED, (sample_file 2 ''k'' 0 SUBMITTED)\<lparr>f_priority := 5\<rparr>]
        [sample_job ''j'' (Some kTypeRegular) J_SUBMITTED, (sample_job ''k'' (Some kTypeSessionReuse) J_SUBMITTED)\<lparr>j_priority := 5\<rparr>]))
     [sample_link_queue] []) = Some []"
  by (simp add: sample_ready_defs sample_db_def getFilesNumPerActivity_def getActivityShareConf_def)

end
