(* ===== verification/UrlCopyCmd.thy ===== *)
theory UrlCopyCmd
  imports Config ProtocolParameters OrderedMap
begin

section \<open>The command line of a transfer process\<close>

text \<open>
  \<^verbatim>\<open>src/server/services/transfers/UrlCopyCmd.cpp\<close>, which builds the command line of
  \<^verbatim>\<open>fts_url_copy\<close>, and \<open>getArgv\<close> of \<^verbatim>\<open>ExecuteProcess.cpp\<close>, which cuts it into arguments.

  \<^item> \<open>json\<close> stands for JsonCpp: \<open>json text key\<close> is the string under the key, empty when it is
    missing, and \<open>None\<close> when JsonCpp throws.
  \<^item> A \<^verbatim>\<open>boost::tribool\<close> is a \<open>bool option\<close>.
\<close>

record UrlCopyCmd =
  cmd_options :: "(string, string) omap"
  cmd_flags :: "string list"
  cmd_IPv6Explicit :: bool

definition new_UrlCopyCmd :: UrlCopyCmd where
  "new_UrlCopyCmd = \<lparr>cmd_options = [], cmd_flags = [], cmd_IPv6Explicit = False\<rparr>"

definition setFlag :: "string \<Rightarrow> bool \<Rightarrow> UrlCopyCmd \<Rightarrow> UrlCopyCmd" where
  "setFlag key on c =
     c\<lparr>cmd_options := om_erase key (cmd_options c),
       cmd_flags := (if on \<and> key \<notin> set (cmd_flags c) then cmd_flags c @ [key]
                     else if \<not> on \<and> key \<in> set (cmd_flags c) then remove1 key (cmd_flags c)
                     else cmd_flags c)\<rparr>"

definition setOption :: "string \<Rightarrow> string \<Rightarrow> UrlCopyCmd \<Rightarrow> UrlCopyCmd" where
  "setOption key v c =
     c\<lparr>cmd_flags := remove1 key (cmd_flags c),
       cmd_options := (if v \<noteq> [] then om_put key v (cmd_options c) else cmd_options c)\<rparr>"

text \<open>The overload for numbers writes them in decimal.\<close>

definition setOptionInt :: "string \<Rightarrow> int \<Rightarrow> UrlCopyCmd \<Rightarrow> UrlCopyCmd" where
  "setOptionInt key n = setOption key (show_int n)"

definition setUDT :: "bool option \<Rightarrow> UrlCopyCmd \<Rightarrow> UrlCopyCmd" where
  "setUDT v = setFlag ''udt'' (v = Some True)"

definition setIPv6 :: "bool option \<Rightarrow> UrlCopyCmd \<Rightarrow> UrlCopyCmd" where
  "setIPv6 v c =
     (case v of
        None \<Rightarrow> setFlag ''ipv4'' False (setFlag ''ipv6'' False (c\<lparr>cmd_IPv6Explicit := False\<rparr>))
      | Some b \<Rightarrow> setFlag ''ipv4'' (\<not> b) (setFlag ''ipv6'' b (c\<lparr>cmd_IPv6Explicit := True\<rparr>)))"

definition setSkipEvict :: "bool \<Rightarrow> UrlCopyCmd \<Rightarrow> UrlCopyCmd" where
  "setSkipEvict = setFlag ''skip-evict''"

definition setCopyMode :: "CopyMode \<Rightarrow> UrlCopyCmd \<Rightarrow> UrlCopyCmd" where
  "setCopyMode m c =
     (case m of
        ANY \<Rightarrow> setOption ''copy-mode'' ''pull'' c
      | PULL \<Rightarrow> setOption ''copy-mode'' ''pull'' (setFlag ''disable-fallback'' True c)
      | PUSH \<Rightarrow> setOption ''copy-mode'' ''push'' (setFlag ''disable-fallback'' True c)
      | STREAMING \<Rightarrow> setOption ''copy-mode'' ''streamed'' c)"

definition setMonitoring :: "bool \<Rightarrow> string \<Rightarrow> UrlCopyCmd \<Rightarrow> UrlCopyCmd" where
  "setMonitoring on msgDir c = setFlag ''monitoring'' on (setOption ''msgDir'' msgDir c)"

subsection \<open>Metadata\<close>

text \<open>\<^verbatim>\<open>boost::replace_all_copy\<close>, from the left and without overlaps.\<close>

function (sequential) replace_all :: "string \<Rightarrow> string \<Rightarrow> string \<Rightarrow> string" where
  "replace_all p q [] = []"
| "replace_all p q (c # cs) =
     (if p \<noteq> [] \<and> starts_with (c # cs) p then q @ replace_all p q (drop (length p) (c # cs))
      else c # replace_all p q cs)"
  by pat_completeness auto
termination
proof (relation "measure (\<lambda>(p, q, s). length s)")
  show "((p, q, drop (length p) (c # cs)), p, q, c # cs) \<in> measure (\<lambda>(p, q, s). length s)"
    if "p \<noteq> [] \<and> starts_with (c # cs) p" for p q c cs
    using that by (cases p) auto
qed auto

definition prepareMetadataString :: "string \<Rightarrow> string" where
  "prepareMetadataString text1 = replace_all [CHR 0x22] [CHR 0x5C, CHR 0x22] (replace_all '' '' ''?'' text1)"

subsection \<open>From the transfer\<close>

text \<open>\<^verbatim>\<open>if (b) cmd.set..\<close>\<close>

definition set_if :: "bool \<Rightarrow> (UrlCopyCmd \<Rightarrow> UrlCopyCmd) \<Rightarrow> UrlCopyCmd \<Rightarrow> UrlCopyCmd" where
  "set_if b f c = (if b then f c else c)"

definition setFromProtocol :: "ProtocolParameters \<Rightarrow> UrlCopyCmd \<Rightarrow> UrlCopyCmd" where
  "setFromProtocol ps c =
     setFlag ''strict-copy'' (strictCopy ps)
       (set_if (udt ps \<noteq> None) (setUDT (udt ps))
       (set_if (ipv6 ps \<noteq> None) (setIPv6 (ipv6 ps))
       (set_if (buffersize ps > 0) (setOptionInt ''tcp-buffersize'' (buffersize ps))
       (set_if (timeout ps > 0) (setOptionInt ''timeout'' (timeout ps))
       (set_if (nostreams ps > 0) (setOptionInt ''nstreams'' (nostreams ps)) c)))))"

definition setJobType :: "JobType \<Rightarrow> UrlCopyCmd \<Rightarrow> UrlCopyCmd" where
  "setJobType t c =
     (case t of
        kTypeSessionReuse \<Rightarrow> setFlag ''reuse'' True c
      | kTypeMultipleReplica \<Rightarrow> setFlag ''job-m-replica'' True c
      | kTypeMultiHop \<Rightarrow> setFlag ''job-multihop'' True c
      | kTypeRegular \<Rightarrow> c)"

text \<open>The issuers are read one after the other; an exception ends the loop.\<close>

definition setIssuers :: "(string \<Rightarrow> string \<Rightarrow> string option) \<Rightarrow> string \<Rightarrow> UrlCopyCmd \<Rightarrow> UrlCopyCmd" where
  "setIssuers json metadata c =
     (if metadata = [] then c
      else case json metadata ''source-issuer'' of
        None \<Rightarrow> c
      | Some s \<Rightarrow>
          (case json metadata ''dest-issuer'' of
             None \<Rightarrow> set_if (s \<noteq> []) (setOption ''source-issuer'' s) c
           | Some t \<Rightarrow> set_if (t \<noteq> []) (setOption ''dest-issuer'' t) (set_if (s \<noteq> []) (setOption ''source-issuer'' s) c)))"

definition setJob :: "TransferFile \<Rightarrow> UrlCopyCmd \<Rightarrow> UrlCopyCmd" where
  "setJob tf c =
     setOption ''source-token-desc'' (tf_sourceSpaceToken tf)
       (setOption ''dest-token-desc'' (tf_destinationSpaceToken tf)
       (set_if (tf_archiveTimeout tf > 0) (setFlag ''dst-file-report'' (tf_dstFileReport tf \<noteq> []))
       (set_if (tf_archiveTimeout tf > 0) (setFlag ''archiving'' True)
       (set_if (tf_checksumMode tf \<noteq> []) (setOption ''checksum-mode'' (tf_checksumMode tf))
       (setFlag ''overwrite'' (tf_overwriteFlag tf = ''Y'')
       (setOption ''job-id'' (tf_jobId tf)
       (setOption ''vo'' (tf_voName tf)
       (setJobType (tf_jobType tf)
       (setOption ''job-metadata'' (prepareMetadataString (tf_jobMetadata tf)) c)))))))))"

definition setFile :: "TransferFile \<Rightarrow> UrlCopyCmd \<Rightarrow> UrlCopyCmd" where
  "setFile tf c =
     set_if (tf_activity tf \<noteq> []) (setOption ''activity'' (tf_activity tf))
       (setOption ''transfer-metadata'' (prepareMetadataString (tf_transferMetadata tf))
       (setOption ''file-metadata'' (prepareMetadataString (tf_fileMetadata tf))
       (setOption ''token-bringonline'' (tf_bringOnlineToken tf)
       (set_if (tf_scitag tf > 0) (setOptionInt ''scitag'' (tf_scitag tf))
       (set_if (tf_userFilesize tf > 0) (setOptionInt ''user-filesize'' (tf_userFilesize tf))
       (setOption ''checksum'' (tf_checksum tf)
       (setOption ''destination'' (tf_destSurl tf)
       (setOption ''source'' (tf_sourceSurl tf)
       (setOptionInt ''file-id'' (int (tf_fileId tf)) c)))))))))"

definition setFromTransfer ::
  "(string \<Rightarrow> string \<Rightarrow> string option) \<Rightarrow> TransferFile \<Rightarrow> bool \<Rightarrow> bool \<Rightarrow> string \<Rightarrow> UrlCopyCmd \<Rightarrow> UrlCopyCmd" where
  "setFromTransfer json tf is_multiple publish msgDir c =
     (if is_multiple then setOption ''bulk-file'' (msgDir @ ''/'' @ tf_jobId tf) else setFile tf)
       (setFlag ''last-hop'' (tf_lastHop tf)
       (setFlag ''last-replica'' (tf_lastReplica tf)
       (set_if publish (setOption ''user-dn'' (prepareMetadataString (tf_userDn tf)))
       (setIssuers json (tf_fileMetadata tf) (setJob tf c)))))"

text \<open>\<^verbatim>\<open>getTimeout\<close>, \<^verbatim>\<open>getNoStreams\<close> and \<^verbatim>\<open>getBuffersize\<close>: zero when the option is not set.\<close>

definition option_int :: "string \<Rightarrow> UrlCopyCmd \<Rightarrow> int option" where
  "option_int key c =
     (case om_find (cmd_options c) key of
        None \<Rightarrow> Some 0
      | Some v \<Rightarrow> if v = [] then Some 0 else lexical_cast_int v)"

definition generateParameters :: "UrlCopyCmd \<Rightarrow> string" where
  "generateParameters c =
     concat (map (\<lambda>f. '' --'' @ f) (cmd_flags c)) @
     concat (map (\<lambda>kv. '' --'' @ fst kv @ '' '' @ snd kv) (cmd_options c))"

text \<open>\<^verbatim>\<open>boost::split\<close> with \<^verbatim>\<open>is_any_of(" ")\<close>; empty pieces are kept.\<close>

fun split_spaces :: "string \<Rightarrow> string list" where
  "split_spaces [] = [[]]"
| "split_spaces (c # cs) =
     (if c = CHR '' '' then [] # split_spaces cs
      else case split_spaces cs of [] \<Rightarrow> [[c]] | w # ws \<Rightarrow> (c # w) # ws)"

definition getArgv :: "string \<Rightarrow> string \<Rightarrow> string list" where
  "getArgv app arguments = app # split_spaces arguments"

subsection \<open>Laws\<close>

named_theorems cmd_simps \<open>what the setters do\<close>

lemma replace_all_char: "replace_all [a] [b] s = map (\<lambda>c. if c = a then b else c) s"
  by (induction s) (simp_all add: starts_with_def)

lemma prepareMetadata_eq:
  "prepareMetadataString s = concat (map (\<lambda>c. if c = CHR '' '' then ''?'' else if c = CHR 0x22 then [CHR 0x5C, CHR 0x22] else [c]) s)"
proof -
  have "replace_all [CHR 0x22] [CHR 0x5C, CHR 0x22] t = concat (map (\<lambda>c. if c = CHR 0x22 then [CHR 0x5C, CHR 0x22] else [c]) t)" for t
    by (induction t) (simp_all add: starts_with_def)
  then show ?thesis unfolding prepareMetadataString_def replace_all_char by (induction s) (simp_all add: starts_with_def)
qed

lemma prepareMetadata_no_space: "CHR '' '' \<notin> set (prepareMetadataString s)"
  by (auto simp: prepareMetadata_eq split: if_splits)

lemma split_spaces_nonempty: "split_spaces s \<noteq> []"
  by (induction s) (auto split: list.split)

lemma split_spaces_word: "CHR '' '' \<notin> set w \<Longrightarrow> split_spaces w = [w]"
  by (induction w) auto

lemma split_spaces_append: "CHR '' '' \<notin> set w \<Longrightarrow> split_spaces (w @ CHR '' '' # s) = w # split_spaces s"
  by (induction w) auto

text \<open>Words without spaces, each with a space before it, come apart again after an empty piece.\<close>

lemma split_spaces_words:
  "\<forall>w \<in> set ws. CHR '' '' \<notin> set w \<Longrightarrow> split_spaces (concat (map (\<lambda>w. CHR '' '' # w) ws)) = [] # ws"
proof (induction ws)
  case (Cons w ws)
  have "split_spaces (w @ concat (map (\<lambda>w. CHR '' '' # w) ws)) = w # ws"
  proof (cases ws)
    case Nil
    then show ?thesis using Cons.prems by (simp add: split_spaces_word)
  next
    case (Cons v vs)
    then have eq: "split_spaces (CHR '' '' # (v @ concat (map (\<lambda>w. CHR '' '' # w) vs))) = [] # v # vs" using Cons.IH Cons.prems by simp
    have "CHR '' '' \<notin> set w" using Cons.prems by simp
    then show ?thesis using eq by (simp add: \<open>ws = v # vs\<close> split_spaces_append)
  qed
  then show ?case by simp
qed simp

definition words_of :: "UrlCopyCmd \<Rightarrow> string list" where
  "words_of c = map (\<lambda>f. ''--'' @ f) (cmd_flags c) @ concat (map (\<lambda>kv. [''--'' @ fst kv, snd kv]) (cmd_options c))"

definition spaceless :: "UrlCopyCmd \<Rightarrow> bool" where
  "spaceless c \<longleftrightarrow> (\<forall>f \<in> set (cmd_flags c). CHR '' '' \<notin> set f) \<and>
     (\<forall>kv \<in> set (cmd_options c). CHR '' '' \<notin> set (fst kv) \<and> CHR '' '' \<notin> set (snd kv))"

lemma generateParameters_words: "generateParameters c = concat (map (\<lambda>w. CHR '' '' # w) (words_of c))"
proof -
  have "concat (map (\<lambda>kv. '' --'' @ fst kv @ '' '' @ snd kv) os)
      = concat (map (\<lambda>w. CHR '' '' # w) (concat (map (\<lambda>kv. [''--'' @ fst kv, snd kv]) os)))" for os :: "(string \<times> string) list"
    by (induction os) simp_all
  then show ?thesis by (simp add: generateParameters_def words_of_def comp_def)
qed

lemma getArgv_words: "spaceless c \<Longrightarrow> getArgv app (generateParameters c) = app # [] # words_of c"
  unfolding getArgv_def generateParameters_words
  by (subst split_spaces_words) (auto simp: spaceless_def words_of_def)

end
