(* ===== verification/ThreadSafeList.thy ===== *)
theory ThreadSafeList
  imports JobLifecycle
begin

section \<open>The watch list of running transfers\<close>

text \<open>
  \<^verbatim>\<open>src/server/services/transfers/ThreadSafeList.cpp\<close> and \<open>getActiveInHost\<close> of
  \<^verbatim>\<open>src/db/mysql/MySqlAPI.cpp\<close>. A node keeps in memory the last sign of life of every transfer it
  has started: a list of \<^verbatim>\<open>MessageUpdater\<close> messages.

  \<^item> Every operation first takes a mutex and gives up after ten seconds. Whether the lock was
    obtained is the argument \<open>locked\<close>; the exception is \<open>Inl SystemError\<close>.
  \<^item> \<open>getPidStartime\<close> reads \<^verbatim>\<open>/proc\<close>; its answer, in milliseconds and zero when there is no such
    process, is an argument of \<open>updateMsg\<close>.
  \<^item> \<open>checkExpiredMsg\<close> reads the clock, in microseconds, once per element: \<open>clock i\<close> is the
    reading at the element number \<open>i\<close>.
\<close>

record MessageUpdater = progress_message +
  mu_job_id :: job_id
  mu_process_id :: int
  mu_timestamp :: nat

type_synonym watch_list = "MessageUpdater list"

definition under_lock :: "bool \<Rightarrow> 'a \<Rightarrow> fts_error + 'a" where
  "under_lock locked x = (if locked then Inr x else Inl SystemError)"

definition push_back :: "bool \<Rightarrow> MessageUpdater \<Rightarrow> watch_list \<Rightarrow> fts_error + watch_list" where
  "push_back locked msg l = under_lock locked (l @ [msg])"

definition clear :: "bool \<Rightarrow> watch_list \<Rightarrow> fts_error + watch_list" where
  "clear locked l = under_lock locked []"

definition expired :: "int \<Rightarrow> int \<Rightarrow> MessageUpdater \<Rightarrow> bool" where
  "expired maxAge nowTime m \<longleftrightarrow> nowTime - 1000 * int (mu_timestamp m) > 1000000 * maxAge"

fun expired_from :: "(nat \<Rightarrow> int) \<Rightarrow> int \<Rightarrow> nat \<Rightarrow> watch_list \<Rightarrow> MessageUpdater list" where
  "expired_from clock maxAge i [] = []"
| "expired_from clock maxAge i (m # l) =
     (if expired maxAge (clock i) m then m # expired_from clock maxAge (Suc i) l
      else expired_from clock maxAge (Suc i) l)"

definition checkExpiredMsg :: "bool \<Rightarrow> (nat \<Rightarrow> int) \<Rightarrow> int \<Rightarrow> watch_list \<Rightarrow> fts_error + MessageUpdater list" where
  "checkExpiredMsg locked clock maxAge l = under_lock locked (expired_from clock maxAge 0 l)"

definition refresh :: "nat \<Rightarrow> MessageUpdater \<Rightarrow> MessageUpdater \<Rightarrow> MessageUpdater" where
  "refresh pidStartTime msg m =
     (if mu_process_id msg = mu_process_id m \<and> pidStartTime > 0 \<and> mu_timestamp msg \<ge> pidStartTime
      then m\<lparr>mu_timestamp := mu_timestamp msg\<rparr> else m)"

definition updateMsg :: "bool \<Rightarrow> nat \<Rightarrow> MessageUpdater \<Rightarrow> watch_list \<Rightarrow> fts_error + watch_list" where
  "updateMsg locked pidStartTime msg l = under_lock locked (map (refresh pidStartTime msg) l)"

text \<open>The loop that erases while it walks the list.\<close>

fun erase_transfer :: "job_id \<Rightarrow> nat \<Rightarrow> watch_list \<Rightarrow> watch_list" where
  "erase_transfer jobId fileId [] = []"
| "erase_transfer jobId fileId (m # l) =
     (if fileId = pm_file_id m \<and> jobId = mu_job_id m then erase_transfer jobId fileId l
      else m # erase_transfer jobId fileId l)"

definition deleteMsg :: "bool \<Rightarrow> MessageUpdater list \<Rightarrow> watch_list \<Rightarrow> fts_error + watch_list" where
  "deleteMsg locked messages l =
     under_lock locked (fold (\<lambda>msg. erase_transfer (mu_job_id msg) (pm_file_id msg)) messages l)"

definition removeFinishedTr :: "bool \<Rightarrow> job_id \<Rightarrow> nat \<Rightarrow> watch_list \<Rightarrow> fts_error + watch_list" where
  "removeFinishedTr locked jobId fileId l = under_lock locked (erase_transfer jobId fileId l)"

text \<open>
  What the database knows of the transfers of a host, to fill the list at the start. A NULL
  \<^verbatim>\<open>pid\<close> makes the row accessor throw. \<open>ms\<close> is the time in milliseconds.
\<close>

fun active_messages :: "nat \<Rightarrow> file_row list \<Rightarrow> MessageUpdater list option" where
  "active_messages ms [] = Some []"
| "active_messages ms (r # rows) =
     (case f_pid r of
        None \<Rightarrow> None
      | Some pid \<Rightarrow> map_option (\<lambda>l. \<lparr>pm_file_id = f_file_id r, pm_transfer_status = [], pm_throughput = 0,
          pm_transferred = 0, mu_job_id = f_job_id r, mu_process_id = pid, mu_timestamp = ms\<rparr> # l)
          (active_messages ms rows))"

definition getActiveInHost :: "nat \<Rightarrow> string \<Rightarrow> db \<Rightarrow> fts_error + MessageUpdater list" where
  "getActiveInHost ms h d =
     (case active_messages ms (filter (\<lambda>r. f_file_state r \<in> {ACTIVE, READY} \<and> f_transfer_host r = Some h) (t_file d)) of
        None \<Rightarrow> Inl SystemError | Some l \<Rightarrow> Inr l)"

subsection \<open>The interface its clients use\<close>

definition watched :: "watch_list \<Rightarrow> (job_id \<times> nat) set" where
  "watched l = (\<lambda>m. (mu_job_id m, pm_file_id m)) ` set l"

locale transfer_watch =
  fixes transfers :: "'w \<Rightarrow> (job_id \<times> nat) set" and forget :: "job_id \<Rightarrow> nat \<Rightarrow> 'w \<Rightarrow> 'w"
  assumes transfers_forget: "transfers (forget j i w) = transfers w - {(j, i)}"
begin

lemma transfers_forget_all: "transfers (fold (\<lambda>(j, i). forget j i) ks w) = transfers w - set ks"
  by (induction ks arbitrary: w) (auto simp: transfers_forget split: prod.splits)

lemma forgotten: "(j, i) \<in> set ks \<Longrightarrow> (j, i) \<notin> transfers (fold (\<lambda>(j, i). forget j i) ks w)"
  by (simp add: transfers_forget_all)

end

lemma erase_transfer_filter:
  "erase_transfer jobId fileId l = filter (\<lambda>m. (mu_job_id m, pm_file_id m) \<noteq> (jobId, fileId)) l"
  by (induction l) auto

interpretation watch: transfer_watch watched erase_transfer
  by unfold_locales (auto simp: watched_def erase_transfer_filter)

lemma deleteMsg_fold:
  "fold (\<lambda>msg. erase_transfer (mu_job_id msg) (pm_file_id msg)) messages l
    = fold (\<lambda>(j, i). erase_transfer j i) (map (\<lambda>m. (mu_job_id m, pm_file_id m)) messages) l"
  by (simp add: fold_map comp_def)

lemma watched_deleteMsg:
  "deleteMsg locked messages l = Inr l' \<Longrightarrow> watched l' = watched l - watched messages"
  using watch.transfers_forget_all [of "map (\<lambda>m. (mu_job_id m, pm_file_id m)) messages" l]
  by (auto simp: deleteMsg_def under_lock_def deleteMsg_fold watched_def split: if_splits)

lemma watched_removeFinishedTr:
  "removeFinishedTr locked j i l = Inr l' \<Longrightarrow> watched l' = watched l - {(j, i)}"
  by (auto simp: removeFinishedTr_def under_lock_def watch.transfers_forget split: if_splits)

lemma refresh_keys [simp]:
  "mu_job_id (refresh t msg m) = mu_job_id m" "pm_file_id (refresh t msg m) = pm_file_id m"
  by (simp_all add: refresh_def)

lemma watched_updateMsg: "updateMsg locked t msg l = Inr l' \<Longrightarrow> watched l' = watched l"
  by (auto simp: updateMsg_def under_lock_def watched_def image_image split: if_splits)

lemma set_expired_from: "set (expired_from clock maxAge i l) \<subseteq> set l"
  by (induction l arbitrary: i) auto

text \<open>With one reading of the clock, the messages that are too old are reported, all of them.\<close>

lemma expired_from_filter: "expired_from (\<lambda>_. t) maxAge i l = filter (expired maxAge t) l"
  by (induction l arbitrary: i) auto

lemma in_expired_from:
  "k < length l \<Longrightarrow> expired maxAge (clock (i + k)) (l ! k) \<Longrightarrow> l ! k \<in> set (expired_from clock maxAge i l)"
proof (induction l arbitrary: i k)
  case (Cons m l)
  then show ?case using Cons.IH [of "k - 1" "Suc i"] by (cases k) auto
qed simp

end
