(* ===== verification/MessageProcessing.thy ===== *)
theory MessageProcessing
  imports ThreadSafeList
begin

section \<open>Processing the messages of the transfer processes\<close>

text \<open>
  \<^verbatim>\<open>src/server/services/transfers/MessageProcessingService.cpp\<close>. Each \<^verbatim>\<open>fts_url_copy\<close> process leaves
  messages in a spool directory; the service reads them in batches and applies them to the
  database and to the watch list of the node.

  \<^item> The state of a node is its database, its watch list, the messages it has written back to the
    spool for another try, and the transfers whose state it has announced.
  \<^item> Any call to the database may throw. \<open>faults\<close> says for each call of one handler the text of
    the exception, if it throws; a call that throws is rolled back and has no effect. The watch
    list throws when its mutex is not obtained in time.
  \<^item> \<open>terminateReuseProcess\<close> catches every exception itself.
  \<^item> The field \<^verbatim>\<open>transfer_status\<close> is \<open>UPDATE\<close> or the name of a file state.
\<close>

datatype message_status = UPDATE | Status file_state

record Message =
  m_job_id :: job_id
  m_file_id :: nat
  m_status :: message_status
  m_message :: string
  m_process_id :: int
  m_time_in_secs :: real
  m_filesize :: int
  m_nostreams :: int
  m_timeout :: int
  m_buffersize :: int
  m_timestamp :: nat
  m_retry :: bool
  m_throughput :: real
  m_errcode :: int
  m_file_metadata :: string
  m_log_path :: string

record node =
  n_db :: db
  n_list :: watch_list
  n_spool :: "Message list"
  n_sent :: "(job_id \<times> nat) list"

datatype call = WatchList | GetRetry | GetRetryTimes | SetRetry | SetFileStatus | SetJobStatus | SendState | SetProtocol

type_synonym faults = "call \<Rightarrow> string option"

text \<open>\<^verbatim>\<open>errmsg.find(p) != std::string::npos\<close>.\<close>

fun contains :: "string \<Rightarrow> string \<Rightarrow> bool" where
  "contains p [] \<longleftrightarrow> p = []"
| "contains p (c # cs) \<longleftrightarrow> take (length p) (c # cs) = p \<or> contains p cs"

definition isUnrecoverableErrorMessage :: "string \<Rightarrow> bool" where
  "isUnrecoverableErrorMessage errmsg \<longleftrightarrow>
     contains ''Transfer terminate handler called'' errmsg \<or>
     contains ''Transfer process died'' errmsg \<or>
     contains ''because it was stalled'' errmsg \<or>
     contains ''canceled by the user'' errmsg \<or>
     contains ''undefined symbol'' errmsg \<or>
     contains ''canceled because it was not responding'' errmsg \<or>
     contains ''Out of range value'' errmsg"

definition invalid_values :: string where
  "invalid_values = ''Database change failed due to invalid values''"

definition runProducerStatus :: "Message \<Rightarrow> node \<Rightarrow> node" where
  "runProducerStatus msg s = s\<lparr>n_spool := n_spool s @ [msg]\<rparr>"

text \<open>The common handlers of exceptions.\<close>

definition on_exception :: "env \<Rightarrow> Message \<Rightarrow> node \<times> string option \<Rightarrow> node" where
  "on_exception e msg r =
     (case r of
        (s, None) \<Rightarrow> s
      | (s, Some what) \<Rightarrow>
          if isUnrecoverableErrorMessage what
          then s\<lparr>n_db := terminateReuseProcess e (m_job_id msg) (m_process_id msg) invalid_values True (n_db s)\<rparr>
          else runProducerStatus msg s)"

subsection \<open>Messages with transfer parameters\<close>

definition protocol_message_of :: "Message \<Rightarrow> protocol_message" where
  "protocol_message_of msg =
     \<lparr>tm_file_id = m_file_id msg, tm_transfer_status = (if m_status msg = UPDATE then ''UPDATE'' else []),
      tm_filesize = m_filesize msg, tm_nostreams = m_nostreams msg, tm_timeout = m_timeout msg,
      tm_buffersize = m_buffersize msg\<rparr>"

definition performUpdateMessageDbChange :: "env \<Rightarrow> faults \<Rightarrow> Message \<Rightarrow> node \<Rightarrow> node" where
  "performUpdateMessageDbChange e f msg s =
     (if m_status msg \<noteq> UPDATE then s
      else on_exception e msg
        (case f SetProtocol of
           Some what \<Rightarrow> (s, Some what)
         | None \<Rightarrow> (s\<lparr>n_db := updateProtocol [protocol_message_of msg] (n_db s)\<rparr>, None)))"

subsection \<open>Messages with a new state\<close>

text \<open>
  The attempt to retry a failed transfer: \<open>Some\<close> database when the retry was set and the handler
  returns, \<open>None\<close> when there is none left or when something was thrown, which is only logged.
\<close>

definition retry_failed :: "env \<Rightarrow> faults \<Rightarrow> Message \<Rightarrow> db \<Rightarrow> db option" where
  "retry_failed e f msg d =
     (if f GetRetry \<noteq> None then None
      else case getRetry (m_job_id msg) d of
        Inl _ \<Rightarrow> None
      | Inr retry \<Rightarrow>
          if m_retry msg \<and> retry > 0 \<and> m_file_id msg > 0 then
            (if f GetRetryTimes \<noteq> None then None
             else let retryTimes = getRetryTimes (m_job_id msg) (m_file_id msg) d in
               if retryTimes \<le> retry - 1 then
                 (if f SetRetry \<noteq> None then None
                  else case setRetryTransfer e (m_job_id msg) (m_file_id msg) (retryTimes + 1) (m_message msg)
                              (m_log_path msg) (m_errcode msg) d of
                         Inl _ \<Rightarrow> None | Inr d' \<Rightarrow> Some d')
               else None)
          else None)"

definition report_of :: "Message \<Rightarrow> report" where
  "report_of msg =
     \<lparr>processId = m_process_id msg, errorReason = m_message msg, filesize = m_filesize msg,
      duration = m_time_in_secs msg, throughput = m_throughput msg, will_retry = m_retry msg,
      fileMetadata = m_file_metadata msg\<rparr>"

definition updateJobStatus :: "env \<Rightarrow> bool \<Rightarrow> job_id \<Rightarrow> file_state \<Rightarrow> db \<Rightarrow> db" where
  "updateJobStatus = updateJobTransferStatusInternal"

text \<open>The last part: the session reuse check, then the file, the job and the announcement.\<close>

definition set_status :: "env \<Rightarrow> bool \<Rightarrow> faults \<Rightarrow> Message \<Rightarrow> file_state \<Rightarrow> node \<Rightarrow> node \<times> string option" where
  "set_status e cu f msg st s0 =
     (let s = (if isUnrecoverableErrorMessage (m_message msg)
               then s0\<lparr>n_db := terminateReuseProcess e (m_job_id msg) (m_process_id msg) (m_message msg) False (n_db s0)\<rparr>
               else s0)
      in case f SetFileStatus of
           Some what \<Rightarrow> (s, Some what)
         | None \<Rightarrow>
           (case updateTransferStatus e (m_job_id msg) (m_file_id msg) st (report_of msg) (n_db s) of (d1, updated, stored) \<Rightarrow>
            (case f SetJobStatus of
               Some what \<Rightarrow> (s\<lparr>n_db := d1\<rparr>, Some what)
             | None \<Rightarrow>
                 let s2 = s\<lparr>n_db := updateJobStatus e cu (m_job_id msg) st d1\<rparr> in
                 if \<not> updated \<and> st \<noteq> CANCELED then (s2, None)
                 else if m_job_id msg \<noteq> [] \<and> m_file_id msg > 0 then
                   (case f SendState of
                      Some what \<Rightarrow> (s2, Some what)
                    | None \<Rightarrow> (s2\<lparr>n_sent := n_sent s2 @ [(m_job_id msg, m_file_id msg)]\<rparr>, None))
                 else (s2, None))))"

definition apply_status :: "env \<Rightarrow> bool \<Rightarrow> faults \<Rightarrow> Message \<Rightarrow> file_state \<Rightarrow> node \<Rightarrow> node \<times> string option" where
  "apply_status e cu f msg st s =
     (if terminal_file st \<and> f WatchList \<noteq> None then (s, f WatchList)
      else
        let s1 = (if terminal_file st then s\<lparr>n_list := erase_transfer (m_job_id msg) (m_file_id msg) (n_list s)\<rparr> else s)
        in case (if st = FAILED then retry_failed e f msg (n_db s1) else None) of
             Some d' \<Rightarrow> (s1\<lparr>n_db := d'\<rparr>, None)
           | None \<Rightarrow> set_status e cu f msg st s1)"

definition performOtherMessageDbChange :: "env \<Rightarrow> bool \<Rightarrow> faults \<Rightarrow> Message \<Rightarrow> node \<Rightarrow> node" where
  "performOtherMessageDbChange e cu f msg s =
     (case m_status msg of
        UPDATE \<Rightarrow> s
      | Status st \<Rightarrow> on_exception e msg (apply_status e cu f msg st s))"

subsection \<open>Batches\<close>

text \<open>
  What the outside does while one message is handled: whether the service is asked to stop,
  whether the first lock is obtained, the start time of the process, and the exceptions.
\<close>

record moment =
  interrupted :: bool
  locked :: bool
  pid_start :: nat
  thrown :: faults

definition updater_of :: "Message \<Rightarrow> MessageUpdater" where
  "updater_of msg =
     \<lparr>pm_file_id = m_file_id msg, pm_transfer_status = [], pm_throughput = 0, pm_transferred = 0,
      mu_job_id = m_job_id msg, mu_process_id = m_process_id msg, mu_timestamp = m_timestamp msg\<rparr>"

definition dumpMessages :: "Message list \<Rightarrow> node \<Rightarrow> node" where
  "dumpMessages messages s = fold runProducerStatus messages s"

text \<open>One message; an exception of the watch list skips it.\<close>

definition handle_other :: "env \<Rightarrow> bool \<Rightarrow> moment \<Rightarrow> Message \<Rightarrow> node \<Rightarrow> node" where
  "handle_other e cu t msg s =
     (case updateMsg (locked t) (pid_start t) (updater_of msg) (n_list s) of
        Inl _ \<Rightarrow> s
      | Inr l \<Rightarrow> performOtherMessageDbChange e cu (thrown t) msg (s\<lparr>n_list := l\<rparr>))"

fun other_loop :: "env \<Rightarrow> bool \<Rightarrow> Message list \<Rightarrow> (moment \<times> Message) list \<Rightarrow> node \<Rightarrow> node" where
  "other_loop e cu messages [] s = s"
| "other_loop e cu messages ((t, msg) # ms) s =
     (if interrupted t then dumpMessages messages s
      else other_loop e cu messages ms (handle_other e cu t msg s))"

definition handleOtherMessages :: "env \<Rightarrow> bool \<Rightarrow> (moment \<times> Message) list \<Rightarrow> node \<Rightarrow> node" where
  "handleOtherMessages e cu ms s = other_loop e cu (map snd ms) ms s"

fun update_loop :: "env \<Rightarrow> Message list \<Rightarrow> (moment \<times> Message) list \<Rightarrow> node \<Rightarrow> node" where
  "update_loop e messages [] s = s"
| "update_loop e messages ((t, msg) # ms) s =
     (if interrupted t then dumpMessages messages s
      else update_loop e messages ms
        (if m_status msg = UPDATE then performUpdateMessageDbChange e (thrown t) msg s else s))"

definition handleUpdateMessages :: "env \<Rightarrow> (moment \<times> Message) list \<Rightarrow> node \<Rightarrow> node" where
  "handleUpdateMessages e ms s = update_loop e (map snd ms) ms s"

text \<open>A batch of status messages, with what happens during the first and the second pass.\<close>

definition handle_batch :: "env \<Rightarrow> bool \<Rightarrow> (moment \<times> moment \<times> Message) list \<Rightarrow> node \<Rightarrow> node" where
  "handle_batch e cu ms s =
     handleUpdateMessages e (map (\<lambda>(t, t', msg). (t', msg)) ms)
       (handleOtherMessages e cu (map (\<lambda>(t, t', msg). (t, msg)) ms) s)"

definition no_faults :: faults where
  "no_faults = (\<lambda>_. None)"

text \<open>Nothing goes wrong while the message is handled.\<close>

definition calm :: "moment \<Rightarrow> bool" where
  "calm t \<longleftrightarrow> \<not> interrupted t \<and> locked t \<and> thrown t = no_faults"

text \<open>A job with one running file and a message about it.\<close>

definition sample_node :: node where
  "sample_node = \<lparr>n_db = sample_db [sample_file 1 ''j'' 0 ACTIVE, sample_file 2 ''j'' 1 FINISHED]
       [(sample_job ''j'' None J_ACTIVE)\<lparr>j_retry := Some 1, j_retry_delay := Some 60, j_bring_online := Some (-1),
          j_copy_pin_lifetime := Some (-1)\<rparr>],
     n_list = [\<lparr>pm_file_id = 1, pm_transfer_status = [], pm_throughput = 0, pm_transferred = 0,
       mu_job_id = ''j'', mu_process_id = 7, mu_timestamp = 5\<rparr>],
     n_spool = [], n_sent = []\<rparr>"

definition sample_message :: "file_state \<Rightarrow> Message" where
  "sample_message st = \<lparr>m_job_id = ''j'', m_file_id = 1, m_status = Status st, m_message = ''broken pipe'',
     m_process_id = 7, m_time_in_secs = 1, m_filesize = 10, m_nostreams = 1, m_timeout = 0, m_buffersize = 0,
     m_timestamp = 6, m_retry = True, m_throughput = 2, m_errcode = 5, m_file_metadata = [], m_log_path = ''log''\<rparr>"

definition calm_moment :: moment where
  "calm_moment = \<lparr>interrupted = False, locked = True, pid_start = 1, thrown = no_faults\<rparr>"

definition stop_moment :: moment where
  "stop_moment = \<lparr>interrupted = True, locked = True, pid_start = 1, thrown = no_faults\<rparr>"

subsection \<open>Whatever is thrown, the database stays safe\<close>

definition node_safe :: "node \<Rightarrow> node \<Rightarrow> bool" where
  "node_safe s s' \<longleftrightarrow> (wf_db (n_db s) \<longrightarrow> wf_db (n_db s') \<and> rows_rel file_frozen (n_db s) (n_db s'))"

named_theorems node_safe \<open>steps of a node that keep the database safe\<close>

lemma node_safe_same [node_safe]: "n_db s' = n_db s \<Longrightarrow> node_safe s s'"
  by (simp add: node_safe_def)

lemma node_safe_refl [simp]: "node_safe s s"
  by (simp add: node_safe_def)

lemma node_safe_trans: "node_safe s s1 \<Longrightarrow> node_safe s1 s2 \<Longrightarrow> node_safe s s2"
  unfolding node_safe_def using rows_frozen_trans by blast

lemma node_safe_op: "file_operation op \<Longrightarrow> n_db s' = op (n_db s) \<Longrightarrow> node_safe s s'"
  by (simp add: node_safe_def file_operation.keeps_wf file_operation.keeps_frozen)

lemma node_safe_spool [node_safe]: "node_safe s (runProducerStatus msg s)"
  by (rule node_safe_same) (simp add: runProducerStatus_def)

lemma node_safe_terminate [node_safe]:
  "node_safe s (s\<lparr>n_db := terminateReuseProcess e jobId pid message force (n_db s)\<rparr>)"
  by (rule node_safe_op [OF terminate_reuse.file_operation_axioms]) simp

lemma node_safe_exception: "node_safe s (fst r) \<Longrightarrow> node_safe s (on_exception e msg r)"
  by (cases r) (auto simp: on_exception_def split: option.split intro: node_safe_trans node_safe)

lemma node_safe_status: "node_safe s (s\<lparr>n_db := fst (updateTransferStatus e jobId fileId st m (n_db s))\<rparr>)"
  unfolding updateTransferStatus_def by (rule node_safe_op [OF file_status.file_operation_axioms]) simp

lemma node_safe_job: "node_safe s (s\<lparr>n_db := updateJobStatus e cu jobId st (n_db s)\<rparr>)"
  unfolding updateJobStatus_def by (rule node_safe_op [OF job_status.file_operation_axioms]) simp

lemma node_safe_update: "node_safe s (performUpdateMessageDbChange e f msg s)"
proof -
  have "node_safe s (s\<lparr>n_db := updateProtocol ms (n_db s)\<rparr>)" for ms
    by (rule node_safe_op [OF protocol.file_operation_axioms]) simp
  then show ?thesis
    unfolding performUpdateMessageDbChange_def
    by (simp add: node_safe_exception split: option.split)
qed

lemma node_safe_set_status: "node_safe s (fst (set_status e cu f msg st s))"
proof -
  define s1 where "s1 = (if isUnrecoverableErrorMessage (m_message msg)
    then s\<lparr>n_db := terminateReuseProcess e (m_job_id msg) (m_process_id msg) (m_message msg) False (n_db s)\<rparr> else s)"
  define s2 where "s2 = s1\<lparr>n_db := fst (updateTransferStatus e (m_job_id msg) (m_file_id msg) st (report_of msg) (n_db s1))\<rparr>"
  define s3 where "s3 = s2\<lparr>n_db := updateJobStatus e cu (m_job_id msg) st (n_db s2)\<rparr>"
  have s1: "node_safe s s1" unfolding s1_def using node_safe_terminate node_safe_same by auto
  then have s2: "node_safe s s2" unfolding s2_def using node_safe_status node_safe_trans by blast
  then have s3: "node_safe s s3" unfolding s3_def using node_safe_job node_safe_trans by blast
  have "n_db (fst (set_status e cu f msg st s)) \<in> {n_db s1, n_db s2, n_db s3}"
    unfolding set_status_def s3_def s2_def s1_def Let_def by (simp add: split_beta split: option.split)
  then show ?thesis using s1 s2 s3 unfolding node_safe_def by auto
qed

lemma retry_failed_shape:
  "retry_failed e f msg d = Some d' \<Longrightarrow> \<exists>n. setRetryTransfer e (m_job_id msg) (m_file_id msg) n (m_message msg)
     (m_log_path msg) (m_errcode msg) d = Inr d'"
  by (auto simp: retry_failed_def Let_def split: if_splits sum.splits)

lemma node_safe_apply: "node_safe s (fst (apply_status e cu f msg st s))"
proof -
  define s1 where "s1 = (if terminal_file st then s\<lparr>n_list := erase_transfer (m_job_id msg) (m_file_id msg) (n_list s)\<rparr> else s)"
  have s1: "node_safe s s1" unfolding s1_def by (simp add: node_safe_same)
  have retried: "node_safe s (s1\<lparr>n_db := d'\<rparr>)" if "retry_failed e f msg (n_db s1) = Some d'" for d'
  proof -
    from retry_failed_shape [OF that] obtain n where
      "setRetryTransfer e (m_job_id msg) (m_file_id msg) n (m_message msg) (m_log_path msg) (m_errcode msg) (n_db s1) = Inr d'" by blast
    then have "node_safe s1 (s1\<lparr>n_db := d'\<rparr>)"
      by (intro node_safe_op [OF retry.file_operation_axioms [of e "m_job_id msg" "m_file_id msg" n "m_message msg"
            "m_log_path msg" "m_errcode msg"]]) (simp add: db_after_def)
    then show ?thesis by (rule node_safe_trans [OF s1])
  qed
  have status: "node_safe s (fst (set_status e cu f msg st s1))"
    by (rule node_safe_trans [OF s1 node_safe_set_status])
  show ?thesis
    using retried status unfolding apply_status_def Let_def s1_def [symmetric]
    by (auto split: option.split)
qed

lemma node_safe_other: "node_safe s (performOtherMessageDbChange e cu f msg s)"
  by (simp add: performOtherMessageDbChange_def node_safe_exception node_safe_apply split: message_status.split)

lemma node_safe_handle_other: "node_safe s (handle_other e cu t msg s)"
proof -
  have "node_safe s (performOtherMessageDbChange e cu f msg (s\<lparr>n_list := l\<rparr>))" for f l
    by (rule node_safe_trans [OF _ node_safe_other]) (simp add: node_safe_same)
  then show ?thesis by (simp add: handle_other_def split: sum.split)
qed

lemma node_safe_dump: "node_safe s (dumpMessages ms s)"
  unfolding dumpMessages_def
proof (induction ms arbitrary: s)
  case (Cons m ms)
  then show ?case using node_safe_trans [OF node_safe_spool Cons.IH] by simp
qed simp

lemma node_safe_other_loop: "node_safe s (other_loop e cu messages ms s)"
proof (induction ms arbitrary: s)
  case (Cons x ms)
  then show ?case
    using node_safe_trans [OF node_safe_handle_other Cons.IH] by (cases x) (simp add: node_safe_dump)
qed simp

lemma node_safe_update_loop: "node_safe s (update_loop e messages ms s)"
proof (induction ms arbitrary: s)
  case (Cons x ms)
  then show ?case
    using node_safe_trans [OF node_safe_update Cons.IH] by (cases x) (simp add: node_safe_dump)
qed simp

lemma node_safe_batch: "node_safe s (handle_batch e cu ms s)"
  unfolding handle_batch_def handleOtherMessages_def handleUpdateMessages_def
  by (rule node_safe_trans [OF node_safe_other_loop node_safe_update_loop])

interpretation messages: file_operation "\<lambda>d. n_db (handle_batch e cu ms (s\<lparr>n_db := d\<rparr>))"
proof
  fix d assume "wf_db d"
  then show "wf_db (n_db (handle_batch e cu ms (s\<lparr>n_db := d\<rparr>)))"
    "rows_rel file_frozen d (n_db (handle_batch e cu ms (s\<lparr>n_db := d\<rparr>)))"
    using node_safe_batch [of "s\<lparr>n_db := d\<rparr>" e cu ms] by (simp_all add: node_safe_def)
qed

subsection \<open>What a status message does\<close>

lemma terminate_row:
  assumes "file_by_id i d = Some r"
  shows "\<exists>r'. file_by_id i (terminateReuseProcess e jobId pid message force d) = Some r' \<and>
    (r' = r \<or> f_file_state r' = FAILED)"
proof -
  have "f_file_state (fail_file e message x) = FAILED" for x by (simp add: fail_file_def)
  then show ?thesis
    using assms by (auto simp: terminateReuseProcess_def Let_def file_by_id_update_files)
qed

lemma job_update_keeps_terminal:
  assumes "file_by_id i d = Some r" "terminal_file (f_file_state r)"
  shows "file_by_id i (updateJobStatus e cu jobId st d) = Some r"
proof -
  have "rows_rel (cancel_change jobId) d (updateJobStatus e cu jobId st d)"
    unfolding updateJobStatus_def by (rule job_write_files [OF updateJobTransferStatus_write])
  then have "\<exists>r'. file_by_id i (updateJobStatus e cu jobId st d) = Some r' \<and> cancel_change jobId r r'"
    by (rule rows_rel_file_by_id) (auto simp: cancel_change_def assms(1))
  moreover have "f_file_state r \<noteq> NOT_USED" using assms(2) by (auto simp: terminal_file_def)
  ultimately show ?thesis by (auto simp: cancel_change_def)
qed

text \<open>A file that is reported as failed or canceled ends up in a terminal state.\<close>

lemma status_update_ends:
  assumes "wf_db d" "file_by_id i d = Some r" "jobId \<noteq> []" "st \<in> {FAILED, CANCELED}"
  shows "\<exists>r'. file_by_id i (fst (updateTransferStatus e jobId i st m d)) = Some r' \<and>
    (if terminal_file (f_file_state r) then r' = r else f_file_state r' = st)"
proof -
  obtain d' ok stored where u: "updateFileTransferStatusInternal e jobId i st m d = (d', ok, stored)"
    by (cases "updateFileTransferStatusInternal e jobId i st m d")
  have i: "i \<noteq> 0" using assms(1,2) file_by_id_Some [OF assms(2)] by (auto simp: wf_db_def)
  then have res: "resolve_ids jobId i (processId m) d = (jobId, i)" using assms(3) by (simp add: resolve_ids_def)
  show ?thesis
  proof (cases "terminal_file (f_file_state r)")
    case True
    then show ?thesis using terminal_rows_kept [OF assms(1) u assms(2)] u by (simp add: updateTransferStatus_def)
  next
    case False
    have nref: "\<not> status_refused (f_file_state r) st (processId m)"
      using False assms(4) by (auto simp: status_refused_def terminal_file_def)
    have "set_transfer_status e st st m r \<noteq> r"
    proof
      assume "set_transfer_status e st st m r = r"
      then have "f_file_state r = st" using state_set_transfer_status [of e st st m r] by simp
      then show False using False assms(4) by (auto simp: terminal_file_def)
    qed
    then have "ok" using u nref res assms(2,4)
      by (auto simp: updateFileTransferStatusInternal_def Let_def split: if_splits)
    then have "\<exists>row new. file_by_id i d = Some row \<and> (new = st \<or> st = FINISHED \<and> new = ARCHIVING)
        \<and> file_by_id i d' = Some (set_transfer_status e st new m row) \<and> stored = None"
      using u assms(1,4) by (intro updateFileTransferStatus_row [OF _ _ res]) auto
    then show ?thesis using u False assms(4) by (auto simp: updateTransferStatus_def)
  qed
qed

lemma set_status_failed:
  assumes "wf_db (n_db s)" "file_by_id (m_file_id msg) (n_db s) = Some r" "m_job_id msg \<noteq> []"
    "\<not> terminal_file (f_file_state r)"
  shows "\<exists>r'. file_by_id (m_file_id msg) (n_db (fst (set_status e cu no_faults msg FAILED s))) = Some r'
    \<and> f_file_state r' = FAILED"
proof -
  define d1 where "d1 = (if isUnrecoverableErrorMessage (m_message msg)
    then terminateReuseProcess e (m_job_id msg) (m_process_id msg) (m_message msg) False (n_db s) else n_db s)"
  define d2 where "d2 = fst (updateTransferStatus e (m_job_id msg) (m_file_id msg) FAILED (report_of msg) d1)"
  have "wf_db d1" unfolding d1_def using terminate_reuse.keeps_wf assms(1) by simp
  moreover obtain r1 where r1: "file_by_id (m_file_id msg) d1 = Some r1" "r1 = r \<or> f_file_state r1 = FAILED"
    using terminate_row [OF assms(2), of e "m_job_id msg" "m_process_id msg" "m_message msg" False] assms(2)
    by (cases "isUnrecoverableErrorMessage (m_message msg)") (auto simp: d1_def)
  ultimately obtain r2 where r2: "file_by_id (m_file_id msg) d2 = Some r2" "f_file_state r2 = FAILED"
    using status_update_ends [of d1 "m_file_id msg" r1 "m_job_id msg" FAILED e "report_of msg"] assms(3,4)
    by (auto simp: d2_def split: if_splits)
  then have "file_by_id (m_file_id msg) (updateJobStatus e cu (m_job_id msg) FAILED d2) = Some r2"
    by (intro job_update_keeps_terminal) (simp_all add: terminal_file_def)
  moreover have "n_db (fst (set_status e cu no_faults msg FAILED s)) = updateJobStatus e cu (m_job_id msg) FAILED d2"
    by (simp add: set_status_def Let_def no_faults_def d1_def d2_def split_beta)
  ultimately show ?thesis using r2(2) by simp
qed

lemma handle_other_calm:
  assumes "calm t" "m_status msg = Status st"
  shows "handle_other e cu t msg s = on_exception e msg (apply_status e cu no_faults msg st
    (s\<lparr>n_list := map (refresh (pid_start t) (updater_of msg)) (n_list s)\<rparr>))"
  using assms by (simp add: handle_other_def updateMsg_def under_lock_def calm_def performOtherMessageDbChange_def)

lemma on_exception_none [simp]: "on_exception e msg (s, None) = s"
  by (simp add: on_exception_def)

lemma set_status_calm: "snd (set_status e cu no_faults msg st s) = None"
  by (simp add: set_status_def Let_def no_faults_def split_beta)

lemma apply_status_calm: "snd (apply_status e cu no_faults msg st s) = None"
  by (simp add: apply_status_def Let_def set_status_calm split: option.split) (simp add: no_faults_def)

lemma handle_other_apply:
  assumes "calm t" "m_status msg = Status st"
  shows "handle_other e cu t msg s = fst (apply_status e cu no_faults msg st
    (s\<lparr>n_list := map (refresh (pid_start t) (updater_of msg)) (n_list s)\<rparr>))"
  using handle_other_calm [OF assms] apply_status_calm by (metis on_exception_none prod.collapse)

lemma set_status_list: "n_list (fst (set_status e cu f msg st s)) = n_list s"
  by (simp add: set_status_def Let_def split_beta split: option.split)

lemma apply_status_watched:
  assumes "terminal_file st"
  shows "watched (n_list (fst (apply_status e cu no_faults msg st s)))
    = watched (n_list s) - {(m_job_id msg, m_file_id msg)}"
  using assms by (simp add: apply_status_def Let_def set_status_list watch.transfers_forget no_faults_def split: option.split)


lemma calm_moment [simp]: "calm calm_moment"
  by (simp add: calm_def calm_moment_def)

lemma sample_node_rows:
  "wf_db (n_db sample_node)" "file_by_id 1 (n_db sample_node) = Some (sample_file 1 ''j'' 0 ACTIVE)"
  "job_by_id ''j'' (n_db sample_node) = Some ((sample_job ''j'' None J_ACTIVE)\<lparr>j_retry := Some 1,
     j_retry_delay := Some 60, j_bring_online := Some (-1), j_copy_pin_lifetime := Some (-1)\<rparr>)"
  by (simp_all add: sample_node_def wf_db_def List.map_filter_simps file_by_id_def job_by_id_def)

lemma sample_message_sel [simp]:
  "m_job_id (sample_message st) = ''j''" "m_file_id (sample_message st) = 1" "m_status (sample_message st) = Status st"
  "m_retry (sample_message st)" "m_errcode (sample_message st) = 5" "m_process_id (sample_message st) = 7"
  "m_message (sample_message st) = ''broken pipe''" "m_filesize (sample_message st) = 10"
  by (simp_all add: sample_message_def)

lemma sample_node_retry:
  "getRetry ''j'' (n_db sample_node) = Inr 1" "getRetryTimes ''j'' 1 (n_db sample_node) = 0"
  using sample_node_rows(2,3)
  by (simp_all add: getRetry_def getRetryTimes_def Let_def job_type_of_def sample_node_def sample_file_def)


lemma outcomes_all_finished: "(\<And>r. r \<in> set rows \<Longrightarrow> f_file_state r = FINISHED) \<Longrightarrow> outcomes rows \<subseteq> {Finished}"
  by (auto simp: outcomes_def index_outcome_def replica_states_def indexes_def)

lemma finished_update:
  assumes "wf_db d" "job_by_id jobId d = Some j" "job_type_of j \<in> {kTypeRegular, kTypeSessionReuse}"
    "j_archive_timeout j = None" "jobId \<noteq> []" "file_by_id i d = Some row" "\<not> terminal_file (f_file_state row)"
  shows "updateTransferStatus e jobId i FINISHED m d =
    (update_files (\<lambda>r. f_file_id r = i \<and> f_file_state r = f_file_state row) (set_transfer_status e FINISHED FINISHED m) d,
     True, None)"
proof -
  have "i \<noteq> 0" using assms(1) file_by_id_Some [OF assms(6)] by (auto simp: wf_db_def)
  then have res: "resolve_ids jobId i (processId m) d = (jobId, i)" using assms(5) by (simp add: resolve_ids_def)
  have "\<not> status_refused (f_file_state row) FINISHED (processId m)" "FINISHED \<noteq> f_file_state row"
    using assms(7) by (auto simp: status_refused_def terminal_file_def)
  moreover have "\<not> isArchivingTransfer jobId (job_type_of j) (-1) d" by (simp add: isArchivingTransfer_def)
  ultimately show ?thesis
    unfolding updateTransferStatus_def
    using updateFileTransferStatus_eq [OF res assms(2,6), of FINISHED FINISHED e] assms(3,4)
    by (auto simp: after_status_def)
qed

lemma all_finished_after:
  assumes "wf_db d" "file_by_id i d = Some row"
    "\<And>x. x \<in> set (files_of_job jobId d) \<Longrightarrow> f_file_id x \<noteq> i \<Longrightarrow> f_file_state x = FINISHED"
    "x \<in> set (files_of_job jobId (update_files (\<lambda>r. f_file_id r = i \<and> f_file_state r = f_file_state row)
       (set_transfer_status e FINISHED FINISHED m) d))"
  shows "f_file_state x = FINISHED"
proof -
  let ?P = "\<lambda>r. f_file_id r = i \<and> f_file_state r = f_file_state row"
  from assms(4) have x: "x \<in> set (update_where ?P (set_transfer_status e FINISHED FINISHED m) (t_file d))"
    and job: "f_job_id x = jobId" by (simp_all add: files_of_job_def)
  from x show ?thesis
  proof (cases rule: in_update_whereE)
    case (changed r)
    then show ?thesis by simp
  next
    case kept
    then have "f_file_id x \<noteq> i" using wf_db_file_by_id [OF assms(1) kept(1)] assms(2) by auto
    then show ?thesis using assms(3) kept(1) job by (simp add: files_of_job_def)
  qed
qed




end
