(* ===== verification/FileTransferExecutor.thy ===== *)
theory FileTransferExecutor
  imports UrlCopyCmd MessageProcessing
begin

section \<open>Starting a transfer\<close>

text \<open>
  \<^verbatim>\<open>src/server/services/transfers/FileTransferExecutor.cpp\<close>: what a worker of the thread pool does
  with one file: it puts the command line together, claims the file in the database, starts
  the process and watches it.

  \<^item> \<open>exec_env\<close> holds the configuration of the server and what comes from outside: the JSON
    libraries, and the files with credentials, of which only the paths matter here (\<open>None\<close> is an
    exception).
  \<^item> \<open>faults\<close> says which call throws; the worker catches everything, and what was done before the
    exception stays.
  \<^item> The result of \<^verbatim>\<open>fork\<close> and \<^verbatim>\<open>exec\<close> is an argument: the process id and whether it worked.
  \<^item> The set \<^verbatim>\<open>notScheduled\<close> belongs to the worker, which runs once: it is empty when it is asked.
  \<^item> Interruption of the thread is not modelled.
\<close>

record exec_env =
  x_json :: "string \<Rightarrow> string \<Rightarrow> string option"
  x_authMethod :: "string \<Rightarrow> string option"
  x_cloudConfig :: "TransferFile \<Rightarrow> string \<Rightarrow> string option"
  x_oauthConfig :: "TransferFile \<Rightarrow> string option"
  x_retrieveSEToken :: bool
  x_pingInterval :: int
  x_monitoringMsg :: bool
  x_infosys :: string
  x_ftsHostName :: string
  x_logsDir :: string
  x_msgDir :: string

subsection \<open>The command line\<close>

definition getAuthMethod :: "exec_env \<Rightarrow> string \<Rightarrow> string" where
  "getAuthMethod x jobMetadata =
     (if jobMetadata \<noteq> ''null'' then or_default ''null'' (x_authMethod x jobMetadata) else ''null'')"

definition protocol_params :: "db \<Rightarrow> TransferFile \<Rightarrow> ProtocolParameters option" where
  "protocol_params d tf =
     map_option (\<lambda>ps.
       if tf_internalFileParams tf = [] then
         ps\<lparr>nostreams := getStreamsOptimization (tf_sourceSe tf) (tf_destSe tf) d, timeout := getGlobalTimeout (tf_voName tf) d,
            ipv6 := isProtocolIPv6 (tf_sourceSe tf) (tf_destSe tf) d, udt := isProtocolUDT (tf_sourceSe tf) (tf_destSe tf) d\<rparr>
       else ps) (parse_params (tf_internalFileParams tf))"

definition transfer_command :: "exec_env \<Rightarrow> db \<Rightarrow> TransferFile \<Rightarrow> ProtocolParameters \<Rightarrow> UrlCopyCmd" where
  "transfer_command x d tf ps =
     setOption ''auth-method'' (getAuthMethod x (tf_jobMetadata tf))
       (setFromTransfer (x_json x) tf False (publishUserDn (tf_voName tf) d) (x_msgDir x)
       (setFromProtocol ps
       (set_if (getSecPerMb (tf_voName tf) d > 0) (setOptionInt ''sec-per-mb'' (getSecPerMb (tf_voName tf) d)) new_UrlCopyCmd)))"

definition credential_command :: "exec_env \<Rightarrow> TransferFile \<Rightarrow> UrlCopyCmd \<Rightarrow> UrlCopyCmd option" where
  "credential_command x tf c =
     (let auth = getAuthMethod x (tf_jobMetadata tf) in
      case x_cloudConfig x tf auth of
        None \<Rightarrow> None
      | Some cloud \<Rightarrow>
          if cloud \<noteq> [] then Some (setOption ''cloud-config'' cloud c)
          else if auth = ''oauth2'' then
            map_option (\<lambda>oauth. if oauth \<noteq> [] then setOption ''oauth'' oauth c else c) (x_oauthConfig x tf)
          else Some c)"

definition link_options :: "exec_env \<Rightarrow> db \<Rightarrow> TransferFile \<Rightarrow> string \<Rightarrow> UrlCopyCmd \<Rightarrow> UrlCopyCmd" where
  "link_options x d tf proxy c0 =
     (let src = tf_sourceSe tf; dst = tf_destSe tf; turl = getThirdPartyTURL src dst d
      in setUDT (isProtocolUDT src dst d)
           (set_if (x_infosys x \<noteq> []) (setOption ''infosystem'' (x_infosys x))
           (set_if (proxy \<noteq> [] \<and> getAuthMethod x (tf_jobMetadata tf) \<noteq> ''oauth2'') (setOption ''proxy'' proxy)
           (setOptionInt ''ping-interval'' (x_pingInterval x)
           (setMonitoring (x_monitoringMsg x) (x_msgDir x)
           (setFlag ''no-streaming'' (getDisableStreamingFlag (tf_voName tf) d)
           (set_if (turl \<noteq> []) (setOption ''3rd-party-turl'' turl)
           (setFlag ''no-delegation'' (getDisableDelegationFlag src dst d)
           (setOptionInt ''debug'' (getDebugLevel src dst d)
           (setFlag ''retrieve-se-token'' (x_retrieveSEToken x) c0))))))))))"

definition link_command :: "exec_env \<Rightarrow> db \<Rightarrow> TransferFile \<Rightarrow> string \<Rightarrow> UrlCopyCmd \<Rightarrow> UrlCopyCmd" where
  "link_command x d tf proxy c0 =
     (let src = tf_sourceSe tf; dst = tf_destSe tf; c = link_options x d tf proxy c0
      in setOption ''alias'' (x_ftsHostName x)
           (setCopyMode (getCopyMode src dst d)
           (setSkipEvict (getSkipEvictionFlag src d)
           (set_if (\<not> cmd_IPv6Explicit c) (setIPv6 (isProtocolIPv6 src dst d)) c))))"

definition retry_command :: "exec_env \<Rightarrow> db \<Rightarrow> TransferFile \<Rightarrow> UrlCopyCmd \<Rightarrow> UrlCopyCmd option" where
  "retry_command x d tf c =
     (let retry_times = getRetryTimes (tf_jobId tf) (tf_fileId tf) d in
      case getRetry (tf_jobId tf) d of
        Inl _ \<Rightarrow> None
      | Inr retry_max \<Rightarrow>
          Some
            (setOption ''logDir'' (x_logsDir x)
            (setOptionInt ''retry_max'' (if retry_max < 0 then 0 else retry_max)
            (set_if (tf_jobType tf = kTypeMultiHop \<and> \<not> tf_lastHop tf \<and> tf_overwriteFlag tf = ''M'') (setFlag ''overwrite'' True)
            (set_if (retry_times > 0 \<and> tf_overwriteFlag tf = ''R'') (setFlag ''overwrite'' True)
            (setOptionInt ''retry'' (if retry_times < 0 then 0 else retry_times) c))))))"

definition build_command :: "exec_env \<Rightarrow> db \<Rightarrow> TransferFile \<Rightarrow> string \<Rightarrow> UrlCopyCmd option" where
  "build_command x d tf proxy =
     (case protocol_params d tf of
        None \<Rightarrow> None
      | Some ps \<Rightarrow>
          (case credential_command x tf (transfer_command x d tf ps) of
             None \<Rightarrow> None
           | Some c \<Rightarrow> retry_command x d tf (link_command x d tf proxy c)))"

subsection \<open>Claim, start and watch\<close>

datatype exec_call = TrAllowed | Configuration | Claim | JobActive | Protocol | StartStatus | StartJob | Announce | Watch

type_synonym exec_faults = "exec_call \<Rightarrow> bool"

definition status_report :: "int \<Rightarrow> string \<Rightarrow> report" where
  "status_report pid reason =
     \<lparr>processId = pid, errorReason = reason, filesize = 0, duration = 0, throughput = 0, will_retry = False, fileMetadata = []\<rparr>"

text \<open>
  The claim: the file becomes READY without a process, the job ACTIVE. The second result says
  whether the worker goes on.
\<close>

definition claim_transfer :: "env \<Rightarrow> bool \<Rightarrow> exec_faults \<Rightarrow> TransferFile \<Rightarrow> db \<Rightarrow> db \<times> bool" where
  "claim_transfer e cu f tf d =
     (if f Claim then (d, False)
      else case updateTransferStatus e (tf_jobId tf) (tf_fileId tf) READY (status_report 0 []) d of
        (d1, updated, _) \<Rightarrow>
          if f JobActive then (d1, False)
          else (updateJobStatus e cu (tf_jobId tf) ACTIVE d1, updated))"

definition proto_message :: "TransferFile \<Rightarrow> int \<Rightarrow> int \<Rightarrow> int \<Rightarrow> protocol_message" where
  "proto_message tf streams time buffer =
     \<lparr>tm_file_id = tf_fileId tf, tm_transfer_status = ''UPDATE'', tm_filesize = 0, tm_nostreams = streams, tm_timeout = time,
      tm_buffersize = buffer\<rparr>"

definition watch_message :: "TransferFile \<Rightarrow> int \<Rightarrow> nat \<Rightarrow> MessageUpdater" where
  "watch_message tf pid clock =
     \<lparr>pm_file_id = tf_fileId tf, pm_transfer_status = [], pm_throughput = 0, pm_transferred = 0, mu_job_id = tf_jobId tf,
      mu_process_id = pid, mu_timestamp = clock\<rparr>"

definition fork_failed_reason :: string where
  "fork_failed_reason = ''Transfer failed to fork, check fts3server.log for more details''"

text \<open>After the fork: the state of the file, the announcement and the watch list.\<close>

definition record_start :: "env \<Rightarrow> bool \<Rightarrow> exec_faults \<Rightarrow> TransferFile \<Rightarrow> int \<Rightarrow> bool \<Rightarrow> nat \<Rightarrow> node \<Rightarrow> node" where
  "record_start e cu f tf pid ok clock s =
     (if f StartStatus then s
      else let (jobId, fileId) = (tf_jobId tf, tf_fileId tf);
               d1 = (if ok then fst (updateTransferStatus e jobId fileId READY (status_report pid []) (n_db s))
                     else fst (updateTransferStatus e jobId fileId FAILED (status_report pid fork_failed_reason) (n_db s)))
           in if \<not> ok \<and> f StartJob then s\<lparr>n_db := d1\<rparr>
              else let s2 = s\<lparr>n_db := (if ok then d1 else updateJobStatus e cu jobId FAILED d1)\<rparr>
                   in if f Announce then s2
                      else let s3 = s2\<lparr>n_sent := n_sent s2 @ [(jobId, fileId)]\<rparr>
                           in if ok then
                                (case push_back (\<not> f Watch) (watch_message tf pid clock) (n_list s3) of
                                   Inl _ \<Rightarrow> s3 | Inr l \<Rightarrow> s3\<lparr>n_list := l\<rparr>)
                              else s3)"

text \<open>The second result is the process that was started: its id and its arguments.\<close>

definition launch_transfer ::
  "env \<Rightarrow> bool \<Rightarrow> exec_faults \<Rightarrow> int \<times> bool \<Rightarrow> nat \<Rightarrow> UrlCopyCmd \<Rightarrow> TransferFile \<Rightarrow> node \<Rightarrow> node \<times> (int \<times> string list) option" where
  "launch_transfer e cu f spawn clock c tf s =
     (case (option_int ''nstreams'' c, option_int ''timeout'' c, option_int ''tcp-buffersize'' c) of
        (Some streams, Some time, Some buffer) \<Rightarrow>
          if f Protocol then (s, None)
          else let s1 = s\<lparr>n_db := updateProtocol [proto_message tf streams time buffer] (n_db s)\<rparr>
               in (record_start e cu f tf (fst spawn) (snd spawn) clock s1,
                   if snd spawn then Some (fst spawn, getArgv ''fts_url_copy'' (generateParameters c)) else None)
      | _ \<Rightarrow> (s, None))"

definition run_executor ::
  "exec_env \<Rightarrow> env \<Rightarrow> bool \<Rightarrow> exec_faults \<Rightarrow> int \<times> bool \<Rightarrow> nat \<Rightarrow> TransferFile \<Rightarrow> string \<Rightarrow> node
     \<Rightarrow> node \<times> (int \<times> string list) option" where
  "run_executor x e cu f spawn clock tf proxy s =
     (if tf_fileId tf = 0 \<or> f TrAllowed then (s, None)
      else case isTrAllowed (tf_sourceSe tf) (tf_destSe tf) (n_db s) of
        Inl _ \<Rightarrow> (s, None)
      | Inr allowed \<Rightarrow>
          if \<not> allowed \<or> f Configuration then (s, None)
          else case build_command x (n_db s) tf proxy of
            None \<Rightarrow> (s, None)
          | Some c \<Rightarrow>
              (case claim_transfer e cu f tf (n_db s) of
                 (d1, go) \<Rightarrow>
                   if go then launch_transfer e cu f spawn clock c tf (s\<lparr>n_db := d1\<rparr>)
                   else (s\<lparr>n_db := d1\<rparr>, None)))"

subsection \<open>Workers that race for a file\<close>

text \<open>
  A file that no worker can claim: its row is in a state in which the claim, READY without a process
  id, is refused.
\<close>

definition locked :: "nat \<Rightarrow> db \<Rightarrow> bool" where
  "locked i d \<longleftrightarrow> (\<exists>r. file_by_id i d = Some r \<and> status_refused (f_file_state r) READY 0)"

lemma resolve_tf: "tf_jobId tf \<noteq> [] \<Longrightarrow> tf_fileId tf \<noteq> 0 \<Longrightarrow> resolve_ids (tf_jobId tf) (tf_fileId tf) p d = (tf_jobId tf, tf_fileId tf)"
  by (simp add: resolve_ids_def)

lemma updateJobStatus_keeps:
  assumes "wf_db d"
  shows "wf_db (updateJobStatus e cu jobId st d)" "locked i d \<Longrightarrow> locked i (updateJobStatus e cu jobId st d)"
proof -
  have w: "job_write jobId d (updateJobStatus e cu jobId st d)"
    unfolding updateJobStatus_def by (rule updateJobTransferStatus_write)
  then show "wf_db (updateJobStatus e cu jobId st d)" using assms by (rule job_write_wf)
  assume "locked i d"
  then obtain r where r: "file_by_id i d = Some r" "status_refused (f_file_state r) READY 0" unfolding locked_def by blast
  from job_write_files [OF w] _ r(1)
  have "\<exists>r'. file_by_id i (updateJobStatus e cu jobId st d) = Some r' \<and> cancel_change jobId r r'"
    by (rule rows_rel_file_by_id) (auto simp: cancel_change_def)
  then show "locked i (updateJobStatus e cu jobId st d)" using r(2) by (auto simp: locked_def cancel_change_def status_refused_def)
qed

lemma status_update_locks:
  assumes "wf_db d" "tf_jobId tf \<noteq> []" "tf_fileId tf \<noteq> 0" "req \<in> {READY, FAILED}"
    "updateTransferStatus e (tf_jobId tf) (tf_fileId tf) req m d = (d', ok, st)"
  shows "wf_db d'" "ok \<or> locked (tf_fileId tf) d \<Longrightarrow> locked (tf_fileId tf) d'" "\<not> ok \<Longrightarrow> d' = d"
proof -
  note upd = assms(5) [unfolded updateTransferStatus_def]
  show "wf_db d'" using assms(1) upd by (rule updateFileTransferStatus_wf)
  show same: "d' = d" if "\<not> ok" using upd that by (cases rule: updateFileTransferStatus_cases) simp_all
  show "locked (tf_fileId tf) d'" if "ok \<or> locked (tf_fileId tf) d"
  proof (cases ok)
    case True
    then obtain row new where "file_by_id (tf_fileId tf) d' = Some (set_transfer_status e req new m row)" "new = req"
      using updateFileTransferStatus_row [OF assms(1) _ resolve_tf [OF assms(2,3)]] upd assms(4) by fastforce
    then show ?thesis using assms(4) by (auto simp: locked_def status_refused_def)
  qed (use that same in simp)
qed

text \<open>A file that is taken stays taken, whichever file a worker handles.\<close>

lemma status_keeps_locked:
  assumes "wf_db d" "tf_jobId tf \<noteq> []" "tf_fileId tf \<noteq> 0" "req \<in> {READY, FAILED}" "locked i d"
    "updateTransferStatus e (tf_jobId tf) (tf_fileId tf) req m d = (d', ok, st)"
  shows "locked i d'"
proof (cases "i = tf_fileId tf")
  case True
  then show ?thesis using status_update_locks(2) [OF assms(1-4,6)] assms(5) by simp
next
  case False
  note upd = assms(6) [unfolded updateTransferStatus_def]
  obtain r where r: "file_by_id i d = Some r" "status_refused (f_file_state r) READY 0" using assms(5) unfolding locked_def by blast
  have "rows_rel (\<lambda>r r'. status_frame (tf_jobId tf) (tf_fileId tf) r r' \<and> file_frozen r r') d d'"
    using updateFileTransferStatus_frame [OF assms(1) upd resolve_tf [OF assms(2,3)]] updateFileTransferStatus_frozen [OF assms(1) upd]
    by (simp add: rows_rel_def list_all2_conv_all_nth)
  then obtain r' where "file_by_id i d' = Some r'" "status_frame (tf_jobId tf) (tf_fileId tf) r r'"
    using rows_rel_file_by_id [OF _ _ r(1)] by (metis (no_types, lifting) file_frozen_def)
  moreover have "f_file_id r = i" using file_by_id_Some [OF r(1)] by blast
  moreover have "f_file_state r \<noteq> NOT_USED" using r(2) by (auto simp: status_refused_def)
  ultimately show ?thesis using r(2) False sibling_change_other by (auto simp: locked_def status_frame_def)
qed

lemma locked_refuses:
  assumes "tf_jobId tf \<noteq> []" "tf_fileId tf \<noteq> 0" "locked (tf_fileId tf) d"
  shows "\<exists>st. updateTransferStatus e (tf_jobId tf) (tf_fileId tf) READY (status_report 0 []) d = (d, False, st)"
  using assms(3) unfolding locked_def updateTransferStatus_def updateFileTransferStatusInternal_def resolve_tf [OF assms(1,2)]
  by (auto simp: status_report_def Let_def split: option.split)

lemma claim_transfer_cases:
  assumes "wf_db d" "tf_jobId tf \<noteq> []" "tf_fileId tf \<noteq> 0" "claim_transfer e cu f tf d = (d', go)"
  shows "wf_db d'" "go \<or> locked (tf_fileId tf) d \<Longrightarrow> locked (tf_fileId tf) d'" "locked (tf_fileId tf) d \<Longrightarrow> \<not> go"
    "locked i d \<Longrightarrow> locked i d'"
proof -
  obtain d1 ok st where u: "updateTransferStatus e (tf_jobId tf) (tf_fileId tf) READY (status_report 0 []) d = (d1, ok, st)"
    by (cases "updateTransferStatus e (tf_jobId tf) (tf_fileId tf) READY (status_report 0 []) d") auto
  note l = status_update_locks [OF assms(1-3) _ u, simplified]
  have c: "d' = d \<and> \<not> go \<or> d' = d1 \<and> \<not> go \<or> d' = updateJobStatus e cu (tf_jobId tf) ACTIVE d1 \<and> go = ok"
    using assms(4) by (auto simp: claim_transfer_def u split: if_splits)
  then show "wf_db d'" using assms(1) l(1) updateJobStatus_keeps(1) by blast
  show "go \<or> locked (tf_fileId tf) d \<Longrightarrow> locked (tf_fileId tf) d'" using c l updateJobStatus_keeps(2) [OF l(1)] by blast
  show "locked (tf_fileId tf) d \<Longrightarrow> \<not> go" using c u locked_refuses [OF assms(2,3)] by (metis Pair_inject)
  show "locked i d \<Longrightarrow> locked i d'"
    using c status_keeps_locked [OF assms(1-3) _ _ u] updateJobStatus_keeps(2) [OF l(1)] by blast
qed

lemma state_update_files:
  assumes "keeps_keys g" "\<And>r. f_file_state (g r) = f_file_state r"
  shows "map_option f_file_state (file_by_id i (update_files P g d)) = map_option f_file_state (file_by_id i d)"
  using assms by (cases "file_by_id i d") (simp_all add: file_by_id_update_files)

lemma protocol_keeps:
  assumes "wf_db d"
  shows "wf_db (updateProtocol ms d)" "locked i d \<Longrightarrow> locked i (updateProtocol ms d)"
proof -
  show "wf_db (updateProtocol ms d)" using assms by (rule protocol.keeps_wf)
  have "locked i d \<Longrightarrow> locked i (protocol_update m d)" for m d
  proof -
    have "map_option f_file_state (file_by_id i (protocol_update m d)) = map_option f_file_state (file_by_id i d)"
      unfolding protocol_update_def
      by (split if_split, intro conjI impI refl, rule state_update_files, rule keeps_keysI) simp_all
    then show "locked i d \<Longrightarrow> locked i (protocol_update m d)" by (auto simp: locked_def map_option_eq_Some)
  qed
  then show "locked i d \<Longrightarrow> locked i (updateProtocol ms d)" unfolding updateProtocol_def by (induction ms arbitrary: d) auto
qed

lemma record_start_keeps:
  assumes "wf_db (n_db s)" "tf_jobId tf \<noteq> []" "tf_fileId tf \<noteq> 0"
  shows "wf_db (n_db (record_start e cu f tf pid ok clock s))"
    "locked i (n_db s) \<Longrightarrow> locked i (n_db (record_start e cu f tf pid ok clock s))"
proof -
  define req where "req = (if ok then READY else FAILED)"
  define d1 where "d1 = fst (updateTransferStatus e (tf_jobId tf) (tf_fileId tf) req
      (status_report pid (if ok then [] else fork_failed_reason)) (n_db s))"
  obtain b st where u: "updateTransferStatus e (tf_jobId tf) (tf_fileId tf) req
      (status_report pid (if ok then [] else fork_failed_reason)) (n_db s) = (d1, b, st)"
    unfolding d1_def by (metis prod.collapse)
  have req: "req \<in> {READY, FAILED}" by (simp add: req_def)
  have l: "wf_db d1" using status_update_locks(1) [OF assms req u] .
  have c: "n_db (record_start e cu f tf pid ok clock s) \<in> {n_db s, d1, updateJobStatus e cu (tf_jobId tf) FAILED d1}"
    by (auto simp: record_start_def Let_def d1_def req_def push_back_def under_lock_def)
  then show "wf_db (n_db (record_start e cu f tf pid ok clock s))" using l assms(1) updateJobStatus_keeps(1) by auto
  assume "locked i (n_db s)"
  then have "locked i d1" using status_keeps_locked [OF assms req _ u] by blast
  then show "locked i (n_db (record_start e cu f tf pid ok clock s))"
    using c \<open>locked i (n_db s)\<close> updateJobStatus_keeps(2) [OF l] by auto
qed

lemma launch_transfer_keeps:
  assumes "launch_transfer e cu f spawn clock c tf s = (s', proc)"
    "wf_db (n_db s)" "tf_jobId tf \<noteq> []" "tf_fileId tf \<noteq> 0"
  shows "wf_db (n_db s')" "locked i (n_db s) \<Longrightarrow> locked i (n_db s')"
  using assms(1) record_start_keeps [OF _ assms(3,4), of "s\<lparr>n_db := updateProtocol ms (n_db s)\<rparr>" for ms]
    protocol_keeps [OF assms(2)] assms(2)
  by (auto simp: launch_transfer_def Let_def split: option.splits if_splits)

lemma run_executor_cases:
  assumes "run_executor x e cu f spawn clock tf proxy s = (s', proc)"
  obtains (idle) "n_db s' = n_db s" "proc = None"
    | (claimed) c d1 go where "tf_fileId tf \<noteq> 0" "claim_transfer e cu f tf (n_db s) = (d1, go)"
        "if go then launch_transfer e cu f spawn clock c tf (s\<lparr>n_db := d1\<rparr>) = (s', proc) else s' = s\<lparr>n_db := d1\<rparr> \<and> proc = None"
  using assms unfolding run_executor_def by (auto split: if_splits sum.splits option.splits prod.splits)

lemma run_executor_locks:
  assumes "run_executor x e cu f spawn clock tf proxy s = (s', proc)" "wf_db (n_db s)" "tf_jobId tf \<noteq> []"
  shows "wf_db (n_db s') \<and> (locked i (n_db s) \<longrightarrow> locked i (n_db s')) \<and>
    (proc \<noteq> None \<longrightarrow> \<not> locked (tf_fileId tf) (n_db s) \<and> locked (tf_fileId tf) (n_db s'))"
  using assms(1)
proof (cases rule: run_executor_cases)
  case (claimed c d1 go)
  note k = claim_transfer_cases [OF assms(2,3) claimed(1,2)]
  show ?thesis
  proof (cases go)
    case True
    then have "launch_transfer e cu f spawn clock c tf (s\<lparr>n_db := d1\<rparr>) = (s', proc)" using claimed(3) by simp
    note l = launch_transfer_keeps [OF this _ assms(3) claimed(1), simplified]
    show ?thesis using k l True by blast
  next
    case False
    then show ?thesis using k claimed(3) by auto
  qed
qed (use assms(2) in simp)

text \<open>
  Any number of workers, of any nodes, that were handed the same file. Each claims, and the one
  that is told to go on launches; the two parts of different workers interleave in any order, and
  every call may fail.
\<close>

datatype phase = Waiting | Holding | Done bool

inductive race_step :: "TransferFile \<Rightarrow> db \<times> (nat \<Rightarrow> phase) \<Rightarrow> db \<times> (nat \<Rightarrow> phase) \<Rightarrow> bool" for tf where
  claim: "ph k = Waiting \<Longrightarrow> claim_transfer e cu f tf d = (d', go)
    \<Longrightarrow> race_step tf (d, ph) (d', ph(k := if go then Holding else Done False))"
| launch: "ph k = Holding \<Longrightarrow> launch_transfer e cu f spawn clock c tf (s\<lparr>n_db := d\<rparr>) = (s', proc)
    \<Longrightarrow> race_step tf (d, ph) (n_db s', ph(k := Done (proc \<noteq> None)))"

inductive race :: "TransferFile \<Rightarrow> db \<Rightarrow> db \<times> (nat \<Rightarrow> phase) \<Rightarrow> bool" for tf d where
  start: "race tf d (d, \<lambda>_. Waiting)"
| step: "race tf d c \<Longrightarrow> race_step tf c c' \<Longrightarrow> race tf d c'"

inductive_cases race_stepE: "race_step tf (d, ph) c"

definition one_holder :: "TransferFile \<Rightarrow> db \<times> (nat \<Rightarrow> phase) \<Rightarrow> bool" where
  "one_holder tf c \<longleftrightarrow> wf_db (fst c) \<and>
     (\<forall>k. snd c k \<in> {Holding, Done True} \<longrightarrow> locked (tf_fileId tf) (fst c) \<and> (\<forall>l. snd c l \<in> {Holding, Done True} \<longrightarrow> l = k))"

lemma race_step_keeps:
  assumes "race_step tf c c'" "tf_jobId tf \<noteq> []" "tf_fileId tf \<noteq> 0" "one_holder tf c"
  shows "one_holder tf c'"
  using assms(1,4)
proof (induction rule: race_step.induct)
  case (claim ph k e cu f d d' go)
  then have wf: "wf_db d" by (simp add: one_holder_def)
  note c = claim_transfer_cases [OF wf assms(2,3) claim(2)]
  have "locked (tf_fileId tf) d'" if "ph l \<in> {Holding, Done True}" for l
    using c(2) claim.prems that by (simp add: one_holder_def) blast
  moreover have "\<not> go" if "ph l \<in> {Holding, Done True}" for l
    using c(3) claim.prems that by (simp add: one_holder_def) blast
  ultimately show ?case using c(1,2) claim.prems by (auto simp: one_holder_def)
next
  case (launch ph k e cu f spawn clock c d s s' proc)
  then have "wf_db (n_db (s\<lparr>n_db := d\<rparr>))" "locked (tf_fileId tf) (n_db (s\<lparr>n_db := d\<rparr>))" by (auto simp: one_holder_def)
  with launch_transfer_keeps [OF launch(2) _ assms(2,3)] have "wf_db (n_db s')" "locked (tf_fileId tf) (n_db s')" by blast+
  moreover have "l = k" if "(ph(k := Done (proc \<noteq> None))) l \<in> {Holding, Done True}" for l
    using launch(1) launch.prems that by (cases "l = k") (auto simp: one_holder_def)
  ultimately show ?case unfolding one_holder_def fst_conv snd_conv by blast
qed

lemma race_one_holder:
  assumes "race tf d c" "tf_jobId tf \<noteq> []" "tf_fileId tf \<noteq> 0" "wf_db d"
  shows "one_holder tf c"
  using assms
proof (induction rule: race.induct)
  case (step c c')
  then show ?case using race_step_keeps by blast
qed (simp add: one_holder_def)

text \<open>A whole run of a worker is a claim, possibly followed by a launch, or nothing.\<close>

lemma run_executor_steps:
  assumes "run_executor x e cu f spawn clock tf proxy s = (s', proc)" "ph k = Waiting"
  shows "n_db s' = n_db s \<and> proc = None \<or>
    (\<exists>c1 c2. race_step tf (n_db s, ph) c1 \<and> (c2 = c1 \<or> race_step tf c1 c2) \<and> c2 = (n_db s', ph(k := Done (proc \<noteq> None))))"
proof -
  from assms(1) show ?thesis
  proof (cases rule: run_executor_cases)
    case (claimed c d1 go)
    let ?c1 = "(d1, ph(k := if go then Holding else Done False))"
    have st: "race_step tf (n_db s, ph) ?c1" using assms(2) claimed(2) by (rule race_step.claim)
    show ?thesis
    proof (cases go)
      case True
      then have "launch_transfer e cu f spawn clock c tf (s\<lparr>n_db := d1\<rparr>) = (s', proc)" using claimed(3) by simp
      moreover have "(ph(k := Holding)) k = Holding" by simp
      ultimately have "race_step tf (d1, ph(k := Holding)) (n_db s', (ph(k := Holding))(k := Done (proc \<noteq> None)))"
        by (intro race_step.launch)
      then show ?thesis using st True by (intro disjI2 exI conjI) simp_all
    next
      case False
      then have "?c1 = (n_db s', ph(k := Done (proc \<noteq> None)))" using claimed(3) by simp
      then show ?thesis using st by blast
    qed
  qed simp
qed

text \<open>
  C29: a file is started once. However many workers, of however many servers, were handed a file,
  and however their steps interleave and their calls fail, at most one of them starts a transfer
  process for it.
\<close>

theorem one_worker_starts:
  assumes "race tf d (d', ph)" "tf_jobId tf \<noteq> []" "tf_fileId tf \<noteq> 0" "wf_db d" "ph i = Done True" "ph j = Done True"
  shows "i = j"
  using race_one_holder [OF assms(1-4)] assms(5,6) unfolding one_holder_def snd_conv by blast

definition sample_work :: TransferFile where
  "sample_work = sample_transfer 4 ''k'' ''root://src'' ''root://dst'' ''atlas''"

lemma sample_work_ids: "tf_jobId sample_work = ''k''" "tf_fileId sample_work = 4"
  by (simp_all add: sample_work_def sample_transfer_def)

lemma sample_work_claim:
  "\<exists>d'. claim_transfer sample_env True (\<lambda>_. False) sample_work (sample_status_db kTypeRegular) = (d', True)"
proof -
  have "\<exists>d1. updateTransferStatus sample_env ''k'' 4 READY (status_report 0 []) (sample_status_db kTypeRegular) = (d1, True, None)"
    unfolding updateTransferStatus_def
    using updateFileTransferStatus_eq [of "''k''" 4 "status_report 0 []" "sample_status_db kTypeRegular" "''k''" 4
        "sample_job ''k'' None J_SUBMITTED" "sample_file 4 ''k'' 0 SUBMITTED" READY READY sample_env]
    by (simp add: resolve_ids_def sample_status_db_def job_by_id_def file_by_id_def status_refused_def)
  then show ?thesis by (auto simp: claim_transfer_def sample_work_ids)
qed

theorem one_worker_starts_witness:
  "\<exists>d' ph. race sample_work (sample_status_db kTypeRegular) (d', ph) \<and> ph 0 = Done True \<and> (\<forall>j. ph j = Done True \<longrightarrow> j = 0)"
proof -
  obtain d1 where d1: "claim_transfer sample_env True (\<lambda>_. False) sample_work (sample_status_db kTypeRegular) = (d1, True)"
    using sample_work_claim ..
  define ph1 :: "nat \<Rightarrow> phase" where "ph1 = (\<lambda>_. Waiting)(0 := Holding)"
  have r1: "race sample_work (sample_status_db kTypeRegular) (d1, ph1)"
    using race.step [OF race.start race_step.claim [of "\<lambda>_. Waiting" 0, OF _ d1]] by (simp add: ph1_def)
  obtain s' proc where l: "launch_transfer sample_env True (\<lambda>_. False) (77, True) 0 new_UrlCopyCmd sample_work
      (sample_node\<lparr>n_db := d1\<rparr>) = (s', proc)" by (metis prod.exhaust)
  have "ph1 0 = Holding" by (simp add: ph1_def)
  define ph2 where "ph2 = ph1(0 := Done (proc \<noteq> None))"
  have r2: "race sample_work (sample_status_db kTypeRegular) (n_db s', ph2)"
    unfolding ph2_def by (rule race.step [OF r1], rule race_step.launch, fact, rule l)
  have "proc \<noteq> None" using l by (auto simp: launch_transfer_def option_int_def new_UrlCopyCmd_def om_find_def Let_def)
  then have zero: "ph2 0 = Done True" by (simp add: ph2_def)
  have "tf_jobId sample_work \<noteq> []" "tf_fileId sample_work \<noteq> 0" by (simp_all add: sample_work_ids)
  then have "\<forall>j. ph2 j = Done True \<longrightarrow> j = 0"
    using one_worker_starts [OF r2 _ _ sample_status_wf _ zero] by blast
  with r2 zero show ?thesis by (intro exI conjI)
qed

end
