(* ===== verification/StartTransfers.thy ===== *)
theory StartTransfers
  imports TransfersService Scheduler FileTransferExecutor
begin

section \<open>A turn of the transfer services\<close>

text \<open>
  The rest of \<^verbatim>\<open>src/server/services/transfers/TransfersService.cpp\<close>: a whole turn, from the queues in
  the database to the processes it starts, and the service for transfers that are started by
  force (\<^verbatim>\<open>ForceStartTransfersService.cpp\<close>).

  \<^item> \<open>turn_env\<close> holds what the turn takes from outside: the counts of running processes, the
    outcomes of the random choices, the time of each query, the credentials, and what each worker
    meets.
  \<^item> The workers of \<^verbatim>\<open>src/common/ThreadPool.h\<close> run one after the other, in the order \<open>te_order\<close>: all
    of them when the turn goes through, and some of them when an exception destroys the pool,
    which drops the tasks nobody has taken yet. Theory FileTransferExecutor treats the interleaving.
  \<^item> The queries of the turn see the same database; changes by other nodes in between are not
    modelled, nor is the interruption of the thread.
  \<^item> The result carries the node, the processes started and whether the turn ended in an exception.
\<close>

record turn_env =
  te_exec :: exec_env
  te_env :: env
  te_cancelUnused :: bool
  te_faults :: "TransferFile \<Rightarrow> exec_faults"
  te_spawn :: "TransferFile \<Rightarrow> int \<times> bool"
  te_clock :: nat
  te_proxy :: "string \<Rightarrow> string \<Rightarrow> string option"
  te_maxUrlCopy :: int
  te_count_first :: int
  te_count_then :: int
  te_shuffle :: "QueueId list \<Rightarrow> QueueId list"
  te_draw :: "link \<Rightarrow> real list \<Rightarrow> nat"
  te_unschedulable :: scheduler_env
  te_ready :: scheduler_env
  te_order :: "bool \<Rightarrow> (TransferFile \<times> string) list \<Rightarrow> (TransferFile \<times> string) list"

type_synonym process = "TransferFile \<times> int \<times> string list"

fun run_pool :: "turn_env \<Rightarrow> (TransferFile \<times> string) list \<Rightarrow> node \<Rightarrow> node \<times> process list" where
  "run_pool te [] s = (s, [])"
| "run_pool te ((tf, proxy) # ws) s =
     (case run_executor (te_exec te) (te_env te) (te_cancelUnused te) (te_faults te tf) (te_spawn te tf) (te_clock te) tf proxy s of
        (s1, started1) \<Rightarrow>
          (case run_pool te ws s1 of
             (s2, ps) \<Rightarrow> (s2, (case started1 of None \<Rightarrow> ps | Some pa \<Rightarrow> (tf, pa) # ps))))"

subsection \<open>The regular turn\<close>

definition getFiles :: "turn_env \<Rightarrow> QueueId list \<Rightarrow> node \<Rightarrow> (node \<times> process list \<times> bool) option" where
  "getFiles te queues s =
     (if queues = [] then Some (s, [], False)
      else case getReadyTransfers (te_ready te) (n_db s) queues [] of
        Inl _ \<Rightarrow> Some (s, [], True)
      | Inr voQueues \<Rightarrow>
          if voQueues = [] then Some (s, [], False)
          else
            map_option
              (\<lambda>sch. let (s1, ps) = run_pool te (te_order te (threw sch) (started sch)) s in (s1, ps, threw sch))
              (schedule_loop (te_proxy te)
                 (new_scheduling (new_TransferFileHandler voQueues) (te_maxUrlCopy te - te_count_then te) (slots_left (n_db s) queues))))"

definition no_share_reason :: string where
  "no_share_reason = ''No share configured for this VO''"

definition unschedulable_message :: "nat \<Rightarrow> TransferFile \<Rightarrow> Message" where
  "unschedulable_message clock tf =
     \<lparr>m_job_id = tf_jobId tf, m_file_id = tf_fileId tf, m_status = Status FAILED, m_message = no_share_reason, m_process_id = 0,
      m_time_in_secs = 0, m_filesize = 0, m_nostreams = 0, m_timeout = 0, m_buffersize = 0, m_timestamp = clock, m_retry = False,
      m_throughput = 0, m_errcode = EPERM, m_file_metadata = [], m_log_path = []\<rparr>"

definition failUnschedulable :: "turn_env \<Rightarrow> QueueId list \<Rightarrow> node \<Rightarrow> node \<times> bool" where
  "failUnschedulable te unschedulable s =
     (case getReadyTransfers (te_unschedulable te) (n_db s) unschedulable [] of
        Inl _ \<Rightarrow> (s, True)
      | Inr voQueues \<Rightarrow>
          (fold (\<lambda>tf. runProducerStatus (unschedulable_message (te_clock te) tf)) (concat (map snd voQueues)) s, False))"

definition executeUrlcopy :: "turn_env \<Rightarrow> node \<Rightarrow> (node \<times> process list \<times> bool) option" where
  "executeUrlcopy te s =
     (if te_maxUrlCopy te - te_count_first te \<le> 0 then Some (s, [], False)
      else
        let (queues, unschedulable) = applyVoShares (te_draw te) (n_db s) (te_shuffle te (getQueuesWithPending (n_db s)));
            (s1, failed) = failUnschedulable te unschedulable s
        in if failed then Some (s1, [], True)
           else if queues = [] then Some (s1, [], False)
           else getFiles te queues s1)"

text \<open>A turn of \<^verbatim>\<open>runService\<close>; nothing is started in drain mode.\<close>

definition transfers_turn :: "bool \<Rightarrow> turn_env \<Rightarrow> node \<Rightarrow> (node \<times> process list \<times> bool) option" where
  "transfers_turn drain te s = (if drain then Some (s, [], False) else executeUrlcopy te s)"

subsection \<open>Forced starts\<close>

fun force_loop ::
  "(string \<Rightarrow> string \<Rightarrow> string option) \<Rightarrow> int \<Rightarrow> (string \<times> string \<Rightarrow> string option) \<Rightarrow> TransferFile list
     \<Rightarrow> (TransferFile \<times> string) list \<times> bool" where
  "force_loop getProxyFile n known [] = ([], False)"
| "force_loop getProxyFile n known (tf # tfs) =
     (if tf_fileId tf = 0 \<or> tf_userDn tf = [] \<or> tf_credId tf = [] then force_loop getProxyFile n known tfs
      else
        let key = (tf_credId tf, tf_userDn tf);
            found = (case known key of Some p \<Rightarrow> Some p | None \<Rightarrow> getProxyFile (tf_userDn tf) (tf_credId tf))
        in (case found of
              None \<Rightarrow> ([], True)
            | Some proxy \<Rightarrow>
                if n - 1 \<le> 0 then ([(tf, proxy)], False)
                else (case force_loop getProxyFile (n - 1) (known(key \<mapsto> proxy)) tfs of (ws, thrown1) \<Rightarrow> ((tf, proxy) # ws, thrown1))))"

definition forceRunJobs :: "turn_env \<Rightarrow> node \<Rightarrow> node \<times> process list" where
  "forceRunJobs te s =
     (let available = te_maxUrlCopy te - te_count_first te in
      if available \<le> 0 then (s, [])
      else case getForceStartTransfers (n_db s) of
        Inl _ \<Rightarrow> (s, [])
      | Inr tfs \<Rightarrow>
          (case force_loop (te_proxy te) available Map.empty tfs of (ws, thrown1) \<Rightarrow> run_pool te (te_order te thrown1 ws) s))"

definition force_turn :: "bool \<Rightarrow> turn_env \<Rightarrow> node \<Rightarrow> node \<times> process list" where
  "force_turn isLeadNode te s = (if isLeadNode then forceRunJobs te s else (s, []))"

subsection \<open>The slots of the storages\<close>

definition storages :: "QueueId list \<Rightarrow> string set" where
  "storages qs = q_sourceSe ` set qs \<union> q_destSe ` set qs"

definition inbound_left :: "db \<Rightarrow> QueueId list \<Rightarrow> string \<Rightarrow> int" where
  "inbound_left d qs se = slot_limit (sg_inboundMaxActive (getStorageConfig se d)) - (\<Sum>q \<leftarrow> filter (\<lambda>q. q_destSe q = se) qs. int (q_activeCount q))"

definition outbound_left :: "db \<Rightarrow> QueueId list \<Rightarrow> string \<Rightarrow> int" where
  "outbound_left d qs se = slot_limit (sg_outboundMaxActive (getStorageConfig se d)) - (\<Sum>q \<leftarrow> filter (\<lambda>q. q_sourceSe q = se) qs. int (q_activeCount q))"

lemma no_queue:
  "se \<notin> q_destSe ` set qs \<Longrightarrow> filter (\<lambda>q. q_destSe q = se) qs = []" "se \<notin> q_sourceSe ` set qs \<Longrightarrow> filter (\<lambda>q. q_sourceSe q = se) qs = []"
  by (auto simp: filter_empty_conv)

lemma slots_left_eq:
  "slots_left d qs =
     (\<lambda>se. if se \<in> storages qs then Some (inbound_left d qs se) else None, \<lambda>se. if se \<in> storages qs then Some (outbound_left d qs se) else None)"
proof (induction qs rule: rev_induct)
  case (snoc q qs)
  have "slots_left d (qs @ [q]) = count_queue d q (slots_left d qs)" by (simp add: slots_left_def)
  also have "\<dots> = (\<lambda>se. if se \<in> storages (qs @ [q]) then Some (inbound_left d (qs @ [q]) se) else None,
      \<lambda>se. if se \<in> storages (qs @ [q]) then Some (outbound_left d (qs @ [q]) se) else None)"
    unfolding snoc.IH
    by (auto simp: count_queue_def fill_storage_def subtract_def storages_def inbound_left_def outbound_left_def or_default_def no_queue Let_def fun_eq_iff)
  finally show ?case .
qed (simp add: slots_left_def storages_def)

subsection \<open>The workers of a turn\<close>

lemma run_pool_locks:
  assumes "run_pool te ws s = (s', ps)" "wf_db (n_db s)" "\<forall>w \<in> set ws. tf_jobId (fst w) \<noteq> []"
  shows "wf_db (n_db s') \<and> (\<forall>i. locked i (n_db s) \<longrightarrow> locked i (n_db s')) \<and> distinct (map (\<lambda>p. tf_fileId (fst p)) ps) \<and>
    (\<forall>p \<in> set ps. \<not> locked (tf_fileId (fst p)) (n_db s) \<and> locked (tf_fileId (fst p)) (n_db s'))"
  using assms
proof (induction ws arbitrary: s s' ps)
  case (Cons w ws)
  obtain tf proxy where w: "w = (tf, proxy)" by fastforce
  obtain s1 started1 where r: "run_executor (te_exec te) (te_env te) (te_cancelUnused te) (te_faults te tf) (te_spawn te tf) (te_clock te) tf proxy s
      = (s1, started1)" by fastforce
  obtain qs where q: "run_pool te ws s1 = (s', qs)" and ps: "ps = (case started1 of None \<Rightarrow> qs | Some pa \<Rightarrow> (tf, pa) # qs)"
    using Cons.prems(1) by (auto simp: w r split: prod.splits)
  have l: "wf_db (n_db s1)" "\<And>i. locked i (n_db s) \<Longrightarrow> locked i (n_db s1)"
    "started1 \<noteq> None \<Longrightarrow> \<not> locked (tf_fileId tf) (n_db s) \<and> locked (tf_fileId tf) (n_db s1)"
    using run_executor_locks [OF r] Cons.prems(2,3) by (auto simp: w)
  have "\<forall>w \<in> set ws. tf_jobId (fst w) \<noteq> []" using Cons.prems(3) by simp
  note IH = Cons.IH [OF q l(1) this]
  show ?case
  proof (cases started1)
    case None
    then show ?thesis using IH l(2) ps by auto
  next
    case (Some pa)
    then have taken: "\<not> locked (tf_fileId tf) (n_db s)" "locked (tf_fileId tf) (n_db s1)" using l(3) by simp_all
    then have "tf_fileId tf \<notin> (\<lambda>p. tf_fileId (fst p)) ` set qs" using IH by auto
    then show ?thesis using IH l(2) ps Some taken by auto
  qed
qed simp

lemma run_pool_subset: "mset (map fst (snd (run_pool te ws s))) \<subseteq># mset (map fst ws)"
proof (induction ws arbitrary: s)
  case (Cons w ws)
  obtain tf proxy where w: "w = (tf, proxy)" by fastforce
  obtain s1 started1 where r: "run_executor (te_exec te) (te_env te) (te_cancelUnused te) (te_faults te tf) (te_spawn te tf) (te_clock te) tf proxy s
      = (s1, started1)" by fastforce
  show ?case using Cons.IH [of s1]
    by (cases started1) (auto simp: w r subseteq_mset_def le_SucI split: prod.split)
qed simp

lemma subset_count: "mset xs \<subseteq># mset ys \<Longrightarrow> length (filter P xs) \<le> length (filter P ys)"
  by (metis multiset_filter_mono mset_filter size_mset size_mset_mono)

subsection \<open>What a turn may start\<close>

definition on_link :: "string \<Rightarrow> string \<Rightarrow> TransferFile \<Rightarrow> bool" where
  "on_link src dst tf \<longleftrightarrow> tf_sourceSe tf = src \<and> tf_destSe tf = dst"

text \<open>
  The contract of a turn on the database \<open>d\<close> for the queues \<open>queues\<close>: no more processes than free
  slots for agents, no file twice, only files that were ready in one of the queues, no more on a
  link than the optimizer allows on top of what is active there, and no more into or out of a
  storage than its limit less the transfers that the queues count as active.
\<close>

definition within_limits :: "turn_env \<Rightarrow> db \<Rightarrow> QueueId list \<Rightarrow> process list \<Rightarrow> bool" where
  "within_limits te d queues ps \<longleftrightarrow>
     int (length ps) \<le> max 0 (te_maxUrlCopy te - te_count_then te) \<and>
     distinct (map (\<lambda>p. tf_fileId (fst p)) ps) \<and>
     (\<forall>p \<in> set ps. \<exists>q \<in> set queues. ready_file (te_ready te) d q (fst p)) \<and>
     (\<forall>src dst m. optimizer_active src dst d = Some (Some m) \<and> 0 < m \<longrightarrow>
        int (length (filter (\<lambda>p. on_link src dst (fst p)) ps)) \<le> max 0 (m - getActiveCount src dst d)) \<and>
     (\<forall>se. int (length (filter (\<lambda>p. tf_destSe (fst p) = se) ps)) \<le> max 0 (inbound_left d queues se) \<and>
           int (length (filter (\<lambda>p. tf_sourceSe (fst p) = se) ps)) \<le> max 0 (outbound_left d queues se))"

lemma within_limits_none: "within_limits te d queues []"
  by (simp add: within_limits_def)

text \<open>What is relied on of the random choices and of the pool of workers.\<close>

definition fair_turn :: "turn_env \<Rightarrow> bool" where
  "fair_turn te \<longleftrightarrow> fair_choices (te_ready te) \<and> draws_positive (te_draw te) \<and> (\<forall>qs. set (te_shuffle te qs) = set qs) \<and>
     (\<forall>b ws. mset (te_order te b ws) \<subseteq># mset ws)"

lemma count_processes:
  assumes "mset (map fst ps) \<subseteq># mset (map fst ws)"
  shows "length (filter (\<lambda>p. P (fst p)) ps) \<le> length (filter (\<lambda>w. P (fst w)) ws)"
  using subset_count [OF assms, of P] by (simp add: filter_map comp_def)

lemma getFiles_within_limits:
  assumes "fair_turn te" "wf_db (n_db s)" "\<forall>r \<in> set (t_file (n_db s)). f_job_id r \<noteq> []" "distinct (map queue_link queues)"
  shows "\<exists>s' ps thrown1. getFiles te queues s = Some (s', ps, thrown1) \<and> within_limits te (n_db s) queues ps"
proof (cases "\<exists>files. queues \<noteq> [] \<and> getReadyTransfers (te_ready te) (n_db s) queues [] = Inr files \<and> files \<noteq> []")
  case False
  then show ?thesis by (auto simp: getFiles_def within_limits_none split: sum.split)
next
  case True
  then obtain files where files: "queues \<noteq> []" "getReadyTransfers (te_ready te) (n_db s) queues [] = Inr files" "files \<noteq> []" by blast
  have fair: "fair_choices (te_ready te)" using assms(1) by (simp add: fair_turn_def)
  have ne: "\<forall>vf \<in> set files. snd vf \<noteq> []" using files(2) fair by (rule getReadyTransfers_result)
  let ?available = "te_maxUrlCopy te - te_count_then te" and ?ds = "slots_left (n_db s) queues"
  have "handler_inv (new_TransferFileHandler files)" using new_handler(1,2) [OF ne] by (simp add: handler_inv_def)
  then obtain sch where sch: "schedule_loop (te_proxy te) (new_scheduling (new_TransferFileHandler files) ?available ?ds) = Some sch"
    by (rule schedule_loop_result)
  define ws where "ws = te_order te (threw sch) (started sch)"
  obtain s' ps where run: "run_pool te ws s = (s', ps)" by fastforce
  have res: "getFiles te queues s = Some (s', ps, threw sch)" using files sch run by (simp add: getFiles_def ws_def)
  have ws: "mset ws \<subseteq># mset (started sch)" using assms(1) by (simp add: fair_turn_def ws_def)
  have ps: "mset (map fst ps) \<subseteq># mset (map fst (started sch))"
    using run_pool_subset [of te ws s] image_mset_subseteq_mono [OF ws, of fst] run by (simp add: subset_mset.order_trans)
  have "schedule_loop (te_proxy te) (new_scheduling (new_TransferFileHandler files) ?available (fst ?ds, snd ?ds)) = Some sch"
    using sch by simp
  note st = started_facts [OF ne this]
  have from_files: "mset (map fst (started sch)) \<subseteq># all_files files" using st(5) by (simp add: all_files_def)
  have ready: "\<exists>q \<in> set queues. ready_file (te_ready te) (n_db s) q tf" if "tf \<in># mset (map fst (started sch))" for tf
    using ready_from_queue [OF files(2) fair] mset_subset_eqD [OF from_files that] .
  have jobs: "\<forall>w \<in> set ws. tf_jobId (fst w) \<noteq> []"
    using ready assms(3) mset_subset_eqD [OF ws] by (force simp: ready_file_def)
  have "int (length ps) \<le> max 0 ?available"
    using st(1) count_processes [OF ps, of "\<lambda>_. True"] by simp
  moreover have "distinct (map (\<lambda>p. tf_fileId (fst p)) ps)" using run_pool_locks [OF run assms(2) jobs] by blast
  moreover have "\<exists>q \<in> set queues. ready_file (te_ready te) (n_db s) q (fst p)" if "p \<in> set ps" for p
    using ready mset_subset_eqD [OF ps, of "fst p"] that by simp
  moreover have "int (length (filter (\<lambda>p. on_link src dst (fst p)) ps)) \<le> max 0 (m - getActiveCount src dst (n_db s))"
    if "optimizer_active src dst (n_db s) = Some (Some m)" "0 < m" for src dst m
  proof -
    have "size (filter_mset (on_link src dst) (mset (map fst ps))) \<le> size (filter_mset (on_link src dst) (all_files files))"
      by (rule size_mset_mono, rule multiset_filter_mono) (rule subset_mset.order_trans [OF ps from_files])
    moreover have "size (filter_mset (on_link src dst) (all_files files)) = size (filter_mset (\<lambda>tf. (tf_sourceSe tf, tf_destSe tf) = (src, dst)) (all_files files))"
      by (rule arg_cong [where f = size], rule filter_mset_cong) (auto simp: on_link_def)
    moreover have "length (filter (\<lambda>p. on_link src dst (fst p)) ps) = size (filter_mset (on_link src dst) (mset (map fst ps)))"
      by (simp only: mset_filter [symmetric] size_mset filter_map length_map comp_def)
    ultimately show ?thesis using ready_link_limit [OF files(2) fair assms(4) that] by linarith
  qed
  moreover have "int (length (filter (\<lambda>p. tf_destSe (fst p) = se) ps)) \<le> max 0 (inbound_left (n_db s) queues se) \<and>
      int (length (filter (\<lambda>p. tf_sourceSe (fst p) = se) ps)) \<le> max 0 (outbound_left (n_db s) queues se)" for se
    using st(2,3) [of se] count_processes [OF ps, of "\<lambda>tf. tf_destSe tf = se"] count_processes [OF ps, of "\<lambda>tf. tf_sourceSe tf = se"]
    by (simp add: slots_left_eq slot_at_def or_default_def to_dest_def from_source_def split: if_splits)
  ultimately show ?thesis unfolding within_limits_def using res by blast
qed

lemma failUnschedulable_db: "n_db (fst (failUnschedulable te qs s)) = n_db s"
proof -
  have "n_db (fold (\<lambda>tf. runProducerStatus (unschedulable_message (te_clock te) tf)) tfs s) = n_db s" for tfs s
    by (induction tfs arbitrary: s) (simp_all add: runProducerStatus_def)
  then show ?thesis by (simp add: failUnschedulable_def split: sum.split)
qed

text \<open>
  C31: a turn of the service keeps within every limit. On a well-formed database, for any outcome
  of the random choices, any failures of the calls and any order of the workers, the turn ends;
  in drain mode, or when the processes already are as many as allowed, nothing is started; the
  queues it chooses are one for each link, of a VO with a positive weight; and the processes it
  starts are within the slots for agents, within what the optimizer allows on each link and
  within the slots of each storage, each for a different file that was ready in a chosen queue.
\<close>

theorem turn_within_limits:
  assumes "fair_turn te" "wf_db (n_db s)" "\<forall>r \<in> set (t_file (n_db s)). f_job_id r \<noteq> []" "\<forall>c \<in> set (t_share_config (n_db s)). 0 \<le> sc_active c"
  shows "\<exists>s' ps thrown1 chosen. transfers_turn drain te s = Some (s', ps, thrown1) \<and>
    (drain \<or> te_maxUrlCopy te \<le> te_count_first te \<longrightarrow> s' = s \<and> ps = []) \<and>
    distinct (map queue_link chosen) \<and> within_limits te (n_db s) chosen ps \<and>
    (\<forall>q \<in> set chosen. q \<in> set (getQueuesWithPending (n_db s)) \<and>
       0 < queue_weight (n_db s) (te_shuffle te (getQueuesWithPending (n_db s))) q)"
proof (cases "drain \<or> te_maxUrlCopy te \<le> te_count_first te")
  case True
  then show ?thesis
    by (intro exI [of _ s] exI [of _ "[]"] exI [of _ False] exI [of _ "[]"]) (auto simp: transfers_turn_def executeUrlcopy_def within_limits_none)
next
  case False
  let ?qs = "te_shuffle te (getQueuesWithPending (n_db s))"
  obtain chosen uns where c: "applyVoShares (te_draw te) (n_db s) ?qs = (chosen, uns)" by fastforce
  obtain s1 failed where f: "failUnschedulable te uns s = (s1, failed)" by fastforce
  have d: "n_db s1 = n_db s" using failUnschedulable_db [of te uns s] f by simp
  have facts: "distinct (map queue_link chosen)" "\<forall>q \<in> set chosen. q \<in> set (getQueuesWithPending (n_db s)) \<and> 0 < queue_weight (n_db s) ?qs q"
    using applyVoShares_facts(1,2) [OF _ assms(4) c] assms(1) by (auto simp: fair_turn_def)
  have turn: "transfers_turn drain te s =
      (if failed then Some (s1, [], True) else if chosen = [] then Some (s1, [], False) else getFiles te chosen s1)"
    using False by (simp add: transfers_turn_def executeUrlcopy_def c f)
  obtain s' ps thrown1 where g: "getFiles te chosen s1 = Some (s', ps, thrown1)" "within_limits te (n_db s) chosen ps"
    using getFiles_within_limits [of te s1 chosen] assms(1-3) facts(1) by (auto simp: d)
  show ?thesis
  proof (cases "failed \<or> chosen = []")
    case True
    then show ?thesis using False facts turn within_limits_none by auto
  next
    case going: False
    then have "transfers_turn drain te s = Some (s', ps, thrown1)" using turn g(1) by simp
    then show ?thesis using False facts g(2) by blast
  qed
qed

definition sample_turn :: turn_env where
  "sample_turn =
     \<lparr>te_exec =
        \<lparr>x_json = (\<lambda>_ _. None), x_authMethod = (\<lambda>_. None), x_cloudConfig = (\<lambda>_ _. Some []), x_oauthConfig = (\<lambda>_. Some []),
         x_retrieveSEToken = False, x_pingInterval = 60, x_monitoringMsg = True, x_infosys = [], x_ftsHostName = ''fts3'',
         x_logsDir = ''/log'', x_msgDir = ''/msg''\<rparr>,
      te_env = sample_env, te_cancelUnused = True, te_faults = (\<lambda>_ _. False), te_spawn = (\<lambda>tf. (int (tf_fileId tf) + 100, True)),
      te_clock = 0, te_proxy = (\<lambda>u c. Some ''/tmp/x509''), te_maxUrlCopy = 10, te_count_first = 4, te_count_then = 8,
      te_shuffle = (\<lambda>qs. qs), te_draw = first_positive, te_unschedulable = sample_sv, te_ready = sample_sv, te_order = (\<lambda>b ws. ws)\<rparr>"

definition sample_turn_db :: db where
  "sample_turn_db = sample_ready_db [sample_job ''j'' (Some kTypeRegular) J_ACTIVE, sample_job ''k'' (Some kTypeMultiHop) J_SUBMITTED] []"

theorem turn_within_limits_witness:
  "\<exists>s' ps thrown1 chosen. transfers_turn False sample_turn (sample_node\<lparr>n_db := sample_turn_db\<rparr>) = Some (s', ps, thrown1) \<and>
     distinct (map queue_link chosen) \<and> within_limits sample_turn sample_turn_db chosen ps \<and> length ps \<le> 2"
proof -
  have fair: "fair_turn sample_turn" using sample_sv_fair first_positive by (simp add: fair_turn_def sample_turn_def)
  have db: "wf_db sample_turn_db" "\<forall>r \<in> set (t_file sample_turn_db). f_job_id r \<noteq> []" "\<forall>c \<in> set (t_share_config sample_turn_db). 0 \<le> sc_active c"
    by (simp_all add: sample_turn_db_def sample_ready_db_def sample_db_def wf_db_def)
  obtain s' ps thrown1 chosen where r: "transfers_turn False sample_turn (sample_node\<lparr>n_db := sample_turn_db\<rparr>) = Some (s', ps, thrown1)"
    "distinct (map queue_link chosen)" "within_limits sample_turn sample_turn_db chosen ps"
    using turn_within_limits [OF fair, of "sample_node\<lparr>n_db := sample_turn_db\<rparr>" False] db by auto
  then have "length ps \<le> 2" by (simp add: within_limits_def sample_turn_def)
  with r show ?thesis by blast
qed

subsection \<open>Files without a share, and forced starts\<close>

text \<open>
  The files of a VO without a share are reported as failed, once each and without a retry, and
  nothing else changes.
\<close>

lemma failUnschedulable_reports:
  assumes "getReadyTransfers (te_unschedulable te) (n_db s) qs [] = Inr voQueues"
  shows "failUnschedulable te qs s =
    (s\<lparr>n_spool := n_spool s @ map (unschedulable_message (te_clock te)) (concat (map snd voQueues))\<rparr>, False)"
proof -
  have "fold (\<lambda>tf. runProducerStatus (unschedulable_message (te_clock te) tf)) tfs s =
      s\<lparr>n_spool := n_spool s @ map (unschedulable_message (te_clock te)) tfs\<rparr>" for tfs s
    by (induction tfs arbitrary: s) (simp_all add: runProducerStatus_def)
  then show ?thesis using assms by (simp add: failUnschedulable_def)
qed

lemma force_loop_length: "0 < n \<Longrightarrow> int (length (fst (force_loop gp n known tfs))) \<le> n"
proof (induction gp n known tfs rule: force_loop.induct)
  case (2 gp n known tf tfs)
  show ?case
  proof (cases "tf_fileId tf = 0 \<or> tf_userDn tf = [] \<or> tf_credId tf = []")
    case True
    then show ?thesis using 2 by auto
  next
    case False
    define found where "found = (case known (tf_credId tf, tf_userDn tf) of Some p \<Rightarrow> Some p | None \<Rightarrow> gp (tf_userDn tf) (tf_credId tf))"
    show ?thesis
    proof (cases "found = None \<or> n - 1 \<le> 0")
      case True
      then show ?thesis using False \<open>0 < n\<close> by (auto simp: found_def [symmetric] split: option.split)
    next
      case False2: False
      then obtain proxy where p: "found = Some proxy" by auto
      obtain ws b where l: "force_loop gp (n - 1) (known((tf_credId tf, tf_userDn tf) \<mapsto> proxy)) tfs = (ws, b)" by fastforce
      have "int (length (fst (force_loop gp (n - 1) (known((tf_credId tf, tf_userDn tf) \<mapsto> proxy)) tfs))) \<le> n - 1"
        using 2(2) [OF False refl found_def p] False2 by (simp add: fun_upd_def)
      then show ?thesis using False False2 p l by (simp add: found_def [symmetric])
    qed
  qed
qed simp

lemma force_within_slots:
  assumes "fair_turn te" "forceRunJobs te s = (s', ps)"
  shows "int (length ps) \<le> max 0 (te_maxUrlCopy te - te_count_first te)"
proof (cases "te_maxUrlCopy te - te_count_first te \<le> 0 \<or> isl (getForceStartTransfers (n_db s))")
  case True
  then show ?thesis using assms(2) by (auto simp: forceRunJobs_def Let_def isl_def split: if_splits)
next
  case False
  let ?n = "te_maxUrlCopy te - te_count_first te"
  obtain tfs where tfs: "getForceStartTransfers (n_db s) = Inr tfs" using False by (cases "getForceStartTransfers (n_db s)") auto
  obtain ws b where ws: "force_loop (te_proxy te) ?n Map.empty tfs = (ws, b)" by fastforce
  have "run_pool te (te_order te b ws) s = (s', ps)" using assms(2) False by (simp add: forceRunJobs_def tfs ws)
  then have "length ps \<le> length (te_order te b ws)" using run_pool_subset [of te "te_order te b ws" s] size_mset_mono by fastforce
  also have "\<dots> \<le> length ws" using assms(1) size_mset_mono [of "mset (te_order te b ws)" "mset ws"] by (simp add: fair_turn_def)
  finally show ?thesis using force_loop_length [of ?n "te_proxy te" Map.empty tfs] ws False by simp
qed

end
