(* ===== verification/UrlCopyOpts.thy ===== *)
theory UrlCopyOpts
  imports UrlCopyCmd "HOL-Library.Word" Complex_Main
begin

section \<open>The options of a transfer process\<close>

text \<open>
  The agent's side of the command line: \<^verbatim>\<open>src/url-copy/UrlCopyOpts.cpp\<close>, with \<^verbatim>\<open>Transfer.h\<close>,
  \<^verbatim>\<open>UrlCopyError.h\<close> and the metadata helper of \<^verbatim>\<open>heuristics.cpp\<close>.

  \<^item> \<open>getopts\<close> is \<^verbatim>\<open>getopt_long_only\<close> of the C library, as the sequence of what it returns: an
    exact name, or the only option that starts with the name; one or two dashes; words that are
    no options are skipped; the value \<open>63\<close> (\<^verbatim>\<open>'?'\<close>) stands for an error.
  \<^item> Leaving the process is \<open>Inl (Exit n)\<close>. A line of the bulk file with more than nine words is
    copied beyond the end of an array: \<open>Inl Undefined\<close>.
  \<^item> The contents of the bulk file are an argument. The transfer types of gfal2 are a data type;
    no type (the empty string) is \<open>None\<close>.
\<close>

datatype agent_exit = Exit int | Undefined

datatype Checksum_mode = CHECKSUM_NONE | CHECKSUM_SOURCE | CHECKSUM_TARGET | CHECKSUM_BOTH

datatype gfal_transfer_type = GFAL_TRANSFER_TYPE_PULL | GFAL_TRANSFER_TYPE_PUSH | GFAL_TRANSFER_TYPE_STREAMED

record UrlCopyError =
  e_scope :: string
  e_phase :: string
  e_code :: int
  e_msg :: string

datatype IPver = UNKNOWN | IPv4 | IPv6

text \<open>Times are milliseconds, an interval is its start and its end.\<close>

type_synonym interval = "64 word \<times> 64 word"

record Statistics =
  st_transfer :: interval
  st_sourceChecksum :: interval
  st_destChecksum :: interval
  st_srmPreparation :: interval
  st_srmFinalization :: interval
  st_elapsedAtPerf :: "64 word"
  st_process :: interval
  st_ipver :: IPver
  st_evictionRetc :: int
  st_cleanupRetc :: int
  st_finalDestination :: string
  st_transferType :: string

definition new_Statistics :: Statistics where
  "new_Statistics =
     \<lparr>st_transfer = (0, 0), st_sourceChecksum = (0, 0), st_destChecksum = (0, 0), st_srmPreparation = (0, 0), st_srmFinalization = (0, 0),
      st_elapsedAtPerf = 0, st_process = (0, 0), st_ipver = UNKNOWN, st_evictionRetc = -1, st_cleanupRetc = -1, st_finalDestination = [],
      st_transferType = []\<rparr>"

record Transfer =
  tr_jobId :: job_id
  tr_fileId :: "64 word"
  tr_source :: Uri
  tr_destination :: Uri
  tr_checksumAlgorithm :: string
  tr_checksumValue :: string
  tr_userFileSize :: "64 word"
  tr_activity :: string
  tr_fileMetadata :: string
  tr_transferMetadata :: string
  tr_tokenBringOnline :: string
  tr_sourceTokenDescription :: string
  tr_destTokenDescription :: string
  tr_sourceTokenIssuer :: string
  tr_destTokenIssuer :: string
  tr_scitag :: "32 word"
  tr_isMultipleReplicaJob :: bool
  tr_isLastReplica :: bool
  tr_isMultihopJob :: bool
  tr_isLastHop :: bool
  tr_isArchiving :: bool
  tr_checksumMode :: Checksum_mode
  tr_fileSize :: "64 word"
  tr_averageThroughput :: real
  tr_instantaneousThroughput :: real
  tr_transferredBytes :: "64 word"
  tr_previousPingTransferredBytes :: "64 word"
  tr_logFile :: string
  tr_debugLogFile :: string
  tr_sourceTurl :: Uri
  tr_destTurl :: Uri
  tr_stats :: Statistics
  tr_error :: "UrlCopyError option"

definition empty_Uri :: Uri where
  "empty_Uri = \<lparr>fullUri = [], queryString = [], path = [], protocol = [], host = [], port = 0\<rparr>"

definition new_Transfer :: Transfer where
  "new_Transfer =
     \<lparr>tr_jobId = [], tr_fileId = 0, tr_source = empty_Uri, tr_destination = empty_Uri, tr_checksumAlgorithm = [],
      tr_checksumValue = [], tr_userFileSize = 0, tr_activity = [], tr_fileMetadata = [], tr_transferMetadata = [],
      tr_tokenBringOnline = [], tr_sourceTokenDescription = [], tr_destTokenDescription = [], tr_sourceTokenIssuer = [],
      tr_destTokenIssuer = [], tr_scitag = 0, tr_isMultipleReplicaJob = False, tr_isLastReplica = False,
      tr_isMultihopJob = False, tr_isLastHop = False, tr_isArchiving = False, tr_checksumMode = CHECKSUM_NONE,
      tr_fileSize = 0, tr_averageThroughput = 0, tr_instantaneousThroughput = 0, tr_transferredBytes = 0,
      tr_previousPingTransferredBytes = 0, tr_logFile = [], tr_debugLogFile = [], tr_sourceTurl = empty_Uri, tr_destTurl = empty_Uri,
      tr_stats = new_Statistics, tr_error = None\<rparr>"

record UrlCopyOpts =
  uo_bulkFile :: string
  uo_isSessionReuse :: bool
  uo_strictCopy :: bool
  uo_dstFileReport :: bool
  uo_thirdPartyTURL :: string
  uo_voName :: string
  uo_userDn :: string
  uo_proxy :: string
  uo_oauthFile :: string
  uo_cloudStorageConfig :: string
  uo_infosys :: string
  uo_alias :: string
  uo_jobMetadata :: string
  uo_authMethod :: string
  uo_copyMode :: "gfal_transfer_type option"
  uo_disableCopyFallback :: bool
  uo_retrieveSEToken :: bool
  uo_optimizerLevel :: "32 word"
  uo_overwrite :: bool
  uo_noDelegation :: bool
  uo_nStreams :: "32 word"
  uo_tcpBuffersize :: "32 word"
  uo_timeout :: "32 word"
  uo_enableUdt :: bool
  uo_enableIpv6 :: "bool option"
  uo_addSecPerMb :: "32 word"
  uo_noStreaming :: bool
  uo_skipEvict :: bool
  uo_enableMonitoring :: bool
  uo_pingInterval :: "32 word"
  uo_retry :: "32 word"
  uo_retryMax :: "32 word"
  uo_logDir :: string
  uo_msgDir :: string
  uo_debugLevel :: "32 word"
  uo_logToStderr :: bool
  uo_transfers :: "Transfer list"

definition new_UrlCopyOpts :: UrlCopyOpts where
  "new_UrlCopyOpts =
     \<lparr>uo_bulkFile = [], uo_isSessionReuse = False, uo_strictCopy = False, uo_dstFileReport = False, uo_thirdPartyTURL = [],
      uo_voName = [], uo_userDn = [], uo_proxy = [], uo_oauthFile = [], uo_cloudStorageConfig = [], uo_infosys = [],
      uo_alias = [], uo_jobMetadata = [], uo_authMethod = [], uo_copyMode = None, uo_disableCopyFallback = False,
      uo_retrieveSEToken = False, uo_optimizerLevel = 0, uo_overwrite = False, uo_noDelegation = False, uo_nStreams = 0,
      uo_tcpBuffersize = 0, uo_timeout = 0, uo_enableUdt = False, uo_enableIpv6 = None, uo_addSecPerMb = 0,
      uo_noStreaming = False, uo_skipEvict = False, uo_enableMonitoring = False, uo_pingInterval = 60, uo_retry = 0,
      uo_retryMax = 0, uo_logDir = ''/var/log/fts3'', uo_msgDir = ''/var/lib/fts3'', uo_debugLevel = 0,
      uo_logToStderr = False, uo_transfers = []\<rparr>"

subsection \<open>The option table\<close>

datatype has_arg = no_argument | required_argument

definition long_options :: "(string \<times> has_arg \<times> nat) list" where
  "long_options =
     [(''job-id'', required_argument, 100), (''file-id'', required_argument, 101), (''source'', required_argument, 102),
      (''destination'', required_argument, 103), (''user-filesize'', required_argument, 104), (''bulk-file'', required_argument, 105),
      (''reuse'', no_argument, 200), (''job-m-replica'', no_argument, 202), (''last-replica'', no_argument, 203),
      (''job-multihop'', no_argument, 204), (''last-hop'', no_argument, 205), (''archiving'', no_argument, 206),
      (''activity'', required_argument, 207),
      (''checksum'', required_argument, 300), (''checksum-mode'', required_argument, 301), (''strict-copy'', no_argument, 302),
      (''dst-file-report'', no_argument, 303), (''3rd-party-turl'', required_argument, 304), (''scitag'', required_argument, 305),
      (''token-bringonline'', required_argument, 400), (''dest-token-desc'', required_argument, 401),
      (''source-token-desc'', required_argument, 402),
      (''vo'', required_argument, 500), (''user-dn'', required_argument, 501), (''proxy'', required_argument, 502),
      (''oauth'', required_argument, 503), (''source-issuer'', required_argument, 504), (''dest-issuer'', required_argument, 505),
      (''auth-method'', required_argument, 506), (''copy-mode'', required_argument, 507), (''disable-fallback'', no_argument, 508),
      (''retrieve-se-token'', no_argument, 509), (''cloud-config'', required_argument, 510),
      (''infosystem'', required_argument, 600), (''alias'', required_argument, 601), (''monitoring'', no_argument, 602),
      (''ping-interval'', required_argument, 603),
      (''file-metadata'', required_argument, 700), (''transfer-metadata'', required_argument, 701),
      (''job-metadata'', required_argument, 702),
      (''level'', required_argument, 801), (''overwrite'', no_argument, 802), (''nstreams'', required_argument, 803),
      (''tcp-buffersize'', required_argument, 804), (''timeout'', required_argument, 805), (''udt'', no_argument, 806),
      (''ipv6'', no_argument, 807), (''sec-per-mb'', required_argument, 808), (''ipv4'', no_argument, 809),
      (''no-delegation'', no_argument, 810), (''no-streaming'', no_argument, 811), (''skip-evict'', no_argument, 812),
      (''retry'', required_argument, 820), (''retry_max-max'', required_argument, 821),
      (''logDir'', required_argument, 900), (''msgDir'', required_argument, 901),
      (''help'', no_argument, 0), (''debug'', required_argument, 1), (''stderr'', no_argument, 2)]"

definition find_long :: "string \<Rightarrow> (has_arg \<times> nat) option" where
  "find_long name =
     (case filter (\<lambda>o1. fst o1 = name) long_options of
        o1 # _ \<Rightarrow> Some (snd o1)
      | [] \<Rightarrow> (case filter (\<lambda>o1. starts_with (fst o1) name) long_options of
                [o1] \<Rightarrow> Some (snd o1)
              | _ \<Rightarrow> None))"

fun getopts :: "string list \<Rightarrow> (nat \<times> string) list" where
  "getopts [] = []"
| "getopts (a # as) =
     (if a = ''--'' then []
      else if a = [] \<or> hd a \<noteq> CHR ''-'' \<or> a = ''-'' then getopts as
      else
        let body = (if starts_with a ''--'' then drop 2 a else drop 1 a);
            name = takeWhile (\<lambda>c. c \<noteq> CHR ''='') body;
            eq = CHR ''='' \<in> set body
        in (case find_long name of
              None \<Rightarrow> (63, []) # getopts as
            | Some (no_argument, v) \<Rightarrow> (if eq then (63, []) else (v, [])) # getopts as
            | Some (required_argument, v) \<Rightarrow>
                if eq then (v, drop (Suc (length name)) body) # getopts as
                else (case as of [] \<Rightarrow> [(63, [])] | b # bs \<Rightarrow> (v, b) # getopts bs)))"

subsection \<open>Values\<close>

text \<open>\<^verbatim>\<open>boost::lexical_cast\<close> to an unsigned type of \<open>w\<close> bits: a minus sign is accepted and wraps around.\<close>

definition lexical_cast_unsigned :: "nat \<Rightarrow> string \<Rightarrow> int option" where
  "lexical_cast_unsigned w s =
     (let neg = (s \<noteq> [] \<and> hd s = CHR ''-'');
          ds = (if s \<noteq> [] \<and> hd s \<in> {CHR ''-'', CHR ''+''} then tl s else s);
          v = digits_value 0 ds
      in if ds = [] \<or> (\<exists>c \<in> set ds. \<not> is_digit c) \<or> v \<ge> 2 ^ w then None
         else Some (if neg then (- v) mod 2 ^ w else v))"

definition lexical_cast_int64 :: "string \<Rightarrow> int option" where
  "lexical_cast_int64 s =
     (let neg = (s \<noteq> [] \<and> hd s = CHR ''-'');
          ds = (if s \<noteq> [] \<and> hd s \<in> {CHR ''-'', CHR ''+''} then tl s else s);
          v = (if neg then - digits_value 0 ds else digits_value 0 ds)
      in if ds = [] \<or> (\<exists>c \<in> set ds. \<not> is_digit c) then None
         else if v < - (2 ^ 63) \<or> v \<ge> 2 ^ 63 then None else Some v)"

definition replaceMetadataString :: "string \<Rightarrow> string" where
  "replaceMetadataString text1 = replace_all [CHR 0x5C, CHR 0x22] [CHR 0x22] (replace_all ''?'' '' '' text1)"

definition setChecksum :: "string \<Rightarrow> Transfer \<Rightarrow> Transfer" where
  "setChecksum checksum t =
     (if checksum = ''x'' then t
      else case str_find CHR '':'' checksum of
        None \<Rightarrow> t\<lparr>tr_checksumAlgorithm := checksum, tr_checksumValue := []\<rparr>
      | Some colon \<Rightarrow> t\<lparr>tr_checksumAlgorithm := take colon checksum, tr_checksumValue := drop (Suc colon) checksum\<rparr>)"

definition checksum_mode_of :: "string \<Rightarrow> Checksum_mode" where
  "checksum_mode_of s =
     (if starts_with s ''target'' \<or> starts_with s ''t'' then CHECKSUM_TARGET
      else if starts_with s ''source'' \<or> starts_with s ''s'' then CHECKSUM_SOURCE
      else if starts_with s ''both'' \<or> starts_with s ''b'' then CHECKSUM_BOTH
      else CHECKSUM_NONE)"

definition translateCopyMode :: "string \<Rightarrow> gfal_transfer_type option" where
  "translateCopyMode s =
     (if s = ''pull'' then Some GFAL_TRANSFER_TYPE_PULL
      else if s = ''push'' then Some GFAL_TRANSFER_TYPE_PUSH
      else if s = ''streamed'' then Some GFAL_TRANSFER_TYPE_STREAMED
      else None)"

subsection \<open>One option\<close>

text \<open>The options of the process and the transfer the options describe.\<close>

type_synonym parsing = "UrlCopyOpts \<times> Transfer"

text \<open>Numbers; a cast that fails ends the process.\<close>

definition on_opts :: "(UrlCopyOpts \<Rightarrow> UrlCopyOpts) \<Rightarrow> parsing \<Rightarrow> agent_exit + parsing" where
  "on_opts g s = Inr (g (fst s), snd s)"

definition on_transfer :: "(Transfer \<Rightarrow> Transfer) \<Rightarrow> parsing \<Rightarrow> agent_exit + parsing" where
  "on_transfer g s = Inr (fst s, g (snd s))"

definition number_opt :: "(int \<Rightarrow> UrlCopyOpts \<Rightarrow> UrlCopyOpts) \<Rightarrow> int option \<Rightarrow> parsing \<Rightarrow> agent_exit + parsing" where
  "number_opt g v s = (case v of None \<Rightarrow> Inl (Exit (-1)) | Some n \<Rightarrow> on_opts (g n) s)"

definition number_transfer :: "(int \<Rightarrow> Transfer \<Rightarrow> Transfer) \<Rightarrow> int option \<Rightarrow> parsing \<Rightarrow> agent_exit + parsing" where
  "number_transfer g v s = (case v of None \<Rightarrow> Inl (Exit (-1)) | Some n \<Rightarrow> on_transfer (g n) s)"

definition apply_opt :: "nat \<Rightarrow> string \<Rightarrow> parsing \<Rightarrow> agent_exit + parsing" where
  "apply_opt opt arg =
     (if opt = 1 then number_opt (\<lambda>n o1. o1\<lparr>uo_debugLevel := word_of_int n\<rparr>) (lexical_cast_unsigned 32 arg)
      else if opt = 2 then on_opts (\<lambda>o1. o1\<lparr>uo_logToStderr := True\<rparr>)
      else if opt = 100 then on_transfer (\<lambda>t. t\<lparr>tr_jobId := arg\<rparr>)
      else if opt = 101 then number_transfer (\<lambda>n t. t\<lparr>tr_fileId := word_of_int n\<rparr>) (lexical_cast_unsigned 64 arg)
      else if opt = 102 then on_transfer (\<lambda>t. t\<lparr>tr_source := parse arg\<rparr>)
      else if opt = 103 then on_transfer (\<lambda>t. t\<lparr>tr_destination := parse arg\<rparr>)
      else if opt = 104 then number_transfer (\<lambda>n t. t\<lparr>tr_userFileSize := word_of_int n\<rparr>) (lexical_cast_int64 arg)
      else if opt = 105 then on_opts (\<lambda>o1. o1\<lparr>uo_bulkFile := arg\<rparr>)
      else if opt = 200 then on_opts (\<lambda>o1. o1\<lparr>uo_isSessionReuse := True\<rparr>)
      else if opt = 202 then on_transfer (\<lambda>t. t\<lparr>tr_isMultipleReplicaJob := True\<rparr>)
      else if opt = 203 then on_transfer (\<lambda>t. t\<lparr>tr_isLastReplica := True\<rparr>)
      else if opt = 204 then on_transfer (\<lambda>t. t\<lparr>tr_isMultihopJob := True\<rparr>)
      else if opt = 205 then on_transfer (\<lambda>t. t\<lparr>tr_isLastHop := True\<rparr>)
      else if opt = 206 then on_transfer (\<lambda>t. t\<lparr>tr_isArchiving := True\<rparr>)
      else if opt = 207 then on_transfer (\<lambda>t. t\<lparr>tr_activity := arg\<rparr>)
      else if opt = 300 then on_transfer (setChecksum arg)
      else if opt = 301 then on_transfer (\<lambda>t. t\<lparr>tr_checksumMode := checksum_mode_of arg\<rparr>)
      else if opt = 302 then on_opts (\<lambda>o1. o1\<lparr>uo_strictCopy := True\<rparr>)
      else if opt = 303 then on_opts (\<lambda>o1. o1\<lparr>uo_dstFileReport := True\<rparr>)
      else if opt = 304 then on_opts (\<lambda>o1. o1\<lparr>uo_thirdPartyTURL := arg\<rparr>)
      else if opt = 305 then number_transfer (\<lambda>n t. t\<lparr>tr_scitag := word_of_int n\<rparr>) (lexical_cast_unsigned 32 arg)
      else if opt = 400 then on_transfer (\<lambda>t. t\<lparr>tr_tokenBringOnline := arg\<rparr>)
      else if opt = 401 then on_transfer (\<lambda>t. t\<lparr>tr_destTokenDescription := arg\<rparr>)
      else if opt = 402 then on_transfer (\<lambda>t. t\<lparr>tr_sourceTokenDescription := arg\<rparr>)
      else if opt = 500 then on_opts (\<lambda>o1. o1\<lparr>uo_voName := arg\<rparr>)
      else if opt = 501 then on_opts (\<lambda>o1. o1\<lparr>uo_userDn := arg\<rparr>)
      else if opt = 502 then on_opts (\<lambda>o1. o1\<lparr>uo_proxy := arg\<rparr>)
      else if opt = 503 then on_opts (\<lambda>o1. o1\<lparr>uo_oauthFile := arg\<rparr>)
      else if opt = 504 then on_transfer (\<lambda>t. t\<lparr>tr_sourceTokenIssuer := arg\<rparr>)
      else if opt = 505 then on_transfer (\<lambda>t. t\<lparr>tr_destTokenIssuer := arg\<rparr>)
      else if opt = 506 then on_opts (\<lambda>o1. o1\<lparr>uo_authMethod := arg\<rparr>)
      else if opt = 507 then on_opts (\<lambda>o1. o1\<lparr>uo_copyMode := translateCopyMode arg\<rparr>)
      else if opt = 508 then on_opts (\<lambda>o1. o1\<lparr>uo_disableCopyFallback := True\<rparr>)
      else if opt = 509 then on_opts (\<lambda>o1. o1\<lparr>uo_retrieveSEToken := True\<rparr>)
      else if opt = 510 then on_opts (\<lambda>o1. o1\<lparr>uo_cloudStorageConfig := arg\<rparr>)
      else if opt = 600 then on_opts (\<lambda>o1. o1\<lparr>uo_infosys := arg\<rparr>)
      else if opt = 601 then on_opts (\<lambda>o1. o1\<lparr>uo_alias := arg\<rparr>)
      else if opt = 602 then on_opts (\<lambda>o1. o1\<lparr>uo_enableMonitoring := True\<rparr>)
      else if opt = 603 then number_opt (\<lambda>n o1. o1\<lparr>uo_pingInterval := word_of_int n\<rparr>) (lexical_cast_unsigned 32 arg)
      else if opt = 700 then on_transfer (\<lambda>t. t\<lparr>tr_fileMetadata := arg\<rparr>)
      else if opt = 701 then on_transfer (\<lambda>t. t\<lparr>tr_transferMetadata := replaceMetadataString arg\<rparr>)
      else if opt = 702 then on_opts (\<lambda>o1. o1\<lparr>uo_jobMetadata := arg\<rparr>)
      else if opt = 801 then number_opt (\<lambda>n o1. o1\<lparr>uo_optimizerLevel := word_of_int n\<rparr>) (lexical_cast_int arg)
      else if opt = 802 then on_opts (\<lambda>o1. o1\<lparr>uo_overwrite := True\<rparr>)
      else if opt = 803 then number_opt (\<lambda>n o1. o1\<lparr>uo_nStreams := word_of_int n\<rparr>) (lexical_cast_int arg)
      else if opt = 804 then number_opt (\<lambda>n o1. o1\<lparr>uo_tcpBuffersize := word_of_int n\<rparr>) (lexical_cast_unsigned 32 arg)
      else if opt = 805 then number_opt (\<lambda>n o1. o1\<lparr>uo_timeout := word_of_int n\<rparr>) (lexical_cast_unsigned 32 arg)
      else if opt = 806 then on_opts (\<lambda>o1. o1\<lparr>uo_enableUdt := True\<rparr>)
      else if opt = 807 then on_opts (\<lambda>o1. o1\<lparr>uo_enableIpv6 := Some True\<rparr>)
      else if opt = 808 then number_opt (\<lambda>n o1. o1\<lparr>uo_addSecPerMb := word_of_int n\<rparr>) (lexical_cast_int arg)
      else if opt = 809 then on_opts (\<lambda>o1. o1\<lparr>uo_enableIpv6 := Some False\<rparr>)
      else if opt = 810 then on_opts (\<lambda>o1. o1\<lparr>uo_noDelegation := True\<rparr>)
      else if opt = 811 then on_opts (\<lambda>o1. o1\<lparr>uo_noStreaming := True\<rparr>)
      else if opt = 812 then on_opts (\<lambda>o1. o1\<lparr>uo_skipEvict := True\<rparr>)
      else if opt = 820 then number_opt (\<lambda>n o1. o1\<lparr>uo_retry := word_of_int n\<rparr>) (lexical_cast_int arg)
      else if opt = 821 then number_opt (\<lambda>n o1. o1\<lparr>uo_retryMax := word_of_int n\<rparr>) (lexical_cast_int arg)
      else if opt = 900 then on_opts (\<lambda>o1. o1\<lparr>uo_logDir := arg\<rparr>)
      else if opt = 901 then on_opts (\<lambda>o1. o1\<lparr>uo_msgDir := arg\<rparr>)
      else (\<lambda>s. Inl (Exit 0)))"

fun apply_opts :: "(nat \<times> string) list \<Rightarrow> parsing \<Rightarrow> agent_exit + parsing" where
  "apply_opts [] s = Inr s"
| "apply_opts (o1 # os) s =
     (case apply_opt (fst o1) (snd o1) s of Inl ex \<Rightarrow> Inl ex | Inr s1 \<Rightarrow> apply_opts os s1)"

subsection \<open>The bulk file\<close>

text \<open>\<^verbatim>\<open>boost::tokenizer\<close> drops empty words; missing words are empty strings.\<close>

definition createFromString :: "Transfer \<Rightarrow> string \<Rightarrow> agent_exit + Transfer" where
  "createFromString ref line =
     (let words = filter (\<lambda>w. w \<noteq> []) (split_spaces line);
          strArray = (\<lambda>i. if i < length words then words ! i else []);
          unless_x = (\<lambda>s. if s = ''x'' then [] else s)
      in if length words > 9 then Inl Undefined
         else case (lexical_cast_unsigned 64 (strArray 0), lexical_cast_unsigned 64 (strArray 4), lexical_cast_unsigned 32 (strArray 8)) of
           (Some fileId, Some filesize1, Some scitag) \<Rightarrow>
             Inr ((setChecksum (strArray 3)
                 (new_Transfer\<lparr>tr_jobId := tr_jobId ref, tr_fileId := word_of_int fileId, tr_source := parse (strArray 1),
                    tr_destination := parse (strArray 2), tr_checksumMode := tr_checksumMode ref\<rparr>))
               \<lparr>tr_userFileSize := word_of_int filesize1, tr_fileMetadata := unless_x (strArray 5),
                tr_transferMetadata := (if strArray 6 = ''x'' then [] else replaceMetadataString (strArray 6)),
                tr_tokenBringOnline := unless_x (strArray 7), tr_scitag := word_of_int scitag,
                tr_sourceTokenDescription := tr_sourceTokenDescription ref, tr_destTokenDescription := tr_destTokenDescription ref,
                tr_sourceTokenIssuer := tr_sourceTokenIssuer ref, tr_destTokenIssuer := tr_destTokenIssuer ref,
                tr_isMultipleReplicaJob := False, tr_isLastReplica := False\<rparr>)
         | _ \<Rightarrow> Inl (Exit (-1)))"

fun initListFromFile :: "Transfer \<Rightarrow> string list \<Rightarrow> agent_exit + Transfer list" where
  "initListFromFile ref [] = Inr []"
| "initListFromFile ref (line # lines) =
     (if line = [] then initListFromFile ref lines
      else case createFromString ref line of
        Inl ex \<Rightarrow> Inl ex
      | Inr t \<Rightarrow> (case initListFromFile ref lines of Inl ex \<Rightarrow> Inl ex | Inr ts \<Rightarrow> Inr (t # ts)))"

definition validateRequired :: "UrlCopyOpts \<Rightarrow> agent_exit + UrlCopyOpts" where
  "validateRequired o1 = (if uo_transfers o1 = [] then Inl (Exit (-1)) else Inr o1)"

text \<open>\<open>files path\<close> are the lines of a file, none when it cannot be opened.\<close>

definition parse_options :: "(string \<Rightarrow> string list) \<Rightarrow> string list \<Rightarrow> agent_exit + UrlCopyOpts" where
  "parse_options files argv =
     (case apply_opts (getopts (drop 1 argv)) (new_UrlCopyOpts, new_Transfer) of
        Inl ex \<Rightarrow> Inl ex
      | Inr (o1, ref) \<Rightarrow>
          if uo_bulkFile o1 = [] \<and> fullUri (tr_source ref) \<noteq> [] \<and> fullUri (tr_destination ref) \<noteq> []
          then validateRequired (o1\<lparr>uo_transfers := uo_transfers o1 @ [ref]\<rparr>)
          else case initListFromFile ref (files (uo_bulkFile o1)) of
                 Inl ex \<Rightarrow> Inl ex
               | Inr ts \<Rightarrow> validateRequired (o1\<lparr>uo_transfers := ts\<rparr>))"

end
