(* ===== verification/CommandLine.thy ===== *)
theory CommandLine
  imports FileTransferExecutor UrlCopyOpts
begin

section \<open>From the server to the transfer process\<close>

text \<open>
  The server describes a transfer on a command line (theories UrlCopyCmd, FileTransferExecutor), the
  process reads it back (theory UrlCopyOpts). This theory shows that what is read is what was
  meant, and where it is not.
\<close>

subsection \<open>Looking at a command\<close>

definition opt_of :: "UrlCopyCmd \<Rightarrow> string \<Rightarrow> string option" where
  "opt_of c k = om_find (cmd_options c) k"

definition flag_on :: "UrlCopyCmd \<Rightarrow> string \<Rightarrow> bool" where
  "flag_on c k \<longleftrightarrow> k \<in> set (cmd_flags c)"

text \<open>The names the server uses.\<close>

definition server_flags :: "string list" where
  "server_flags =
     [''udt'', ''ipv6'', ''ipv4'', ''skip-evict'', ''disable-fallback'', ''retrieve-se-token'', ''reuse'', ''job-m-replica'',
      ''job-multihop'', ''overwrite'', ''archiving'', ''dst-file-report'', ''last-replica'', ''last-hop'', ''strict-copy'',
      ''no-delegation'', ''no-streaming'', ''monitoring'']"

definition server_options :: "string list" where
  "server_options =
     [''logDir'', ''msgDir'', ''ping-interval'', ''infosystem'', ''debug'', ''proxy'', ''copy-mode'', ''alias'', ''cloud-config'',
      ''oauth'', ''auth-method'', ''job-metadata'', ''vo'', ''job-id'', ''checksum-mode'', ''dest-token-desc'', ''source-token-desc'',
      ''source-issuer'', ''dest-issuer'', ''user-dn'', ''file-id'', ''source'', ''destination'', ''checksum'', ''user-filesize'',
      ''scitag'', ''token-bringonline'', ''file-metadata'', ''transfer-metadata'', ''activity'', ''bulk-file'', ''nstreams'',
      ''timeout'', ''tcp-buffersize'', ''sec-per-mb'', ''retry'', ''retry_max'', ''3rd-party-turl'', ''level'']"

definition cmd_ok :: "UrlCopyCmd \<Rightarrow> bool" where
  "cmd_ok c \<longleftrightarrow> om_ok (cmd_options c) \<and> distinct (cmd_flags c) \<and> set (cmd_flags c) \<subseteq> set server_flags \<and>
     fst ` set (cmd_options c) \<subseteq> set server_options"

lemma server_names [simp]:
  "''udt'' \<in> set server_flags" "''ipv6'' \<in> set server_flags" "''ipv4'' \<in> set server_flags"
  "''skip-evict'' \<in> set server_flags" "''disable-fallback'' \<in> set server_flags"
  "''retrieve-se-token'' \<in> set server_flags" "''reuse'' \<in> set server_flags"
  "''job-m-replica'' \<in> set server_flags" "''job-multihop'' \<in> set server_flags"
  "''overwrite'' \<in> set server_flags" "''archiving'' \<in> set server_flags"
  "''dst-file-report'' \<in> set server_flags" "''last-replica'' \<in> set server_flags"
  "''last-hop'' \<in> set server_flags" "''strict-copy'' \<in> set server_flags"
  "''no-delegation'' \<in> set server_flags" "''no-streaming'' \<in> set server_flags"
  "''monitoring'' \<in> set server_flags"
  "''logDir'' \<in> set server_options" "''msgDir'' \<in> set server_options"
  "''ping-interval'' \<in> set server_options" "''infosystem'' \<in> set server_options"
  "''debug'' \<in> set server_options" "''proxy'' \<in> set server_options" "''copy-mode'' \<in> set server_options"
  "''alias'' \<in> set server_options" "''cloud-config'' \<in> set server_options" "''oauth'' \<in> set server_options"
  "''auth-method'' \<in> set server_options" "''job-metadata'' \<in> set server_options"
  "''vo'' \<in> set server_options" "''job-id'' \<in> set server_options" "''checksum-mode'' \<in> set server_options"
  "''dest-token-desc'' \<in> set server_options" "''source-token-desc'' \<in> set server_options"
  "''source-issuer'' \<in> set server_options" "''dest-issuer'' \<in> set server_options"
  "''user-dn'' \<in> set server_options" "''file-id'' \<in> set server_options" "''source'' \<in> set server_options"
  "''destination'' \<in> set server_options" "''checksum'' \<in> set server_options"
  "''user-filesize'' \<in> set server_options" "''scitag'' \<in> set server_options"
  "''token-bringonline'' \<in> set server_options" "''file-metadata'' \<in> set server_options"
  "''transfer-metadata'' \<in> set server_options" "''activity'' \<in> set server_options"
  "''bulk-file'' \<in> set server_options" "''nstreams'' \<in> set server_options" "''timeout'' \<in> set server_options"
  "''tcp-buffersize'' \<in> set server_options" "''sec-per-mb'' \<in> set server_options"
  "''retry'' \<in> set server_options" "''retry_max'' \<in> set server_options"
  "''3rd-party-turl'' \<in> set server_options" "''level'' \<in> set server_options"
  by (simp_all add: server_flags_def server_options_def)

lemma cmd_ok_new: "cmd_ok new_UrlCopyCmd"
  by (simp add: cmd_ok_def new_UrlCopyCmd_def om_ok_def)

lemma set_om_erase: "set (om_erase k m) \<subseteq> set m"
  by (auto simp: om_erase_def)

lemma cmd_ok_setFlag: "cmd_ok c \<Longrightarrow> k \<in> set server_flags \<Longrightarrow> cmd_ok (setFlag k on c)"
  using set_om_erase [of k "cmd_options c"] by (auto simp: cmd_ok_def setFlag_def om_ok_erase)

lemma cmd_ok_setOption: "cmd_ok c \<Longrightarrow> k \<in> set server_options \<Longrightarrow> cmd_ok (setOption k v c)"
  using set_remove1_subset [of k "cmd_flags c"] by (auto simp: cmd_ok_def setOption_def om_ok_put fst_om_put)

lemma cmd_ok_explicit: "cmd_ok c \<Longrightarrow> cmd_ok (c\<lparr>cmd_IPv6Explicit := b\<rparr>)"
  by (simp add: cmd_ok_def)

lemma opt_of_setters [cmd_simps]:
  "k' \<noteq> k \<Longrightarrow> opt_of (setFlag k on c) k' = opt_of c k'"
  "cmd_ok c \<Longrightarrow> opt_of (setOption k v c) k = (if v = [] then opt_of c k else Some v)"
  "opt_of (c\<lparr>cmd_IPv6Explicit := b\<rparr>) k' = opt_of c k'" "opt_of new_UrlCopyCmd k' = None"
  "opt_of (if P then c else c') k' = (if P then opt_of c k' else opt_of c' k')"
  by (simp_all add: opt_of_def setFlag_def setOption_def om_find_erase om_find_put cmd_ok_def)
    (simp add: new_UrlCopyCmd_def om_find_def)

lemma flag_on_setters [cmd_simps]:
  "k' \<noteq> k \<Longrightarrow> flag_on (setFlag k on c) k' = flag_on c k'" "cmd_ok c \<Longrightarrow> flag_on (setFlag k on c) k = on"
  "k' \<noteq> k \<Longrightarrow> flag_on (setOption k v c) k' = flag_on c k'"
  "flag_on (c\<lparr>cmd_IPv6Explicit := b\<rparr>) k' = flag_on c k'" "\<not> flag_on new_UrlCopyCmd k'"
  "flag_on (if P then c else c') k' = (if P then flag_on c k' else flag_on c' k')"
  by (auto simp: flag_on_def setFlag_def setOption_def cmd_ok_def new_UrlCopyCmd_def in_set_remove1)

lemma om_find_put_other: "k' \<noteq> k \<Longrightarrow> om_find (om_put k v m) k' = om_find m k'"
proof (induction m)
  case (Cons p m)
  then show ?case by (cases p) (simp add: om_find_def)
qed (simp add: om_find_def)

lemma opt_of_other [cmd_simps]: "k' \<noteq> k \<Longrightarrow> opt_of (setOption k v c) k' = opt_of c k'"
  by (simp add: opt_of_def setOption_def om_find_put_other)

lemma set_if_keeps [cmd_simps]:
  "opt_of (f c) k = opt_of c k \<Longrightarrow> opt_of (set_if b f c) k = opt_of c k"
  "flag_on (f c) k = flag_on c k \<Longrightarrow> flag_on (set_if b f c) k = flag_on c k"
  by (simp_all add: set_if_def)

lemma cmd_ok_set_if: "cmd_ok c \<Longrightarrow> cmd_ok (f c) \<Longrightarrow> cmd_ok (set_if b f c)"
  by (simp add: set_if_def)

lemmas cmd_oks = cmd_ok_set_if cmd_ok_setFlag cmd_ok_setOption cmd_ok_explicit

subsection \<open>The options the process understands\<close>

definition code :: "string \<Rightarrow> nat" where
  "code k = (case find_long k of None \<Rightarrow> 63 | Some o1 \<Rightarrow> snd o1)"

lemma long_options_distinct: "distinct (map fst long_options)"
  by (simp add: long_options_def)

lemma filter_key: "distinct (map fst os) \<Longrightarrow> (k, v) \<in> set os \<Longrightarrow> filter (\<lambda>p. fst p = k) os = [(k, v)]"
  by (induction os) (auto simp: filter_empty_conv image_iff)

lemma find_long_exact: "(k, o1) \<in> set long_options \<Longrightarrow> find_long k = Some o1"
  using filter_key [OF long_options_distinct, of k o1] by (simp add: find_long_def)

lemma code_option: "(k, required_argument, n) \<in> set long_options \<Longrightarrow> code k = n"
  by (simp add: code_def find_long_exact)

lemma code_flag: "(k, no_argument, n) \<in> set long_options \<Longrightarrow> code k = n"
  by (simp add: code_def find_long_exact)

text \<open>The server writes \<^verbatim>\<open>retry_max\<close>, the process calls it \<^verbatim>\<open>retry_max-max\<close> and accepts the abbreviation.\<close>

lemma find_long_retry_max: "find_long ''retry_max'' = Some (required_argument, 821)"
  by (simp add: find_long_def long_options_def starts_with_def)

definition full_name :: "string \<Rightarrow> string" where
  "full_name k = (if k = ''retry_max'' then ''retry_max-max'' else k)"

lemma server_rows:
  "\<forall>k \<in> set server_flags. \<exists>v. (full_name k, no_argument, v) \<in> set long_options"
  "\<forall>k \<in> set server_options. \<exists>v. (full_name k, required_argument, v) \<in> set long_options"
  by (simp_all add: server_flags_def server_options_def long_options_def full_name_def)

lemma find_long_full:
  assumes "(full_name k, o1) \<in> set long_options"
  shows "find_long k = Some o1" "code k = snd o1"
proof -
  show f: "find_long k = Some o1"
  proof (cases "k = ''retry_max''")
    case True
    then have "find_long ''retry_max-max'' = Some o1" using assms find_long_exact by (simp add: full_name_def)
    moreover have "(''retry_max-max'', required_argument, 821) \<in> set long_options" by (simp add: long_options_def)
    ultimately show ?thesis using True find_long_exact find_long_retry_max by simp
  qed (use assms find_long_exact in \<open>simp add: full_name_def\<close>)
  then show "code k = snd o1" by (simp add: code_def)
qed

lemma server_names_known:
  "k \<in> set server_flags \<Longrightarrow> find_long k = Some (no_argument, code k)"
  "k \<in> set server_options \<Longrightarrow> find_long k = Some (required_argument, code k)"
  using server_rows find_long_full by fastforce+

lemma long_options_codes: "distinct (map (\<lambda>o1. snd (snd o1)) long_options)"
  by (simp add: long_options_def)

lemma code_inj: "inj_on code (set server_flags \<union> set server_options)"
proof (rule inj_onI)
  fix k l assume k: "k \<in> set server_flags \<union> set server_options" and l: "l \<in> set server_flags \<union> set server_options" and eq: "code k = code l"
  obtain a v where kr: "(full_name k, a, v) \<in> set long_options" using k server_rows by blast
  obtain b w where lr: "(full_name l, b, w) \<in> set long_options" using l server_rows by blast
  have "v = w" using eq find_long_full(2) [OF kr] find_long_full(2) [OF lr] by simp
  have "inj_on (\<lambda>o1. snd (snd o1)) (set long_options)" using long_options_codes by (simp add: distinct_map)
  from inj_onD [OF this _ kr lr] \<open>v = w\<close> have "full_name k = full_name l" by simp
  moreover have "''retry_max-max'' \<notin> set server_flags \<union> set server_options" by (simp add: server_flags_def server_options_def)
  ultimately show "k = l" using k l by (auto simp: full_name_def split: if_splits)
qed

lemma find_long_plain:
  assumes "find_long k = Some x"
  shows "CHR ''='' \<notin> set k" "k \<noteq> []"
proof -
  have "\<exists>o1 \<in> set long_options. starts_with (fst o1) k"
  proof (cases "filter (\<lambda>o1. fst o1 = k) long_options")
    case (Cons o1 os)
    then have "o1 \<in> set (filter (\<lambda>o1. fst o1 = k) long_options)" by simp
    then have "o1 \<in> set long_options" "starts_with (fst o1) k" by (auto simp: starts_with_def)
    then show ?thesis ..
  next
    case Nil
    then obtain o1 where "filter (\<lambda>o1. starts_with (fst o1) k) long_options = [o1]"
      using assms by (auto simp: find_long_def split: list.splits)
    then have "o1 \<in> set (filter (\<lambda>o1. starts_with (fst o1) k) long_options)" by simp
    then show ?thesis by auto
  qed
  then obtain o1 where o1: "o1 \<in> set long_options" "take (length k) (fst o1) = k" by (auto simp: starts_with_def)
  have "\<forall>o1 \<in> set long_options. CHR ''='' \<notin> set (fst o1)" by code_simp
  then show "CHR ''='' \<notin> set k" using o1 by (metis in_set_takeD)
  have "find_long [] = None" by code_simp
  then show "k \<noteq> []" using assms by auto
qed

text \<open>What the process finds on the command line.\<close>

definition events :: "UrlCopyCmd \<Rightarrow> (nat \<times> string) list" where
  "events c = map (\<lambda>f. (code f, [])) (cmd_flags c) @ map (\<lambda>kv. (code (fst kv), snd kv)) (cmd_options c)"

lemma getopts_flag: "k \<in> set server_flags \<Longrightarrow> getopts ((''--'' @ k) # as) = (code k, []) # getopts as"
proof -
  assume k: "k \<in> set server_flags"
  then have f: "find_long k = Some (no_argument, code k)" using server_names_known(1) by blast
  note p = find_long_plain [OF f]
  then have "\<forall>c \<in> set k. c \<noteq> CHR ''=''" by auto
  then show ?thesis using p f by (simp add: starts_with_def Let_def takeWhile_eq_all_conv [THEN iffD2])
qed

lemma getopts_option: "k \<in> set server_options \<Longrightarrow> getopts ((''--'' @ k) # v # as) = (code k, v) # getopts as"
proof -
  assume k: "k \<in> set server_options"
  then have f: "find_long k = Some (required_argument, code k)" using server_names_known(2) by blast
  note p = find_long_plain [OF f]
  then have "\<forall>c \<in> set k. c \<noteq> CHR ''=''" by auto
  then show ?thesis using p f by (simp add: starts_with_def Let_def takeWhile_eq_all_conv [THEN iffD2])
qed

lemma getopts_words:
  assumes "cmd_ok c"
  shows "getopts (words_of c) = events c"
proof -
  have opts: "fst ` set os \<subseteq> set server_options \<Longrightarrow>
      getopts (concat (map (\<lambda>kv. [''--'' @ fst kv, snd kv]) os)) = map (\<lambda>kv. (code (fst kv), snd kv)) os" for os :: "(string \<times> string) list"
    by (induction os) (simp_all add: getopts_option [unfolded append.simps] del: getopts.simps(2))
  have "set fs \<subseteq> set server_flags \<Longrightarrow> getopts (map (\<lambda>f. ''--'' @ f) fs @ as) = map (\<lambda>f. (code f, [])) fs @ getopts as" for fs as
    by (induction fs) (simp_all add: getopts_flag [unfolded append.simps] del: getopts.simps(2))
  then show ?thesis using assms opts [of "cmd_options c"] by (simp add: words_of_def events_def cmd_ok_def)
qed

lemma getopts_argv:
  assumes "cmd_ok c" "spaceless c"
  shows "getopts (drop 1 (getArgv app (generateParameters c))) = events c"
  using getopts_words [OF assms(1)] by (simp add: getArgv_words [OF assms(2)])

subsection \<open>What the process makes of it\<close>

lemma map_of_code_flags:
  "set fs \<subseteq> K \<Longrightarrow> k \<in> K \<Longrightarrow> inj_on code K \<Longrightarrow> map_of (map (\<lambda>f. (code f, [] :: string)) fs) (code k) = (if k \<in> set fs then Some [] else None)"
  by (induction fs) (auto dest: inj_onD)

lemma map_of_code_options:
  "fst ` set os \<subseteq> K \<Longrightarrow> k \<in> K \<Longrightarrow> inj_on code K \<Longrightarrow> map_of (map (\<lambda>kv. (code (fst kv), snd kv)) os) (code k) = om_find os k"
  by (induction os) (auto simp: om_find_def dest: inj_onD)

lemma map_of_events:
  assumes "cmd_ok c"
  shows "k \<in> set server_flags \<Longrightarrow> map_of (events c) (code k) = (if flag_on c k then Some [] else None)"
    "k \<in> set server_options \<Longrightarrow> map_of (events c) (code k) = opt_of c k"
proof -
  let ?K = "set server_flags \<union> set server_options"
  have sub: "set (cmd_flags c) \<subseteq> ?K" "fst ` set (cmd_options c) \<subseteq> ?K" using assms by (auto simp: cmd_ok_def)
  have ne: "\<forall>k \<in> set server_flags. k \<notin> set server_options" by (simp add: server_flags_def server_options_def)
  have none: "om_find (cmd_options c) k = None" if "k \<in> set server_flags"
    using ne that assms by (auto simp: cmd_ok_def om_find_def map_of_eq_None_iff)
  have off: "k \<notin> set (cmd_flags c)" if "k \<in> set server_options" using ne that assms by (auto simp: cmd_ok_def)
  have eq: "map_of (events c) (code k) = (case om_find (cmd_options c) k of None \<Rightarrow> if k \<in> set (cmd_flags c) then Some [] else None
      | Some v \<Rightarrow> if k \<in> set (cmd_flags c) then Some [] else Some v)" if "k \<in> ?K"
    using map_of_code_flags [OF sub(1) that code_inj] map_of_code_options [OF sub(2) that code_inj]
    by (auto simp: events_def map_add_def split: option.splits if_splits)
  show "map_of (events c) (code k) = (if flag_on c k then Some [] else None)" if "k \<in> set server_flags"
    using eq none [OF that] that by (simp add: flag_on_def)
  show "map_of (events c) (code k) = opt_of c k" if "k \<in> set server_options"
    using eq off [OF that] that by (simp add: opt_of_def split: option.split)
qed

lemma distinct_events:
  assumes "cmd_ok c"
  shows "distinct (map fst (events c))"
proof -
  let ?ks = "cmd_flags c @ map fst (cmd_options c)"
  have "\<forall>k \<in> set server_flags. k \<notin> set server_options" by (simp add: server_flags_def server_options_def)
  then have "distinct ?ks" using assms by (auto simp: cmd_ok_def om_ok_def strict_sorted_iff)
  moreover have "inj_on code (set ?ks)"
    by (rule inj_on_subset [OF code_inj]) (use assms in \<open>auto simp: cmd_ok_def\<close>)
  moreover have "map fst (events c) = map code ?ks" by (simp add: events_def comp_def)
  ultimately show ?thesis by (simp add: distinct_map del: map_append set_append)
qed

text \<open>A field that one option sets and no other changes.\<close>

lemma apply_opts_field:
  assumes "\<And>opt arg s s'. opt \<noteq> n \<Longrightarrow> apply_opt opt arg s = Inr s' \<Longrightarrow> F s' = F s"
    "\<And>arg s s'. apply_opt n arg s = Inr s' \<Longrightarrow> F s' = G arg"
    "apply_opts evs s = Inr s'" "distinct (map fst evs)"
  shows "F s' = (case map_of evs n of None \<Rightarrow> F s | Some arg \<Rightarrow> G arg)"
  using assms(3,4)
proof (induction evs arbitrary: s)
  case (Cons ev evs)
  then obtain s1 where s1: "apply_opt (fst ev) (snd ev) s = Inr s1" "apply_opts evs s1 = Inr s'" by (auto split: sum.splits)
  have IH: "F s' = (case map_of evs n of None \<Rightarrow> F s1 | Some arg \<Rightarrow> G arg)" using Cons.IH [OF s1(2)] Cons.prems(2) by simp
  show ?case
  proof (cases "fst ev = n")
    case True
    then have "map_of evs n = None" using Cons.prems(2) by (auto simp: map_of_eq_None_iff)
    then show ?thesis using IH assms(2) s1(1) True by (cases ev) simp
  next
    case False
    then show ?thesis using IH assms(1) [OF False s1(1)] by (cases ev) (simp split: option.split)
  qed
qed simp

text \<open>The fields of interest.\<close>

lemma if_Inr:
  assumes "(if b then x else y) s = Inr s'" "b \<Longrightarrow> x s = Inr s' \<Longrightarrow> P" "y s = Inr s' \<Longrightarrow> P"
  shows P
  using assms by (cases b) auto

lemma on_optsD: "on_opts g s = Inr s' \<Longrightarrow> s' = (g (fst s), snd s)"
  by (simp add: on_opts_def)

lemma on_transferD: "on_transfer g s = Inr s' \<Longrightarrow> s' = (fst s, g (snd s))"
  by (simp add: on_transfer_def)

lemma number_optE: "number_opt g v s = Inr s' \<Longrightarrow> (\<And>n. v = Some n \<Longrightarrow> s' = (g n (fst s), snd s) \<Longrightarrow> P) \<Longrightarrow> P"
  by (auto simp: number_opt_def on_opts_def split: option.splits)

lemma number_transferE: "number_transfer g v s = Inr s' \<Longrightarrow> (\<And>n. v = Some n \<Longrightarrow> s' = (fst s, g n (snd s)) \<Longrightarrow> P) \<Longrightarrow> P"
  by (auto simp: number_transfer_def on_transfer_def split: option.splits)

lemma apply_opt_frame:
  "apply_opt opt arg s = Inr s' \<Longrightarrow>
    (opt \<noteq> 805 \<longrightarrow> uo_timeout (fst s') = uo_timeout (fst s)) \<and>
    (opt \<noteq> 803 \<longrightarrow> uo_nStreams (fst s') = uo_nStreams (fst s)) \<and>
    (opt \<noteq> 802 \<longrightarrow> uo_overwrite (fst s') = uo_overwrite (fst s)) \<and>
    (opt \<noteq> 302 \<longrightarrow> uo_strictCopy (fst s') = uo_strictCopy (fst s)) \<and>
    (opt \<noteq> 105 \<longrightarrow> uo_bulkFile (fst s') = uo_bulkFile (fst s)) \<and>
    (opt \<noteq> 100 \<longrightarrow> tr_jobId (snd s') = tr_jobId (snd s)) \<and>
    (opt \<noteq> 101 \<longrightarrow> tr_fileId (snd s') = tr_fileId (snd s)) \<and>
    (opt \<noteq> 102 \<longrightarrow> tr_source (snd s') = tr_source (snd s)) \<and>
    (opt \<noteq> 103 \<longrightarrow> tr_destination (snd s') = tr_destination (snd s)) \<and>
    (opt \<noteq> 207 \<longrightarrow> tr_activity (snd s') = tr_activity (snd s)) \<and>
    (opt \<noteq> 701 \<longrightarrow> tr_transferMetadata (snd s') = tr_transferMetadata (snd s)) \<and>
    uo_transfers (fst s') = uo_transfers (fst s)"
  unfolding apply_opt_def
  by (elim if_Inr number_optE number_transferE; (drule on_optsD | drule on_transferD)?;
      simp add: setChecksum_def split: option.split)

definition castable :: "nat \<Rightarrow> string \<Rightarrow> bool" where
  "castable n arg \<longleftrightarrow>
     (n \<in> {1, 305, 603, 804, 805} \<longrightarrow> lexical_cast_unsigned 32 arg \<noteq> None) \<and> (n = 101 \<longrightarrow> lexical_cast_unsigned 64 arg \<noteq> None) \<and>
     (n = 104 \<longrightarrow> lexical_cast_int64 arg \<noteq> None) \<and> (n \<in> {801, 803, 808, 820, 821} \<longrightarrow> lexical_cast_int arg \<noteq> None)"

lemma number_succeeds:
  "v \<noteq> None \<Longrightarrow> \<not> isl (number_opt g v s)" "v \<noteq> None \<Longrightarrow> \<not> isl (number_transfer h v s)"
  "\<not> isl (on_opts g' s)" "\<not> isl (on_transfer h' s)"
  by (auto simp: number_opt_def number_transfer_def on_opts_def on_transfer_def)

lemma apply_opt_succeeds:
  assumes "o1 \<in> set long_options" "snd (snd o1) \<noteq> 0" "castable (snd (snd o1)) arg"
  shows "\<exists>s'. apply_opt (snd (snd o1)) arg s = Inr s'"
proof -
  have "list_all (\<lambda>o1. snd (snd o1) \<noteq> 0 \<longrightarrow> castable (snd (snd o1)) arg \<longrightarrow> \<not> isl (apply_opt (snd (snd o1)) arg s)) long_options"
    unfolding long_options_def list.pred_inject
    by (intro conjI TrueI; simp add: apply_opt_def castable_def number_succeeds)
  then have "\<not> isl (apply_opt (snd (snd o1)) arg s)" using assms by (simp add: list_all_iff)
  then show ?thesis by (cases "apply_opt (snd (snd o1)) arg s") simp_all
qed

definition numbers_fit :: "UrlCopyCmd \<Rightarrow> bool" where
  "numbers_fit c \<longleftrightarrow> (\<forall>kv \<in> set (cmd_options c). castable (code (fst kv)) (snd kv))"

lemma help_not_used: "\<forall>k \<in> set server_flags \<union> set server_options. full_name k \<noteq> ''help''"
  by (simp add: server_flags_def server_options_def full_name_def)

lemma help_row: "\<forall>o1 \<in> set long_options. snd (snd o1) = 0 \<longrightarrow> fst o1 = ''help''"
  by (simp add: long_options_def)

lemma server_option_succeeds:
  assumes "k \<in> set server_flags \<union> set server_options" "castable (code k) arg"
  shows "\<exists>s'. apply_opt (code k) arg s = Inr s'"
proof -
  obtain a v where r: "(full_name k, a, v) \<in> set long_options" using assms(1) server_rows by blast
  then have "v \<noteq> 0" using help_not_used help_row assms(1) by fastforce
  then show ?thesis using apply_opt_succeeds [OF r] find_long_full(2) [OF r] assms(2) by simp
qed

lemma flag_castable: "k \<in> set server_flags \<Longrightarrow> castable (code k) []"
proof -
  assume k: "k \<in> set server_flags"
  then obtain v where r: "(full_name k, no_argument, v) \<in> set long_options" using server_rows(1) by blast
  have "\<forall>o1 \<in> set long_options. fst (snd o1) = no_argument \<longrightarrow> snd (snd o1) \<notin> {1, 305, 603, 804, 805, 101, 104, 801, 803, 808, 820, 821}"
    by (simp add: long_options_def)
  then have "v \<notin> {1, 305, 603, 804, 805, 101, 104, 801, 803, 808, 820, 821}" using r by fastforce
  then show ?thesis using find_long_full(2) [OF r] by (simp add: castable_def)
qed

lemma apply_opts_succeeds: "\<forall>ev \<in> set evs. \<forall>s. \<exists>s'. apply_opt (fst ev) (snd ev) s = Inr s' \<Longrightarrow> \<exists>s'. apply_opts evs s = Inr s'"
proof (induction evs arbitrary: s)
  case (Cons ev evs)
  then obtain s1 where "apply_opt (fst ev) (snd ev) s = Inr s1" by (meson list.set_intros(1))
  then show ?case using Cons by simp
qed simp

lemma events_succeed:
  assumes "cmd_ok c" "numbers_fit c"
  shows "\<exists>s'. apply_opts (events c) s = Inr s'"
proof (rule apply_opts_succeeds, intro ballI allI)
  fix ev s assume "ev \<in> set (events c)"
  then consider f where "f \<in> set (cmd_flags c)" "ev = (code f, [])" | kv where "kv \<in> set (cmd_options c)" "ev = (code (fst kv), snd kv)"
    by (auto simp: events_def)
  then show "\<exists>s'. apply_opt (fst ev) (snd ev) s = Inr s'"
  proof cases
    case 1
    then have "f \<in> set server_flags" using assms(1) by (auto simp: cmd_ok_def)
    then show ?thesis using server_option_succeeds flag_castable 1(2) by simp
  next
    case 2
    then have "fst kv \<in> set server_options" using assms(1) by (auto simp: cmd_ok_def)
    then show ?thesis using server_option_succeeds assms(2) 2 by (simp add: numbers_fit_def)
  qed
qed

lemma own_option:
  "apply_opt 805 arg s = Inr s' \<Longrightarrow> uo_timeout (fst s') = word_of_int (the (lexical_cast_unsigned 32 arg))"
  "apply_opt 803 arg s = Inr s' \<Longrightarrow> uo_nStreams (fst s') = word_of_int (the (lexical_cast_int arg))"
  "apply_opt 802 arg s = Inr s' \<Longrightarrow> uo_overwrite (fst s')" "apply_opt 302 arg s = Inr s' \<Longrightarrow> uo_strictCopy (fst s')"
  "apply_opt 105 arg s = Inr s' \<Longrightarrow> uo_bulkFile (fst s') = arg"
  "apply_opt 100 arg s = Inr s' \<Longrightarrow> tr_jobId (snd s') = arg"
  "apply_opt 101 arg s = Inr s' \<Longrightarrow> tr_fileId (snd s') = word_of_int (the (lexical_cast_unsigned 64 arg))"
  "apply_opt 102 arg s = Inr s' \<Longrightarrow> tr_source (snd s') = parse arg"
  "apply_opt 103 arg s = Inr s' \<Longrightarrow> tr_destination (snd s') = parse arg"
  "apply_opt 207 arg s = Inr s' \<Longrightarrow> tr_activity (snd s') = arg"
  "apply_opt 701 arg s = Inr s' \<Longrightarrow> tr_transferMetadata (snd s') = replaceMetadataString arg"
  by (auto simp: apply_opt_def on_opts_def on_transfer_def number_opt_def number_transfer_def split: option.splits)

lemma codes:
  "code ''timeout'' = 805" "code ''nstreams'' = 803" "code ''overwrite'' = 802" "code ''strict-copy'' = 302" "code ''bulk-file'' = 105"
  "code ''job-id'' = 100" "code ''file-id'' = 101" "code ''source'' = 102" "code ''destination'' = 103" "code ''activity'' = 207"
  "code ''transfer-metadata'' = 701"
  by ((rule code_option, simp add: long_options_def; fail) | (rule code_flag, simp add: long_options_def; fail))+

lemma fullUri_parse: "fullUri (parse u) = u"
  by (simp add: parse_def extractPort_def Let_def split: prod.split option.split)

text \<open>The options of a command as the process stores them.\<close>

definition as_number :: "(string \<Rightarrow> int option) \<Rightarrow> string option \<Rightarrow> 'w::len word" where
  "as_number cast v = (case v of None \<Rightarrow> 0 | Some arg \<Rightarrow> word_of_int (the (cast arg)))"

definition stored_options :: "UrlCopyCmd \<Rightarrow> UrlCopyOpts \<Rightarrow> Transfer \<Rightarrow> bool" where
  "stored_options c o1 t \<longleftrightarrow>
     tr_jobId t = or_default [] (opt_of c ''job-id'') \<and> tr_fileId t = as_number (lexical_cast_unsigned 64) (opt_of c ''file-id'') \<and>
     tr_activity t = or_default [] (opt_of c ''activity'') \<and>
     tr_transferMetadata t = or_default [] (map_option replaceMetadataString (opt_of c ''transfer-metadata'')) \<and>
     uo_timeout o1 = as_number (lexical_cast_unsigned 32) (opt_of c ''timeout'') \<and>
     uo_nStreams o1 = as_number lexical_cast_int (opt_of c ''nstreams'') \<and>
     (uo_overwrite o1 \<longleftrightarrow> flag_on c ''overwrite'') \<and> (uo_strictCopy o1 \<longleftrightarrow> flag_on c ''strict-copy'')"

lemma events_read:
  assumes "cmd_ok c" "apply_opts (events c) (new_UrlCopyOpts, new_Transfer) = Inr (o1, t)"
  shows "stored_options c o1 t" "uo_bulkFile o1 = or_default [] (opt_of c ''bulk-file'')"
    "tr_source t = (case opt_of c ''source'' of None \<Rightarrow> empty_Uri | Some u \<Rightarrow> parse u)"
    "tr_destination t = (case opt_of c ''destination'' of None \<Rightarrow> empty_Uri | Some u \<Rightarrow> parse u)" "uo_transfers o1 = []"
proof -
  note field = apply_opts_field [where evs = "events c" and s = "(new_UrlCopyOpts, new_Transfer)" and s' = "(o1, t)", OF _ _ assms(2) distinct_events [OF assms(1)]]
  note look = map_of_events [OF assms(1)]
  note start = new_UrlCopyOpts_def new_Transfer_def
  have t: "uo_timeout o1 = (case map_of (events c) 805 of None \<Rightarrow> 0 | Some arg \<Rightarrow> word_of_int (the (lexical_cast_unsigned 32 arg)))"
    using field [where F = "\<lambda>s. uo_timeout (fst s)" and n = 805 and G = "\<lambda>arg. word_of_int (the (lexical_cast_unsigned 32 arg))"] own_option(1) apply_opt_frame
    by (simp add: start cong: option.case_cong)
  have n: "uo_nStreams o1 = (case map_of (events c) 803 of None \<Rightarrow> 0 | Some arg \<Rightarrow> word_of_int (the (lexical_cast_int arg)))"
    using field [where F = "\<lambda>s. uo_nStreams (fst s)" and n = 803 and G = "\<lambda>arg. word_of_int (the (lexical_cast_int arg))"] own_option(2) apply_opt_frame
    by (simp add: start cong: option.case_cong)
  have w: "uo_overwrite o1 = (case map_of (events c) 802 of None \<Rightarrow> False | Some arg \<Rightarrow> True)"
    using field [where F = "\<lambda>s. uo_overwrite (fst s)" and n = 802 and G = "\<lambda>arg. True"] own_option(3) apply_opt_frame
    by (simp add: start cong: option.case_cong)
  have x: "uo_strictCopy o1 = (case map_of (events c) 302 of None \<Rightarrow> False | Some arg \<Rightarrow> True)"
    using field [where F = "\<lambda>s. uo_strictCopy (fst s)" and n = 302 and G = "\<lambda>arg. True"] own_option(4) apply_opt_frame
    by (simp add: start cong: option.case_cong)
  have b: "uo_bulkFile o1 = (case map_of (events c) 105 of None \<Rightarrow> [] | Some arg \<Rightarrow> arg)"
    using field [where F = "\<lambda>s. uo_bulkFile (fst s)" and n = 105 and G = "\<lambda>arg. arg"] own_option(5) apply_opt_frame
    by (simp add: start cong: option.case_cong)
  have j: "tr_jobId t = (case map_of (events c) 100 of None \<Rightarrow> [] | Some arg \<Rightarrow> arg)"
    using field [where F = "\<lambda>s. tr_jobId (snd s)" and n = 100 and G = "\<lambda>arg. arg"] own_option(6) apply_opt_frame
    by (simp add: start cong: option.case_cong)
  have i: "tr_fileId t = (case map_of (events c) 101 of None \<Rightarrow> 0 | Some arg \<Rightarrow> word_of_int (the (lexical_cast_unsigned 64 arg)))"
    using field [where F = "\<lambda>s. tr_fileId (snd s)" and n = 101 and G = "\<lambda>arg. word_of_int (the (lexical_cast_unsigned 64 arg))"] own_option(7) apply_opt_frame
    by (simp add: start cong: option.case_cong)
  have src: "tr_source t = (case map_of (events c) 102 of None \<Rightarrow> empty_Uri | Some arg \<Rightarrow> parse arg)"
    using field [where F = "\<lambda>s. tr_source (snd s)" and n = 102 and G = "\<lambda>arg. parse arg"] own_option(8) apply_opt_frame
    by (simp add: start cong: option.case_cong)
  have dst: "tr_destination t = (case map_of (events c) 103 of None \<Rightarrow> empty_Uri | Some arg \<Rightarrow> parse arg)"
    using field [where F = "\<lambda>s. tr_destination (snd s)" and n = 103 and G = "\<lambda>arg. parse arg"] own_option(9) apply_opt_frame
    by (simp add: start cong: option.case_cong)
  have a: "tr_activity t = (case map_of (events c) 207 of None \<Rightarrow> [] | Some arg \<Rightarrow> arg)"
    using field [where F = "\<lambda>s. tr_activity (snd s)" and n = 207 and G = "\<lambda>arg. arg"] own_option(10) apply_opt_frame
    by (simp add: start cong: option.case_cong)
  have m: "tr_transferMetadata t = (case map_of (events c) 701 of None \<Rightarrow> [] | Some arg \<Rightarrow> replaceMetadataString arg)"
    using field [where F = "\<lambda>s. tr_transferMetadata (snd s)" and n = 701 and G = "\<lambda>arg. replaceMetadataString arg"] own_option(11) apply_opt_frame
    by (simp add: start cong: option.case_cong)
  show "stored_options c o1 t"
    unfolding stored_options_def t n w x j i a m codes [symmetric] using look by (simp add: as_number_def or_default_def split: option.split)
  show "uo_bulkFile o1 = or_default [] (opt_of c ''bulk-file'')"
    unfolding b codes [symmetric] using look by (simp add: or_default_def split: option.split)
  show "tr_source t = (case opt_of c ''source'' of None \<Rightarrow> empty_Uri | Some u \<Rightarrow> parse u)"
    "tr_destination t = (case opt_of c ''destination'' of None \<Rightarrow> empty_Uri | Some u \<Rightarrow> parse u)"
    unfolding src dst codes [symmetric] using look by simp_all
  have "apply_opts evs s = Inr s' \<Longrightarrow> uo_transfers (fst s') = uo_transfers (fst s)" for evs s s'
    by (induction evs arbitrary: s) (auto split: sum.splits dest!: apply_opt_frame)
  from this [OF assms(2)] show "uo_transfers o1 = []" by (simp add: start)
qed

lemma command_read:
  assumes "cmd_ok c" "spaceless c" "numbers_fit c" "opt_of c ''bulk-file'' = None" "opt_of c ''source'' = Some src" "src \<noteq> []"
    "opt_of c ''destination'' = Some dst" "dst \<noteq> []"
  shows "\<exists>o1 t. parse_options files (getArgv app (generateParameters c)) = Inr o1 \<and> uo_transfers o1 = [t] \<and> stored_options c o1 t \<and>
    tr_source t = parse src \<and> tr_destination t = parse dst"
proof -
  obtain o1 t where ev: "apply_opts (events c) (new_UrlCopyOpts, new_Transfer) = Inr (o1, t)"
    using events_succeed [OF assms(1,3), of "(new_UrlCopyOpts, new_Transfer)"] by auto
  note r = events_read [OF assms(1) ev]
  have "parse_options files (getArgv app (generateParameters c)) = Inr (o1\<lparr>uo_transfers := [t]\<rparr>)"
    unfolding parse_options_def getopts_argv [OF assms(1,2)] ev using r assms(4-)
    by (simp add: or_default_def fullUri_parse validateRequired_def)
  moreover have "stored_options c (o1\<lparr>uo_transfers := [t]\<rparr>) t" using r(1) by (simp add: stored_options_def)
  ultimately show ?thesis using r(3,4) assms(5,7) by auto
qed

end
