(* ===== verification/TransferCommand.thy ===== *)
theory TransferCommand
  imports CommandLine
begin

section \<open>The process does what the server decided\<close>

text \<open>
  The command line that \<open>build_command\<close> puts together (theory FileTransferExecutor), option by
  option, and the end-to-end result: the process reads the file, the URLs and the decisions of the
  server. An activity with a space in its name shows what happens to values that are not encoded.
\<close>

subsection \<open>The command of a transfer\<close>

lemma show_int_nonempty [simp]: "show_int n \<noteq> []"
  using decimal_nonempty by (simp add: show_int_def)

text \<open>The parts of the command: each is well formed, and leaves the options alone that belong to others.\<close>

lemma setIPv6_keeps:
  "cmd_ok c \<Longrightarrow> cmd_ok (setIPv6 v c)"
  "k \<notin> {''ipv4'', ''ipv6''} \<Longrightarrow> opt_of (setIPv6 v c) k = opt_of c k \<and> flag_on (setIPv6 v c) k = flag_on c k"
  by (auto simp: setIPv6_def cmd_ok_setFlag cmd_ok_explicit cmd_simps split: option.split)

lemma setUDT_keeps:
  "cmd_ok c \<Longrightarrow> cmd_ok (setUDT v c)"
  "k \<noteq> ''udt'' \<Longrightarrow> opt_of (setUDT v c) k = opt_of c k \<and> flag_on (setUDT v c) k = flag_on c k"
  by (auto simp: setUDT_def cmd_ok_setFlag cmd_simps)

lemma setCopyMode_keeps:
  "cmd_ok c \<Longrightarrow> cmd_ok (setCopyMode m c)"
  "k \<notin> {''copy-mode'', ''disable-fallback''} \<Longrightarrow> opt_of (setCopyMode m c) k = opt_of c k \<and> flag_on (setCopyMode m c) k = flag_on c k"
  by (auto simp: setCopyMode_def cmd_ok_setFlag cmd_ok_setOption cmd_simps split: CopyMode.split)

lemma setJobType_keeps:
  "cmd_ok c \<Longrightarrow> cmd_ok (setJobType t c)"
  "k \<notin> {''reuse'', ''job-m-replica'', ''job-multihop''} \<Longrightarrow> opt_of (setJobType t c) k = opt_of c k \<and> flag_on (setJobType t c) k = flag_on c k"
  by (auto simp: setJobType_def cmd_ok_setFlag cmd_simps split: JobType.split)

lemma setIssuers_keeps:
  "cmd_ok c \<Longrightarrow> cmd_ok (setIssuers js md c)"
  "k \<notin> {''source-issuer'', ''dest-issuer''} \<Longrightarrow> opt_of (setIssuers js md c) k = opt_of c k \<and> flag_on (setIssuers js md c) k = flag_on c k"
  by (auto simp: setIssuers_def cmd_oks cmd_simps split: option.split)

lemmas part_keeps = setIPv6_keeps setUDT_keeps setCopyMode_keeps setJobType_keeps setIssuers_keeps

lemmas part_ok = cmd_oks cmd_ok_setFlag cmd_ok_setOption setIPv6_keeps(1) setUDT_keeps(1) setCopyMode_keeps(1) setJobType_keeps(1) setIssuers_keeps(1)

text \<open>The options whose way through the command is followed.\<close>

definition followed :: "string set" where
  "followed = {''job-id'', ''file-id'', ''activity'', ''transfer-metadata'', ''source'', ''destination'', ''bulk-file'', ''timeout'', ''nstreams''}"

lemma set_if_set:
  "cmd_ok c \<Longrightarrow> opt_of (set_if b (setOption k v) c) k = (if b \<and> v \<noteq> [] then Some v else opt_of c k)"
  "cmd_ok c \<Longrightarrow> flag_on (set_if b (setFlag k True) c) k = (b \<or> flag_on c k)"
  by (simp_all add: set_if_def cmd_simps)

lemma setFromProtocol_reads:
  assumes "cmd_ok c"
  shows "cmd_ok (setFromProtocol ps c)" "flag_on (setFromProtocol ps c) ''strict-copy'' = strictCopy ps"
    "opt_of (setFromProtocol ps c) ''timeout'' = (if timeout ps > 0 then Some (show_int (timeout ps)) else opt_of c ''timeout'')"
    "opt_of (setFromProtocol ps c) ''nstreams'' = (if nostreams ps > 0 then Some (show_int (nostreams ps)) else opt_of c ''nstreams'')"
    "\<forall>k \<in> followed - {''timeout'', ''nstreams''}. opt_of (setFromProtocol ps c) k = opt_of c k"
  using assms
  by (simp_all add: setFromProtocol_def setOptionInt_def followed_def insert_Diff_if part_ok part_keeps set_if_set cmd_simps)

lemma setJob_reads:
  assumes "cmd_ok c"
  shows "cmd_ok (setJob tf c)" "flag_on (setJob tf c) ''overwrite'' = (tf_overwriteFlag tf = ''Y'')"
    "flag_on (setJob tf c) ''strict-copy'' = flag_on c ''strict-copy''"
    "opt_of (setJob tf c) ''job-id'' = (if tf_jobId tf = [] then opt_of c ''job-id'' else Some (tf_jobId tf))"
    "\<forall>k \<in> followed - {''job-id''}. opt_of (setJob tf c) k = opt_of c k"
  using assms
  by (simp_all add: setJob_def followed_def insert_Diff_if part_ok part_keeps cmd_simps)

lemma setFile_reads:
  assumes "cmd_ok c"
  shows "cmd_ok (setFile tf c)" "flag_on (setFile tf c) ''overwrite'' = flag_on c ''overwrite''"
    "flag_on (setFile tf c) ''strict-copy'' = flag_on c ''strict-copy''"
    "opt_of (setFile tf c) ''file-id'' = Some (show_int (int (tf_fileId tf)))"
    "opt_of (setFile tf c) ''source'' = (if tf_sourceSurl tf = [] then opt_of c ''source'' else Some (tf_sourceSurl tf))"
    "opt_of (setFile tf c) ''destination'' = (if tf_destSurl tf = [] then opt_of c ''destination'' else Some (tf_destSurl tf))"
    "opt_of (setFile tf c) ''activity'' = (if tf_activity tf = [] then opt_of c ''activity'' else Some (tf_activity tf))"
    "opt_of (setFile tf c) ''transfer-metadata'' =
       (if prepareMetadataString (tf_transferMetadata tf) = [] then opt_of c ''transfer-metadata''
        else Some (prepareMetadataString (tf_transferMetadata tf)))"
    "\<forall>k \<in> {''job-id'', ''bulk-file'', ''timeout'', ''nstreams''}. opt_of (setFile tf c) k = opt_of c k"
  using assms
  by (simp_all add: setFile_def setOptionInt_def part_ok set_if_set cmd_simps)

text \<open>A command that describes the transfer \<open>tf\<close> under the protocol parameters \<open>ps\<close>.\<close>

abbreviation given :: "string \<Rightarrow> string option" where
  "given s \<equiv> (if s = [] then None else Some s)"

definition describes :: "TransferFile \<Rightarrow> ProtocolParameters \<Rightarrow> UrlCopyCmd \<Rightarrow> bool" where
  "describes tf ps c \<longleftrightarrow>
     cmd_ok c \<and> opt_of c ''job-id'' = given (tf_jobId tf) \<and> opt_of c ''file-id'' = Some (show_int (int (tf_fileId tf))) \<and>
     opt_of c ''source'' = given (tf_sourceSurl tf) \<and> opt_of c ''destination'' = given (tf_destSurl tf) \<and>
     opt_of c ''activity'' = given (tf_activity tf) \<and>
     opt_of c ''transfer-metadata'' = given (prepareMetadataString (tf_transferMetadata tf)) \<and> opt_of c ''bulk-file'' = None \<and>
     opt_of c ''timeout'' = (if timeout ps > 0 then Some (show_int (timeout ps)) else None) \<and>
     opt_of c ''nstreams'' = (if nostreams ps > 0 then Some (show_int (nostreams ps)) else None) \<and>
     flag_on c ''strict-copy'' = strictCopy ps"

definition same_description :: "UrlCopyCmd \<Rightarrow> UrlCopyCmd \<Rightarrow> bool" where
  "same_description c c' \<longleftrightarrow> cmd_ok c' \<and> (\<forall>k \<in> followed. opt_of c' k = opt_of c k) \<and> flag_on c' ''strict-copy'' = flag_on c ''strict-copy''"

lemma same_describes: "describes tf ps c \<Longrightarrow> same_description c c' \<Longrightarrow> describes tf ps c'"
  by (simp add: describes_def same_description_def followed_def)

lemma setFromTransfer_reads:
  assumes "cmd_ok c" "\<forall>k \<in> followed - {''timeout'', ''nstreams''}. opt_of c k = None"
    "opt_of c ''timeout'' = (if timeout ps > 0 then Some (show_int (timeout ps)) else None)"
    "opt_of c ''nstreams'' = (if nostreams ps > 0 then Some (show_int (nostreams ps)) else None)" "flag_on c ''strict-copy'' = strictCopy ps"
  shows "describes tf ps (setFromTransfer js tf False publish msgDir c)"
    "flag_on (setFromTransfer js tf False publish msgDir c) ''overwrite'' = (tf_overwriteFlag tf = ''Y'')"
proof -
  define c1 where "c1 = setFlag ''last-hop'' (tf_lastHop tf) (setFlag ''last-replica'' (tf_lastReplica tf)
       (set_if publish (setOption ''user-dn'' (prepareMetadataString (tf_userDn tf))) (setIssuers js (tf_fileMetadata tf) (setJob tf c))))"
  note j = setJob_reads [OF assms(1), of tf]
  have ok: "cmd_ok c1" using j(1) by (simp add: c1_def part_ok)
  have keeps: "\<forall>k \<in> followed. opt_of c1 k = opt_of (setJob tf c) k" "flag_on c1 ''strict-copy'' = flag_on c ''strict-copy''"
    "flag_on c1 ''overwrite'' = (tf_overwriteFlag tf = ''Y'')"
    using j by (simp_all add: c1_def followed_def part_keeps cmd_simps)
  have eq: "setFromTransfer js tf False publish msgDir c = setFile tf c1" by (simp add: setFromTransfer_def c1_def)
  show "describes tf ps (setFromTransfer js tf False publish msgDir c)"
    using j keeps assms(2-) unfolding eq describes_def by (simp add: setFile_reads [OF ok] followed_def insert_Diff_if)
  show "flag_on (setFromTransfer js tf False publish msgDir c) ''overwrite'' = (tf_overwriteFlag tf = ''Y'')"
    unfolding eq by (simp add: setFile_reads [OF ok] keeps)
qed

lemma transfer_command_describes:
  "describes tf ps (transfer_command x d tf ps)" "flag_on (transfer_command x d tf ps) ''overwrite'' = (tf_overwriteFlag tf = ''Y'')"
proof -
  define c0 where "c0 = set_if (getSecPerMb (tf_voName tf) d > 0) (setOptionInt ''sec-per-mb'' (getSecPerMb (tf_voName tf) d)) new_UrlCopyCmd"
  have ok: "cmd_ok c0" by (simp add: c0_def setOptionInt_def part_ok cmd_ok_new)
  have none: "\<forall>k \<in> followed. opt_of c0 k = None" by (simp add: c0_def setOptionInt_def followed_def cmd_simps)
  define c1 where "c1 = setFromTransfer (x_json x) tf False (publishUserDn (tf_voName tf) d) (x_msgDir x) (setFromProtocol ps c0)"
  have eq: "transfer_command x d tf ps = setOption ''auth-method'' (getAuthMethod x (tf_jobMetadata tf)) c1"
    by (simp add: transfer_command_def c1_def c0_def)
  note p = setFromProtocol_reads [OF ok, of ps]
  have none1: "\<forall>k \<in> followed - {''timeout'', ''nstreams''}. opt_of (setFromProtocol ps c0) k = None" using none p(5) by simp
  have c1: "describes tf ps c1" "flag_on c1 ''overwrite'' = (tf_overwriteFlag tf = ''Y'')"
    unfolding c1_def using none p(3,4) by (simp_all add: setFromTransfer_reads [OF p(1) none1 _ _ p(2)] followed_def)
  show "describes tf ps (transfer_command x d tf ps)"
    using c1(1) unfolding eq by (rule same_describes) (use c1(1) in \<open>simp add: describes_def same_description_def followed_def part_ok cmd_simps\<close>)
  show "flag_on (transfer_command x d tf ps) ''overwrite'' = (tf_overwriteFlag tf = ''Y'')"
    unfolding eq using c1(2) by (simp add: cmd_simps)
qed

text \<open>What is added later leaves the description alone, except for the overwrite flag.\<close>

lemma credential_command_keeps:
  assumes "credential_command x tf c = Some c'" "cmd_ok c"
  shows "same_description c c'" "flag_on c' ''overwrite'' = flag_on c ''overwrite''"
  using assms by (auto simp: credential_command_def Let_def same_description_def followed_def part_ok cmd_simps split: option.splits if_splits)

lemma link_options_keeps:
  assumes "cmd_ok c"
  shows "same_description c (link_options x d tf proxy c)" "flag_on (link_options x d tf proxy c) ''overwrite'' = flag_on c ''overwrite''"
  using assms
  by (simp_all add: link_options_def Let_def same_description_def followed_def setOptionInt_def setMonitoring_def
      part_ok part_keeps cmd_simps)

lemma link_command_keeps:
  assumes "cmd_ok c"
  shows "same_description c (link_command x d tf proxy c)" "flag_on (link_command x d tf proxy c) ''overwrite'' = flag_on c ''overwrite''"
proof -
  define c1 where "c1 = link_options x d tf proxy c"
  define b where "b = (\<not> cmd_IPv6Explicit c1)"
  have eq: "link_command x d tf proxy c = setOption ''alias'' (x_ftsHostName x) (setCopyMode (getCopyMode (tf_sourceSe tf) (tf_destSe tf) d)
      (setSkipEvict (getSkipEvictionFlag (tf_sourceSe tf) d) (set_if b (setIPv6 (isProtocolIPv6 (tf_sourceSe tf) (tf_destSe tf) d)) c1)))"
    by (simp only: link_command_def c1_def b_def Let_def)
  note k = link_options_keeps [OF assms, of x d tf proxy, folded c1_def]
  show "same_description c (link_command x d tf proxy c)"
    using k(1) unfolding eq same_description_def followed_def setSkipEvict_def by (simp add: part_ok part_keeps cmd_simps)
  show "flag_on (link_command x d tf proxy c) ''overwrite'' = flag_on c ''overwrite''"
    using k(2) unfolding eq setSkipEvict_def by (simp add: part_keeps cmd_simps)
qed

text \<open>The file may be overwritten: always, on a retry, or at an intermediate hop.\<close>

definition may_overwrite :: "db \<Rightarrow> TransferFile \<Rightarrow> bool" where
  "may_overwrite d tf \<longleftrightarrow>
     tf_overwriteFlag tf = ''Y'' \<or> (tf_overwriteFlag tf = ''R'' \<and> getRetryTimes (tf_jobId tf) (tf_fileId tf) d > 0) \<or>
     (tf_overwriteFlag tf = ''M'' \<and> tf_jobType tf = kTypeMultiHop \<and> \<not> tf_lastHop tf)"

lemma retry_command_keeps:
  assumes "retry_command x d tf c = Some c'" "cmd_ok c" "flag_on c ''overwrite'' = (tf_overwriteFlag tf = ''Y'')"
  shows "same_description c c'" "flag_on c' ''overwrite'' = may_overwrite d tf"
  using assms
  by (auto simp: retry_command_def Let_def same_description_def followed_def setOptionInt_def may_overwrite_def part_ok set_if_set cmd_simps
      split: sum.splits)

lemma build_command_describes:
  assumes "build_command x d tf proxy = Some c"
  shows "\<exists>ps. protocol_params d tf = Some ps \<and> describes tf ps c \<and> flag_on c ''overwrite'' = may_overwrite d tf"
proof -
  obtain ps c1 where ps: "protocol_params d tf = Some ps" and c1: "credential_command x tf (transfer_command x d tf ps) = Some c1"
    and c: "retry_command x d tf (link_command x d tf proxy c1) = Some c"
    using assms by (auto simp: build_command_def split: option.splits)
  let ?c0 = "transfer_command x d tf ps" and ?c2 = "link_command x d tf proxy c1"
  have ok0: "cmd_ok ?c0" using transfer_command_describes(1) by (simp add: describes_def)
  note k1 = credential_command_keeps [OF c1 ok0]
  have ok1: "cmd_ok c1" using k1 by (simp add: same_description_def)
  note k2 = link_command_keeps [OF ok1, of x d tf proxy]
  have ok2: "cmd_ok ?c2" using k2 by (simp add: same_description_def)
  have "flag_on ?c2 ''overwrite'' = (tf_overwriteFlag tf = ''Y'')" using k1 k2 transfer_command_describes by simp
  note k3 = retry_command_keeps [OF c ok2 this]
  have "describes tf ps c" using same_describes transfer_command_describes(1) k1(1) k2(1) k3(1) by blast
  then show ?thesis using ps k3(2) by blast
qed

subsection \<open>The numbers arrive\<close>

lemma lexical_cast_unsigned_show:
  "lexical_cast_unsigned w (show_int (int n)) = (if int n < 2 ^ w then Some (int n) else None)"
  using decimal_digits [of n] decimal_nonempty [of n] hd_decimal_sign [of n]
  by (auto simp: lexical_cast_unsigned_def show_int_def Let_def digits_value_decimal)

lemma lexical_cast_int_show:
  "lexical_cast_int (show_int (int n)) = (if int n < 2 ^ 31 then Some (int n) else None)"
  using decimal_digits [of n] decimal_nonempty [of n] hd_decimal_sign [of n]
  by (auto simp: lexical_cast_int_def show_int_def Let_def digits_value_decimal)

lemma numbers_fitD: "numbers_fit c \<Longrightarrow> opt_of c k = Some v \<Longrightarrow> castable (code k) v"
  using map_of_SomeD [of "cmd_options c" k v] by (force simp: numbers_fit_def opt_of_def om_find_def)

lemma unsigned_arrives:
  assumes "castable n (show_int v)" "0 \<le> v" "n \<in> {1, 305, 603, 804, 805} \<and> w = 32 \<or> n = 101 \<and> w = 64"
  shows "lexical_cast_unsigned w (show_int v) = Some v \<and> v < 2 ^ w"
proof -
  obtain m where m: "v = int m" using assms(2) nonneg_int_cases by blast
  have "lexical_cast_unsigned w (show_int v) \<noteq> None" using assms(1,3) unfolding castable_def by blast
  then show ?thesis using lexical_cast_unsigned_show [of w m] unfolding m by presburger
qed

lemma int_arrives:
  assumes "castable n (show_int v)" "0 \<le> v" "n \<in> {801, 803, 808, 820, 821}"
  shows "lexical_cast_int (show_int v) = Some v \<and> v < 2 ^ 31"
proof -
  obtain m where m: "v = int m" using assms(2) nonneg_int_cases by blast
  have "lexical_cast_int (show_int v) \<noteq> None" using assms(1,3) unfolding castable_def by blast
  then show ?thesis using lexical_cast_int_show [of m] unfolding m by presburger
qed

text \<open>
  The encoding of metadata: quotes survive, spaces become question marks and come back as spaces,
  and so do the question marks of the user.
\<close>

definition blank_marks :: "string \<Rightarrow> string" where
  "blank_marks = map (\<lambda>c. if c = CHR ''?'' then CHR '' '' else c)"

lemma replace_pair: "replace_all [a, b] q (a # b # s) = q @ replace_all [a, b] q s"
  by (simp add: starts_with_def)

lemma replace_pair_skip: "s = [] \<or> hd s \<noteq> b \<Longrightarrow> replace_all [a, b] q (c # s) = c # replace_all [a, b] q s"
  by (cases s) (simp_all add: starts_with_def)

text \<open>A character on its way: encoded, and then with the question marks turned into spaces.\<close>

definition on_the_way :: "char \<Rightarrow> string" where
  "on_the_way c = (if c \<in> {CHR '' '', CHR ''?''} then '' '' else if c = CHR 0x22 then [CHR 0x5C, CHR 0x22] else [c])"

lemma metadata_decoded: "replaceMetadataString (prepareMetadataString s) = blank_marks s"
proof -
  have marks: "replace_all ''?'' '' '' (prepareMetadataString s) = concat (map on_the_way s)" for s
    unfolding prepareMetadata_eq replace_all_char by (induction s) (simp_all add: on_the_way_def)
  have quote: "concat (map on_the_way r) = [] \<or> hd (concat (map on_the_way r)) \<noteq> CHR 0x22" for r by (cases r) (simp_all add: on_the_way_def)
  have "replace_all [CHR 0x5C, CHR 0x22] [CHR 0x22] (concat (map on_the_way s)) = blank_marks s"
  proof (induction s)
    case (Cons a s)
    then show ?case using replace_pair_skip [OF quote [of s]]
      by (cases "a = CHR 0x22") (simp_all add: blank_marks_def on_the_way_def [of a] on_the_way_def [of "CHR 0x22"] replace_pair del: replace_all.simps)
  qed (simp add: blank_marks_def)
  then show ?thesis unfolding replaceMetadataString_def marks .
qed

lemma prepareMetadata_empty: "prepareMetadataString s = [] \<longleftrightarrow> s = []"
  by (cases s) (simp_all add: prepareMetadata_eq)

subsection \<open>From the database to the process\<close>

text \<open>
  C30. Whatever the server read and decided for a file reaches the process it starts: if the command could
  be built, its values hold no spaces and its numbers fit their types, then \<^verbatim>\<open>fts_url_copy\<close> parses the
  arguments made from it without error, finds one transfer, and that transfer has the job, the file,
  the two URLs and the activity of the database row; its metadata up to question marks, which
  become spaces; the time-out and the number of streams of the protocol parameters, and the strict
  copy mode. It overwrites exactly if the user asked for it, or asked for it on retries and this is
  one, or on intermediate hops and this is one.
\<close>

theorem agent_receives_transfer:
  assumes "build_command x d tf proxy = Some c" "spaceless c" "numbers_fit c" "tf_sourceSurl tf \<noteq> []" "tf_destSurl tf \<noteq> []"
  shows "\<exists>ps o1 t. protocol_params d tf = Some ps \<and> parse_options files (getArgv app (generateParameters c)) = Inr o1 \<and> uo_transfers o1 = [t] \<and>
    tr_jobId t = tf_jobId tf \<and> unat (tr_fileId t) = tf_fileId tf \<and> tr_source t = parse (tf_sourceSurl tf) \<and>
    tr_destination t = parse (tf_destSurl tf) \<and> tr_activity t = tf_activity tf \<and>
    tr_transferMetadata t = blank_marks (tf_transferMetadata tf) \<and> uint (uo_timeout o1) = max 0 (timeout ps) \<and>
    uint (uo_nStreams o1) = max 0 (nostreams ps) \<and> (uo_strictCopy o1 \<longleftrightarrow> strictCopy ps) \<and> (uo_overwrite o1 \<longleftrightarrow> may_overwrite d tf)"
proof -
  obtain ps where ps: "protocol_params d tf = Some ps" and des: "describes tf ps c" and ow: "flag_on c ''overwrite'' = may_overwrite d tf"
    using build_command_describes [OF assms(1)] by auto
  have ok: "cmd_ok c" and opts: "opt_of c ''bulk-file'' = None" "opt_of c ''source'' = Some (tf_sourceSurl tf)"
    "opt_of c ''destination'' = Some (tf_destSurl tf)"
    using des assms(4,5) by (simp_all add: describes_def)
  obtain o1 t where o1: "parse_options files (getArgv app (generateParameters c)) = Inr o1" "uo_transfers o1 = [t]"
    and st: "stored_options c o1 t" and uri: "tr_source t = parse (tf_sourceSurl tf)" "tr_destination t = parse (tf_destSurl tf)"
    using command_read [OF ok assms(2,3) opts(1,2) assms(4) opts(3) assms(5)] by blast
  have fid: "unat (tr_fileId t) = tf_fileId tf"
    using st des numbers_fitD [OF assms(3), of "''file-id''"] unsigned_arrives [of 101 "int (tf_fileId tf)" 64]
    by (simp add: stored_options_def describes_def codes as_number_def unat_of_nat)
  have tmo: "uint (uo_timeout o1) = max 0 (timeout ps)"
    using st des numbers_fitD [OF assms(3), of "''timeout''"] unsigned_arrives [of 805 "timeout ps" 32]
    by (auto simp: stored_options_def describes_def codes as_number_def uint_word_of_int max_def split: if_splits)
  have str: "uint (uo_nStreams o1) = max 0 (nostreams ps)"
    using st des numbers_fitD [OF assms(3), of "''nstreams''"] int_arrives [of 803 "nostreams ps"]
    by (auto simp: stored_options_def describes_def codes as_number_def uint_word_of_int max_def split: if_splits)
  have "tr_transferMetadata t = blank_marks (tf_transferMetadata tf)"
    using st des metadata_decoded [of "tf_transferMetadata tf"]
    by (auto simp: stored_options_def describes_def prepareMetadata_empty or_default_def blank_marks_def)
  moreover have "tr_jobId t = tf_jobId tf" "tr_activity t = tf_activity tf" "uo_strictCopy o1 \<longleftrightarrow> strictCopy ps" "uo_overwrite o1 \<longleftrightarrow> may_overwrite d tf"
    using st des ow by (auto simp: stored_options_def describes_def or_default_def)
  ultimately show ?thesis using ps o1 uri fid tmo str by blast
qed

definition sample_exec_env :: exec_env where
  "sample_exec_env =
     \<lparr>x_json = (\<lambda>_ _. None), x_authMethod = (\<lambda>_. None), x_cloudConfig = (\<lambda>_ _. Some []), x_oauthConfig = (\<lambda>_. Some []),
      x_retrieveSEToken = False, x_pingInterval = 60, x_monitoringMsg = True, x_infosys = [], x_ftsHostName = ''fts3'', x_logsDir = ''/log'',
      x_msgDir = ''/msg''\<rparr>"

definition sample_copy :: TransferFile where
  "sample_copy = sample_work\<lparr>tf_activity := ''production'', tf_transferMetadata := ''a b''\<rparr>"

definition sample_command :: UrlCopyCmd where
  "sample_command =
     \<lparr>cmd_options =
        [(''activity'', ''production''), (''alias'', ''fts3''), (''auth-method'', ''null''), (''copy-mode'', ''pull''), (''debug'', ''0''),
         (''destination'', ''root://dst/f''), (''file-id'', ''4''), (''job-id'', ''k''), (''job-metadata'', ''null''), (''logDir'', ''/log''),
         (''msgDir'', ''/msg''), (''ping-interval'', ''60''), (''retry'', ''0''), (''retry_max'', ''0''), (''source'', ''root://src/f''),
         (''transfer-metadata'', ''a?b''), (''vo'', ''atlas'')],
      cmd_flags = [''monitoring''], cmd_IPv6Explicit = False\<rparr>"

lemma sample_command_built: "build_command sample_exec_env (sample_status_db kTypeRegular) sample_copy [] = Some sample_command"
  by code_simp

lemma sample_codes:
  "code ''alias'' = 601" "code ''auth-method'' = 506" "code ''copy-mode'' = 507" "code ''debug'' = 1" "code ''job-metadata'' = 702"
  "code ''logDir'' = 900" "code ''msgDir'' = 901" "code ''ping-interval'' = 603" "code ''retry'' = 820" "code ''vo'' = 500"
  by (rule code_option, simp add: long_options_def)+

lemma sample_command_fits: "numbers_fit sample_command"
  by (simp add: numbers_fit_def sample_command_def codes sample_codes code_def [of "''retry_max''"] find_long_retry_max castable_def
      lexical_cast_unsigned_def lexical_cast_int_def is_digit_def less_eq_char_def)

theorem agent_receives_transfer_witness:
  "\<exists>o1 t. parse_options (\<lambda>_. []) (getArgv ''fts_url_copy'' (generateParameters sample_command)) = Inr o1 \<and> uo_transfers o1 = [t] \<and>
     tr_jobId t = ''k'' \<and> unat (tr_fileId t) = 4 \<and> tr_transferMetadata t = ''a b'' \<and> \<not> uo_overwrite o1"
proof -
  have "spaceless sample_command" by (simp add: spaceless_def sample_command_def)
  moreover have "tf_sourceSurl sample_copy \<noteq> []" "tf_destSurl sample_copy \<noteq> []" "tf_jobId sample_copy = ''k''" "tf_fileId sample_copy = 4"
    "blank_marks (tf_transferMetadata sample_copy) = ''a b''" "\<not> may_overwrite d sample_copy" for d
    by (simp_all add: sample_copy_def sample_work_def sample_transfer_def blank_marks_def may_overwrite_def)
  ultimately show ?thesis
    using agent_receives_transfer [OF sample_command_built _ sample_command_fits, of "\<lambda>_. []" "''fts_url_copy''"] by auto
qed

end
