(* ===== verification/Canceler.thy ===== *)
theory Canceler
  imports MessageProcessing "HOL-Library.Word"
begin

section \<open>The canceler\<close>

text \<open>
  \<^verbatim>\<open>src/server/services/transfers/CancelerService.cpp\<close>: transfers that gave no sign of life,
  transfers that run for too long, transfers the user canceled, jobs that waited for too long.

  \<^item> The signals sent are a list of process ids and signals; whether a process is still alive
    after the grace period (\<^verbatim>\<open>kill(pid, 0) == 0\<close>) is the argument \<open>alive\<close>, the id of the server
    itself (\<^verbatim>\<open>getpid()\<close>) the argument \<open>self\<close>, whether the disk is full the argument \<open>diskFull\<close>.
  \<^item> Exceptions as in the message service; one that leaves a routine is its second result.
  \<^item> The counters of the service loop are \<^verbatim>\<open>unsigned int\<close>: words of 32 bits.
  \<^item> The process id of a row whose \<^verbatim>\<open>pid\<close> is NULL is taken as 0, the initial value of the
    variable that receives it.
\<close>

datatype signal = SIGTERM | SIGKILL

record canceler = node +
  signals :: "(int \<times> signal) list"

definition stall_report :: "int \<Rightarrow> string \<Rightarrow> report" where
  "stall_report pid reason =
     \<lparr>processId = pid, errorReason = reason, filesize = 0, duration = 0, throughput = 0, will_retry = False,
      fileMetadata = []\<rparr>"

text \<open>
  The three calls that end a transfer. \<open>announce\<close> is false when the state is announced only if
  the row was updated.
\<close>

definition fail_transfer ::
  "env \<Rightarrow> bool \<Rightarrow> bool \<Rightarrow> faults \<Rightarrow> job_id \<Rightarrow> nat \<Rightarrow> int \<Rightarrow> string \<Rightarrow> canceler \<Rightarrow> canceler \<times> bool" where
  "fail_transfer e cu announce f jobId fileId pid reason s =
     (if f SetFileStatus \<noteq> None then (s, True)
      else case updateTransferStatus e jobId fileId FAILED (stall_report pid reason) (n_db s) of (d1, updated, stored) \<Rightarrow>
        if f SetJobStatus \<noteq> None then (s\<lparr>n_db := d1\<rparr>, True)
        else
          let s2 = s\<lparr>n_db := updateJobStatus e cu jobId FAILED d1\<rparr> in
          if announce \<or> updated then
            (if f SendState \<noteq> None then (s2, True) else (s2\<lparr>n_sent := n_sent s2 @ [(jobId, fileId)]\<rparr>, False))
          else (s2, False))"

subsection \<open>No sign of life\<close>

definition kill_process :: "int \<Rightarrow> signal \<Rightarrow> canceler \<Rightarrow> canceler" where
  "kill_process pid sig s = s\<lparr>signals := signals s @ [(pid, sig)]\<rparr>"

fun stall_loop :: "env \<Rightarrow> bool \<Rightarrow> int \<Rightarrow> string \<Rightarrow> (nat \<Rightarrow> faults) \<Rightarrow> nat \<Rightarrow> MessageUpdater list \<Rightarrow> canceler \<Rightarrow> canceler \<times> bool" where
  "stall_loop e cu self reason f k [] s = (s, False)"
| "stall_loop e cu self reason f k (m # ms) s =
     (if mu_process_id m \<noteq> 0 \<and> mu_process_id m = self then stall_loop e cu self reason f (Suc k) ms s
      else
        let s1 = (if mu_process_id m \<noteq> 0 then kill_process (mu_process_id m) SIGKILL s else s) in
        case fail_transfer e cu False (f k) (mu_job_id m) (pm_file_id m) (mu_process_id m) reason s1 of (s2, threw) \<Rightarrow>
          if threw then (s2, True) else stall_loop e cu self reason f (Suc k) ms s2)"

definition stall_reason :: "bool \<Rightarrow> int \<Rightarrow> string" where
  "stall_reason diskFull maxAge =
     (if diskFull then ''No space left on device''
      else ''No FTS server has updated the transfer status the last '' @ show_int maxAge @
           '' seconds. Probably stalled'')"

text \<open>\<open>lock1\<close> and \<open>lock2\<close>: whether the mutex of the watch list is obtained, for the query and at the end.\<close>

definition markAsStalled ::
  "env \<Rightarrow> bool \<Rightarrow> int \<Rightarrow> bool \<Rightarrow> bool \<Rightarrow> bool \<Rightarrow> (nat \<Rightarrow> int) \<Rightarrow> int \<Rightarrow> (nat \<Rightarrow> faults) \<Rightarrow> canceler \<Rightarrow> canceler \<times> bool" where
  "markAsStalled e cu self diskFull lock1 lock2 clock maxAge f s =
     (case checkExpiredMsg lock1 clock maxAge (n_list s) of
        Inl _ \<Rightarrow> (s, True)
      | Inr messages \<Rightarrow>
          if messages = [] then (s, False)
          else case stall_loop e cu self (stall_reason diskFull maxAge) f 0 messages s of (s1, threw) \<Rightarrow>
            if threw then (s1, True)
            else case deleteMsg lock2 messages (n_list s1) of
                   Inl _ \<Rightarrow> (s1, True)
                 | Inr l \<Rightarrow> (s1\<lparr>n_list := l\<rparr>, False))"

subsection \<open>Running for too long\<close>

definition forced_reason :: string where
  "forced_reason = ''Transfer has been forced-killed because it was stalled''"

definition row_pid :: "file_row \<Rightarrow> int" where
  "row_pid r = (case f_pid r of None \<Rightarrow> 0 | Some p \<Rightarrow> p)"

fun timeout_loop :: "env \<Rightarrow> bool \<Rightarrow> (nat \<Rightarrow> faults) \<Rightarrow> nat \<Rightarrow> file_row list \<Rightarrow> canceler \<Rightarrow> canceler \<times> bool" where
  "timeout_loop e cu f k [] s = (s, False)"
| "timeout_loop e cu f k (r # rows) s =
     (let s1 = (if row_pid r > 0 then kill_process (row_pid r) SIGKILL s else s) in
      case fail_transfer e cu True (f k) (f_job_id r) (f_file_id r) (row_pid r) forced_reason s1 of (s2, threw) \<Rightarrow>
        if threw then (s2, True) else timeout_loop e cu f (Suc k) rows s2)"

definition updater_of_row :: "file_row \<Rightarrow> MessageUpdater" where
  "updater_of_row r = \<lparr>pm_file_id = f_file_id r, pm_transfer_status = [], pm_throughput = 0, pm_transferred = 0,
     mu_job_id = f_job_id r, mu_process_id = 0, mu_timestamp = 0\<rparr>"

definition applyActiveTimeouts :: "env \<Rightarrow> bool \<Rightarrow> bool \<Rightarrow> (nat \<Rightarrow> faults) \<Rightarrow> canceler \<Rightarrow> canceler \<times> bool" where
  "applyActiveTimeouts e cu lock f s =
     (case reapStalledTransfers e (n_db s) of
        (_, Some err) \<Rightarrow> (s, True)
      | (stalled, None) \<Rightarrow>
          (case timeout_loop e cu f 0 stalled s of (s1, threw) \<Rightarrow>
             if threw then (s1, True)
             else case deleteMsg lock (map updater_of_row stalled) (n_list s1) of
                    Inl _ \<Rightarrow> (s1, True)
                  | Inr l \<Rightarrow> (s1\<lparr>n_list := l\<rparr>, False)))"

subsection \<open>Canceled by the user, waiting for too long\<close>

definition killRunningJob :: "(int \<Rightarrow> bool) \<Rightarrow> int list \<Rightarrow> canceler \<Rightarrow> canceler" where
  "killRunningJob alive pids s =
     s\<lparr>signals := signals s @ map (\<lambda>p. (p, SIGTERM)) pids @ map (\<lambda>p. (p, SIGKILL)) (filter alive pids)\<rparr>"

definition killCanceledByUser :: "env \<Rightarrow> (int \<Rightarrow> bool) \<Rightarrow> canceler \<Rightarrow> canceler" where
  "killCanceledByUser e alive s =
     (case getCancelJob e (n_db s) of (d, requestIDs) \<Rightarrow>
        let s1 = s\<lparr>n_db := d\<rparr> in if requestIDs \<noteq> [] then killRunningJob alive requestIDs s1 else s1)"

text \<open>The announcement for a whole job has the file id -1, which is written as 0 here.\<close>

definition applyQueueTimeouts :: "env \<Rightarrow> bool \<Rightarrow> nat \<Rightarrow> canceler \<Rightarrow> canceler" where
  "applyQueueTimeouts e cu start s =
     (case setToFailOldQueuedJobs e cu start (n_db s) of (d, jobs) \<Rightarrow>
        s\<lparr>n_db := d, n_sent := n_sent s @ map (\<lambda>j. (j, 0)) jobs\<rparr>)"

definition recoverProcessesFromDb :: "nat \<Rightarrow> env \<Rightarrow> canceler \<Rightarrow> canceler \<times> bool" where
  "recoverProcessesFromDb ms e s =
     (case getActiveInHost ms (hostname e) (n_db s) of
        Inl _ \<Rightarrow> (s, True)
      | Inr actives \<Rightarrow> (s\<lparr>n_list := fold (\<lambda>m l. l @ [m]) actives (n_list s)\<rparr>, False))"

subsection \<open>The service loop\<close>

record counters =
  counterActiveTimeouts :: "32 word"
  counterQueueTimeouts :: "32 word"
  counterCanceled :: "32 word"

record canceler_config =
  cancelInterval :: "32 word"
  queueTimeoutInterval :: "32 word"
  activeTimeoutInterval :: "32 word"
  checkStalledTransfers :: bool
  checkStalledTimeout :: int
  cancelUnused :: bool

text \<open>\<^verbatim>\<open>counter++; if (interval > 0 && counter >= interval) { ..; counter = 0; }\<close>\<close>

definition tick :: "32 word \<Rightarrow> 32 word \<Rightarrow> bool \<times> 32 word" where
  "tick interval counter =
     (let c = counter + 1 in if interval > 0 \<and> c \<ge> interval then (True, 0) else (False, c))"

text \<open>What the outside does during one turn.\<close>

record cancel_moment =
  cm_env :: env
  cm_drain :: bool
  cm_self :: int
  cm_diskFull :: bool
  cm_lock1 :: bool
  cm_lock2 :: bool
  cm_lock3 :: bool
  cm_clock :: "nat \<Rightarrow> int"
  cm_stall_faults :: "nat \<Rightarrow> faults"
  cm_timeout_faults :: "nat \<Rightarrow> faults"
  cm_alive :: "int \<Rightarrow> bool"
  cm_hash_start :: nat

definition zero_counters :: counters where
  "zero_counters = \<lparr>counterActiveTimeouts = 0, counterQueueTimeouts = 0, counterCanceled = 0\<rparr>"

definition active_turn :: "canceler_config \<Rightarrow> cancel_moment \<Rightarrow> counters \<Rightarrow> canceler \<Rightarrow> canceler \<times> counters \<times> bool" where
  "active_turn cfg w c s =
     (if checkStalledTransfers cfg \<and> activeTimeoutInterval cfg > 0 then
        (case tick (activeTimeoutInterval cfg) (counterActiveTimeouts c) of (due, k) \<Rightarrow>
           if due then
             (case applyActiveTimeouts (cm_env w) (cancelUnused cfg) (cm_lock3 w) (cm_timeout_faults w) s of (s', threw) \<Rightarrow>
                (s', c\<lparr>counterActiveTimeouts := k\<rparr>, threw))
           else (s, c\<lparr>counterActiveTimeouts := k\<rparr>, False))
      else (s, c, False))"

definition cancel_turn :: "canceler_config \<Rightarrow> cancel_moment \<Rightarrow> canceler \<times> counters \<Rightarrow> canceler \<times> counters" where
  "cancel_turn cfg w sc =
     (case sc of (s, c) \<Rightarrow>
        if cm_drain w then (s, c)
        else case markAsStalled (cm_env w) (cancelUnused cfg) (cm_self w) (cm_diskFull w) (cm_lock1 w) (cm_lock2 w)
                    (cm_clock w) (checkStalledTimeout cfg) (cm_stall_faults w) s of (s1, threw) \<Rightarrow>
          if threw then (s1, zero_counters)
          else
            (case tick (cancelInterval cfg) (counterCanceled c) of (due, k) \<Rightarrow>
             let s2 = (if due then killCanceledByUser (cm_env w) (cm_alive w) s1 else s1);
                 c2 = c\<lparr>counterCanceled := k\<rparr>
             in case active_turn cfg w c2 s2 of (s3, c3, threw) \<Rightarrow>
                  if threw then (s3, zero_counters)
                  else
                    (case tick (queueTimeoutInterval cfg) (counterQueueTimeouts c3) of (due, k) \<Rightarrow>
                       (if due then applyQueueTimeouts (cm_env w) (cancelUnused cfg) (cm_hash_start w) s3 else s3,
                        c3\<lparr>counterQueueTimeouts := k\<rparr>))))"

text \<open>A node whose only watched transfer is old, as the canceler sees it.\<close>

definition sample_canceler :: canceler where
  "sample_canceler = node.extend sample_node \<lparr>signals = []\<rparr>"

subsection \<open>The database stays safe\<close>

definition db_safe :: "db \<Rightarrow> db \<Rightarrow> bool" where
  "db_safe d d' \<longleftrightarrow> (wf_db d \<longrightarrow> wf_db d' \<and> rows_rel file_frozen d d')"

lemma db_safe_refl [simp]: "db_safe d d"
  by (simp add: db_safe_def)

lemma db_safe_trans: "db_safe d d1 \<Longrightarrow> db_safe d1 d2 \<Longrightarrow> db_safe d d2"
  unfolding db_safe_def using rows_frozen_trans by blast

lemma db_safe_op: "file_operation op \<Longrightarrow> db_safe d (op d)"
  by (simp add: db_safe_def file_operation.keeps_wf file_operation.keeps_frozen)

lemma db_safe_status: "db_safe d (fst (updateTransferStatus e jobId fileId st m d))"
  unfolding updateTransferStatus_def by (rule db_safe_op [OF file_status.file_operation_axioms])

lemma db_safe_job: "db_safe d (updateJobStatus e cu jobId st d)"
  unfolding updateJobStatus_def by (rule db_safe_op [OF job_status.file_operation_axioms])

lemma n_db_kill [simp]: "n_db (kill_process pid sig s) = n_db s" "n_list (kill_process pid sig s) = n_list s"
  by (simp_all add: kill_process_def)

lemma db_safe_fail: "db_safe (n_db s) (n_db (fst (fail_transfer e cu ann f jobId fileId pid reason s)))"
proof -
  let ?d1 = "fst (updateTransferStatus e jobId fileId FAILED (stall_report pid reason) (n_db s))"
  have "n_db (fst (fail_transfer e cu ann f jobId fileId pid reason s)) \<in> {n_db s, ?d1, updateJobStatus e cu jobId FAILED ?d1}"
    by (simp add: fail_transfer_def Let_def split_beta)
  moreover have "db_safe (n_db s) ?d1" by (rule db_safe_status)
  moreover from this have "db_safe (n_db s) (updateJobStatus e cu jobId FAILED ?d1)" using db_safe_job db_safe_trans by blast
  ultimately show ?thesis by auto
qed

lemma db_safe_stall_loop: "db_safe (n_db s) (n_db (fst (stall_loop e cu self reason f k ms s)))"
proof (induction ms arbitrary: k s)
  case (Cons m ms)
  define s1 where "s1 = (if mu_process_id m \<noteq> 0 then kill_process (mu_process_id m) SIGKILL s else s)"
  obtain s2 threw where s2: "fail_transfer e cu False (f k) (mu_job_id m) (pm_file_id m) (mu_process_id m) reason s1 = (s2, threw)"
    by (cases "fail_transfer e cu False (f k) (mu_job_id m) (pm_file_id m) (mu_process_id m) reason s1")
  have "n_db s1 = n_db s" by (simp add: s1_def)
  then have "db_safe (n_db s) (n_db s2)"
    using db_safe_fail [of s1 e cu False "f k" "mu_job_id m" "pm_file_id m" "mu_process_id m" reason] s2 by simp
  then show ?case
    using Cons.IH [of s "Suc k"] db_safe_trans [OF _ Cons.IH [of s2 "Suc k"]] s2
    by (simp add: s1_def [symmetric] Let_def)
qed simp

lemma db_safe_timeout_loop: "db_safe (n_db s) (n_db (fst (timeout_loop e cu f k rows s)))"
proof (induction rows arbitrary: k s)
  case (Cons r rows)
  define s1 where "s1 = (if row_pid r > 0 then kill_process (row_pid r) SIGKILL s else s)"
  obtain s2 threw where s2: "fail_transfer e cu True (f k) (f_job_id r) (f_file_id r) (row_pid r) forced_reason s1 = (s2, threw)"
    by (cases "fail_transfer e cu True (f k) (f_job_id r) (f_file_id r) (row_pid r) forced_reason s1")
  have "n_db s1 = n_db s" by (simp add: s1_def)
  then have "db_safe (n_db s) (n_db s2)"
    using db_safe_fail [of s1 e cu True "f k" "f_job_id r" "f_file_id r" "row_pid r" forced_reason] s2 by simp
  then show ?case
    using db_safe_trans [OF _ Cons.IH [of s2 "Suc k"]] s2 by (simp add: s1_def [symmetric] Let_def)
qed simp

lemma db_safe_mark: "db_safe (n_db s) (n_db (fst (markAsStalled e cu self full l1 l2 clock maxAge f s)))"
proof -
  have "n_db (fst (markAsStalled e cu self full l1 l2 clock maxAge f s)) \<in> {n_db s} \<union>
      {n_db (fst (stall_loop e cu self (stall_reason full maxAge) f 0 ms s)) | ms. True}"
    by (auto simp: markAsStalled_def split_beta split: sum.split)
  then show ?thesis using db_safe_stall_loop by auto
qed

lemma db_safe_active: "db_safe (n_db s) (n_db (fst (applyActiveTimeouts e cu lock f s)))"
proof -
  have "n_db (fst (applyActiveTimeouts e cu lock f s)) \<in> {n_db s} \<union>
      {n_db (fst (timeout_loop e cu f 0 rows s)) | rows. True}"
    by (auto simp: applyActiveTimeouts_def split_beta split: sum.split option.split)
  then show ?thesis using db_safe_timeout_loop by auto
qed

lemma db_safe_canceled: "db_safe (n_db s) (n_db (killCanceledByUser e alive s))"
  using db_safe_op [OF cancel_running.file_operation_axioms, of "n_db s" e]
  by (simp add: killCanceledByUser_def killRunningJob_def Let_def split_beta)

lemma db_safe_queue: "db_safe (n_db s) (n_db (applyQueueTimeouts e cu start s))"
  using db_safe_op [OF fail_old_queued.file_operation_axioms, of "n_db s" e cu start]
  by (simp add: applyQueueTimeouts_def split_beta)

lemma db_safe_active_turn: "db_safe (n_db s) (n_db (fst (active_turn cfg w c s)))"
  using db_safe_active by (simp add: active_turn_def split_beta)

lemma db_safe_if: "db_safe d d' \<Longrightarrow> db_safe d d'' \<Longrightarrow> db_safe d (if b then d' else d'')"
  by simp

lemma n_db_if: "n_db (if b then s else s') = (if b then n_db s else n_db s')"
  by simp

lemma db_safe_turn: "db_safe (n_db s) (n_db (fst (cancel_turn cfg w (s, c))))"
proof -
  define s1 where "s1 = fst (markAsStalled (cm_env w) (cancelUnused cfg) (cm_self w) (cm_diskFull w) (cm_lock1 w) (cm_lock2 w)
                    (cm_clock w) (checkStalledTimeout cfg) (cm_stall_faults w) s)"
  define k where "k = tick (cancelInterval cfg) (counterCanceled c)"
  define s2 where "s2 = (if fst k then killCanceledByUser (cm_env w) (cm_alive w) s1 else s1)"
  define s3 where "s3 = fst (active_turn cfg w (c\<lparr>counterCanceled := snd k\<rparr>) s2)"
  have s1: "db_safe (n_db s) (n_db s1)" unfolding s1_def by (rule db_safe_mark)
  have s2: "db_safe (n_db s) (n_db s2)"
    unfolding s2_def n_db_if by (intro db_safe_if db_safe_trans [OF s1] db_safe_canceled db_safe_refl)
  have s3: "db_safe (n_db s) (n_db s3)"
    unfolding s3_def by (rule db_safe_trans [OF s2 db_safe_active_turn])
  have s4: "db_safe (n_db s) (n_db (applyQueueTimeouts (cm_env w) (cancelUnused cfg) (cm_hash_start w) s3))"
    by (rule db_safe_trans [OF s3 db_safe_queue])
  have "n_db (fst (cancel_turn cfg w (s, c)))
      \<in> {n_db s, n_db s1, n_db s3, n_db (applyQueueTimeouts (cm_env w) (cancelUnused cfg) (cm_hash_start w) s3)}"
    unfolding cancel_turn_def Let_def split_beta fst_conv snd_conv s1_def [symmetric] k_def [symmetric] s2_def [symmetric] s3_def [symmetric]
    by simp
  then show ?thesis using s1 s3 s4 by auto
qed

interpretation cancel_service: file_operation "\<lambda>d. n_db (fst (cancel_turn cfg w (s\<lparr>n_db := d\<rparr>, c)))"
proof
  fix d assume "wf_db d"
  then show "wf_db (n_db (fst (cancel_turn cfg w (s\<lparr>n_db := d\<rparr>, c))))"
    "rows_rel file_frozen d (n_db (fst (cancel_turn cfg w (s\<lparr>n_db := d\<rparr>, c))))"
    using db_safe_turn [of "s\<lparr>n_db := d\<rparr>" cfg w c] by (simp_all add: db_safe_def)
qed

subsection \<open>A transfer with no sign of life is ended\<close>

lemma fail_transfer_ends:
  assumes "fail_transfer e cu ann f jobId i pid reason s = (s', False)" "wf_db (n_db s)" "jobId \<noteq> []"
    "file_by_id i (n_db s) = Some r"
  shows "\<exists>r'. file_by_id i (n_db s') = Some r' \<and> terminal_file (f_file_state r')"
proof -
  let ?d1 = "fst (updateTransferStatus e jobId i FAILED (stall_report pid reason) (n_db s))"
  obtain r1 where "file_by_id i ?d1 = Some r1" "terminal_file (f_file_state r1)"
    using status_update_ends [of "n_db s" i r jobId FAILED e "stall_report pid reason"] assms(2-4)
    by (auto simp: terminal_file_def split: if_splits)
  moreover from this have "file_by_id i (updateJobStatus e cu jobId FAILED ?d1) = Some r1"
    by (rule job_update_keeps_terminal)
  moreover have "n_db s' = updateJobStatus e cu jobId FAILED ?d1"
    using assms(1) by (auto simp: fail_transfer_def Let_def split_beta split: if_splits)
  ultimately show ?thesis by simp
qed

lemma db_safe_terminal:
  assumes "db_safe d d'" "wf_db d" "file_by_id i d = Some r" "terminal_file (f_file_state r)"
  shows "\<exists>r'. file_by_id i d' = Some r' \<and> terminal_file (f_file_state r')"
proof -
  have "rows_rel file_frozen d d'" using assms(1,2) by (simp add: db_safe_def)
  then have "\<exists>r'. file_by_id i d' = Some r' \<and> file_frozen r r'"
    by (rule rows_rel_file_by_id) (auto simp: file_frozen_def assms(3))
  then show ?thesis using assms(4) by (auto simp: file_frozen_def)
qed

lemma db_safe_row: "db_safe d d' \<Longrightarrow> wf_db d \<Longrightarrow> file_by_id i d = Some r \<Longrightarrow> \<exists>r'. file_by_id i d' = Some r'"
proof -
  assume a: "db_safe d d'" "wf_db d" "file_by_id i d = Some r"
  then have "rows_rel file_frozen d d'" by (simp add: db_safe_def)
  then have "\<exists>r'. file_by_id i d' = Some r' \<and> file_frozen r r'"
    by (rule rows_rel_file_by_id) (auto simp: file_frozen_def a(3))
  then show ?thesis by blast
qed

lemma fail_transfer_keeps:
  "signals (fst (fail_transfer e cu ann f jobId i pid reason s)) = signals s"
  "n_list (fst (fail_transfer e cu ann f jobId i pid reason s)) = n_list s"
  by (simp_all add: fail_transfer_def Let_def split_beta)

lemma stall_loop_keeps:
  "set (signals s) \<subseteq> set (signals (fst (stall_loop e cu self reason f k ms s)))
    \<and> n_list (fst (stall_loop e cu self reason f k ms s)) = n_list s"
proof (induction ms arbitrary: k s)
  case (Cons m ms)
  define s1 where "s1 = (if mu_process_id m \<noteq> 0 then kill_process (mu_process_id m) SIGKILL s else s)"
  obtain s2 threw where s2: "fail_transfer e cu False (f k) (mu_job_id m) (pm_file_id m) (mu_process_id m) reason s1 = (s2, threw)"
    by (cases "fail_transfer e cu False (f k) (mu_job_id m) (pm_file_id m) (mu_process_id m) reason s1")
  have "set (signals s) \<subseteq> set (signals s2)" "n_list s2 = n_list s"
    using fail_transfer_keeps [of e cu False "f k" "mu_job_id m" "pm_file_id m" "mu_process_id m" reason s1] s2
    by (auto simp: s1_def kill_process_def split: if_splits)
  then show ?case
    using Cons.IH [of s "Suc k"] Cons.IH [of s2 "Suc k"] s2 by (auto simp: s1_def [symmetric] Let_def)
qed simp

lemma stall_loop_ends:
  assumes "stall_loop e cu self reason f k ms s = (s', False)" "wf_db (n_db s)" "m \<in> set ms"
    "mu_process_id m = 0 \<or> mu_process_id m \<noteq> self" "mu_job_id m \<noteq> []" "file_by_id (pm_file_id m) (n_db s) = Some r"
  shows "(\<exists>r'. file_by_id (pm_file_id m) (n_db s') = Some r' \<and> terminal_file (f_file_state r'))
    \<and> (mu_process_id m \<noteq> 0 \<longrightarrow> (mu_process_id m, SIGKILL) \<in> set (signals s'))"
  using assms
proof (induction ms arbitrary: k s r)
  case (Cons x ms)
  define s1 where "s1 = (if mu_process_id x \<noteq> 0 then kill_process (mu_process_id x) SIGKILL s else s)"
  obtain s2 threw where s2: "fail_transfer e cu False (f k) (mu_job_id x) (pm_file_id x) (mu_process_id x) reason s1 = (s2, threw)"
    by (cases "fail_transfer e cu False (f k) (mu_job_id x) (pm_file_id x) (mu_process_id x) reason s1")
  have db1: "n_db s1 = n_db s" by (simp add: s1_def)
  have safe: "db_safe (n_db s) (n_db s2)"
    using db_safe_fail [of s1 e cu False "f k" "mu_job_id x" "pm_file_id x" "mu_process_id x" reason] s2 db1 by simp
  show ?case
  proof (cases "mu_process_id x \<noteq> 0 \<and> mu_process_id x = self")
    case True
    then have "m \<in> set ms" using Cons.prems(3,4) by auto
    then show ?thesis using Cons.IH [of "Suc k" s r] Cons.prems True by simp
  next
    case False
    then have rest: "stall_loop e cu self reason f (Suc k) ms s2 = (s', False)" "\<not> threw"
      using Cons.prems(1) s2 by (auto simp: s1_def [symmetric] Let_def split: if_splits)
    have wf2: "wf_db (n_db s2)" using safe Cons.prems(2) by (simp add: db_safe_def)
    show ?thesis
    proof (cases "m = x")
      case True
      then have "\<exists>r'. file_by_id (pm_file_id m) (n_db s2) = Some r' \<and> terminal_file (f_file_state r')"
        using fail_transfer_ends [of e cu False "f k" "mu_job_id x" "pm_file_id x" "mu_process_id x" reason s1 s2 r]
          s2 rest(2) Cons.prems(2,5,6) db1 by simp
      then obtain r2 where r2: "file_by_id (pm_file_id m) (n_db s2) = Some r2" "terminal_file (f_file_state r2)" by blast
      have "\<exists>r'. file_by_id (pm_file_id m) (n_db s') = Some r' \<and> terminal_file (f_file_state r')"
        using db_safe_stall_loop [of s2 e cu self reason f "Suc k" ms] rest(1)
        by (intro db_safe_terminal [OF _ wf2 r2]) simp
      moreover have "mu_process_id m \<noteq> 0 \<longrightarrow> (mu_process_id m, SIGKILL) \<in> set (signals s2)"
        using fail_transfer_keeps(1) [of e cu False "f k" "mu_job_id x" "pm_file_id x" "mu_process_id x" reason s1] s2 True
        by (simp add: s1_def kill_process_def)
      ultimately show ?thesis
        using stall_loop_keeps [of s2 e cu self reason f "Suc k" ms] rest(1) by auto
    next
      case False
      obtain r2 where "file_by_id (pm_file_id m) (n_db s2) = Some r2"
        using db_safe_row [OF safe Cons.prems(2,6)] by blast
      then show ?thesis using Cons.IH [OF rest(1) wf2 _ Cons.prems(4,5)] False Cons.prems(3) by simp
    qed
  qed
qed simp

subsection \<open>Properties\<close>

text \<open>
  C22: when the check for signs of life runs through, every watched transfer whose last message is
  too old (and that is not the server itself) has its process killed, its file in a terminal
  state, and is watched no more.
\<close>

theorem silent_transfers_reaped:
  assumes "markAsStalled e cu self full l1 l2 clock maxAge f s = (s', False)" "wf_db (n_db s)"
    "k < length (n_list s)" "n_list s ! k = m" "expired maxAge (clock k) m"
    "mu_process_id m = 0 \<or> mu_process_id m \<noteq> self" "mu_job_id m \<noteq> []" "file_by_id (pm_file_id m) (n_db s) = Some r"
  shows "(\<exists>r'. file_by_id (pm_file_id m) (n_db s') = Some r' \<and> terminal_file (f_file_state r'))
    \<and> (mu_process_id m \<noteq> 0 \<longrightarrow> (mu_process_id m, SIGKILL) \<in> set (signals s'))
    \<and> (mu_job_id m, pm_file_id m) \<notin> watched (n_list s')"
proof -
  define ms where "ms = expired_from clock maxAge 0 (n_list s)"
  have m: "m \<in> set ms" using in_expired_from [of k "n_list s" maxAge clock 0] assms(3-5) by (simp add: ms_def)
  then obtain s1 where s1: "stall_loop e cu self (stall_reason full maxAge) f 0 ms s = (s1, False)"
    and l: "\<exists>l. deleteMsg l2 ms (n_list s1) = Inr l \<and> s' = s1\<lparr>n_list := l\<rparr>"
    using assms(1) by (auto simp: markAsStalled_def checkExpiredMsg_def under_lock_def ms_def [symmetric]
        split: if_splits prod.splits sum.splits)
  have "(mu_job_id m, pm_file_id m) \<in> watched ms" using m by (auto simp: watched_def)
  then have "(mu_job_id m, pm_file_id m) \<notin> watched (n_list s')" using l watched_deleteMsg by fastforce
  moreover have "n_db s' = n_db s1" "signals s' = signals s1" using l by auto
  ultimately show ?thesis using stall_loop_ends [OF s1 assms(2) m assms(6-8)] by simp
qed

theorem silent_transfers_reaped_witness:
  "\<exists>s'. markAsStalled sample_env True 99 False True True (\<lambda>_. 10 ^ 12) 1800 (\<lambda>_. no_faults) sample_canceler = (s', False)
    \<and> (7, SIGKILL) \<in> set (signals s') \<and> (''j'', 1) \<notin> watched (n_list s')"
proof -
  let ?r = "markAsStalled sample_env True 99 False True True (\<lambda>_. 10 ^ 12) 1800 (\<lambda>_. no_faults) sample_canceler"
  have "snd ?r = False" by code_simp
  then obtain s' where r: "?r = (s', False)" by (cases ?r) simp
  have db: "n_db sample_canceler = n_db sample_node" "n_list sample_canceler = n_list sample_node"
    by (simp_all add: sample_canceler_def node.defs)
  let ?m = "hd (n_list sample_node)"
  have m: "mu_process_id ?m = 7" "mu_job_id ?m = ''j''" "pm_file_id ?m = 1" "length (n_list sample_node) = 1"
      "n_list sample_node ! 0 = ?m" "expired 1800 (10 ^ 12) ?m"
    by (simp_all add: sample_node_def expired_def)
  have "(mu_process_id ?m \<noteq> 0 \<longrightarrow> (mu_process_id ?m, SIGKILL) \<in> set (signals s'))
      \<and> (mu_job_id ?m, pm_file_id ?m) \<notin> watched (n_list s')"
    using silent_transfers_reaped [OF r, of 0 ?m "sample_file 1 ''j'' 0 ACTIVE"] sample_node_rows m
    unfolding db by simp
  then show ?thesis using r m by auto
qed

lemma tick_state:
  assumes "n > 0" "unat c < unat n"
  shows "tick n c = (if Suc (unat c) = unat n then (True, 0) else (False, c + 1))" "unat (c + 1) = Suc (unat c)"
proof -
  have "unat c + unat (1 :: 32 word) < 2 ^ LENGTH(32)"
    using assms(2) unsigned_less [where ?'a = nat, of n] by simp
  then have "unat (c + 1) = unat c + unat (1 :: 32 word)" by (rule iffD1 [OF unat_add_lem])
  then show c: "unat (c + 1) = Suc (unat c)" by simp
  show "tick n c = (if Suc (unat c) = unat n then (True, 0) else (False, c + 1))"
    using assms c by (auto simp: tick_def Let_def word_le_nat_alt)
qed

lemma tick_iterate:
  assumes "n > 0"
  shows "unat (((\<lambda>c. snd (tick n c)) ^^ k) 0) = k mod unat n"
proof (induction k)
  case (Suc k)
  let ?c = "((\<lambda>c. snd (tick n c)) ^^ k) 0"
  have n: "unat n > 0" using assms by (simp add: word_less_nat_alt)
  then have lt: "unat ?c < unat n" using Suc by simp
  show ?case
    using tick_state [OF assms lt] Suc n by (simp add: mod_Suc)
qed simp

text \<open>
  The service counts its turns in 32 bit counters. With an interval of \<open>n\<close> turns the check
  runs in every \<open>n\<close>-th turn and in no other: after \<open>k\<close> turns the counter holds \<open>k mod n\<close>.
\<close>

lemma checks_run_periodically:
  assumes "n > 0"
  shows "fst (tick n (((\<lambda>c. snd (tick n c)) ^^ k) 0)) \<longleftrightarrow> unat n dvd Suc k"
proof -
  let ?c = "((\<lambda>c. snd (tick n c)) ^^ k) 0"
  have n: "unat n > 0" using assms by (simp add: word_less_nat_alt)
  then have lt: "unat ?c < unat n" using tick_iterate [OF assms] by simp
  then show ?thesis
    using tick_state(1) [OF assms lt] tick_iterate [OF assms, of k] n
    by (auto simp: mod_Suc dvd_eq_mod_eq_0)
qed

end
