(* ===== verification/ReuseTransfers.thy ===== *)
theory ReuseTransfers
  imports StartTransfers TransferCommand Canceler
begin

section \<open>Session reuse\<close>

text \<open>
  \<^verbatim>\<open>src/server/services/transfers/ReuseTransfersService.cpp\<close>: jobs whose files share one process. The
  service writes the files of a job into a job file, claims all of them at once and starts one
  \<^verbatim>\<open>fts_url_copy\<close> for the job, which reads the job file.

  \<^item> \<open>reuse_env\<close> adds to \<open>turn_env\<close> what is particular to this service: which calls throw, what fork
    and exec do, whether the job file can be written, and the value of the variable that the query
    leaves uninitialised.
  \<^item> Unlike a worker of the pool, the service handles the jobs in its own thread: an exception ends
    the turn, and what was done before it stays.
  \<^item> The result of a start: the node, whether it threw, the job files written (path and lines) and
    the process.
\<close>

datatype reuse_call = R_Publish | R_Allowed | R_Config | R_Claim | R_Retry | R_Record | R_Watch nat | R_Protocol

record reuse_env =
  re_turn :: turn_env
  re_faults :: "job_id \<Rightarrow> reuse_call \<Rightarrow> bool"
  re_spawn :: "job_id \<Rightarrow> int \<times> bool"
  re_writable :: "job_id \<Rightarrow> bool"
  re_uninit_first :: int
  re_uninit_then :: int

subsection \<open>The job file\<close>

definition or_x :: "string \<Rightarrow> string" where
  "or_x s = (if s = [] then ''x'' else s)"

text \<open>The words of a line, and the line.\<close>

definition job_file_words :: "TransferFile \<Rightarrow> string list" where
  "job_file_words tf =
     [show_int (int (tf_fileId tf)), tf_sourceSurl tf, tf_destSurl tf, or_x (tf_checksum tf), show_int (tf_userFilesize tf),
      or_x (prepareMetadataString (tf_fileMetadata tf)), or_x (prepareMetadataString (tf_transferMetadata tf)),
      or_x (tf_bringOnlineToken tf), show_int (tf_scitag tf)]"

fun join_words :: "string list \<Rightarrow> string" where
  "join_words [] = []"
| "join_words [w] = w"
| "join_words (w # ws) = w @ '' '' @ join_words ws"

text \<open>\<^verbatim>\<open>std::map::insert\<close> keeps an entry that is there.\<close>

definition insert_id :: "TransferFile \<Rightarrow> (nat, job_id) omap \<Rightarrow> (nat, job_id) omap" where
  "insert_id tf m = (if om_find m (tf_fileId tf) = None then om_put (tf_fileId tf) (tf_jobId tf) m else m)"

definition generateJobFile :: "TransferFile list \<Rightarrow> string list \<times> (nat, job_id) omap" where
  "generateJobFile files = (map (\<lambda>tf. join_words (job_file_words tf)) files, fold insert_id files [])"

text \<open>A file that cannot be opened is not written, and nobody notices.\<close>

definition writeJobFile :: "exec_env \<Rightarrow> bool \<Rightarrow> job_id \<Rightarrow> string list \<Rightarrow> (string \<times> string list) list" where
  "writeJobFile x writable jobId urls = (if writable then [(x_msgDir x @ ''/'' @ jobId, urls)] else [])"

subsection \<open>The command line\<close>

definition reuse_command :: "exec_env \<Rightarrow> db \<Rightarrow> TransferFile \<Rightarrow> ProtocolParameters \<Rightarrow> UrlCopyCmd" where
  "reuse_command x d tf ps =
     setFromProtocol ps
       (set_if (getSecPerMb (tf_voName tf) d > 0) (setOptionInt ''sec-per-mb'' (getSecPerMb (tf_voName tf) d))
       (setFromTransfer (x_json x) tf True (publishUserDn (tf_voName tf) d) (x_msgDir x)
       (setMonitoring (x_monitoringMsg x) (x_msgDir x)
       (setOption ''logDir'' (x_logsDir x) new_UrlCopyCmd))))"

definition reuse_credentials :: "exec_env \<Rightarrow> (string \<Rightarrow> string \<Rightarrow> string option) \<Rightarrow> TransferFile \<Rightarrow> UrlCopyCmd \<Rightarrow> UrlCopyCmd option" where
  "reuse_credentials x getProxyFile tf c =
     (case (getProxyFile (tf_userDn tf) (tf_credId tf), x_cloudConfig x tf []) of
        (Some proxy, Some cloud) \<Rightarrow>
          Some (set_if (cloud \<noteq> []) (setOption ''oauth'' cloud) (set_if (proxy \<noteq> []) (setOption ''proxy'' proxy) c))
      | _ \<Rightarrow> None)"

definition reuse_retries :: "exec_env \<Rightarrow> db \<Rightarrow> TransferFile \<Rightarrow> UrlCopyCmd \<Rightarrow> UrlCopyCmd option" where
  "reuse_retries x d tf c =
     (let debugLevel = getDebugLevel (tf_sourceSe tf) (tf_destSe tf) d; retry_times = getRetryTimes (tf_jobId tf) (tf_fileId tf) d in
      case getRetry (tf_jobId tf) d of
        Inl _ \<Rightarrow> None
      | Inr retry_max \<Rightarrow>
          Some
            (setOptionInt ''retry_max'' (if retry_max < 0 then 0 else retry_max)
            (setOptionInt ''retry'' (if retry_times < 0 then 0 else retry_times)
            (setOption ''alias'' (x_ftsHostName x)
            (setOption ''infosystem'' (x_infosys x)
            (set_if (debugLevel > 0) (setOptionInt ''debug'' debugLevel) c))))))"

subsection \<open>Starting a job\<close>

text \<open>
  The watch list gets every file, also when the process could not be started; \<open>None\<close> is an exception.
\<close>

fun watch_reuse ::
  "(reuse_call \<Rightarrow> bool) \<Rightarrow> job_id \<Rightarrow> int \<Rightarrow> nat \<Rightarrow> UrlCopyCmd \<Rightarrow> nat \<Rightarrow> nat list \<Rightarrow> watch_list \<Rightarrow> watch_list \<times> protocol_message list option" where
  "watch_reuse f jobId pid clock c k [] l = (l, Some [])"
| "watch_reuse f jobId pid clock c k (i # ids) l =
     (case push_back (\<not> f (R_Watch k))
         \<lparr>pm_file_id = i, pm_transfer_status = [], pm_throughput = 0, pm_transferred = 0, mu_job_id = jobId, mu_process_id = pid, mu_timestamp = clock\<rparr> l of
        Inl _ \<Rightarrow> (l, None)
      | Inr l1 \<Rightarrow>
          (case (option_int ''timeout'' c, option_int ''tcp-buffersize'' c, option_int ''nstreams'' c) of
             (Some time, Some buffer, Some streams) \<Rightarrow>
               (case watch_reuse f jobId pid clock c (Suc k) ids l1 of
                  (l2, ms) \<Rightarrow>
                    (l2, map_option
                       (Cons \<lparr>tm_file_id = i, tm_transfer_status = ''UPDATE'', tm_filesize = 0, tm_nostreams = streams, tm_timeout = time,
                              tm_buffersize = buffer\<rparr>) ms))
           | _ \<Rightarrow> (l1, None)))"

definition record_reuse :: "env \<Rightarrow> (reuse_call \<Rightarrow> bool) \<Rightarrow> job_id \<Rightarrow> int \<times> bool \<Rightarrow> nat \<Rightarrow> UrlCopyCmd \<Rightarrow> nat list \<Rightarrow> node \<Rightarrow> node \<times> bool" where
  "record_reuse e f jobId spawn clock c ids s =
     (if f R_Record then (s, True)
      else
        let s1 = s\<lparr>n_db := (if snd spawn then setPidForJob jobId (fst spawn) (n_db s) else forkFailed e jobId (n_db s))\<rparr> in
        case watch_reuse f jobId (fst spawn) clock c 0 ids (n_list s1) of
          (l, None) \<Rightarrow> (s1\<lparr>n_list := l\<rparr>, True)
        | (l, Some ms) \<Rightarrow>
            let s2 = s1\<lparr>n_list := l\<rparr> in
            if f R_Protocol then (s2, True) else (s2\<lparr>n_db := updateProtocol ms (n_db s2)\<rparr>, False))"

type_synonym reuse_start = "node \<times> bool \<times> (int \<times> string list) option"

definition launch_reuse :: "reuse_env \<Rightarrow> job_id \<Rightarrow> TransferFile \<Rightarrow> nat list \<Rightarrow> UrlCopyCmd \<Rightarrow> node \<Rightarrow> reuse_start" where
  "launch_reuse re jobId rep ids c s =
     (let te = re_turn re; f = re_faults re jobId in
      if f R_Claim then (s, True, None)
      else case updateFileStatusReuse (te_env te) (tf_jobId rep) READY (n_db s) of
        (d1, updatedFiles) \<Rightarrow>
          let s1 = s\<lparr>n_db := d1\<rparr> in
          if updatedFiles = 0 then (s1, False, None)
          else if f R_Retry then (s1, True, None)
          else case reuse_retries (te_exec te) d1 rep c of
            None \<Rightarrow> (s1, True, None)
          | Some c1 \<Rightarrow>
              (case record_reuse (te_env te) f jobId (re_spawn re jobId) (te_clock te) c1 ids s1 of
                 (s2, thrown1) \<Rightarrow>
                   (s2, thrown1,
                    if snd (re_spawn re jobId) then Some (fst (re_spawn re jobId), getArgv ''fts_url_copy'' (generateParameters c1)) else None)))"

definition startUrlCopy :: "reuse_env \<Rightarrow> job_id \<Rightarrow> TransferFile list \<Rightarrow> node \<Rightarrow> reuse_start \<times> (string \<times> string list) list" where
  "startUrlCopy re jobId files s =
     (let te = re_turn re; x = te_exec te; f = re_faults re jobId; d = n_db s; rep = hd files; (urls, fileIds) = generateJobFile files;
          written = writeJobFile x (re_writable re jobId) (tf_jobId rep) urls
      in if f R_Publish then ((s, True, None), [])
         else case (if f R_Allowed then Inl UserError else isTrAllowed (tf_sourceSe rep) (tf_destSe rep) d) of
           Inl _ \<Rightarrow> ((s, True, None), written)
         | Inr allowed \<Rightarrow>
             if \<not> allowed then ((s, False, None), written)
             else case (if f R_Config then None else protocol_params d rep) of
               None \<Rightarrow> ((s, True, None), written)
             | Some ps \<Rightarrow>
                 (case reuse_credentials x (te_proxy te) rep (reuse_command x d rep ps) of
                    None \<Rightarrow> ((s, True, None), written)
                  | Some c \<Rightarrow> (launch_reuse re jobId rep (om_keys fileIds) c s, written)))"

subsection \<open>The loop over the jobs\<close>

text \<open>The first job of a VO is taken out of its queue. After an exception the counters are not looked at any more.\<close>

record reuse_state =
  rs_node :: node
  rs_queues :: reuse_queues
  rs_available :: int
  rs_dest :: slots
  rs_source :: slots
  rs_written :: "(string \<times> string list) list"
  rs_started :: "(TransferFile \<times> job_id \<times> int \<times> string list) list"
  rs_stop :: bool
  rs_threw :: bool

definition reuse_next :: "string \<Rightarrow> reuse_queues \<Rightarrow> reuse_queues \<times> (job_id \<times> TransferFile list) option" where
  "reuse_next vo qs = (case om_at [] qs vo of [] \<Rightarrow> (qs, None) | job # jobs \<Rightarrow> (om_put vo jobs qs, Some job))"

definition start_job :: "reuse_env \<Rightarrow> job_id \<Rightarrow> TransferFile list \<Rightarrow> reuse_state \<Rightarrow> reuse_state" where
  "start_job re jobId files st =
     (case startUrlCopy re jobId files (rs_node st) of
        ((s, thrown1, proc), written) \<Rightarrow>
          st\<lparr>rs_node := s, rs_written := rs_written st @ written, rs_threw := thrown1,
             rs_started := rs_started st @ (case proc of None \<Rightarrow> [] | Some pa \<Rightarrow> [(hd files, jobId, pa)]),
             rs_available := rs_available st - 1, rs_dest := subtract (tf_destSe (hd files)) 1 (rs_dest st),
             rs_source := subtract (tf_sourceSe (hd files)) 1 (rs_source st)\<rparr>)"

definition visit_reuse :: "reuse_env \<Rightarrow> string \<Rightarrow> reuse_state \<Rightarrow> reuse_state" where
  "visit_reuse re vo st0 =
     (case reuse_next vo (rs_queues st0) of
        (qs, None) \<Rightarrow> st0
      | (qs, Some (jobId, files)) \<Rightarrow>
          let st = st0\<lparr>rs_queues := qs\<rparr> in
          if files = [] then st
          else if slot_at (rs_dest st) (tf_destSe (hd files)) \<le> 0 then st
          else if slot_at (rs_source st) (tf_sourceSe (hd files)) \<le> 0 then st
          else if rs_available st \<le> 0 then st\<lparr>rs_stop := True\<rparr>
          else start_job re jobId files st)"

fun visit_reuses :: "reuse_env \<Rightarrow> string list \<Rightarrow> reuse_state \<Rightarrow> reuse_state" where
  "visit_reuses re [] st = st"
| "visit_reuses re (vo # vs) st = (if rs_stop st \<or> rs_threw st then st else visit_reuses re vs (visit_reuse re vo st))"

definition reuse_on :: "reuse_state \<Rightarrow> bool" where
  "reuse_on st \<longleftrightarrow> \<not> rs_stop st \<and> \<not> rs_threw st \<and> (\<exists>p \<in> set (rs_queues st). snd p \<noteq> [])"

definition reuse_loop :: "reuse_env \<Rightarrow> reuse_state \<Rightarrow> reuse_state option" where
  "reuse_loop re = while_option reuse_on (\<lambda>st. visit_reuses re (om_keys (rs_queues st)) st)"

definition new_reuse :: "node \<Rightarrow> reuse_queues \<Rightarrow> int \<Rightarrow> slots \<times> slots \<Rightarrow> reuse_state" where
  "new_reuse s qs available ds =
     \<lparr>rs_node = s, rs_queues = qs, rs_available = available, rs_dest = fst ds, rs_source = snd ds, rs_written = [], rs_started = [],
      rs_stop = False, rs_threw = False\<rparr>"

subsection \<open>The turn\<close>

definition getReuseFiles :: "reuse_env \<Rightarrow> QueueId list \<Rightarrow> int \<Rightarrow> node \<Rightarrow> reuse_state option" where
  "getReuseFiles re queues available s =
     (case getReadySessionReuseTransfers (re_uninit_then re) (te_ready (re_turn re)) (n_db s) queues [] of
        Inl _ \<Rightarrow> Some ((new_reuse s [] available (Map.empty, Map.empty))\<lparr>rs_threw := True\<rparr>)
      | Inr voQueues \<Rightarrow> reuse_loop re (new_reuse s voQueues available (slots_left (n_db s) queues)))"

definition failUnschedulableReuse :: "reuse_env \<Rightarrow> QueueId list \<Rightarrow> node \<Rightarrow> node \<times> bool" where
  "failUnschedulableReuse re unschedulable s =
     (let te = re_turn re in
      case getReadySessionReuseTransfers (re_uninit_first re) (te_unschedulable te) (n_db s) unschedulable [] of
        Inl _ \<Rightarrow> (s, True)
      | Inr voQueues \<Rightarrow>
          (fold (\<lambda>(jobId, tf). runProducerStatus ((unschedulable_message (te_clock te) tf)\<lparr>m_job_id := jobId\<rparr>))
             (concat (map (\<lambda>(jobId, tfs). map (Pair jobId) tfs) (concat (map snd voQueues)))) s, False))"

definition executeReuse :: "reuse_env \<Rightarrow> node \<Rightarrow> reuse_state option" where
  "executeReuse re s =
     (let te = re_turn re; available = te_maxUrlCopy te - te_count_first te; idle = (\<lambda>s1. new_reuse s1 [] available (Map.empty, Map.empty)) in
      if available \<le> 0 then Some (idle s)
      else
        let (queues, unschedulable) =
              applyVoShares (te_draw te) (n_db s) (te_shuffle te (getQueuesWithSessionReusePending (sv_segment (te_ready te)) (n_db s)));
            (s1, failed) = failUnschedulableReuse re unschedulable s
        in if failed then Some ((idle s1)\<lparr>rs_threw := True\<rparr>)
           else if queues = [] then Some (idle s1)
           else getReuseFiles re queues available s1)"

definition reuse_turn :: "bool \<Rightarrow> reuse_env \<Rightarrow> node \<Rightarrow> reuse_state option" where
  "reuse_turn drain re s =
     (if drain then Some (new_reuse s [] 0 (Map.empty, Map.empty)) else executeReuse re s)"

subsection \<open>A job is claimed as a whole\<close>

text \<open>No file of the job waits any more.\<close>

definition claimed :: "job_id \<Rightarrow> db \<Rightarrow> bool" where
  "claimed k d \<longleftrightarrow> (\<forall>r \<in> set (t_file d). f_job_id r = k \<longrightarrow> f_file_state r \<noteq> SUBMITTED)"

lemma claimed_update_files:
  assumes "claimed k d" "\<And>r. f_job_id (g r) = f_job_id r" "\<And>r. f_file_state r \<noteq> SUBMITTED \<Longrightarrow> f_file_state (g r) \<noteq> SUBMITTED"
  shows "claimed k (update_files P g d)"
  using assms by (auto simp: claimed_def update_where_def)

lemma claimed_jobs [simp]: "claimed k (update_jobs P g d) = claimed k d"
  by (simp add: claimed_def)

lemma claimed_after:
  assumes "t_file d1 = update_where (\<lambda>r. f_job_id r = k0 \<and> f_file_state r = SUBMITTED) g (t_file d)"
    "\<And>r. f_job_id (g r) = f_job_id r" "\<And>r. f_file_state (g r) \<noteq> SUBMITTED"
  shows "claimed k0 d1" "claimed k d \<Longrightarrow> claimed k d1"
    "affected_rows (\<lambda>r. f_job_id r = k0 \<and> f_file_state r = SUBMITTED) g (t_file d) = 0 \<longleftrightarrow> claimed k0 d"
proof -
  have g: "g r \<noteq> r" if "f_file_state r = SUBMITTED" for r using assms(3) [of r] that by metis
  show "claimed k0 d1" "claimed k d \<Longrightarrow> claimed k d1" using assms by (auto simp: claimed_def update_where_def)
  show "affected_rows (\<lambda>r. f_job_id r = k0 \<and> f_file_state r = SUBMITTED) g (t_file d) = 0 \<longleftrightarrow> claimed k0 d"
    using g by (auto simp: affected_rows_def claimed_def filter_empty_conv)
qed

lemma reuse_status_claims:
  assumes "updateFileStatusReuse e jobId READY d = (d1, n)"
  shows "claimed k d \<Longrightarrow> claimed k d1" "claimed jobId d1" "n = 0 \<longleftrightarrow> claimed jobId d"
proof -
  define g where "g r = r\<lparr>f_file_state := READY, f_start_time := Some (now e), f_transfer_host := Some (hostname e)\<rparr>" for r :: file_row
  have g: "f_job_id (g r) = f_job_id r" "f_file_state (g r) \<noteq> SUBMITTED" for r by (simp_all add: g_def)
  have "d1 = fst (updateFileStatusReuse e jobId READY d)" "n = snd (updateFileStatusReuse e jobId READY d)"
    by (simp_all add: assms)
  then have files: "t_file d1 = update_where (\<lambda>r. f_job_id r = jobId \<and> f_file_state r = SUBMITTED) g (t_file d)"
    and n: "n = affected_rows (\<lambda>r. f_job_id r = jobId \<and> f_file_state r = SUBMITTED) g (t_file d)"
    unfolding updateFileStatusReuse_def Let_def g_def [symmetric] by simp_all
  show "claimed k d \<Longrightarrow> claimed k d1" "claimed jobId d1" "n = 0 \<longleftrightarrow> claimed jobId d"
    unfolding n using claimed_after [OF files g] by blast+
qed

lemma protocol_update_claims:
  assumes "claimed k d"
  shows "claimed k (protocol_update m d)"
proof -
  have "claimed k (update_files (\<lambda>r. f_file_id r = tm_file_id m)
     (\<lambda>r. r\<lparr>f_internal_file_params := Some (serialize_params (tm_nostreams m) (tm_timeout m) (tm_buffersize m)), f_filesize := tm_filesize m\<rparr>) d)"
    using assms by (rule claimed_update_files) simp_all
  then show ?thesis using assms by (simp add: protocol_update_def)
qed

lemma updateProtocol_claims: "claimed k d \<Longrightarrow> claimed k (updateProtocol ms d)"
  unfolding updateProtocol_def by (induction ms arbitrary: d) (simp_all add: protocol_update_claims)

lemma fork_claims: "claimed k d \<Longrightarrow> claimed k (forkFailed e jobId d)"
  unfolding forkFailed_def claimed_jobs by (rule claimed_update_files) (simp_all add: fail_file_def)

lemma pid_claims: "claimed k d \<Longrightarrow> claimed k (setPidForJob jobId pid d)"
  unfolding setPidForJob_def by (rule claimed_update_files) simp_all

lemma record_reuse_claims: "claimed k (n_db s) \<Longrightarrow> claimed k (n_db (fst (record_reuse e f jobId spawn clock c ids s)))"
  by (auto simp: record_reuse_def Let_def fork_claims pid_claims updateProtocol_claims split: prod.split option.split)

lemma launch_reuse_claims:
  assumes "launch_reuse re jobId rep ids c s = (s', thrown1, proc)"
  shows "claimed k (n_db s) \<Longrightarrow> claimed k (n_db s')"
    "proc \<noteq> None \<Longrightarrow> \<not> claimed (tf_jobId rep) (n_db s) \<and> claimed (tf_jobId rep) (n_db s')"
proof -
  obtain d1 n where u: "updateFileStatusReuse (te_env (re_turn re)) (tf_jobId rep) READY (n_db s) = (d1, n)" by fastforce
  have "s' = s \<and> proc = None \<or> s' = s\<lparr>n_db := d1\<rparr> \<and> proc = None \<or>
      n \<noteq> 0 \<and> (\<exists>c1. s' = fst (record_reuse (te_env (re_turn re)) (re_faults re jobId) jobId (re_spawn re jobId) (te_clock (re_turn re)) c1 ids (s\<lparr>n_db := d1\<rparr>)))"
    using assms by (auto simp: launch_reuse_def Let_def u split: if_splits option.splits prod.splits) (metis fst_conv)+
  moreover have "claimed k (n_db s) \<Longrightarrow> claimed k d1" "claimed (tf_jobId rep) d1" "n = 0 \<longleftrightarrow> claimed (tf_jobId rep) (n_db s)"
    using reuse_status_claims [OF u] by blast+
  moreover have "claimed k' d1 \<Longrightarrow> claimed k' (n_db (fst (record_reuse (te_env (re_turn re)) (re_faults re jobId) jobId (re_spawn re jobId)
      (te_clock (re_turn re)) c1 ids (s\<lparr>n_db := d1\<rparr>))))" for k' c1
    by (rule record_reuse_claims) simp
  ultimately show "claimed k (n_db s) \<Longrightarrow> claimed k (n_db s')"
    "proc \<noteq> None \<Longrightarrow> \<not> claimed (tf_jobId rep) (n_db s) \<and> claimed (tf_jobId rep) (n_db s')"
    by auto
qed

text \<open>Either nothing happens to the node, or the claim is tried.\<close>

lemma startUrlCopy_cases:
  assumes "startUrlCopy re jobId files s = ((s', thrown1, proc), written)"
  shows "s' = s \<and> proc = None \<or> (\<exists>c. launch_reuse re jobId (hd files) (om_keys (snd (generateJobFile files))) c s = (s', thrown1, proc))"
  using assms by (auto simp: startUrlCopy_def Let_def split: if_splits option.splits sum.splits prod.splits)

lemma startUrlCopy_claims:
  assumes "startUrlCopy re jobId files s = ((s', thrown1, proc), written)"
  shows "claimed k (n_db s) \<Longrightarrow> claimed k (n_db s')"
    "proc \<noteq> None \<Longrightarrow> \<not> claimed (tf_jobId (hd files)) (n_db s) \<and> claimed (tf_jobId (hd files)) (n_db s')"
  using startUrlCopy_cases [OF assms] launch_reuse_claims by blast+

subsection \<open>The loop ends within the limits\<close>

text \<open>The queues of jobs are a source in the sense of the scheduling loop.\<close>

definition reuse_left :: "reuse_queues \<Rightarrow> nat" where
  "reuse_left qs = (\<Sum>p \<leftarrow> qs. length (snd p))"

definition reuse_waiting :: "reuse_queues \<Rightarrow> string set" where
  "reuse_waiting qs = {vo. om_at [] qs vo \<noteq> []}"

lemma reuse_waiting_mem:
  assumes "om_ok qs"
  shows "vo \<in> reuse_waiting qs \<longleftrightarrow> (\<exists>jobs. (vo, jobs) \<in> set qs \<and> jobs \<noteq> [])"
proof -
  have "distinct (map fst qs)" using assms by (simp add: om_ok_def strict_sorted_iff)
  then have "om_find qs vo = Some jobs \<longleftrightarrow> (vo, jobs) \<in> set qs" for jobs
    by (simp add: om_find_def)
  then show ?thesis by (auto simp: reuse_waiting_def om_at_def split: option.splits) (metis option.inject)
qed

lemma reuse_left_zero:
  assumes "om_ok qs"
  shows "reuse_waiting qs = {} \<longleftrightarrow> reuse_left qs = 0"
  using reuse_waiting_mem [OF assms] by (fastforce simp: reuse_left_def)

interpretation job_queue: file_source reuse_next reuse_left reuse_waiting om_ok
proof
  fix vo qs assume qs: "om_ok qs" "vo \<in> reuse_waiting qs"
  then obtain job jobs where jobs: "om_at [] qs vo = job # jobs" by (auto simp: reuse_waiting_def neq_Nil_conv)
  then have find: "om_find qs vo = Some (job # jobs)" by (simp add: om_at_def split: option.splits)
  have "reuse_left (om_put vo jobs qs) + length (job # jobs) = reuse_left qs + length jobs"
    using om_sum_put [OF qs(1), of length vo jobs] by (simp add: find reuse_left_def)
  then show "\<exists>qs' f. reuse_next vo qs = (qs', Some f) \<and> om_ok qs' \<and> reuse_left qs = Suc (reuse_left qs')"
    using qs(1) by (simp add: reuse_next_def jobs om_ok_put)
qed (simp add: reuse_next_def reuse_waiting_def, rule reuse_left_zero)

lemma visit_reuse_queues: "rs_queues (visit_reuse re vo st) = fst (reuse_next vo (rs_queues st))"
  by (auto simp: visit_reuse_def start_job_def reuse_next_def Let_def split: prod.splits option.splits list.splits)

lemma visit_reuses_sweep:
  "\<exists>k. rs_queues (visit_reuses re vs st) = job_queue.sweep (take k vs) (rs_queues st) \<and>
     (\<not> rs_stop (visit_reuses re vs st) \<and> \<not> rs_threw (visit_reuses re vs st) \<longrightarrow> length vs \<le> k)"
proof (induction vs arbitrary: st)
  case (Cons vo vs)
  show ?case
  proof (cases "rs_stop st \<or> rs_threw st")
    case True
    then show ?thesis by (intro exI [of _ 0]) (auto simp: job_queue.sweep_def)
  next
    case False
    obtain k where "rs_queues (visit_reuses re vs (visit_reuse re vo st)) = job_queue.sweep (take k vs) (rs_queues (visit_reuse re vo st))"
      "\<not> rs_stop (visit_reuses re vs (visit_reuse re vo st)) \<and> \<not> rs_threw (visit_reuses re vs (visit_reuse re vo st)) \<longrightarrow> length vs \<le> k"
      using Cons.IH by blast
    then show ?thesis using False by (intro exI [of _ "Suc k"]) (simp add: job_queue.sweep_def visit_reuse_queues)
  qed
qed (auto simp: job_queue.sweep_def)

definition reuse_rounds :: "reuse_state \<Rightarrow> nat" where
  "reuse_rounds st = reuse_left (rs_queues st) + (if rs_stop st \<or> rs_threw st then 0 else 1)"

lemma reuse_progress:
  assumes "om_ok (rs_queues st)" "reuse_on st"
  shows "reuse_rounds (visit_reuses re (om_keys (rs_queues st)) st) < reuse_rounds st"
proof -
  define st' where "st' = visit_reuses re (om_keys (rs_queues st)) st"
  obtain k where k: "rs_queues st' = job_queue.sweep (take k (om_keys (rs_queues st))) (rs_queues st)"
    "\<not> rs_stop st' \<and> \<not> rs_threw st' \<longrightarrow> length (om_keys (rs_queues st)) \<le> k"
    using visit_reuses_sweep [of re "om_keys (rs_queues st)" st] unfolding st'_def by blast
  have le: "reuse_left (rs_queues st') \<le> reuse_left (rs_queues st)"
    unfolding k(1) using job_queue.sweep_ok [OF assms(1)] by blast
  have on: "\<not> rs_stop st" "\<not> rs_threw st" "\<exists>p \<in> set (rs_queues st). snd p \<noteq> []" using assms(2) by (simp_all add: reuse_on_def)
  have "reuse_left (rs_queues st') < reuse_left (rs_queues st)" if "\<not> rs_stop st' \<and> \<not> rs_threw st'"
  proof -
    have "rs_queues st' = job_queue.sweep (om_keys (rs_queues st)) (rs_queues st)" using k that by simp
    moreover have "reuse_waiting (rs_queues st) \<subseteq> set (om_keys (rs_queues st))" "reuse_waiting (rs_queues st) \<noteq> {}"
      using on(3) reuse_waiting_mem [OF assms(1)] by (force simp: om_keys_def)+
    ultimately show ?thesis using job_queue.sweep_progress [OF assms(1)] by simp
  qed
  then show ?thesis using on le unfolding st'_def [symmetric] by (auto simp: reuse_rounds_def)
qed

text \<open>What has been started, against the slots that were there at the beginning.\<close>

definition reuse_count :: "(TransferFile \<Rightarrow> bool) \<Rightarrow> reuse_state \<Rightarrow> int" where
  "reuse_count P st = int (length (filter (\<lambda>p. P (fst p)) (rs_started st)))"

definition reuse_once :: "reuse_state \<Rightarrow> bool" where
  "reuse_once st \<longleftrightarrow>
     distinct (map (\<lambda>p. tf_jobId (fst p)) (rs_started st)) \<and> (\<forall>p \<in> set (rs_started st). claimed (tf_jobId (fst p)) (n_db (rs_node st)))"

definition reuse_within :: "int \<Rightarrow> slots \<times> slots \<Rightarrow> reuse_state \<Rightarrow> bool" where
  "reuse_within available ds st \<longleftrightarrow>
     om_ok (rs_queues st) \<and> reuse_once st \<and> reuse_count (\<lambda>_. True) st + max 0 (rs_available st) \<le> max 0 available \<and>
     (\<forall>se. reuse_count (\<lambda>tf. tf_destSe tf = se) st + max 0 (slot_at (rs_dest st) se) \<le> max 0 (slot_at (fst ds) se)) \<and>
     (\<forall>se. reuse_count (\<lambda>tf. tf_sourceSe tf = se) st + max 0 (slot_at (rs_source st) se) \<le> max 0 (slot_at (snd ds) se))"

lemma start_job_sel:
  "rs_queues (start_job re jobId files st) = rs_queues st" "rs_available (start_job re jobId files st) = rs_available st - 1"
  "slot_at (rs_dest (start_job re jobId files st)) se = slot_at (rs_dest st) se - (if tf_destSe (hd files) = se then 1 else 0)"
  "slot_at (rs_source (start_job re jobId files st)) se = slot_at (rs_source st) se - (if tf_sourceSe (hd files) = se then 1 else 0)"
  "reuse_count P (start_job re jobId files st) \<le> reuse_count P st + (if P (hd files) then 1 else 0)"
  by (auto simp: start_job_def subtract_def slot_at_def or_default_def reuse_count_def split: prod.split option.split)

lemma start_job_once:
  assumes "reuse_once st"
  shows "reuse_once (start_job re jobId files st)"
proof -
  obtain s' thrown1 proc written where r: "startUrlCopy re jobId files (rs_node st) = ((s', thrown1, proc), written)"
    by (metis prod.collapse)
  note c = startUrlCopy_claims [OF r]
  have "tf_jobId (hd files) \<notin> (\<lambda>p. tf_jobId (fst p)) ` set (rs_started st)" if "proc \<noteq> None"
    using c(2) [OF that] assms by (auto simp: reuse_once_def)
  then show ?thesis
    using assms c by (cases proc) (auto simp: reuse_once_def start_job_def r)
qed

lemma start_job_within:
  assumes "reuse_within available ds st" "rs_available st > 0" "slot_at (rs_dest st) (tf_destSe (hd files)) > 0"
    "slot_at (rs_source st) (tf_sourceSe (hd files)) > 0"
  shows "reuse_within available ds (start_job re jobId files st)"
proof -
  let ?st = "start_job re jobId files st"
  have "reuse_count (\<lambda>tf. tf_destSe tf = se) ?st + max 0 (slot_at (rs_dest ?st) se) \<le> max 0 (slot_at (fst ds) se)" for se
  proof -
    have "reuse_count (\<lambda>tf. tf_destSe tf = se) st + max 0 (slot_at (rs_dest st) se) \<le> max 0 (slot_at (fst ds) se)"
      using assms(1) unfolding reuse_within_def by blast
    then show ?thesis
      using assms(3) start_job_sel(5) [of "\<lambda>tf. tf_destSe tf = se" re jobId files st] by (auto simp: start_job_sel(3) split: if_splits)
  qed
  moreover have "reuse_count (\<lambda>tf. tf_sourceSe tf = se) ?st + max 0 (slot_at (rs_source ?st) se) \<le> max 0 (slot_at (snd ds) se)" for se
  proof -
    have "reuse_count (\<lambda>tf. tf_sourceSe tf = se) st + max 0 (slot_at (rs_source st) se) \<le> max 0 (slot_at (snd ds) se)"
      using assms(1) unfolding reuse_within_def by blast
    then show ?thesis
      using assms(4) start_job_sel(5) [of "\<lambda>tf. tf_sourceSe tf = se" re jobId files st] by (auto simp: start_job_sel(4) split: if_splits)
  qed
  moreover have "reuse_count (\<lambda>_. True) ?st + max 0 (rs_available ?st) \<le> max 0 available"
    using assms(1,2) start_job_sel(5) [of "\<lambda>_. True" re jobId files st] by (simp add: start_job_sel(2) reuse_within_def)
  ultimately show ?thesis using assms(1) start_job_once by (simp add: reuse_within_def start_job_sel(1))
qed

lemma reuse_within_queues: "reuse_within available ds st \<Longrightarrow> om_ok qs \<Longrightarrow> reuse_within available ds (st\<lparr>rs_queues := qs\<rparr>)"
  by (simp add: reuse_within_def reuse_once_def reuse_count_def)

lemma reuse_within_stop: "reuse_within available ds (st\<lparr>rs_stop := b\<rparr>) \<longleftrightarrow> reuse_within available ds st"
  by (simp add: reuse_within_def reuse_once_def reuse_count_def)

lemma visit_reuse_within:
  assumes "reuse_within available ds st"
  shows "reuse_within available ds (visit_reuse re vo st)"
proof -
  have "om_ok (rs_queues st)" using assms by (simp add: reuse_within_def)
  then have "om_ok (fst (reuse_next vo (rs_queues st)))" using job_queue.next_cases by blast
  then have "reuse_within available ds (st\<lparr>rs_queues := fst (reuse_next vo (rs_queues st))\<rparr>)"
    using assms by (rule reuse_within_queues [rotated])
  then show ?thesis
    by (auto simp: visit_reuse_def Let_def reuse_within_stop assms split: prod.split option.split intro!: start_job_within)
qed

lemma visit_reuses_within: "reuse_within available ds st \<Longrightarrow> reuse_within available ds (visit_reuses re vs st)"
  by (induction vs arbitrary: st) (simp_all add: visit_reuse_within)

lemma new_reuse_within: "om_ok qs \<Longrightarrow> reuse_within available ds (new_reuse s qs available ds)"
  by (simp add: reuse_within_def new_reuse_def reuse_once_def reuse_count_def)

lemma reuse_loop_result:
  assumes "om_ok qs"
  shows "\<exists>st. reuse_loop re (new_reuse s qs available ds) = Some st \<and> reuse_within available ds st \<and> \<not> reuse_on st"
proof -
  let ?b = "\<lambda>st. visit_reuses re (om_keys (rs_queues st)) st"
  have "\<exists>st. while_option reuse_on ?b (new_reuse s qs available ds) = Some st"
  proof (rule measure_while_option_Some [where P = "reuse_within available ds" and f = reuse_rounds])
    fix st assume "reuse_within available ds st" "reuse_on st"
    then show "reuse_within available ds (?b st) \<and> reuse_rounds (?b st) < reuse_rounds st"
      by (intro conjI visit_reuses_within reuse_progress) (simp_all add: reuse_within_def)
  qed (rule new_reuse_within [OF assms])
  then obtain st where st: "while_option reuse_on ?b (new_reuse s qs available ds) = Some st" ..
  have "reuse_within available ds st"
    by (rule while_option_rule [OF _ st]) (simp_all add: visit_reuses_within new_reuse_within assms)
  then show ?thesis using st while_option_stop [OF st] by (auto simp: reuse_loop_def)
qed

lemma push_reuse_ok: "push_reuse_jobs sv d vo js files = Inr files1 \<Longrightarrow> om_ok files \<Longrightarrow> om_ok files1"
  by (induction js arbitrary: files) (auto simp: om_ok_put split: sum.splits if_splits)

lemma ready_reuse_ok: "getReadySessionReuseTransfers uninit sv d qs files = Inr files1 \<Longrightarrow> om_ok files \<Longrightarrow> om_ok files1"
  by (induction qs arbitrary: files) (auto simp: Let_def push_reuse_ok split: sum.splits if_splits)

lemma failUnschedulableReuse_db: "n_db (fst (failUnschedulableReuse re qs s)) = n_db s"
proof -
  have "n_db (fold (\<lambda>(k, tf). runProducerStatus ((unschedulable_message c tf)\<lparr>m_job_id := k\<rparr>)) xs s) = n_db s" for c xs and s :: node
    by (induction xs arbitrary: s) (auto simp: runProducerStatus_def)
  then show ?thesis by (simp add: failUnschedulableReuse_def Let_def split: sum.split)
qed

lemma getReuseFiles_result:
  "\<exists>st. getReuseFiles re queues available s = Some st \<and> reuse_within available (slots_left (n_db s) queues) st \<and> \<not> reuse_on st"
proof (cases "getReadySessionReuseTransfers (re_uninit_then re) (te_ready (re_turn re)) (n_db s) queues []")
  case (Inl err)
  then show ?thesis
    by (simp add: getReuseFiles_def new_reuse_def reuse_within_def reuse_once_def reuse_count_def reuse_on_def slot_at_def or_default_def)
next
  case (Inr qs)
  then show ?thesis
    using reuse_loop_result [OF ready_reuse_ok [OF Inr om_ok_Nil], of re s available "slots_left (n_db s) queues"]
    by (simp add: getReuseFiles_def)
qed

lemma slots_left_bound:
  assumes "reuse_within available (slots_left d queues) st"
  shows "reuse_count (\<lambda>_. True) st \<le> max 0 available" "reuse_count (\<lambda>tf. tf_destSe tf = se) st \<le> max 0 (inbound_left d queues se)"
    "reuse_count (\<lambda>tf. tf_sourceSe tf = se) st \<le> max 0 (outbound_left d queues se)"
proof -
  have "max 0 (slot_at (fst (slots_left d queues)) se) \<le> max 0 (inbound_left d queues se)"
    "max 0 (slot_at (snd (slots_left d queues)) se) \<le> max 0 (outbound_left d queues se)"
    by (simp_all add: slots_left_eq slot_at_def or_default_def)
  moreover have "reuse_count (\<lambda>tf. tf_destSe tf = se) st + max 0 (slot_at (rs_dest st) se) \<le> max 0 (slot_at (fst (slots_left d queues)) se)"
    "reuse_count (\<lambda>tf. tf_sourceSe tf = se) st + max 0 (slot_at (rs_source st) se) \<le> max 0 (slot_at (snd (slots_left d queues)) se)"
    "reuse_count (\<lambda>_. True) st + max 0 (rs_available st) \<le> max 0 available"
    using assms unfolding reuse_within_def by blast+
  ultimately show "reuse_count (\<lambda>_. True) st \<le> max 0 available" "reuse_count (\<lambda>tf. tf_destSe tf = se) st \<le> max 0 (inbound_left d queues se)"
    "reuse_count (\<lambda>tf. tf_sourceSe tf = se) st \<le> max 0 (outbound_left d queues se)"
    by linarith+
qed


text \<open>A job with two waiting files that share a session.\<close>

definition sample_reuse :: "int \<times> bool \<Rightarrow> reuse_env" where
  "sample_reuse spawn =
     \<lparr>re_turn = sample_turn, re_faults = (\<lambda>_ _. False), re_spawn = (\<lambda>_. spawn), re_writable = (\<lambda>_. True), re_uninit_first = 0,
      re_uninit_then = 0\<rparr>"

definition sample_reuse_db :: db where
  "sample_reuse_db =
     sample_db [sample_file 1 ''j'' 0 SUBMITTED, sample_file 2 ''j'' 1 SUBMITTED] [sample_job ''j'' (Some kTypeSessionReuse) J_SUBMITTED]"

definition sample_reuse_files :: "TransferFile list" where
  "sample_reuse_files = map (\<lambda>i. (sample_transfer i ''j'' ''root://src'' ''root://dst'' ''atlas'')\<lparr>tf_jobType := kTypeSessionReuse\<rparr>) [1, 2]"


subsection \<open>Nodes that try to start the same job\<close>

text \<open>
  The attempts of several nodes, each with its own environment, memory and view of the job, on the shared
  database; the second component counts the processes.
\<close>

fun reuse_attempts :: "job_id \<Rightarrow> (reuse_env \<times> TransferFile list \<times> node) list \<Rightarrow> db \<Rightarrow> db \<times> nat" where
  "reuse_attempts k [] d = (d, 0)"
| "reuse_attempts k ((re, files, s) # as) d =
     (case startUrlCopy re k files (s\<lparr>n_db := d\<rparr>) of
        ((s1, thrown1, proc), written) \<Rightarrow>
          (case reuse_attempts k as (n_db s1) of (d2, n) \<Rightarrow> (d2, if proc = None then n else Suc n)))"

lemma reuse_attempts_claimed:
  "claimed k d \<Longrightarrow> \<forall>a \<in> set as. tf_jobId (hd (fst (snd a))) = k \<Longrightarrow> snd (reuse_attempts k as d) = 0"
proof (induction k as d rule: reuse_attempts.induct)
  case (2 k re files s as d)
  obtain s1 thrown1 proc written where r: "startUrlCopy re k files (s\<lparr>n_db := d\<rparr>) = ((s1, thrown1, proc), written)"
    by (metis prod.collapse)
  have k: "claimed k d" "tf_jobId (hd files) = k" using 2(2,3) by simp_all
  have "claimed k (n_db s1)" using startUrlCopy_claims(1) [OF r] k(1) by simp
  moreover have "proc = None" using startUrlCopy_claims(2) [OF r] k by (cases proc) simp_all
  ultimately show ?case using 2(1) [OF r [symmetric] refl refl] 2(3) by (simp add: r split: prod.split)
qed simp

text \<open>
  C38: However many nodes try to start a job, one of them at most starts a process for it: the claim takes
  all its files at once, and every later claim finds none.
\<close>

theorem reuse_job_started_once:
  assumes "\<forall>a \<in> set as. tf_jobId (hd (fst (snd a))) = k"
  shows "snd (reuse_attempts k as d) \<le> 1"
  using assms
proof (induction k as d rule: reuse_attempts.induct)
  case (2 k re files s as d)
  obtain s1 thrown1 proc written where r: "startUrlCopy re k files (s\<lparr>n_db := d\<rparr>) = ((s1, thrown1, proc), written)"
    by (metis prod.collapse)
  have rest: "\<forall>a \<in> set as. tf_jobId (hd (fst (snd a))) = k" "tf_jobId (hd files) = k" using 2(2) by auto
  show ?case
  proof (cases proc)
    case None
    then show ?thesis using 2(1) [OF r [symmetric] refl refl rest(1)] by (simp add: r split: prod.split)
  next
    case (Some pa)
    then have "snd (reuse_attempts k as (n_db s1)) = 0"
      using startUrlCopy_claims(2) [OF r] reuse_attempts_claimed [OF _ rest(1)] rest(2) by simp
    then show ?thesis using Some by (cases "reuse_attempts k as (n_db s1)") (simp add: r)
  qed
qed simp

lemma sample_allowed: "isTrAllowed (tf_sourceSe (hd sample_reuse_files)) (tf_destSe (hd sample_reuse_files)) sample_reuse_db = Inr True"
  by code_simp

lemma sample_params: "\<exists>ps. protocol_params sample_reuse_db (hd sample_reuse_files) = Some ps"
proof -
  have "protocol_params sample_reuse_db (hd sample_reuse_files) \<noteq> None" by code_simp
  then show ?thesis by blast
qed

lemma sample_credentials: "\<exists>c1. reuse_credentials (te_exec sample_turn) (te_proxy sample_turn) (hd sample_reuse_files) c = Some c1"
  by (simp add: reuse_credentials_def sample_turn_def)

lemma sample_retries:
  "\<exists>c1. reuse_retries (te_exec sample_turn) (fst (updateFileStatusReuse sample_env ''j'' READY sample_reuse_db)) (hd sample_reuse_files) c = Some c1"
proof -
  have "getRetry ''j'' (fst (updateFileStatusReuse sample_env ''j'' READY sample_reuse_db)) = Inr 0"
    by code_simp
  then show ?thesis by (simp add: reuse_retries_def Let_def sample_reuse_files_def sample_transfer_def)
qed

lemma sample_reuse_start:
  "\<exists>c1. fst (startUrlCopy (sample_reuse spawn) ''j'' sample_reuse_files (s\<lparr>n_db := sample_reuse_db\<rparr>)) =
     (case record_reuse sample_env (\<lambda>_. False) ''j'' spawn 0 c1 [1, 2]
         (s\<lparr>n_db := fst (updateFileStatusReuse sample_env ''j'' READY sample_reuse_db)\<rparr>) of
         (s2, thrown1) \<Rightarrow> (s2, thrown1, if snd spawn then Some (fst spawn, getArgv ''fts_url_copy'' (generateParameters c1)) else None))"
proof -
  define d1 n where "d1 = fst (updateFileStatusReuse sample_env ''j'' READY sample_reuse_db)" and "n = snd (updateFileStatusReuse sample_env ''j'' READY sample_reuse_db)"
  then have u: "updateFileStatusReuse sample_env ''j'' READY sample_reuse_db = (d1, n)" by simp
  have "\<not> claimed ''j'' sample_reuse_db" by (simp add: claimed_def sample_reuse_db_def)
  then have n: "n \<noteq> 0" using reuse_status_claims(3) [OF u] by simp
  have job: "tf_jobId (hd sample_reuse_files) = ''j''" and "om_keys (snd (generateJobFile sample_reuse_files)) = [1, 2]"
    by (simp_all add: sample_reuse_files_def sample_transfer_def generateJobFile_def insert_id_def om_find_def om_keys_def)
  then obtain urls ids where ids: "generateJobFile sample_reuse_files = (urls, ids)" "om_keys ids = [1, 2]" by (metis prod.collapse)
  have env: "re_turn (sample_reuse spawn) = sample_turn" "re_faults (sample_reuse spawn) = (\<lambda>_ _. False)" "re_spawn (sample_reuse spawn) ''j'' = spawn"
    "te_env sample_turn = sample_env" "te_clock sample_turn = 0"
    by (simp_all add: sample_reuse_def sample_turn_def)
  obtain ps where ps: "protocol_params sample_reuse_db (hd sample_reuse_files) = Some ps" using sample_params by blast
  obtain c where c: "reuse_credentials (te_exec sample_turn) (te_proxy sample_turn) (hd sample_reuse_files)
      (reuse_command (te_exec sample_turn) sample_reuse_db (hd sample_reuse_files) ps) = Some c" using sample_credentials by blast
  obtain c1 where c1: "reuse_retries (te_exec sample_turn) d1 (hd sample_reuse_files) c = Some c1" using sample_retries d1_def by blast
  have launch: "launch_reuse (sample_reuse spawn) ''j'' (hd sample_reuse_files) [1, 2] c (s\<lparr>n_db := sample_reuse_db\<rparr>) =
      (case record_reuse sample_env (\<lambda>_. False) ''j'' spawn 0 c1 [1, 2] (s\<lparr>n_db := d1\<rparr>) of
         (s2, thrown1) \<Rightarrow> (s2, thrown1, if snd spawn then Some (fst spawn, getArgv ''fts_url_copy'' (generateParameters c1)) else None))"
    unfolding launch_reuse_def Let_def env job by (simp add: u n c1)
  have "fst (startUrlCopy (sample_reuse spawn) ''j'' sample_reuse_files (s\<lparr>n_db := sample_reuse_db\<rparr>)) =
      launch_reuse (sample_reuse spawn) ''j'' (hd sample_reuse_files) [1, 2] c (s\<lparr>n_db := sample_reuse_db\<rparr>)"
    unfolding startUrlCopy_def Let_def env ids(1) prod.case by (simp add: sample_allowed ps c ids(2))
  then show ?thesis unfolding d1_def [symmetric] launch by blast
qed

theorem reuse_job_started_once_witness:
  "snd (reuse_attempts ''j'' [(sample_reuse (77, True), sample_reuse_files, sample_node), (sample_reuse (78, True), sample_reuse_files, sample_node)]
     sample_reuse_db) = 1"
proof -
  let ?as = "[(sample_reuse (77, True), sample_reuse_files, sample_node), (sample_reuse (78, True), sample_reuse_files, sample_node)]"
  obtain s1 thrown1 proc written where r: "startUrlCopy (sample_reuse (77, True)) ''j'' sample_reuse_files (sample_node\<lparr>n_db := sample_reuse_db\<rparr>) =
      ((s1, thrown1, proc), written)" by (metis prod.collapse)
  have "proc \<noteq> None" using sample_reuse_start [of "(77, True)" sample_node] by (auto simp: r case_prod_beta)
  then have "snd (reuse_attempts ''j'' ?as sample_reuse_db) \<noteq> 0" by (auto simp: r split: prod.split)
  moreover have "snd (reuse_attempts ''j'' ?as sample_reuse_db) \<le> 1"
    by (rule reuse_job_started_once) (simp add: sample_reuse_files_def sample_transfer_def)
  ultimately show ?thesis by simp
qed

subsection \<open>When the process cannot be forked\<close>

text \<open>What the watch list gets.\<close>

lemma watch_reuse_list:
  "\<exists>ms. fst (watch_reuse f jobId pid clock c k ids l) = l @ ms \<and> (\<forall>m \<in> set ms. mu_process_id m = pid \<and> mu_timestamp m = clock) \<and>
     (ids \<noteq> [] \<longrightarrow> \<not> f (R_Watch k) \<longrightarrow> ms \<noteq> [])"
proof (induction ids arbitrary: k l)
  case (Cons i ids)
  let ?m = "\<lparr>pm_file_id = i, pm_transfer_status = [], pm_throughput = 0, pm_transferred = 0, mu_job_id = jobId, mu_process_id = pid, mu_timestamp = clock\<rparr>"
  obtain ms where "fst (watch_reuse f jobId pid clock c (Suc k) ids (l @ [?m])) = (l @ [?m]) @ ms"
    "\<forall>m \<in> set ms. mu_process_id m = pid \<and> mu_timestamp m = clock" using Cons.IH [of "Suc k" "l @ [?m]"] by blast
  then have "f (R_Watch k) \<and> fst (watch_reuse f jobId pid clock c k (i # ids) l) = l \<or>
      (\<exists>ms'. fst (watch_reuse f jobId pid clock c k (i # ids) l) = l @ ?m # ms' \<and> (\<forall>m \<in> set ms'. mu_process_id m = pid \<and> mu_timestamp m = clock))"
    by (auto simp: push_back_def under_lock_def split: option.splits prod.splits)
  then show ?case
  proof (elim disjE exE conjE)
    fix ms' assume "fst (watch_reuse f jobId pid clock c k (i # ids) l) = l @ ?m # ms'" "\<forall>m \<in> set ms'. mu_process_id m = pid \<and> mu_timestamp m = clock"
    then show ?thesis by (intro exI [of _ "?m # ms'"]) simp
  qed simp
qed simp

lemma record_reuse_list:
  "n_list (fst (record_reuse e f jobId spawn clock c ids s)) =
     (if f R_Record then n_list s else fst (watch_reuse f jobId (fst spawn) clock c 0 ids (n_list s)))"
  by (simp add: record_reuse_def Let_def split: prod.split option.split)

lemma launch_reuse_list:
  assumes "launch_reuse re jobId rep ids c s = (s', thrown1, proc)"
  shows "\<exists>ms. n_list s' = n_list s @ ms \<and> (\<forall>m \<in> set ms. mu_process_id m = fst (re_spawn re jobId) \<and> mu_timestamp m = te_clock (re_turn re))"
proof -
  obtain d1 n where u: "updateFileStatusReuse (te_env (re_turn re)) (tf_jobId rep) READY (n_db s) = (d1, n)" by fastforce
  have "n_list s' = n_list s \<or> (\<exists>c1. s' = fst (record_reuse (te_env (re_turn re)) (re_faults re jobId) jobId (re_spawn re jobId)
      (te_clock (re_turn re)) c1 ids (s\<lparr>n_db := d1\<rparr>)))"
    using assms by (auto simp: launch_reuse_def Let_def u split: if_splits option.splits prod.splits) (metis fst_conv)+
  moreover have "\<exists>ms. n_list (fst (record_reuse (te_env (re_turn re)) (re_faults re jobId) jobId (re_spawn re jobId)
      (te_clock (re_turn re)) c1 ids (s\<lparr>n_db := d1\<rparr>))) = n_list s @ ms \<and>
      (\<forall>m \<in> set ms. mu_process_id m = fst (re_spawn re jobId) \<and> mu_timestamp m = te_clock (re_turn re))" for c1
    using watch_reuse_list [of "re_faults re jobId" jobId "fst (re_spawn re jobId)" "te_clock (re_turn re)" c1 0 ids "n_list s"]
    by (auto simp: record_reuse_list)
  ultimately show ?thesis by auto
qed

lemma stall_loop_signals:
  assumes "stall_loop e cu self reason f k ms s = (s', False)" "m \<in> set ms" "mu_process_id m \<noteq> 0" "mu_process_id m \<noteq> self"
  shows "(mu_process_id m, SIGKILL) \<in> set (signals s')"
  using assms(1,2)
proof (induction ms arbitrary: k s)
  case (Cons x ms)
  define s1 where "s1 = (if mu_process_id x \<noteq> 0 then kill_process (mu_process_id x) SIGKILL s else s)"
  obtain s2 threw2 where s2: "fail_transfer e cu False (f k) (mu_job_id x) (pm_file_id x) (mu_process_id x) reason s1 = (s2, threw2)" by fastforce
  show ?case
  proof (cases "mu_process_id x \<noteq> 0 \<and> mu_process_id x = self")
    case True
    then show ?thesis using Cons assms(4) by auto
  next
    case False
    have rest: "stall_loop e cu self reason f (Suc k) ms s2 = (s', False)"
      using Cons.prems(1) False s2 by (auto simp: s1_def [symmetric] Let_def split: if_splits)
    show ?thesis
    proof (cases "m \<in> set ms")
      case False
      then have x: "x = m" using Cons.prems(2) by simp
      have "signals s2 = signals s1"
        using fail_transfer_keeps [of e cu False "f k" "mu_job_id x" "pm_file_id x" "mu_process_id x" reason s1] s2 by simp
      then have "(mu_process_id m, SIGKILL) \<in> set (signals s2)" using assms(3) by (simp add: x s1_def kill_process_def)
      then show ?thesis using stall_loop_keeps [of s2 e cu self reason f "Suc k" ms] rest by auto
    qed (rule Cons.IH [OF rest])
  qed
qed simp


lemma stall_loop_runs: "(\<And>k. f k = no_faults) \<Longrightarrow> \<not> snd (stall_loop e cu self reason f k ms s)"
proof (induction ms arbitrary: k s)
  case (Cons m ms)
  have "\<not> snd (fail_transfer e cu False (f k) (mu_job_id m) (pm_file_id m) (mu_process_id m) reason s1)" for s1
    by (simp add: Cons.prems fail_transfer_def no_faults_def Let_def split: prod.split)
  then show ?case using Cons.IH [OF Cons.prems] by (simp add: Let_def case_prod_beta)
qed simp

lemma markAsStalled_runs:
  assumes "\<And>k. f k = no_faults"
  shows "\<exists>k'. markAsStalled e cu self full True True clock maxAge f k = (k', False)"
proof -
  have "\<not> snd (markAsStalled e cu self full True True clock maxAge f k)"
    using stall_loop_runs [of f, OF assms]
    by (auto simp: markAsStalled_def checkExpiredMsg_def deleteMsg_def under_lock_def split: prod.split) (metis snd_conv)
  then show ?thesis by (metis prod.collapse)
qed


subsection \<open>The agent reads the job file\<close>

text \<open>
  What a line can carry: no spaces in the words that are written as they are, URLs, numbers that fit
  their types, and no value that is the mark for a missing one.
\<close>

definition line_fits :: "TransferFile \<Rightarrow> bool" where
  "line_fits tf \<longleftrightarrow>
     list_all (\<lambda>w. CHR '' '' \<notin> set w) [tf_sourceSurl tf, tf_destSurl tf, tf_checksum tf, tf_bringOnlineToken tf] \<and>
     tf_sourceSurl tf \<noteq> [] \<and> tf_destSurl tf \<noteq> [] \<and>
     list_all (\<lambda>w. w \<noteq> ''x'') [tf_checksum tf, tf_fileMetadata tf, tf_transferMetadata tf, tf_bringOnlineToken tf] \<and>
     tf_fileId tf < 2 ^ 64 \<and> 0 \<le> tf_userFilesize tf \<and> tf_userFilesize tf < 2 ^ 64 \<and> 0 \<le> tf_scitag tf \<and> tf_scitag tf < 2 ^ 32"

definition line_received :: "Transfer \<Rightarrow> TransferFile \<Rightarrow> Transfer \<Rightarrow> bool" where
  "line_received ref tf t \<longleftrightarrow>
     tr_jobId t = tr_jobId ref \<and> unat (tr_fileId t) = tf_fileId tf \<and> tr_source t = parse (tf_sourceSurl tf) \<and>
     tr_destination t = parse (tf_destSurl tf) \<and> uint (tr_userFileSize t) = tf_userFilesize tf \<and> uint (tr_scitag t) = tf_scitag tf \<and>
     tr_fileMetadata t = prepareMetadataString (tf_fileMetadata tf) \<and> tr_transferMetadata t = blank_marks (tf_transferMetadata tf) \<and>
     tr_tokenBringOnline t = tf_bringOnlineToken tf \<and> tr_checksumMode t = tr_checksumMode ref \<and>
     (tf_checksum tf = [] \<longrightarrow> tr_checksumAlgorithm t = tr_checksumAlgorithm new_Transfer \<and> tr_checksumValue t = tr_checksumValue new_Transfer) \<and>
     (tf_checksum tf \<noteq> [] \<longrightarrow> tf_checksum tf = tr_checksumAlgorithm t @ (if CHR '':'' \<in> set (tf_checksum tf) then '':'' @ tr_checksumValue t else []))"

lemma split_join: "ws \<noteq> [] \<Longrightarrow> \<forall>w \<in> set ws. CHR '' '' \<notin> set w \<Longrightarrow> split_spaces (join_words ws) = ws"
proof (induction ws rule: join_words.induct)
  case (3 w v ws)
  then show ?case using split_spaces_append [of w "join_words (v # ws)"] by simp
qed (simp_all add: split_spaces_word)

lemma space_show_int: "CHR '' '' \<notin> set (show_int i)"
proof -
  have "CHR '' '' \<notin> set (decimal n)" for n using decimal_digits [of n] by (auto simp: is_digit_def less_eq_char_def)
  then show ?thesis by (simp add: show_int_def)
qed

lemma prepareMetadata_x: "prepareMetadataString s = ''x'' \<longleftrightarrow> s = ''x''"
proof (cases s)
  case (Cons c cs)
  then show ?thesis by (cases cs) (auto simp: prepareMetadata_eq)
qed (simp add: prepareMetadata_eq)

lemma or_x_simps [simp]: "or_x w \<noteq> []" "CHR '' '' \<in> set (or_x w) \<longleftrightarrow> CHR '' '' \<in> set w"
  by (simp_all add: or_x_def)

lemma unless_or_x: "w \<noteq> ''x'' \<Longrightarrow> (if or_x w = ''x'' then [] else g (or_x w)) = (if w = [] then [] else g w)"
  by (simp add: or_x_def)

lemma unsigned_word: "0 \<le> v \<Longrightarrow> v < 2 ^ w \<Longrightarrow> lexical_cast_unsigned w (show_int v) = Some v"
  using lexical_cast_unsigned_show [of w "nat v"] by simp

lemma setChecksum_sel:
  "tr_jobId (setChecksum c t) = tr_jobId t" "tr_fileId (setChecksum c t) = tr_fileId t" "tr_source (setChecksum c t) = tr_source t"
  "tr_destination (setChecksum c t) = tr_destination t" "tr_checksumMode (setChecksum c t) = tr_checksumMode t"
  by (simp_all add: setChecksum_def split: option.split)

lemma setChecksum_value:
  assumes "c \<noteq> ''x''"
  shows "c = tr_checksumAlgorithm (setChecksum c t) @ (if CHR '':'' \<in> set c then '':'' @ tr_checksumValue (setChecksum c t) else [])"
proof (cases "CHR '':'' \<in> set c")
  case True
  then obtain ys zs where c: "c = ys @ CHR '':'' # zs" "CHR '':'' \<notin> set ys" by (metis split_list_first)
  then have "takeWhile (\<lambda>x. x \<noteq> CHR '':'') c = ys" by (auto simp: takeWhile_tail takeWhile_append2)
  then have "str_find CHR '':'' c = Some (length ys)" using True by (simp add: str_find_def)
  then show ?thesis using True assms c(1) by (simp add: setChecksum_def)
next
  case False
  then show ?thesis using assms by (simp add: setChecksum_def str_find_def)
qed

lemma job_line_words:
  assumes "line_fits tf"
  shows "filter (\<lambda>w. w \<noteq> []) (split_spaces (join_words (job_file_words tf))) = job_file_words tf"
proof -
  have "\<forall>w \<in> set (job_file_words tf). CHR '' '' \<notin> set w \<and> w \<noteq> []"
    using assms space_show_int prepareMetadata_no_space by (auto simp: job_file_words_def line_fits_def)
  then have "split_spaces (join_words (job_file_words tf)) = job_file_words tf" "filter (\<lambda>w. w \<noteq> []) (job_file_words tf) = job_file_words tf"
    using split_join [of "job_file_words tf"] by (auto simp: job_file_words_def)
  then show ?thesis by simp
qed

lemma job_line_received:
  assumes "line_fits tf"
  shows "\<exists>t. createFromString ref (join_words (job_file_words tf)) = Inr t \<and> line_received ref tf t"
proof -
  note fit = assms [unfolded line_fits_def, simplified]
  have nums: "lexical_cast_unsigned 64 (show_int (int (tf_fileId tf))) = Some (int (tf_fileId tf))"
    "lexical_cast_unsigned 64 (show_int (tf_userFilesize tf)) = Some (tf_userFilesize tf)"
    "lexical_cast_unsigned 32 (show_int (tf_scitag tf)) = Some (tf_scitag tf)"
    using fit by (simp_all add: unsigned_word)
  have words: "length (job_file_words tf) = 9" "job_file_words tf ! 0 = show_int (int (tf_fileId tf))" "job_file_words tf ! 1 = tf_sourceSurl tf"
    "job_file_words tf ! 2 = tf_destSurl tf" "job_file_words tf ! 3 = or_x (tf_checksum tf)" "job_file_words tf ! 4 = show_int (tf_userFilesize tf)"
    "job_file_words tf ! 5 = or_x (prepareMetadataString (tf_fileMetadata tf))" "job_file_words tf ! 6 = or_x (prepareMetadataString (tf_transferMetadata tf))"
    "job_file_words tf ! 7 = or_x (tf_bringOnlineToken tf)" "job_file_words tf ! 8 = show_int (tf_scitag tf)"
    by (simp_all add: job_file_words_def)
  have meta: "(if or_x (prepareMetadataString (tf_transferMetadata tf)) = ''x'' then []
      else replaceMetadataString (or_x (prepareMetadataString (tf_transferMetadata tf)))) = blank_marks (tf_transferMetadata tf)"
    "(if or_x (prepareMetadataString (tf_fileMetadata tf)) = ''x'' then [] else or_x (prepareMetadataString (tf_fileMetadata tf)))
      = prepareMetadataString (tf_fileMetadata tf)"
    "(if or_x (tf_bringOnlineToken tf) = ''x'' then [] else or_x (tf_bringOnlineToken tf)) = tf_bringOnlineToken tf"
    using fit by (simp_all add: unless_or_x unless_or_x [where g = "\<lambda>w. w"] prepareMetadata_x prepareMetadata_empty prepareMetadata_eq [of "[]"] metadata_decoded blank_marks_def)
  define t0 where "t0 = new_Transfer\<lparr>tr_jobId := tr_jobId ref, tr_fileId := word_of_int (int (tf_fileId tf)), tr_source := parse (tf_sourceSurl tf),
      tr_destination := parse (tf_destSurl tf), tr_checksumMode := tr_checksumMode ref\<rparr>"
  define t where "t = (setChecksum (or_x (tf_checksum tf)) t0)
      \<lparr>tr_userFileSize := word_of_int (tf_userFilesize tf), tr_fileMetadata := prepareMetadataString (tf_fileMetadata tf),
       tr_transferMetadata := blank_marks (tf_transferMetadata tf), tr_tokenBringOnline := tf_bringOnlineToken tf, tr_scitag := word_of_int (tf_scitag tf),
       tr_sourceTokenDescription := tr_sourceTokenDescription ref, tr_destTokenDescription := tr_destTokenDescription ref,
       tr_sourceTokenIssuer := tr_sourceTokenIssuer ref, tr_destTokenIssuer := tr_destTokenIssuer ref,
       tr_isMultipleReplicaJob := False, tr_isLastReplica := False\<rparr>"
  have "createFromString ref (join_words (job_file_words tf)) = Inr t"
    unfolding createFromString_def Let_def job_line_words [OF assms] t_def t0_def
    by (simp add: words words(3) [simplified] nums meta split del: if_split cong: if_cong)
  moreover have "line_received ref tf t"
    using fit setChecksum_value [of "tf_checksum tf" t0]
    by (auto simp: line_received_def t_def setChecksum_sel t0_def unat_of_nat uint_word_of_int or_x_def setChecksum_def [of "''x''"])
  ultimately show ?thesis by blast
qed



end
