(* ===== verification/Heuristics.thy ===== *)
theory Heuristics
  imports UrlCopyOpts MessageProcessing
begin

section \<open>Heuristics of the transfer process\<close>

text \<open>
  \<^verbatim>\<open>src/url-copy/heuristics.cpp\<close> and \<^verbatim>\<open>UrlCopyError.h\<close>: which errors are worth a retry, how long a
  transfer may take, and how query strings are kept out of messages.

  \<^item> \<^verbatim>\<open>double\<close> is \<open>real\<close>; the conversion of the result to \<^verbatim>\<open>unsigned\<close> keeps 32 bits.
  \<^item> \<^verbatim>\<open>accessTokenPayload\<close>, which only serves the log, is not modelled.
\<close>

subsection \<open>Retries\<close>

definition findSubstring :: "string \<Rightarrow> string list \<Rightarrow> bool" where
  "findSubstring stack needles \<longleftrightarrow> list_ex (\<lambda>n. contains n stack) needles"

definition msg_imply_retry :: "string list" where
  "msg_imply_retry =
     [''performance marker'', ''Name or service not known'', ''Connection timed out'', ''end-of-file was reached'', ''end of file occurred'',
      ''SRM_INTERNAL_ERROR'', ''was forcefully killed'', ''operation timeout'']"

definition msg_imply_do_not_retry :: "string list" where
  "msg_imply_do_not_retry =
     [''proxy expired'', ''with an error 550 File not found'', ''File exists and overwrite'', ''No such file or directory'', ''SRM_INVALID_PATH'',
      ''The certificate has expired'', ''The available CRL has expired'', ''SRM Authentication failed'', ''SRM_DUPLICATION_ERROR'',
      ''SRM_AUTHENTICATION_FAILURE'', ''SRM_NO_FREE_SPACE'', ''digest too big for rsa key'', ''Can not determine address of local host'',
      ''Permission denied'', ''System error in write into HDFS'', ''File exists'', ''checksum do not match'', ''CHECKSUM MISMATCH'',
      ''The source file is not ONLINE'']"

definition retryTransfer :: "int \<Rightarrow> string \<Rightarrow> string \<Rightarrow> bool" where
  "retryTransfer errorNo category message =
     (if findSubstring message msg_imply_retry then True
      else if errorNo = ETIMEDOUT then True
      else if errorNo = ECANCELED then False
      else if findSubstring message msg_imply_do_not_retry then False
      else if category = ''SOURCE'' then errorNo \<notin> {ENOENT, EPERM, EACCES, EISDIR, ENAMETOOLONG, E2BIG, ENOTDIR, EPROTONOSUPPORT}
      else if category = ''DESTINATION'' then errorNo \<notin> {EPERM, EACCES, EISDIR, ENAMETOOLONG, E2BIG, EPROTONOSUPPORT, EEXIST}
      else errorNo \<notin> {ENOSPC, EPERM, EACCES, EEXIST, EFBIG, EROFS, ENAMETOOLONG, EPROTONOSUPPORT})"

subsection \<open>Time-out\<close>

definition adjustTimeoutBasedOnSize :: "64 word \<Rightarrow> 32 word \<Rightarrow> 32 word" where
  "adjustTimeoutBasedOnSize sizeInBytes addSecPerMb =
     (let timeoutPerMBLocal = (if addSecPerMb > 0 then addSecPerMb else 2)
      in word_of_int (600 + \<lceil>real (unat timeoutPerMBLocal) * (real (unat sizeInBytes) / 2 ^ 20)\<rceil>))"

subsection \<open>Query strings\<close>

definition allowedOpaque :: "char \<Rightarrow> bool" where
  "allowedOpaque c \<longleftrightarrow> (CHR ''a'' \<le> c \<and> c \<le> CHR ''z'') \<or> (CHR ''A'' \<le> c \<and> c \<le> CHR ''Z'') \<or> is_digit c \<or> c \<in> set ''~-_.+&=%#?''"

definition find_at :: "(char \<Rightarrow> bool) \<Rightarrow> nat \<Rightarrow> string \<Rightarrow> nat option" where
  "find_at P pos s = (if list_ex P (drop pos s) then Some (pos + length (takeWhile (\<lambda>c. \<not> P c) (drop pos s))) else None)"

definition redacted :: string where
  "redacted = ''<redacted>''"

text \<open>The loop: the position of a question mark in \<open>copy\<close>.\<close>

definition redact_at :: "nat \<Rightarrow> string \<Rightarrow> string" where
  "redact_at pos copy =
     (let endpos = (case find_at (\<lambda>c. \<not> allowedOpaque c) (pos + 1) copy of None \<Rightarrow> length copy | Some e \<Rightarrow> e)
      in take (pos + 1) copy @ redacted @ drop endpos copy)"

definition marks_after :: "nat \<Rightarrow> string \<Rightarrow> nat" where
  "marks_after pos s = length (filter (\<lambda>c. c = CHR ''?'') (drop (Suc pos) s))"

lemma takeWhile_shorter: "list_ex P xs \<Longrightarrow> length (takeWhile (\<lambda>c. \<not> P c) xs) < length xs"
  by (induction xs) auto

lemma filter_dropWhile_le: "length (filter Q (dropWhile P xs)) \<le> length (filter Q xs)"
  by (induction xs) auto

lemma find_at_Some:
  assumes "find_at P pos s = Some p"
  shows "pos \<le> p" "p < length s" "P (s ! p)" "drop pos s = takeWhile (\<lambda>c. \<not> P c) (drop pos s) @ s ! p # drop (Suc p) s"
    "p = pos + length (takeWhile (\<lambda>c. \<not> P c) (drop pos s))"
proof -
  let ?k = "length (takeWhile (\<lambda>c. \<not> P c) (drop pos s))"
  have p: "p = pos + ?k" and ex: "list_ex P (drop pos s)" using assms by (auto simp: find_at_def split: if_splits)
  have k: "?k < length (drop pos s)"
    using ex by (rule takeWhile_shorter)
  then have len: "p < length s" using p by simp
  have eq: "drop pos s ! ?k = s ! p" using k p by simp
  show "pos \<le> p" "p < length s" "p = pos + ?k" using p len by simp_all
  show "P (s ! p)" using nth_length_takeWhile [OF k] eq by simp
  have "drop (Suc ?k) (drop pos s) = drop (Suc p) s" using p by (simp add: add.commute)
  then have tail: "drop pos s ! ?k # drop (Suc ?k) (drop pos s) = s ! p # drop (Suc p) s" using eq by (simp only:)
  have "take ?k (drop pos s) @ drop pos s ! ?k # drop (Suc ?k) (drop pos s) =
      takeWhile (\<lambda>c. \<not> P c) (drop pos s) @ s ! p # drop (Suc p) s"
    by (rule arg_cong2 [where f = append, OF takeWhile_eq_take [symmetric] tail])
  with id_take_nth_drop [OF k] show "drop pos s = takeWhile (\<lambda>c. \<not> P c) (drop pos s) @ s ! p # drop (Suc p) s" by (rule trans)
qed

lemma redact_at_eq:
  assumes "pos < length copy"
  shows "redact_at pos copy = take (Suc pos) copy @ redacted @ dropWhile allowedOpaque (drop (Suc pos) copy)"
proof (cases "find_at (\<lambda>c. \<not> allowedOpaque c) (Suc pos) copy")
  case None
  then have "dropWhile allowedOpaque (drop (Suc pos) copy) = []" by (auto simp: find_at_def list_ex_iff split: if_splits)
  then show ?thesis by (simp add: redact_at_def None)
next
  case (Some e)
  let ?r = "drop (Suc pos) copy"
  have e: "e = Suc pos + length (takeWhile allowedOpaque ?r)" using find_at_Some(5) [OF Some] by simp
  have "drop e copy = drop (length (takeWhile allowedOpaque ?r)) ?r" unfolding e by (simp add: add.commute)
  also have "\<dots> = dropWhile allowedOpaque ?r" by (simp add: dropWhile_eq_drop)
  finally show ?thesis by (simp add: redact_at_def Some)
qed

lemma redacted_no_mark: "CHR ''?'' \<notin> set redacted"
  by (simp add: redacted_def)

lemma find_mark_after:
  assumes "pos < length copy"
  shows "find_at (\<lambda>c. c = CHR ''?'') (Suc pos) (redact_at pos copy) =
    map_option (\<lambda>i. Suc pos + length redacted + i) (find_at (\<lambda>c. c = CHR ''?'') 0 (dropWhile allowedOpaque (drop (Suc pos) copy)))"
proof -
  have d: "drop (Suc pos) (redact_at pos copy) = redacted @ dropWhile allowedOpaque (drop (Suc pos) copy)"
    using assms by (simp add: redact_at_eq)
  have "takeWhile (\<lambda>c. c \<noteq> CHR ''?'') (redacted @ r) = redacted @ takeWhile (\<lambda>c. c \<noteq> CHR ''?'') r" for r
    using redacted_no_mark by (subst takeWhile_append2) auto
  then show ?thesis using redacted_no_mark by (auto simp: find_at_def d list_ex_iff)
qed

function sanitize_loop :: "nat \<Rightarrow> string \<Rightarrow> string" where
  "sanitize_loop pos copy =
     (let copy1 = redact_at pos copy
      in if pos < length copy then
           (case find_at (\<lambda>c. c = CHR ''?'') (pos + 1) copy1 of None \<Rightarrow> copy1 | Some p \<Rightarrow> sanitize_loop p copy1)
         else copy1)"
  by pat_completeness auto
termination
proof (relation "measure (\<lambda>(pos, s). marks_after pos s)")
  fix pos p :: nat and copy copy1 :: string
  assume c1: "copy1 = redact_at pos copy" and pos: "pos < length copy" and p: "find_at (\<lambda>c. c = CHR ''?'') (pos + 1) copy1 = Some p"
  let ?marks = "\<lambda>s. length (filter (\<lambda>c. c = CHR ''?'') s)"
  have "drop (pos + 1) copy1 = takeWhile (\<lambda>c. c \<noteq> CHR ''?'') (drop (pos + 1) copy1) @ copy1 ! p # drop (Suc p) copy1"
    using find_at_Some(4) [OF p] .
  then have "?marks (drop (pos + 1) copy1) = ?marks (takeWhile (\<lambda>c. c \<noteq> CHR ''?'') (drop (pos + 1) copy1) @ copy1 ! p # drop (Suc p) copy1)"
    by (rule arg_cong)
  then have "?marks (drop (Suc p) copy1) < ?marks (drop (pos + 1) copy1)" using find_at_Some(3) [OF p] by simp
  also have "drop (pos + 1) copy1 = redacted @ dropWhile allowedOpaque (drop (Suc pos) copy)"
    using pos by (simp add: c1 redact_at_eq)
  also have "?marks \<dots> = ?marks (dropWhile allowedOpaque (drop (Suc pos) copy))" by (simp add: redacted_def)
  also have "\<dots> \<le> ?marks (drop (Suc pos) copy)"
    by (rule filter_dropWhile_le)
  finally show "((p, copy1), pos, copy) \<in> measure (\<lambda>(pos, s). marks_after pos s)" by (simp add: marks_after_def)
qed auto

definition sanitizeQueryString :: "string \<Rightarrow> string" where
  "sanitizeQueryString text1 =
     (case find_at (\<lambda>c. c = CHR ''?'') 0 text1 of None \<Rightarrow> text1 | Some pos \<Rightarrow> sanitize_loop pos text1)"

declare sanitize_loop.simps [simp del]

subsection \<open>No query string is left\<close>

text \<open>What the loop computes: after every question mark the run of query characters is replaced.\<close>

lemma dropWhile_less [termination_simp]: "length (dropWhile P xs) < Suc (length xs)"
  by (simp add: length_dropWhile_le le_imp_less_Suc)

fun redact :: "string \<Rightarrow> string" where
  "redact [] = []"
| "redact (c # cs) = (if c = CHR ''?'' then CHR ''?'' # redacted @ redact (dropWhile allowedOpaque cs) else c # redact cs)"

lemma redact_no_mark: "CHR ''?'' \<notin> set p \<Longrightarrow> redact (p @ s) = p @ redact s"
  by (induction p) auto

lemma find_at_zero:
  "find_at P 0 s = None \<Longrightarrow> \<not> list_ex P s"
  "find_at P 0 s = Some i \<Longrightarrow> s = takeWhile (\<lambda>c. \<not> P c) s @ s ! i # drop (Suc i) s \<and> i = length (takeWhile (\<lambda>c. \<not> P c) s) \<and> P (s ! i) \<and> i < length s"
  using find_at_Some [of P 0 s i] by (auto simp: find_at_def split: if_splits)

lemma no_marks: "\<not> list_ex (\<lambda>c. c = CHR ''?'') s \<Longrightarrow> redact s = s"
  using redact_no_mark [of s "[]"] by (simp add: list_ex_iff)

lemma redact_first:
  assumes "find_at (\<lambda>c. c = CHR ''?'') 0 s = Some i"
  shows "redact s = take (Suc i) s @ redacted @ redact (dropWhile allowedOpaque (drop (Suc i) s))"
proof -
  let ?p = "takeWhile (\<lambda>c. c \<noteq> CHR ''?'') s"
  note f = find_at_zero(2) [OF assms]
  have "redact s = redact (?p @ CHR ''?'' # drop (Suc i) s)" using f by metis
  also have "\<dots> = ?p @ CHR ''?'' # redacted @ redact (dropWhile allowedOpaque (drop (Suc i) s))"
    by (subst redact_no_mark) (auto dest: set_takeWhileD)
  also have "?p @ [CHR ''?''] = take (Suc i) s"
    using f by (metis takeWhile_eq_take take_Suc_conv_app_nth)
  then have "?p @ CHR ''?'' # t = take (Suc i) s @ t" for t by (metis append.assoc append_Cons append_Nil)
  finally show ?thesis by simp
qed

lemma sanitize_loop_redact:
  assumes "pos < length copy"
  shows "sanitize_loop pos copy = take (Suc pos) copy @ redacted @ redact (dropWhile allowedOpaque (drop (Suc pos) copy))"
  using assms
proof (induction pos copy rule: sanitize_loop.induct)
  case (1 pos copy)
  let ?copy1 = "redact_at pos copy" and ?rest = "dropWhile allowedOpaque (drop (Suc pos) copy)"
  let ?kept = "take (Suc pos) copy @ redacted"
  have c1: "?copy1 = ?kept @ ?rest" using redact_at_eq [OF "1.prems"] by simp
  have len: "length ?kept = Suc pos + length redacted" using "1.prems" by simp
  note f = find_mark_after [OF "1.prems"]
  show ?case
  proof (cases "find_at (\<lambda>c. c = CHR ''?'') 0 ?rest")
    case None
    then have "sanitize_loop pos copy = ?copy1" using f "1.prems" by (subst sanitize_loop.simps) simp
    then show ?thesis using c1 no_marks [OF find_at_zero(1) [OF None]] by simp
  next
    case (Some i)
    define p where "p = Suc pos + length redacted + i"
    have p: "find_at (\<lambda>c. c = CHR ''?'') (pos + 1) ?copy1 = Some p" using f Some by (simp add: p_def)
    have "p < length ?copy1" using find_at_Some(2) [OF p] .
    with 1(1) [OF refl "1.prems" p]
    have "sanitize_loop p ?copy1 = take (Suc p) ?copy1 @ redacted @ redact (dropWhile allowedOpaque (drop (Suc p) ?copy1))" by blast
    also have "take (Suc p) ?copy1 = ?kept @ take (Suc i) ?rest" using len "1.prems" unfolding c1 by (simp add: p_def)
    also have "drop (Suc p) ?copy1 = drop (Suc i) ?rest" using len "1.prems" unfolding c1 by (simp add: p_def)
    also have "(?kept @ take (Suc i) ?rest) @ redacted @ redact (dropWhile allowedOpaque (drop (Suc i) ?rest)) = ?kept @ redact ?rest"
      using redact_first [OF Some] by simp
    finally show ?thesis using p "1.prems" by (subst sanitize_loop.simps) simp
  qed
qed

text \<open>
  C40: the loop over positions that keeps query strings out of error messages computes the plain
  recursive function: every run of query characters after a question mark becomes
  \<^verbatim>\<open><redacted>\<close>, and everything else stays.
\<close>

theorem sanitize_redacts: "sanitizeQueryString s = redact s"
proof (cases "find_at (\<lambda>c. c = CHR ''?'') 0 s")
  case None
  then show ?thesis using no_marks [OF find_at_zero(1)] by (simp add: sanitizeQueryString_def)
next
  case (Some i)
  then show ?thesis
    using sanitize_loop_redact [of i s] find_at_zero(2) [OF Some] redact_first [OF Some] by (simp add: sanitizeQueryString_def)
qed

end
