(* ===== verification/Gfal2.thy ===== *)
theory Gfal2
  imports Heuristics
begin

section \<open>The transfer library\<close>

text \<open>
  \<^verbatim>\<open>src/url-copy/Gfal2.h\<close>, \<^verbatim>\<open>Callbacks.cpp\<close> and \<^verbatim>\<open>DestFile.h\<close>: how the transfer process uses gfal2.

  \<^item> gfal2 itself (\<open>gf_\<close>, and the strings \<open>gx_\<close> of its extended attribute for the locality of a
    file), JsonCpp (\<open>js_\<close>), the paths of Boost (\<open>bf_\<close>) and the operating system (\<open>os_\<close>) are the record
    \<open>platform\<close>, over a state \<open>'w\<close> of the outside world of which nothing is known. An error of gfal2 is
    its code and its message.
  \<^item> An action works on the state of one transfer: the world, the parameters and the transfer,
    both of which the code passes by reference, and what has been sent; it returns a value or
    throws. What was done before an exception stays.
  \<^item> During a copy gfal2 calls back; \<open>gf_copy_file\<close> yields the calls in order.
  \<^item> A setter of the parameters that fails changes nothing. (\<^verbatim>\<open>setStrictCopy\<close> does not ask for the error
    and would throw an exception without one; reading it is undefined.)
  \<^item> Logging is left out.
\<close>

datatype failure = Gfal2Exception int string | UrlCopyException UrlCopyError | StdException string

type_synonym ('s, 'a) act = "'s \<Rightarrow> (failure + 'a) \<times> 's"

definition act_return :: "'a \<Rightarrow> ('s, 'a) act" where
  "act_return x s = (Inr x, s)"

definition act_throw :: "failure \<Rightarrow> ('s, 'a) act" where
  "act_throw e s = (Inl e, s)"

definition act_bind :: "('s, 'a) act \<Rightarrow> ('a \<Rightarrow> ('s, 'b) act) \<Rightarrow> ('s, 'b) act" where
  "act_bind a f s = (case a s of (Inl e, s1) \<Rightarrow> (Inl e, s1) | (Inr x, s1) \<Rightarrow> f x s1)"

definition act_seq :: "('s, 'a) act \<Rightarrow> ('s, 'b) act \<Rightarrow> ('s, 'b) act" where
  "act_seq a b = act_bind a (\<lambda>_. b)"

definition act_catch :: "('s, 'a) act \<Rightarrow> (failure \<Rightarrow> ('s, 'a) act) \<Rightarrow> ('s, 'a) act" where
  "act_catch a h s = (case a s of (Inl e, s1) \<Rightarrow> h e s1 | (Inr x, s1) \<Rightarrow> (Inr x, s1))"

definition act_if :: "bool \<Rightarrow> ('s, unit) act \<Rightarrow> ('s, unit) act" where
  "act_if b a = (if b then a else act_return ())"

definition act_modify :: "('s \<Rightarrow> 's) \<Rightarrow> ('s, unit) act" where
  "act_modify f s = (Inr (), f s)"

definition act_gets :: "('s \<Rightarrow> 'a) \<Rightarrow> ('s, 'a) act" where
  "act_gets f s = (Inr (f s), s)"

subsection \<open>What is outside\<close>

type_synonym gerror = "int \<times> string"

datatype setting =
    StrictCopyMode bool | CreateParentDir bool | ReplaceExistingFile bool | ProxyDelegation bool | LocalTransferPerm bool
  | SciTag "32 word" | TransferMetadata string | SourceSpacetoken string | DestSpacetoken string
  | ChecksumSetting Checksum_mode string string | NbStreams "32 word" | TcpBuffersize "32 word" | TimeoutSetting "32 word"
  | EventCallback | MonitorCallback

record Gfal2TransferParams =
  gp_settings :: "setting list"
  gp_src_token :: string
  gp_dst_token :: string

definition new_params :: Gfal2TransferParams where
  "new_params = \<lparr>gp_settings = [], gp_src_token = [], gp_dst_token = []\<rparr>"

datatype opt_value = OptBool bool | OptString string | OptType gfal_transfer_type

datatype event_stage =
    TRANSFER_ENTER | TRANSFER_EXIT | CHECKSUM_ENTER | CHECKSUM_EXIT | PREPARE_ENTER | PREPARE_EXIT | CLOSE_ENTER | CLOSE_EXIT
  | STAGE_IPV4 | STAGE_IPV6 | CLEANUP | TRANSFER_TYPE | PASV_STAGE | OTHER_STAGE

datatype event_side = EVENT_SOURCE | EVENT_DESTINATION | EVENT_NONE

datatype callback =
    Performance nat nat "64 word" "64 word"
  | Event event_stage event_side bool "64 word" string

record tm =
  tm_year :: nat
  tm_mon :: nat
  tm_mday :: nat
  tm_hour :: nat
  tm_min :: nat

record 'w platform =
  gf_set_param :: "setting \<Rightarrow> 'w \<Rightarrow> gerror option"
  gf_get_nbstreams :: "Gfal2TransferParams \<Rightarrow> 32 word"
  gf_get_tcp_buffer_size :: "Gfal2TransferParams \<Rightarrow> 64 word"
  gf_get_timeout :: "Gfal2TransferParams \<Rightarrow> 64 word"
  gf_set_opt :: "string \<Rightarrow> string \<Rightarrow> opt_value \<Rightarrow> 'w \<Rightarrow> gerror option \<times> 'w"
  gf_load_opts :: "string \<Rightarrow> 'w \<Rightarrow> gerror option \<times> 'w"
  gf_set_user_agent :: "string \<Rightarrow> 'w \<Rightarrow> gerror option \<times> 'w"
  gf_add_client_info :: "string \<Rightarrow> string \<Rightarrow> 'w \<Rightarrow> gerror option \<times> 'w"
  gf_cred_set :: "string \<Rightarrow> string \<Rightarrow> 'w \<Rightarrow> gerror option \<times> 'w"
  gf_stat :: "string \<Rightarrow> 'w \<Rightarrow> (gerror + 64 word) \<times> 'w"
  gf_copy_file :: "Gfal2TransferParams \<Rightarrow> string \<Rightarrow> string \<Rightarrow> 'w \<Rightarrow> gerror option \<times> callback list \<times> 'w"
  gf_release_file :: "string \<Rightarrow> string \<Rightarrow> 'w \<Rightarrow> gerror option \<times> 'w"
  gf_checksum :: "string \<Rightarrow> string \<Rightarrow> 'w \<Rightarrow> (gerror + string) \<times> 'w"
  gf_getxattr :: "string \<Rightarrow> string \<Rightarrow> 'w \<Rightarrow> (gerror + string) \<times> 'w"
  gf_token_retrieve :: "string \<Rightarrow> string \<Rightarrow> 32 word \<Rightarrow> string list \<Rightarrow> 'w \<Rightarrow> (gerror + string) \<times> 'w"
  js_read :: "string \<Rightarrow> string option"
  js_set :: "string \<Rightarrow> string \<Rightarrow> string \<Rightarrow> string"
  js_string :: "string \<Rightarrow> string"
  js_number :: "nat \<Rightarrow> string"
  js_bool :: "bool \<Rightarrow> string"
  js_null :: string
  os_lines :: "string \<Rightarrow> 'w \<Rightarrow> string list"
  os_unlink :: "string \<Rightarrow> 'w \<Rightarrow> 'w"
  os_clock :: "'w \<Rightarrow> nat"
  os_expired :: "32 word \<Rightarrow> 'w \<Rightarrow> bool"
  os_strerror :: "int \<Rightarrow> string"
  os_pid :: int
  os_gmtime :: "'w \<Rightarrow> tm"
  os_setenv :: "string \<Rightarrow> string \<Rightarrow> 'w \<Rightarrow> 'w"
  os_unsetenv :: "string \<Rightarrow> 'w \<Rightarrow> 'w"
  bf_join :: "string \<Rightarrow> string \<Rightarrow> string"
  bf_create_directories :: "string \<Rightarrow> 'w \<Rightarrow> string option \<times> 'w"
  bf_rename :: "string \<Rightarrow> string \<Rightarrow> 'w \<Rightarrow> string option \<times> 'w"
  gf_cancel :: "'w \<Rightarrow> 'w"
  gx_status :: string
  gx_status_online :: string
  gx_status_nearline :: string
  gx_status_nearline_online :: string
  version :: string

subsection \<open>Monitoring messages and outputs\<close>

text \<open>
  What the process sends: log messages, status messages and messages to the monitoring. The times of
  the phases in a message to the monitoring are those of the statistics (\<open>tc_stats\<close>); the differences
  of times are signed numbers.
\<close>

record TransferCompleted =
  tc_transfer_id :: string
  tc_job_id :: job_id
  tc_file_id :: nat
  tc_endpoint :: string
  tc_source_srm_version :: string
  tc_destination_srm_version :: string
  tc_vo :: string
  tc_source_url :: string
  tc_dest_url :: string
  tc_source_hostname :: string
  tc_dest_hostname :: string
  tc_source_se :: string
  tc_dest_se :: string
  tc_protocol :: string
  tc_channel :: string
  tc_channel_type :: string
  tc_user_dn :: string
  tc_file_metadata :: string
  tc_job_metadata :: string
  tc_activity :: string
  tc_job_m_replica :: bool
  tc_job_multihop :: bool
  tc_is_lasthop :: bool
  tc_is_archiving :: bool
  tc_space_token_source :: string
  tc_space_token_dest :: string
  tc_timeout :: "64 word"
  tc_error_code :: int
  tc_error_scope :: string
  tc_error_message :: string
  tc_failure_phase :: string
  tc_error_category :: string
  tc_final_state :: string
  tc_final_flag :: int
  tc_retry :: "32 word"
  tc_retry_max :: "32 word"
  tc_is_recoverable :: bool
  tc_job_state :: string
  tc_total_bytes :: "64 word"
  tc_streams :: "32 word"
  tc_tcp_buffer_size :: "64 word"
  tc_scitag :: "32 word"
  tc_file_size :: "64 word"
  tc_stats :: Statistics
  tc_transfer_time_ms :: int
  tc_operation_time_ms :: int
  tc_srm_overhead_time_ms :: "64 word"
  tc_throughput_bps :: real
  tc_srm_overhead_percentage :: real
  tc_ipv6 :: bool
  tc_ipver :: string
  tc_auth_method :: string

datatype agent_output =
    OutLog job_id nat string bool
  | OutStatus Message
  | OutStarted TransferCompleted
  | OutCompleted TransferCompleted

record 'w run_state =
  rs_world :: 'w
  rs_params :: Gfal2TransferParams
  rs_transfer :: Transfer
  rs_out :: "agent_output list"

subsection \<open>The wrapper\<close>

definition gfal_call :: "('w \<Rightarrow> gerror option \<times> 'w) \<Rightarrow> ('w run_state, unit) act" where
  "gfal_call f s =
     (case f (rs_world s) of
        (None, w) \<Rightarrow> (Inr (), s\<lparr>rs_world := w\<rparr>)
      | (Some (code1, msg), w) \<Rightarrow> (Inl (Gfal2Exception code1 msg), s\<lparr>rs_world := w\<rparr>))"

definition gfal_value :: "('w \<Rightarrow> (gerror + 'a) \<times> 'w) \<Rightarrow> ('w run_state, 'a) act" where
  "gfal_value f s =
     (case f (rs_world s) of
        (Inr x, w) \<Rightarrow> (Inr x, s\<lparr>rs_world := w\<rparr>)
      | (Inl (code1, msg), w) \<Rightarrow> (Inl (Gfal2Exception code1 msg), s\<lparr>rs_world := w\<rparr>))"

text \<open>The setters of \<^verbatim>\<open>Gfal2TransferParams\<close>.\<close>

definition set_param :: "'w platform \<Rightarrow> setting \<Rightarrow> ('w run_state, unit) act" where
  "set_param pf x s =
     (case gf_set_param pf x (rs_world s) of
        None \<Rightarrow> (Inr (), s\<lparr>rs_params := (rs_params s)\<lparr>gp_settings := gp_settings (rs_params s) @ [x]\<rparr>\<rparr>)
      | Some (code1, msg) \<Rightarrow> (Inl (Gfal2Exception code1 msg), s))"

definition setSourceBearerToken :: "string \<Rightarrow> ('w run_state, unit) act" where
  "setSourceBearerToken token = act_modify (\<lambda>s. s\<lparr>rs_params := (rs_params s)\<lparr>gp_src_token := token\<rparr>\<rparr>)"

definition setDestBearerToken :: "string \<Rightarrow> ('w run_state, unit) act" where
  "setDestBearerToken token = act_modify (\<lambda>s. s\<lparr>rs_params := (rs_params s)\<lparr>gp_dst_token := token\<rparr>\<rparr>)"

definition set_opt :: "'w platform \<Rightarrow> string \<Rightarrow> string \<Rightarrow> opt_value \<Rightarrow> ('w run_state, unit) act" where
  "set_opt pf group1 key v = gfal_call (gf_set_opt pf group1 key v)"

definition bearerInit :: "'w platform \<Rightarrow> string \<Rightarrow> string \<Rightarrow> ('w run_state, unit) act" where
  "bearerInit pf source dest =
     act_bind (act_gets rs_params) (\<lambda>ps.
       act_seq (act_if (source \<noteq> [] \<and> gp_src_token ps \<noteq> []) (gfal_call (gf_cred_set pf source (gp_src_token ps))))
         (act_if (dest \<noteq> [] \<and> gp_dst_token ps \<noteq> []) (gfal_call (gf_cred_set pf (host (parse dest)) (gp_dst_token ps)))))"

definition stat_file :: "'w platform \<Rightarrow> string \<Rightarrow> bool \<Rightarrow> ('w run_state, 64 word) act" where
  "stat_file pf url is_source =
     act_seq (bearerInit pf (if is_source then url else []) (if is_source then [] else url)) (gfal_value (gf_stat pf url))"

definition releaseFile :: "'w platform \<Rightarrow> string \<Rightarrow> string \<Rightarrow> bool \<Rightarrow> ('w run_state, unit) act" where
  "releaseFile pf url token is_source =
     act_seq (bearerInit pf (if is_source then url else []) (if is_source then [] else url)) (gfal_call (gf_release_file pf url token))"

subsection \<open>Callbacks\<close>

definition performanceCallback :: "nat \<Rightarrow> nat \<Rightarrow> 64 word \<Rightarrow> 64 word \<Rightarrow> Transfer \<Rightarrow> Transfer" where
  "performanceCallback avg inst moved elapsed t =
     t\<lparr>tr_averageThroughput := real avg / 1024, tr_instantaneousThroughput := real inst / 1024, tr_transferredBytes := moved,
       tr_stats := (tr_stats t)\<lparr>st_elapsedAtPerf := elapsed * 1000\<rparr>\<rparr>"

text \<open>\<^verbatim>\<open>std::stoi\<close>: spaces, a sign, digits up to the first other character; it throws without digits or out of range.\<close>

definition stoi :: "string \<Rightarrow> int option" where
  "stoi s =
     (let s1 = dropWhile (\<lambda>c. c \<in> set [CHR '' '', CHR 0x09, CHR 0x0A, CHR 0x0B, CHR 0x0C, CHR 0x0D]) s;
          neg = (s1 \<noteq> [] \<and> hd s1 = CHR ''-'');
          ds = takeWhile is_digit (if s1 \<noteq> [] \<and> hd s1 \<in> {CHR ''-'', CHR ''+''} then tl s1 else s1);
          v = (if neg then - digits_value 0 ds else digits_value 0 ds)
      in if ds = [] \<or> v < - (2 ^ 31) \<or> v \<ge> 2 ^ 31 then None else Some v)"

definition trim :: "string \<Rightarrow> string" where
  "trim s = rev (dropWhile (\<lambda>c. c = CHR '' '') (rev (dropWhile (\<lambda>c. c = CHR '' '') s)))"

definition drop_brackets :: "string \<Rightarrow> string" where
  "drop_brackets s =
     (case (str_find CHR ''('' s, str_find CHR '')'' s) of
        (Some b, Some e) \<Rightarrow> if b \<le> e then take b s @ drop (Suc e) s else s
      | _ \<Rightarrow> s)"

text \<open>The loop over the arrows: each round sets both URLs, the last one counts.\<close>

fun arrow_split :: "string \<Rightarrow> (string \<times> string) option" where
  "arrow_split [] = None"
| "arrow_split (c # cs) =
     (if starts_with (c # cs) ''=>'' then Some ([], drop 2 (c # cs))
      else map_option (\<lambda>(a, b). (c # a, b)) (arrow_split cs))"

lemma arrow_split_shorter: "arrow_split s = Some (a, b) \<Longrightarrow> length b < length s"
  by (induction s arbitrary: a b) (auto split: if_splits)

function turls_loop :: "string \<Rightarrow> Transfer \<Rightarrow> Transfer" where
  "turls_loop s t =
     (case arrow_split s of
        None \<Rightarrow> t
      | Some (a, b) \<Rightarrow> turls_loop b (t\<lparr>tr_sourceTurl := parse (trim a), tr_destTurl := parse (trim b)\<rparr>))"
  by pat_completeness auto
termination
  by (relation "measure (\<lambda>(s, t). length s)") (auto dest: arrow_split_shorter)

declare turls_loop.simps [simp del]

definition extractTurls :: "string \<Rightarrow> Transfer \<Rightarrow> Transfer" where
  "extractTurls s t = turls_loop (drop_brackets (drop_brackets s)) t"

definition event_stats :: "event_stage \<Rightarrow> event_side \<Rightarrow> bool \<Rightarrow> 64 word \<Rightarrow> string \<Rightarrow> Statistics \<Rightarrow> Statistics" where
  "event_stats stage side srm timestamp1 description st =
     (if stage = TRANSFER_ENTER then st\<lparr>st_transfer := (timestamp1, snd (st_transfer st))\<rparr>
      else if stage = TRANSFER_EXIT then st\<lparr>st_transfer := (fst (st_transfer st), timestamp1)\<rparr>
      else if stage = CHECKSUM_ENTER \<and> side = EVENT_SOURCE then st\<lparr>st_sourceChecksum := (timestamp1, snd (st_sourceChecksum st))\<rparr>
      else if stage = CHECKSUM_EXIT \<and> side = EVENT_SOURCE then st\<lparr>st_sourceChecksum := (fst (st_sourceChecksum st), timestamp1)\<rparr>
      else if stage = CHECKSUM_ENTER \<and> side = EVENT_DESTINATION then st\<lparr>st_destChecksum := (timestamp1, snd (st_destChecksum st))\<rparr>
      else if stage = CHECKSUM_EXIT \<and> side = EVENT_DESTINATION then st\<lparr>st_destChecksum := (fst (st_destChecksum st), timestamp1)\<rparr>
      else if stage = PREPARE_ENTER \<and> srm then st\<lparr>st_srmPreparation := (timestamp1, snd (st_srmPreparation st))\<rparr>
      else if stage = PREPARE_EXIT \<and> srm then st\<lparr>st_srmPreparation := (fst (st_srmPreparation st), timestamp1)\<rparr>
      else if stage = CLOSE_ENTER \<and> srm then st\<lparr>st_srmFinalization := (timestamp1, snd (st_srmFinalization st))\<rparr>
      else if stage = CLOSE_EXIT \<and> srm then st\<lparr>st_srmFinalization := (fst (st_srmFinalization st), timestamp1)\<rparr>
      else if stage = STAGE_IPV4 then st\<lparr>st_ipver := IPv4\<rparr>
      else if stage = STAGE_IPV6 then st\<lparr>st_ipver := IPv6\<rparr>
      else if stage = CLEANUP then (case stoi description of None \<Rightarrow> st | Some n \<Rightarrow> st\<lparr>st_cleanupRetc := \<bar>n\<bar>\<rparr>)
      else if stage = TRANSFER_TYPE then st\<lparr>st_transferType := description\<rparr>
      else if stage = PASV_STAGE then st\<lparr>st_finalDestination := description\<rparr>
      else st)"

definition eventCallback :: "event_stage \<Rightarrow> event_side \<Rightarrow> bool \<Rightarrow> 64 word \<Rightarrow> string \<Rightarrow> Transfer \<Rightarrow> Transfer" where
  "eventCallback stage side srm timestamp1 description t =
     (let t1 = (if stage = TRANSFER_ENTER \<and> (starts_with (fullUri (tr_source t)) ''srm://'' \<or> starts_with (fullUri (tr_destination t)) ''srm://'')
                then extractTurls description t else t)
      in t1\<lparr>tr_stats := event_stats stage side srm timestamp1 description (tr_stats t1)\<rparr>)"

definition call_back :: "setting list \<Rightarrow> callback \<Rightarrow> Transfer \<Rightarrow> Transfer" where
  "call_back installed cb t =
     (case cb of
        Performance avg inst moved elapsed \<Rightarrow>
          if MonitorCallback \<in> set installed then performanceCallback avg inst moved elapsed t else t
      | Event stage side srm timestamp1 description \<Rightarrow>
          if EventCallback \<in> set installed then eventCallback stage side srm timestamp1 description t else t)"

definition copy_file :: "'w platform \<Rightarrow> string \<Rightarrow> string \<Rightarrow> ('w run_state, unit) act" where
  "copy_file pf source dest =
     act_seq (bearerInit pf source dest) (\<lambda>s.
       case gf_copy_file pf (rs_params s) source dest (rs_world s) of
         (err, calls, w) \<Rightarrow>
           (case err of None \<Rightarrow> Inr () | Some (code1, msg) \<Rightarrow> Inl (Gfal2Exception code1 msg),
            s\<lparr>rs_world := w, rs_transfer := fold (call_back (gp_settings (rs_params s))) calls (rs_transfer s)\<rparr>))"

subsection \<open>The report on a destination file\<close>

record DestFile =
  df_fileSize :: "64 word"
  df_checksumType :: string
  df_checksumValue :: string
  df_fileOnDisk :: bool
  df_fileOnTape :: bool

definition toJSON :: "'w platform \<Rightarrow> DestFile \<Rightarrow> string" where
  "toJSON pf d =
     js_set pf (js_set pf (js_set pf (js_set pf (js_set pf (js_null pf) ''file_size'' (js_number pf (unat (df_fileSize d))))
       ''checksum_type'' (js_string pf (df_checksumType d))) ''checksum_value'' (js_string pf (df_checksumValue d)))
       ''file_on_tape'' (js_bool pf (df_fileOnTape d))) ''file_on_disk'' (js_bool pf (df_fileOnDisk d))"

definition appendDestFileToFileMetadata :: "'w platform \<Rightarrow> string \<Rightarrow> string \<Rightarrow> string" where
  "appendDestFileToFileMetadata pf file_metadata dst_file =
     (let metadata =
        (if file_metadata = [] then js_null pf
         else case js_read pf (replaceMetadataString file_metadata) of
                Some m \<Rightarrow> m
              | None \<Rightarrow> js_set pf (js_null pf) ''file_metadata'' (js_string pf file_metadata))
      in js_set pf metadata ''dst_file'' dst_file)"

subsection \<open>Laws of actions\<close>

named_theorems act_defs \<open>definitions of the actions\<close>

lemmas act_basic [act_defs] = act_return_def act_throw_def act_bind_def act_seq_def act_catch_def act_if_def act_modify_def act_gets_def

text \<open>An action that ends normally went through all its parts.\<close>

lemma act_bindE:
  assumes "act_bind a f s = (Inr y, s')"
  obtains x s1 where "a s = (Inr x, s1)" "f x s1 = (Inr y, s')"
  using assms by (auto simp: act_bind_def split: prod.splits sum.splits)

lemma act_seqE:
  assumes "act_seq a b s = (Inr y, s')"
  obtains x s1 where "a s = (Inr x, s1)" "b s1 = (Inr y, s')"
  using assms unfolding act_seq_def by (rule act_bindE)

lemma act_catchE:
  assumes "act_catch a h s = (Inr y, s')"
  obtains (ok) "a s = (Inr y, s')" | (caught) e s1 where "a s = (Inl e, s1)" "h e s1 = (Inr y, s')"
  using assms by (auto simp: act_catch_def split: prod.splits sum.splits)

text \<open>
  A property of the state that every part keeps, whether it throws or not, is kept by the whole.
\<close>

definition keeps :: "('s \<Rightarrow> 's \<Rightarrow> bool) \<Rightarrow> ('s, 'a) act \<Rightarrow> bool" where
  "keeps R a \<longleftrightarrow> (\<forall>s. R s (snd (a s)))"

locale kept =
  fixes R :: "'s \<Rightarrow> 's \<Rightarrow> bool"
  assumes R_refl: "R s s" and R_trans: "R s1 s2 \<Longrightarrow> R s2 s3 \<Longrightarrow> R s1 s3"
begin

lemma keeps_return: "keeps R (act_return x)" "keeps R (act_throw e)" "keeps R (act_gets f)"
  by (simp_all add: keeps_def act_defs R_refl)

lemma keeps_bind: "keeps R a \<Longrightarrow> (\<And>x. keeps R (f x)) \<Longrightarrow> keeps R (act_bind a f)"
  unfolding keeps_def act_bind_def by (auto split: prod.split sum.split) (metis snd_conv R_trans)+

lemma keeps_seq: "keeps R a \<Longrightarrow> keeps R b \<Longrightarrow> keeps R (act_seq a b)"
  unfolding act_seq_def by (rule keeps_bind)

lemma keeps_catch: "keeps R a \<Longrightarrow> (\<And>e. keeps R (h e)) \<Longrightarrow> keeps R (act_catch a h)"
  unfolding keeps_def act_catch_def by (auto split: prod.split sum.split) (metis snd_conv R_trans)+

lemma keeps_if: "keeps R a \<Longrightarrow> keeps R (act_if b a)"
  by (simp add: act_if_def keeps_return)

lemmas keeps_rules = keeps_return keeps_bind keeps_seq keeps_catch keeps_if

end

end
