(* ===== verification/LegacyReporter.thy ===== *)
theory LegacyReporter
  imports Gfal2
begin

section \<open>Reports of the transfer process\<close>

text \<open>
  \<^verbatim>\<open>src/url-copy/LegacyReporter.cpp\<close>: the messages of the transfer process. Status messages go to the
  spool directory of the server, where theory MessageProcessing picks them up; the others go to the
  log table and to the monitoring. The fields of a status message that \<^verbatim>\<open>Message\<close> of theory MessageProcessing leaves out
  (they only serve the monitoring) are left out here too, and so is the host name.
\<close>

definition file_id_of :: "Transfer \<Rightarrow> nat" where
  "file_id_of t = unat (tr_fileId t)"

definition getTransferDurationInSeconds :: "Transfer \<Rightarrow> real" where
  "getTransferDurationInSeconds t =
     (case st_transfer (tr_stats t) of (start, stop) \<Rightarrow> if start = 0 \<or> stop = 0 then 0 else real (unat (stop - start)) / 1000)"

definition getChannel :: "Transfer \<Rightarrow> string" where
  "getChannel t = host (tr_source t) @ ''__'' @ host (tr_destination t)"

text \<open>\<^verbatim>\<open>Transfer::getTransferId\<close>, also the name of the log. \<^verbatim>\<open>std::setw\<close> pads with zeros and never cuts.\<close>

definition setw :: "nat \<Rightarrow> nat \<Rightarrow> string" where
  "setw n k = (let s = show_int (int k) in replicate (n - length s) CHR ''0'' @ s)"

definition dateDir :: "tm \<Rightarrow> string" where
  "dateDir d = setw 4 (tm_year d + 1900) @ ''-'' @ setw 2 (tm_mon d + 1) @ ''-'' @ setw 2 (tm_mday d)"

definition getTransferId :: "tm \<Rightarrow> Transfer \<Rightarrow> string" where
  "getTransferId d t =
     dateDir d @ ''-'' @ setw 2 (tm_hour d) @ setw 2 (tm_min d) @ ''__'' @ getChannel t @ ''__'' @ show_int (uint (tr_fileId t)) @ ''__'' @ tr_jobId t"

definition status_message :: "'w platform \<Rightarrow> nat \<Rightarrow> Transfer \<Rightarrow> message_status \<Rightarrow> Message" where
  "status_message pf clock t st =
     \<lparr>m_job_id = tr_jobId t, m_file_id = file_id_of t, m_status = st, m_message = [], m_process_id = os_pid pf, m_time_in_secs = 0,
      m_filesize = 0, m_nostreams = 0, m_timeout = 0, m_buffersize = 0, m_timestamp = clock, m_retry = False, m_throughput = 0,
      m_errcode = 0, m_file_metadata = [], m_log_path = []\<rparr>"

definition log_output :: "UrlCopyOpts \<Rightarrow> Transfer \<Rightarrow> agent_output" where
  "log_output o1 t = OutLog (tr_jobId t) (file_id_of t) (tr_logFile t) (uo_debugLevel o1 > 1)"

definition send :: "('w run_state \<Rightarrow> agent_output list) \<Rightarrow> ('w run_state, unit) act" where
  "send f = act_modify (\<lambda>s. s\<lparr>rs_out := rs_out s @ f s\<rparr>)"

definition sendProtocol :: "'w platform \<Rightarrow> ('w run_state, unit) act" where
  "sendProtocol pf =
     send (\<lambda>s. let t = rs_transfer s; ps = rs_params s in
       [OutStatus ((status_message pf (os_clock pf (rs_world s)) t UPDATE)
          \<lparr>m_filesize := uint (tr_fileSize t), m_nostreams := uint (gf_get_nbstreams pf ps), m_timeout := uint (gf_get_timeout pf ps),
           m_buffersize := uint (gf_get_tcp_buffer_size pf ps)\<rparr>)])"

subsection \<open>The final report\<close>

definition error_text :: "UrlCopyError \<Rightarrow> string" where
  "error_text err = e_scope err @ '' ['' @ show_int (e_code err) @ ''] '' @ e_msg err"

definition isRecoverable :: "UrlCopyError \<Rightarrow> bool" where
  "isRecoverable err = retryTransfer (e_code err) (e_scope err) (e_msg err)"

text \<open>In MiB per second; more than \<open>10 ^ 10\<close> KiB per second is taken for nonsense.\<close>

definition final_throughput :: "Transfer \<Rightarrow> real" where
  "final_throughput t =
     (if tr_averageThroughput t > 0 then
        (if tr_instantaneousThroughput t > 10000000000 \<or> tr_averageThroughput t > 10000000000 then 0 else tr_averageThroughput t / 1024)
      else
        let duration = getTransferDurationInSeconds t
        in if duration > 0 then real (unat (tr_fileSize t)) / 1048576 / duration else 0)"

definition completed_status :: "'w platform \<Rightarrow> UrlCopyOpts \<Rightarrow> nat \<Rightarrow> Transfer \<Rightarrow> Message" where
  "completed_status pf o1 clock t =
     (let base = \<lambda>st. (status_message pf clock t st)\<lparr>m_filesize := uint (tr_fileSize t), m_time_in_secs := getTransferDurationInSeconds t\<rparr>
      in case tr_error t of
           None \<Rightarrow> (base (Status FINISHED))\<lparr>m_throughput := final_throughput t\<rparr>
         | Some err \<Rightarrow>
             let st = (if e_code err = ECANCELED then base (Status CANCELED)
                       else (base (Status FAILED))
                         \<lparr>m_file_metadata := (if e_code err = EEXIST \<and> uo_dstFileReport o1 \<and> \<not> uo_overwrite o1
                                              then replaceMetadataString (tr_fileMetadata t) else []),
                          m_log_path := tr_logFile t\<rparr>)
             in st\<lparr>m_message := error_text err, m_retry := isRecoverable err, m_errcode := e_code err\<rparr>)"

definition to_upper :: "string \<Rightarrow> string" where
  "to_upper = map (\<lambda>c. if CHR ''a'' \<le> c \<and> c \<le> CHR ''z'' then char_of (of_char c - 32 :: nat) else c)"

definition mapErrnoToString :: "'w platform \<Rightarrow> int \<Rightarrow> string" where
  "mapErrnoToString pf err = to_upper (map (\<lambda>c. if c = CHR '' '' then CHR ''_'' else c) (os_strerror pf err))"

definition monitored_job_state :: "Transfer \<Rightarrow> string" where
  "monitored_job_state t =
     (if tr_error t \<noteq> None then
        (if tr_isMultipleReplicaJob t then (if tr_isLastReplica t then ''FAILED'' else ''ACTIVE'')
         else if tr_isMultihopJob t then ''FAILED'' else ''UNKNOWN'')
      else
        (if tr_isMultipleReplicaJob t then ''FINISHED''
         else if tr_isMultihopJob t then (if tr_isLastHop t then ''FINISHED'' else ''ACTIVE'') else ''UNKNOWN''))"

definition IPverToIPv6String :: "IPver \<Rightarrow> string" where
  "IPverToIPv6String v = (case v of UNKNOWN \<Rightarrow> ''unknown'' | IPv6 \<Rightarrow> ''ipv6'' | IPv4 \<Rightarrow> ''ipv4'')"

text \<open>Differences of unsigned times, stored as signed numbers.\<close>

definition milliseconds :: "interval \<Rightarrow> int" where
  "milliseconds i = sint (snd i - fst i)"

text \<open>What the messages at the start and at the end have in common.\<close>

definition srm_version :: "Uri \<Rightarrow> string" where
  "srm_version u = (if protocol u = ''srm'' then ''2.2.0'' else [])"

definition started_message :: "UrlCopyOpts \<Rightarrow> tm \<Rightarrow> Transfer \<Rightarrow> TransferCompleted" where
  "started_message o1 d t =
     \<lparr>tc_transfer_id = getTransferId d t, tc_job_id = tr_jobId t, tc_file_id = file_id_of t, tc_endpoint = uo_alias o1,
      tc_source_srm_version = srm_version (tr_source t), tc_destination_srm_version = srm_version (tr_destination t),
      tc_vo = uo_voName o1, tc_source_url = fullUri (tr_source t), tc_dest_url = fullUri (tr_destination t),
      tc_source_hostname = host (tr_source t), tc_dest_hostname = host (tr_destination t), tc_source_se = [], tc_dest_se = [],
      tc_protocol = [], tc_channel = getChannel t, tc_channel_type = ''urlcopy'', tc_user_dn = replaceMetadataString (uo_userDn o1),
      tc_file_metadata = replaceMetadataString (tr_fileMetadata t), tc_job_metadata = replaceMetadataString (uo_jobMetadata o1),
      tc_activity = [], tc_job_m_replica = False, tc_job_multihop = False, tc_is_lasthop = False, tc_is_archiving = False,
      tc_space_token_source = tr_sourceTokenDescription t, tc_space_token_dest = tr_destTokenDescription t, tc_timeout = 0,
      tc_error_code = 0, tc_error_scope = [], tc_error_message = [], tc_failure_phase = [], tc_error_category = [], tc_final_state = [],
      tc_final_flag = -1, tc_retry = 0, tc_retry_max = 0, tc_is_recoverable = False, tc_job_state = [], tc_total_bytes = 0, tc_streams = 0,
      tc_tcp_buffer_size = 0, tc_scitag = 0, tc_file_size = 0, tc_stats = new_Statistics, tc_transfer_time_ms = 0,
      tc_operation_time_ms = 0, tc_srm_overhead_time_ms = 0, tc_throughput_bps = 0, tc_srm_overhead_percentage = 0, tc_ipv6 = False,
      tc_ipver = [], tc_auth_method = []\<rparr>"

definition completed_message :: "'w platform \<Rightarrow> UrlCopyOpts \<Rightarrow> tm \<Rightarrow> Gfal2TransferParams \<Rightarrow> Transfer \<Rightarrow> TransferCompleted" where
  "completed_message pf o1 d ps t =
     (let st = tr_stats t; err = tr_error t;
          final_state = (case err of None \<Rightarrow> ''Ok'' | Some e \<Rightarrow> if e_code e = ECANCELED then ''Abort'' else ''Error'');
          transfer_ms = milliseconds (st_transfer st); operation_ms = milliseconds (st_process st);
          overhead_ms = word_of_int (milliseconds (st_srmPreparation st) + milliseconds (st_srmFinalization st)) :: 64 word
      in (started_message o1 d t)
         \<lparr>tc_source_se := getSeName (tr_source t), tc_dest_se := getSeName (tr_destination t),
          tc_protocol := (if protocol (tr_destination t) = [] then protocol (tr_source t) else protocol (tr_destination t)),
          tc_activity := tr_activity t, tc_job_m_replica := tr_isMultipleReplicaJob t, tc_job_multihop := tr_isMultihopJob t,
          tc_is_lasthop := tr_isLastHop t, tc_is_archiving := tr_isArchiving t, tc_timeout := gf_get_timeout pf ps,
          tc_error_code := (case err of None \<Rightarrow> 0 | Some e \<Rightarrow> e_code e), tc_error_scope := (case err of None \<Rightarrow> [] | Some e \<Rightarrow> e_scope e),
          tc_error_message := (case err of None \<Rightarrow> [] | Some e \<Rightarrow> e_msg e), tc_failure_phase := (case err of None \<Rightarrow> [] | Some e \<Rightarrow> e_phase e),
          tc_error_category := (case err of None \<Rightarrow> [] | Some e \<Rightarrow> mapErrnoToString pf (e_code e)), tc_final_state := final_state,
          tc_final_flag := (if final_state = ''Ok'' then 1 else if final_state = ''Error'' then 0 else -1),
          tc_retry := (if err = None then 0 else uo_retry o1), tc_retry_max := (if err = None then 0 else uo_retryMax o1),
          tc_is_recoverable := (case err of None \<Rightarrow> False | Some e \<Rightarrow> isRecoverable e), tc_job_state := monitored_job_state t,
          tc_total_bytes := tr_transferredBytes t, tc_streams := gf_get_nbstreams pf ps, tc_tcp_buffer_size := gf_get_tcp_buffer_size pf ps,
          tc_scitag := tr_scitag t, tc_file_size := tr_fileSize t, tc_stats := st, tc_transfer_time_ms := transfer_ms,
          tc_operation_time_ms := operation_ms, tc_srm_overhead_time_ms := overhead_ms,
          tc_throughput_bps := (if transfer_ms > 0 then of_int (sint (tr_fileSize t)) / (of_int transfer_ms / 1000) else -1),
          tc_srm_overhead_percentage := (if operation_ms > 0 then of_int (uint overhead_ms) * 100 / of_int operation_ms else -1),
          tc_ipv6 := (st_ipver st = IPv6), tc_ipver := IPverToIPv6String (st_ipver st), tc_auth_method := uo_authMethod o1\<rparr>)"

definition sendTransferStart :: "'w platform \<Rightarrow> UrlCopyOpts \<Rightarrow> ('w run_state, unit) act" where
  "sendTransferStart pf o1 =
     send (\<lambda>s. let t = rs_transfer s in
       [log_output o1 t, OutStatus (status_message pf (os_clock pf (rs_world s)) t (Status ACTIVE))] @
       (if uo_enableMonitoring o1 then [OutStarted (started_message o1 (os_gmtime pf (rs_world s)) t)] else []))"

definition completed_outputs :: "'w platform \<Rightarrow> UrlCopyOpts \<Rightarrow> Gfal2TransferParams \<Rightarrow> 'w \<Rightarrow> Transfer \<Rightarrow> agent_output list" where
  "completed_outputs pf o1 ps w t =
     [log_output o1 t, OutStatus (completed_status pf o1 (os_clock pf w) t)] @
     (if uo_enableMonitoring o1 then [OutCompleted (completed_message pf o1 (os_gmtime pf w) ps t)] else [])"

subsection \<open>Signs of life\<close>

definition sendPing :: "'w platform \<Rightarrow> nat \<Rightarrow> Transfer \<Rightarrow> MessageUpdater option \<times> Transfer" where
  "sendPing pf clock t =
     (if tr_transferredBytes t < tr_previousPingTransferredBytes t then (None, t)
      else if tr_instantaneousThroughput t > 10000000000 \<or> tr_averageThroughput t > 10000000000 then (None, t)
      else
        (Some \<lparr>pm_file_id = file_id_of t, pm_transfer_status = ''ACTIVE'', pm_throughput = tr_averageThroughput t / 1024,
               pm_transferred = uint (tr_transferredBytes t), mu_job_id = tr_jobId t, mu_process_id = os_pid pf, mu_timestamp = clock\<rparr>,
         t\<lparr>tr_previousPingTransferredBytes := tr_transferredBytes t\<rparr>))"

subsection \<open>What the reports say\<close>

lemma completed_status_verdict:
  "m_status (completed_status pf o1 clock t) =
     Status (case tr_error t of None \<Rightarrow> FINISHED | Some err \<Rightarrow> if e_code err = ECANCELED then CANCELED else FAILED)"
  "m_job_id (completed_status pf o1 clock t) = tr_jobId t" "m_file_id (completed_status pf o1 clock t) = file_id_of t"
  "m_retry (completed_status pf o1 clock t) = (case tr_error t of None \<Rightarrow> False | Some err \<Rightarrow> isRecoverable err)"
  by (simp_all add: completed_status_def status_message_def Let_def split: option.split)

lemma monitoring_agrees:
  "tc_final_state (completed_message pf o1 d ps t) = ''Ok'' \<longleftrightarrow> m_status (completed_status pf o1 clock t) = Status FINISHED"
  "tc_final_state (completed_message pf o1 d ps t) = ''Abort'' \<longleftrightarrow> m_status (completed_status pf o1 clock t) = Status CANCELED"
  by (simp_all add: completed_message_def completed_status_verdict Let_def split: option.split)

text \<open>A transfer that is cancelled is never retried, unless its message asks for it.\<close>

lemma canceled_not_retried:
  assumes "tr_error t = Some err" "e_code err = ECANCELED" "\<not> findSubstring (e_msg err) msg_imply_retry"
  shows "\<not> m_retry (completed_status pf o1 clock t)"
  using assms by (simp add: completed_status_verdict isRecoverable_def retryTransfer_def ETIMEDOUT_def)

lemma existing_file_not_retried:
  assumes "tr_error t = Some err" "e_code err = EEXIST" "e_scope err = ''DESTINATION''" "\<not> findSubstring (e_msg err) msg_imply_retry"
  shows "\<not> m_retry (completed_status pf o1 clock t)"
  using assms by (simp add: completed_status_verdict isRecoverable_def retryTransfer_def ETIMEDOUT_def)

lemma throughput_nonneg: "0 \<le> tr_averageThroughput t \<Longrightarrow> 0 \<le> final_throughput t"
  by (auto simp: final_throughput_def Let_def simp del: of_nat_unat intro!: divide_nonneg_nonneg)

end
