(* ===== verification/UrlCopyProcess.thy ===== *)
theory UrlCopyProcess
  imports LegacyReporter
begin

section \<open>The transfer process\<close>

text \<open>
  \<^verbatim>\<open>src/url-copy/UrlCopyProcess.cpp\<close> and \<^verbatim>\<open>main.cpp\<close>: what \<^verbatim>\<open>fts_url_copy\<close> does with its list of transfers.

  \<^item> One transfer is an action of theory Gfal2: configuration, checks, copy, checks. The time-out
    thread is the question \<open>os_expired\<close>, asked when the copy has failed.
  \<^item> The process is a step relation: taking the next transfer, working on it, finishing it under the
    mutex, and leaving; between the steps come the signals: \<open>cancel\<close> (SIGTERM) and \<open>panic\<close>
    (SIGSEGV and the like). An exception that leaves \<^verbatim>\<open>run\<close> ends in \<open>panic\<close> as well.
  \<^item> The code tests \<^verbatim>\<open>todoTransfers.empty()\<close> before it takes the mutex and reads the front; the model
    does both in one step.
\<close>

definition new_UrlCopyError :: "string \<Rightarrow> string \<Rightarrow> int \<Rightarrow> string \<Rightarrow> UrlCopyError" where
  "new_UrlCopyError scope1 phase1 code1 msg = \<lparr>e_scope = scope1, e_phase = phase1, e_code = code1, e_msg = sanitizeQueryString msg\<rparr>"

definition what :: "failure \<Rightarrow> string" where
  "what e = (case e of Gfal2Exception _ msg \<Rightarrow> msg | UrlCopyException err \<Rightarrow> e_msg err | StdException msg \<Rightarrow> msg)"

definition throw_error :: "string \<Rightarrow> string \<Rightarrow> int \<Rightarrow> string \<Rightarrow> ('s, 'a) act" where
  "throw_error scope1 phase1 code1 msg = act_throw (UrlCopyException (new_UrlCopyError scope1 phase1 code1 msg))"

text \<open>
  \<^verbatim>\<open>catch (const Gfal2Exception&)\<close> with the code of gfal2, then \<^verbatim>\<open>catch (const std::exception&)\<close> with
  \<^verbatim>\<open>EINVAL\<close>.
\<close>

definition rethrow_as :: "string \<Rightarrow> string \<Rightarrow> failure \<Rightarrow> ('s, 'a) act" where
  "rethrow_as scope1 phase1 e =
     (case e of
        Gfal2Exception code1 msg \<Rightarrow> throw_error scope1 phase1 code1 msg
      | _ \<Rightarrow> throw_error scope1 phase1 EINVAL (what e))"

subsection \<open>Log files\<close>

text \<open>
  \<^verbatim>\<open>LogHelper.cpp\<close>: where the logs are.
\<close>

definition generateLogPath :: "'w platform \<Rightarrow> 'w \<Rightarrow> string \<Rightarrow> Transfer \<Rightarrow> string" where
  "generateLogPath pf w baseDir t = bf_join pf baseDir (getTransferId (os_gmtime pf w) t)"

definition os_call :: "('w \<Rightarrow> string option \<times> 'w) \<Rightarrow> ('w run_state, unit) act" where
  "os_call f s =
     (case f (rs_world s) of
        (None, w) \<Rightarrow> (Inr (), s\<lparr>rs_world := w\<rparr>)
      | (Some msg, w) \<Rightarrow> (Inl (StdException msg), s\<lparr>rs_world := w\<rparr>))"

definition generateArchiveLogPath :: "'w platform \<Rightarrow> string \<Rightarrow> Transfer \<Rightarrow> ('w run_state, string) act" where
  "generateArchiveLogPath pf baseDir t =
     act_bind (act_gets (\<lambda>s. bf_join pf (bf_join pf baseDir (dateDir (os_gmtime pf (rs_world s)))) (getChannel t))) (\<lambda>archiveDir.
       act_seq (os_call (bf_create_directories pf archiveDir))
         (act_gets (\<lambda>s. bf_join pf archiveDir (getTransferId (os_gmtime pf (rs_world s)) t))))"

subsection \<open>Configuration\<close>

definition os_do :: "('w \<Rightarrow> 'w) \<Rightarrow> ('w run_state, unit) act" where
  "os_do f = act_modify (\<lambda>s. s\<lparr>rs_world := f (rs_world s)\<rparr>)"

definition setupGlobalGfal2Config :: "'w platform \<Rightarrow> UrlCopyOpts \<Rightarrow> ('w run_state, unit) act" where
  "setupGlobalGfal2Config pf o1 =
     act_seq (set_opt pf ''GRIDFTP PLUGIN'' ''SESSION_REUSE'' (OptBool True))
       (act_seq (set_opt pf ''GRIDFTP PLUGIN'' ''ENABLE_UDT'' (OptBool (uo_enableUdt o1)))
       (act_seq (case uo_enableIpv6 o1 of None \<Rightarrow> act_return () | Some b \<Rightarrow> set_opt pf ''GRIDFTP PLUGIN'' ''IPV6'' (OptBool b))
       (act_seq (if uo_infosys o1 = ''false'' then set_opt pf ''BDII'' ''ENABLED'' (OptBool False)
                 else act_seq (set_opt pf ''BDII'' ''ENABLED'' (OptBool True)) (set_opt pf ''BDII'' ''LCG_GFAL_INFOSYS'' (OptString (uo_infosys o1))))
       (act_seq (act_if (uo_thirdPartyTURL o1 \<noteq> []) (set_opt pf ''SRM PLUGIN'' ''TURL_3RD_PARTY_PROTOCOLS'' (OptString (uo_thirdPartyTURL o1))))
       (act_seq (gfal_call (gf_set_user_agent pf (version pf)))
         (act_if (uo_proxy o1 \<noteq> [])
            (act_seq (set_opt pf ''X509'' ''CERT'' (OptString (uo_proxy o1)))
            (act_seq (set_opt pf ''X509'' ''KEY'' (OptString (uo_proxy o1)))
            (act_seq (os_do (os_setenv pf ''X509_USER_CERT'' (uo_proxy o1))) (os_do (os_setenv pf ''X509_USER_KEY'' (uo_proxy o1))))))))))))"

definition unlink :: "'w platform \<Rightarrow> string \<Rightarrow> ('w run_state, unit) act" where
  "unlink pf path1 = os_do (os_unlink pf path1)"

definition loadTokensFile :: "'w platform \<Rightarrow> string \<Rightarrow> ('w run_state, unit) act" where
  "loadTokensFile pf path1 =
     act_bind (act_gets (\<lambda>s. os_lines pf path1 (rs_world s))) (\<lambda>ls.
       act_seq (act_if (ls \<noteq> [] \<and> ls ! 0 \<noteq> []) (setSourceBearerToken (ls ! 0)))
         (act_seq (act_if (1 < length ls \<and> ls ! 1 \<noteq> []) (setDestBearerToken (ls ! 1)))
           (unlink pf path1)))"

definition macaroon_enabled :: "Uri \<Rightarrow> bool" where
  "macaroon_enabled u \<longleftrightarrow> starts_with (protocol u) ''davs'' \<or> starts_with (protocol u) ''https''"

definition macaroonValidity :: "UrlCopyOpts \<Rightarrow> Transfer \<Rightarrow> 32 word" where
  "macaroonValidity o1 t =
     (if uo_timeout o1 \<noteq> 0 then (2 * uo_timeout o1) div 60 + 10
      else if tr_userFileSize t \<noteq> 0 then (2 * adjustTimeoutBasedOnSize (tr_userFileSize t) (uo_addSecPerMb o1)) div 60 + 10
      else 180)"

text \<open>A token that cannot be retrieved is only logged.\<close>

definition retrieve_token ::
  "'w platform \<Rightarrow> Uri \<Rightarrow> string \<Rightarrow> 32 word \<Rightarrow> string list \<Rightarrow> (string \<Rightarrow> ('w run_state, unit) act) \<Rightarrow> ('w run_state, unit) act" where
  "retrieve_token pf url issuer validity activities store =
     act_catch (act_bind (gfal_value (gf_token_retrieve pf (fullUri url) issuer validity activities)) store)
       (\<lambda>e. case e of Gfal2Exception _ _ \<Rightarrow> act_return () | _ \<Rightarrow> act_throw e)"

definition setupTokenConfig :: "'w platform \<Rightarrow> UrlCopyOpts \<Rightarrow> Transfer \<Rightarrow> ('w run_state, unit) act" where
  "setupTokenConfig pf o1 t =
     (if uo_cloudStorageConfig o1 \<noteq> [] then
        act_seq (act_catch (gfal_call (gf_load_opts pf (uo_cloudStorageConfig o1))) (\<lambda>_. act_return ())) (unlink pf (uo_cloudStorageConfig o1))
      else if uo_authMethod o1 = ''oauth2'' \<and> uo_oauthFile o1 \<noteq> [] then loadTokensFile pf (uo_oauthFile o1)
      else if \<not> uo_retrieveSEToken o1 then act_return ()
      else
        act_seq (act_if (tr_sourceTokenIssuer t \<noteq> [] \<or> macaroon_enabled (tr_source t))
                   (retrieve_token pf (tr_source t) (tr_sourceTokenIssuer t) (macaroonValidity o1 t) [''DOWNLOAD'', ''LIST''] setSourceBearerToken))
          (act_if (tr_destTokenIssuer t \<noteq> [] \<or> macaroon_enabled (tr_destination t))
             (retrieve_token pf (tr_destination t) (tr_destTokenIssuer t) (macaroonValidity o1 t)
                [''MANAGE'', ''UPLOAD'', ''DELETE'', ''LIST''] setDestBearerToken)))"

definition set_checksum :: "'w platform \<Rightarrow> Transfer \<Rightarrow> ('w run_state, unit) act" where
  "set_checksum pf t =
     act_if (tr_checksumAlgorithm t \<noteq> [])
       (act_catch (set_param pf (ChecksumSetting (tr_checksumMode t) (tr_checksumAlgorithm t) (tr_checksumValue t)))
          (\<lambda>e. case e of
             Gfal2Exception code1 msg \<Rightarrow>
               (case tr_checksumMode t of
                  CHECKSUM_SOURCE \<Rightarrow> throw_error ''SOURCE'' ''TRANSFER_PREPARATION'' code1 msg
                | CHECKSUM_TARGET \<Rightarrow> throw_error ''DESTINATION'' ''TRANSFER_PREPARATION'' code1 msg
                | _ \<Rightarrow> throw_error ''TRANSFER'' ''TRANSFER_PREPARATION'' code1 msg)
           | _ \<Rightarrow> act_throw e))"

definition set_client_info :: "'w platform \<Rightarrow> UrlCopyOpts \<Rightarrow> Transfer \<Rightarrow> ('w run_state, unit) act" where
  "set_client_info pf o1 t =
     act_seq (gfal_call (gf_add_client_info pf ''job-id'' (tr_jobId t)))
       (act_seq (gfal_call (gf_add_client_info pf ''file-id'' (show_int (uint (tr_fileId t)))))
         (gfal_call (gf_add_client_info pf ''retry'' (show_int (uint (uo_retry o1))))))"

definition http_options :: "'w platform \<Rightarrow> UrlCopyOpts \<Rightarrow> Transfer \<Rightarrow> ('w run_state, unit) act" where
  "http_options pf o1 t =
     act_seq (case uo_copyMode o1 of None \<Rightarrow> act_return () | Some m \<Rightarrow> set_opt pf ''HTTP PLUGIN'' ''DEFAULT_COPY_MODE'' (OptType m))
       (act_seq (act_if (uo_disableCopyFallback o1) (set_opt pf ''HTTP PLUGIN'' ''ENABLE_FALLBACK_TPC_COPY'' (OptBool False)))
       (act_seq (act_if (starts_with (protocol (tr_source t)) ''s3'' \<and> starts_with (protocol (tr_destination t)) ''s3'')
                   (set_opt pf ''HTTP PLUGIN'' ''ENABLE_REMOTE_COPY'' (OptBool False)))
         (act_if (uo_debugLevel o1 = 3) (set_opt pf ''HTTP PLUGIN'' ''LOG_SENSITIVE'' (OptBool True)))))"

definition setupTransferConfig :: "'w platform \<Rightarrow> UrlCopyOpts \<Rightarrow> Transfer \<Rightarrow> ('w run_state, unit) act" where
  "setupTransferConfig pf o1 t =
     act_seq (set_param pf (StrictCopyMode (uo_strictCopy o1)))
       (act_seq (set_param pf (CreateParentDir True))
       (act_seq (set_param pf (ReplaceExistingFile (uo_overwrite o1)))
       (act_seq (set_param pf (ProxyDelegation (\<not> uo_noDelegation o1)))
       (act_seq (set_param pf (LocalTransferPerm (\<not> uo_noStreaming o1)))
       (act_seq (act_if (tr_scitag t > 0) (set_param pf (SciTag (tr_scitag t))))
       (act_seq (act_if (tr_transferMetadata t \<noteq> []) (set_param pf (TransferMetadata (tr_transferMetadata t))))
       (act_seq (setupTokenConfig pf o1 t)
       (act_seq (act_if (tr_sourceTokenDescription t \<noteq> []) (set_param pf (SourceSpacetoken (tr_sourceTokenDescription t))))
       (act_seq (act_if (tr_destTokenDescription t \<noteq> []) (set_param pf (DestSpacetoken (tr_destTokenDescription t))))
       (act_seq (set_checksum pf t)
       (act_seq (http_options pf o1 t) (set_client_info pf o1 t))))))))))))"

subsection \<open>One transfer\<close>

definition set_transfer :: "(Transfer \<Rightarrow> Transfer) \<Rightarrow> ('w run_state, unit) act" where
  "set_transfer f = act_modify (\<lambda>s. s\<lparr>rs_transfer := f (rs_transfer s)\<rparr>)"

definition source_size :: "'w platform \<Rightarrow> Transfer \<Rightarrow> ('w run_state, unit) act" where
  "source_size pf t =
     act_catch
       (act_bind (stat_file pf (fullUri (tr_source t)) True) (\<lambda>size1. set_transfer (\<lambda>t. t\<lparr>tr_fileSize := size1\<rparr>)))
       (rethrow_as ''SOURCE'' ''TRANSFER_PREPARATION'')"

definition file_locality :: "'w platform \<Rightarrow> string \<Rightarrow> bool \<times> bool" where
  "file_locality pf st =
     (if st = gx_status_online pf then (True, False)
      else if st = gx_status_nearline pf then (False, True)
      else if st = gx_status_nearline_online pf then (True, True)
      else (False, False))"

definition createDestFileReport :: "'w platform \<Rightarrow> Transfer \<Rightarrow> ('w run_state, DestFile) act" where
  "createDestFileReport pf t =
     act_bind (gfal_value (gf_checksum pf (fullUri (tr_destination t)) (tr_checksumAlgorithm t))) (\<lambda>checksum1.
     act_bind (stat_file pf (fullUri (tr_destination t)) False) (\<lambda>size1.
     act_bind (gfal_value (gf_getxattr pf (fullUri (tr_destination t)) (gx_status pf))) (\<lambda>status1.
       act_return
         \<lparr>df_fileSize = size1, df_checksumType = (if tr_checksumAlgorithm t = [] then ''ADLER32'' else tr_checksumAlgorithm t),
          df_checksumValue = checksum1, df_fileOnDisk = fst (file_locality pf status1), df_fileOnTape = snd (file_locality pf status1)\<rparr>)))"

definition destination_report :: "'w platform \<Rightarrow> Transfer \<Rightarrow> ('w run_state, unit) act" where
  "destination_report pf t =
     act_catch
       (act_bind (createDestFileReport pf t) (\<lambda>d.
          set_transfer (\<lambda>t. t\<lparr>tr_fileMetadata := appendDestFileToFileMetadata pf (tr_fileMetadata t) (toJSON pf d)\<rparr>)))
       (\<lambda>_. act_return ())"

definition exists_reason :: string where
  "exists_reason = ''Destination file exists and overwrite is not enabled''"

definition check_destination :: "'w platform \<Rightarrow> UrlCopyOpts \<Rightarrow> Transfer \<Rightarrow> ('w run_state, unit) act" where
  "check_destination pf o1 t =
     act_catch
       (act_seq (stat_file pf (fullUri (tr_destination t)) False)
         (act_seq (act_if (uo_dstFileReport o1) (destination_report pf t))
           (throw_error ''DESTINATION'' ''TRANSFER_PREPARATION'' EEXIST exists_reason)))
       (\<lambda>e. case e of
          Gfal2Exception code1 msg \<Rightarrow>
            if code1 \<noteq> ENOENT then throw_error ''DESTINATION'' ''TRANSFER_PREPARATION'' code1 msg else act_return ()
        | _ \<Rightarrow> act_throw e)"

definition transfer_timeout :: "UrlCopyOpts \<Rightarrow> Transfer \<Rightarrow> 32 word" where
  "transfer_timeout o1 t =
     (if uo_timeout o1 = 0 then adjustTimeoutBasedOnSize (tr_fileSize t) (uo_addSecPerMb o1) else uo_timeout o1)"

definition set_protocol :: "'w platform \<Rightarrow> UrlCopyOpts \<Rightarrow> 32 word \<Rightarrow> ('w run_state, unit) act" where
  "set_protocol pf o1 tmo =
     act_seq (set_param pf (NbStreams (uo_nStreams o1)))
       (act_seq (set_param pf (TcpBuffersize (uo_tcpBuffersize o1))) (set_param pf (TimeoutSetting tmo)))"

definition do_copy :: "'w platform \<Rightarrow> Transfer \<Rightarrow> 32 word \<Rightarrow> ('w run_state, unit) act" where
  "do_copy pf t tmo =
     act_catch (copy_file pf (fullUri (tr_source t)) (fullUri (tr_destination t)))
       (\<lambda>e. case e of
          Gfal2Exception code1 msg \<Rightarrow>
            act_bind (act_gets (\<lambda>s. os_expired pf tmo (rs_world s))) (\<lambda>timeoutExpired.
              throw_error ''TRANSFER'' ''TRANSFER'' (if timeoutExpired then ETIMEDOUT else code1) msg)
        | _ \<Rightarrow> throw_error ''TRANSFER'' ''TRANSFER'' EINVAL (what e))"

definition release_source :: "'w platform \<Rightarrow> UrlCopyOpts \<Rightarrow> Transfer \<Rightarrow> ('w run_state, unit) act" where
  "release_source pf o1 t =
     act_if (tr_tokenBringOnline t \<noteq> [] \<and> \<not> uo_skipEvict o1)
       (act_catch
          (act_seq (releaseFile pf (fullUri (tr_source t)) (tr_tokenBringOnline t) True)
            (set_transfer (\<lambda>t. t\<lparr>tr_stats := (tr_stats t)\<lparr>st_evictionRetc := 0\<rparr>\<rparr>)))
          (\<lambda>e. case e of
             Gfal2Exception code1 msg \<Rightarrow> set_transfer (\<lambda>t. t\<lparr>tr_stats := (tr_stats t)\<lparr>st_evictionRetc := \<bar>code1\<bar>\<rparr>\<rparr>)
           | _ \<Rightarrow> act_throw e))"

definition validate_size :: "'w platform \<Rightarrow> Transfer \<Rightarrow> ('w run_state, unit) act" where
  "validate_size pf t =
     act_bind (act_catch (stat_file pf (fullUri (tr_destination t)) False) (rethrow_as ''DESTINATION'' ''TRANSFER_FINALIZATION''))
       (\<lambda>destSize. act_bind (act_gets (\<lambda>s. tr_fileSize (rs_transfer s))) (\<lambda>size1.
          act_if (destSize \<noteq> size1)
            (throw_error ''DESTINATION'' ''TRANSFER_FINALIZATION'' EINVAL ''Source and destination file size mismatch'')))"

definition prepare_transfer :: "'w platform \<Rightarrow> UrlCopyOpts \<Rightarrow> Transfer \<Rightarrow> ('w run_state, unit) act" where
  "prepare_transfer pf o1 t =
     (if uo_strictCopy o1 then set_transfer (\<lambda>t. t\<lparr>tr_fileSize := tr_userFileSize t\<rparr>)
      else act_seq (source_size pf t) (act_if (\<not> uo_overwrite o1) (check_destination pf o1 t)))"

definition copy_transfer :: "'w platform \<Rightarrow> UrlCopyOpts \<Rightarrow> Transfer \<Rightarrow> ('w run_state, unit) act" where
  "copy_transfer pf o1 t =
     act_bind (act_gets (\<lambda>s. transfer_timeout o1 (rs_transfer s))) (\<lambda>tmo.
       act_seq (set_protocol pf o1 tmo)
       (act_seq (sendProtocol pf)
       (act_seq (set_param pf EventCallback)
       (act_seq (set_param pf MonitorCallback) (do_copy pf t tmo)))))"

definition runTransfer :: "'w platform \<Rightarrow> UrlCopyOpts \<Rightarrow> Transfer \<Rightarrow> ('w run_state, unit) act" where
  "runTransfer pf o1 t =
     act_seq (prepare_transfer pf o1 t)
       (act_seq (copy_transfer pf o1 t)
       (act_seq (release_source pf o1 t) (act_if (\<not> uo_strictCopy o1) (validate_size pf t))))"

text \<open>
  The body of the loop of \<^verbatim>\<open>run\<close> up to the mutex. An error of the configuration is remembered, but
  the transfer runs all the same. An exception of gfal2 during the configuration is not caught here.
\<close>

definition set_error :: "UrlCopyError \<Rightarrow> ('w run_state, unit) act" where
  "set_error err = set_transfer (\<lambda>t. t\<lparr>tr_error := Some err\<rparr>)"

definition archive_log :: "'w platform \<Rightarrow> UrlCopyOpts \<Rightarrow> ('w run_state, string) act" where
  "archive_log pf o1 =
     act_bind (act_gets rs_transfer) (\<lambda>t.
       act_catch
         (act_bind (generateArchiveLogPath pf (uo_logDir o1) t) (\<lambda>path1.
            act_catch
              (act_seq (os_call (bf_rename pf (tr_logFile t) path1))
                (act_seq (set_transfer (\<lambda>t. t\<lparr>tr_logFile := path1\<rparr>)) (act_return path1)))
              (\<lambda>_. act_return path1)))
         (\<lambda>_. act_return []))"

definition archiveLogs :: "'w platform \<Rightarrow> UrlCopyOpts \<Rightarrow> ('w run_state, unit) act" where
  "archiveLogs pf o1 =
     act_bind (archive_log pf o1) (\<lambda>archivedLogFile.
       act_if (uo_debugLevel o1 > 0)
         (act_catch
            (act_bind (act_gets (\<lambda>s. tr_debugLogFile (rs_transfer s))) (\<lambda>d.
               act_seq (os_call (bf_rename pf d (archivedLogFile @ ''.debug'')))
                 (set_transfer (\<lambda>t. t\<lparr>tr_debugLogFile := archivedLogFile @ ''.debug''\<rparr>))))
            (\<lambda>_. act_return ())))"

definition set_logs :: "'w platform \<Rightarrow> UrlCopyOpts \<Rightarrow> ('w run_state, unit) act" where
  "set_logs pf o1 =
     act_bind (act_gets (\<lambda>s. generateLogPath pf (rs_world s) (uo_logDir o1) (rs_transfer s))) (\<lambda>path1.
       set_transfer (\<lambda>t. t\<lparr>tr_logFile := path1, tr_debugLogFile := (if uo_debugLevel o1 > 0 then path1 @ ''.debug'' else ''/dev/null'')\<rparr>))"

definition set_process_time :: "'w platform \<Rightarrow> (64 word \<Rightarrow> interval \<Rightarrow> interval) \<Rightarrow> ('w run_state, unit) act" where
  "set_process_time pf f =
     act_modify (\<lambda>s. s\<lparr>rs_transfer := (rs_transfer s)\<lparr>tr_stats := (tr_stats (rs_transfer s))
       \<lparr>st_process := f (of_nat (os_clock pf (rs_world s))) (st_process (tr_stats (rs_transfer s)))\<rparr>\<rparr>\<rparr>)"

definition work :: "'w platform \<Rightarrow> UrlCopyOpts \<Rightarrow> Transfer \<Rightarrow> ('w run_state, unit) act" where
  "work pf o1 t =
     act_seq (set_process_time pf (\<lambda>now1 i. (now1, snd i)))
     (act_seq (set_logs pf o1)
     (act_seq (act_catch (setupTransferConfig pf o1 t) (\<lambda>e. case e of UrlCopyException err \<Rightarrow> set_error err | _ \<Rightarrow> act_throw e))
     (act_seq (sendTransferStart pf o1)
     (act_seq
        (act_catch (runTransfer pf o1 t)
           (\<lambda>e. case e of
              UrlCopyException err \<Rightarrow> set_error err
            | _ \<Rightarrow> set_error (new_UrlCopyError ''GENERAL_FAILURE'' ''TRANSFER_SERVICE'' EINVAL (what e))))
     (act_seq (archiveLogs pf o1) (set_process_time pf (\<lambda>now1 i. (fst i, now1))))))))"

definition start_state :: "Transfer \<Rightarrow> 'w \<Rightarrow> 'w run_state" where
  "start_state t w = \<lparr>rs_world = w, rs_params = new_params, rs_transfer = t, rs_out = []\<rparr>"

end
