(* ===== verification/TransferAgent.thy ===== *)
theory TransferAgent
  imports UrlCopyProcess
begin

section \<open>The life of a transfer process\<close>

text \<open>
  \<^verbatim>\<open>UrlCopyProcess::run\<close>, \<open>cancel\<close>, \<open>panic\<close> and \<^verbatim>\<open>main\<close> as a step relation, and what holds of every run.

  \<^item> A step is a stretch of \<^verbatim>\<open>run\<close> between two points where the mutex or the flag \<open>canceled\<close> is read:
    taking the front of the list, working on it (theory UrlCopyProcess), finishing it, leaving the
    loop. The signal handlers step in between: \<open>cancel\<close> (SIGINT, SIGTERM) and \<open>panic\<close> (the fatal
    signals), after which the process may die at once or run on.
  \<^item> \<^verbatim>\<open>run\<close> tests \<^verbatim>\<open>todoTransfers.empty()\<close> before it takes the mutex and reads the front; the model
    does both in one step.
  \<^item> The relation \<open>agent_step\<close> ends when \<^verbatim>\<open>run\<close> has returned (\<open>Left\<close>), or the process is gone (\<open>Over\<close>).
    Between the return and the reset of the signal handlers a fatal signal could still reach
    \<open>panic\<close>: \<open>late_panic\<close> shows what it does.
\<close>

datatype agent_phase = Idle | Working Transfer | Finishing Gfal2TransferParams Transfer | Crashed string | Left | Over

record 'w agent =
  ag_world :: 'w
  ag_todo :: "Transfer list"
  ag_done :: "Transfer list"
  ag_canceled :: bool
  ag_out :: "agent_output list"
  ag_phase :: agent_phase

text \<open>
  The constructor and the part of \<^verbatim>\<open>main\<close> before it. An exception of the constructor is not caught:
  the process ends without a message (\<open>None\<close>).
\<close>

definition clearEnvironment :: "'w platform \<Rightarrow> 'w \<Rightarrow> 'w" where
  "clearEnvironment pf w =
     os_setenv pf ''XrdSecGSIDELEGPROXY'' ''1''
       (os_unsetenv pf ''X509_USER_PROXY'' (os_unsetenv pf ''X509_USER_KEY'' (os_unsetenv pf ''X509_USER_CERT'' w)))"

definition new_UrlCopyProcess :: "'w platform \<Rightarrow> UrlCopyOpts \<Rightarrow> 'w \<Rightarrow> 'w agent option" where
  "new_UrlCopyProcess pf o1 w =
     (case setupGlobalGfal2Config pf o1 (start_state new_Transfer w) of
        (Inl e, s) \<Rightarrow> None
      | (Inr _, s) \<Rightarrow>
          Some \<lparr>ag_world = rs_world s, ag_todo = uo_transfers o1, ag_done = [], ag_canceled = False, ag_out = [], ag_phase = Idle\<rparr>)"

text \<open>The pieces of \<^verbatim>\<open>run\<close>.\<close>

definition do_work :: "'w platform \<Rightarrow> UrlCopyOpts \<Rightarrow> Transfer \<Rightarrow> 'w agent \<Rightarrow> 'w agent" where
  "do_work pf o1 t a =
     (case work pf o1 t (start_state t (ag_world a)) of
        (r, s) \<Rightarrow> a\<lparr>ag_world := rs_world s, ag_out := ag_out a @ rs_out s,
                    ag_phase := (case r of Inl e \<Rightarrow> Crashed (what e) | Inr _ \<Rightarrow> Finishing (rs_params s) (rs_transfer s))\<rparr>)"

definition finish :: "'w platform \<Rightarrow> UrlCopyOpts \<Rightarrow> Gfal2TransferParams \<Rightarrow> Transfer \<Rightarrow> 'w agent \<Rightarrow> 'w agent" where
  "finish pf o1 ps t a =
     (let a1 = a\<lparr>ag_done := ag_done a @ [t], ag_phase := Idle\<rparr>
      in if ag_todo a \<noteq> []
         then a1\<lparr>ag_todo := tl (ag_todo a), ag_out := ag_out a @ completed_outputs pf o1 ps (ag_world a) t\<rparr>
         else a1)"

definition with_error :: "UrlCopyError \<Rightarrow> Transfer \<Rightarrow> Transfer" where
  "with_error err t = t\<lparr>tr_error := Some err\<rparr>"

definition final_reports :: "'w platform \<Rightarrow> UrlCopyOpts \<Rightarrow> 'w \<Rightarrow> Transfer list \<Rightarrow> agent_output list" where
  "final_reports pf o1 w ts = concat (map (completed_outputs pf o1 new_params w) ts)"

definition canceled_error :: UrlCopyError where
  "canceled_error = new_UrlCopyError ''TRANSFER'' ''TRANSFER_PREPARATION'' ECANCELED ''Transfer canceled''"

definition leave :: "'w platform \<Rightarrow> UrlCopyOpts \<Rightarrow> 'w agent \<Rightarrow> 'w agent" where
  "leave pf o1 a =
     (let ts = map (with_error canceled_error) (ag_todo a)
      in a\<lparr>ag_todo := ts, ag_out := ag_out a @ final_reports pf o1 (ag_world a) ts, ag_phase := Left\<rparr>)"

definition cancel :: "'w platform \<Rightarrow> 'w agent \<Rightarrow> 'w agent" where
  "cancel pf a = a\<lparr>ag_canceled := True, ag_world := gf_cancel pf (ag_world a)\<rparr>"

definition panic :: "'w platform \<Rightarrow> UrlCopyOpts \<Rightarrow> string \<Rightarrow> 'w agent \<Rightarrow> 'w agent" where
  "panic pf o1 msg a =
     (let err = new_UrlCopyError ''GENERAL_FAILURE'' ''TRANSFER_SERVICE'' EINTR msg
      in a\<lparr>ag_out := ag_out a @ final_reports pf o1 (ag_world a) (map (with_error err) (ag_todo a)), ag_todo := []\<rparr>)"

inductive agent_step :: "'w platform \<Rightarrow> UrlCopyOpts \<Rightarrow> 'w agent \<Rightarrow> 'w agent \<Rightarrow> bool" for pf o1 where
  Take: "ag_phase a = Idle \<Longrightarrow> ag_todo a = t # ts \<Longrightarrow> \<not> ag_canceled a \<Longrightarrow> agent_step pf o1 a (a\<lparr>ag_phase := Working t\<rparr>)"
| Work: "ag_phase a = Working t \<Longrightarrow> agent_step pf o1 a (do_work pf o1 t a)"
| Finish: "ag_phase a = Finishing ps t \<Longrightarrow> agent_step pf o1 a (finish pf o1 ps t a)"
| Leave: "ag_phase a = Idle \<Longrightarrow> ag_todo a = [] \<or> ag_canceled a \<Longrightarrow> agent_step pf o1 a (leave pf o1 a)"
| Recover: "ag_phase a = Crashed msg \<Longrightarrow> agent_step pf o1 a ((panic pf o1 msg a)\<lparr>ag_phase := Over\<rparr>)"
| Cancel: "ag_phase a \<notin> {Left, Over} \<Longrightarrow> agent_step pf o1 a (cancel pf a)"
| Panic: "ag_phase a \<notin> {Left, Over} \<Longrightarrow> ph \<in> {ag_phase a, Over} \<Longrightarrow> agent_step pf o1 a ((panic pf o1 msg a)\<lparr>ag_phase := ph\<rparr>)"

inductive_cases agent_stepE: "agent_step pf o1 a b"

subsection \<open>What a transfer may change\<close>

text \<open>The steps of the outside world that the process can ask for.\<close>

inductive platform_move :: "'w platform \<Rightarrow> 'w \<Rightarrow> 'w \<Rightarrow> bool" for pf where
  "platform_move pf w (snd (gf_set_opt pf g k v w))"
| "platform_move pf w (snd (gf_load_opts pf p w))"
| "platform_move pf w (snd (gf_add_client_info pf k x w))"
| "platform_move pf w (snd (gf_cred_set pf u c w))"
| "platform_move pf w (snd (gf_stat pf u w))"
| "platform_move pf w (snd (snd (gf_copy_file pf ps u d w)))"
| "platform_move pf w (snd (gf_release_file pf u c w))"
| "platform_move pf w (snd (gf_checksum pf u c w))"
| "platform_move pf w (snd (gf_getxattr pf u c w))"
| "platform_move pf w (snd (gf_token_retrieve pf u i v acts w))"
| "platform_move pf w (os_unlink pf p w)"
| "platform_move pf w (snd (bf_create_directories pf p w))"
| "platform_move pf w (snd (bf_rename pf p q w))"
| "platform_move pf w (gf_cancel pf w)"

definition transfer_id :: "Transfer \<Rightarrow> job_id \<times> nat" where
  "transfer_id t = (tr_jobId t, file_id_of t)"

definition final_of :: "agent_output \<Rightarrow> (job_id \<times> nat) list" where
  "final_of x =
     (case x of
        OutStatus m \<Rightarrow> if m_status m \<in> {Status FINISHED, Status FAILED, Status CANCELED} then [(m_job_id m, m_file_id m)] else []
      | _ \<Rightarrow> [])"

definition final_ids :: "agent_output list \<Rightarrow> (job_id \<times> nat) list" where
  "final_ids xs = concat (map final_of xs)"

subsubsection \<open>Callbacks and reports\<close>

lemma transfer_id_error [simp]: "transfer_id (with_error err t) = transfer_id t"
  by (simp add: transfer_id_def file_id_of_def with_error_def)

lemma final_ids_simps [simp]:
  "final_ids [] = []" "final_ids (x # xs) = final_of x @ final_ids xs" "final_ids (xs @ ys) = final_ids xs @ final_ids ys"
  by (simp_all add: final_ids_def)

lemma final_of_simps [simp]:
  "final_of (OutLog j f p d) = []" "final_of (OutStarted tc) = []" "final_of (OutCompleted tc) = []" "final_of (log_output o1 t) = []"
  "final_of (OutStatus (completed_status pf o1 clock t)) = [transfer_id t]"
  by (simp_all add: final_of_def log_output_def completed_status_verdict transfer_id_def split: option.split)

lemma final_ids_completed [simp]: "final_ids (completed_outputs pf o1 ps w t) = [transfer_id t]"
  by (simp add: completed_outputs_def)

lemma final_ids_reports [simp]: "final_ids (final_reports pf o1 w ts) = map transfer_id ts"
  by (induction ts) (simp_all add: final_reports_def)

text \<open>
  Relations between the state before and after that each elementary operation respects: a move of
  the world, new settings, a message that is not final, and a change of the transfer
  that the view \<open>v\<close> does not see. The view ignores what callbacks, checks and logs write.
\<close>

locale transfer_relation = kept R for R :: "'w run_state \<Rightarrow> 'w run_state \<Rightarrow> bool" +
  fixes pf :: "'w platform" and v :: "Transfer \<Rightarrow> 'v"
  assumes world_ok: "platform_move pf (rs_world s) w \<Longrightarrow> R s (s\<lparr>rs_world := w\<rparr>)"
    and params_ok: "set (gp_settings (rs_params s)) \<subseteq> set (gp_settings ps) \<Longrightarrow> R s (s\<lparr>rs_params := ps\<rparr>)"
    and transfer_ok: "v t = v (rs_transfer s) \<Longrightarrow> R s (s\<lparr>rs_transfer := t\<rparr>)"
    and out_ok: "final_ids outs = [] \<Longrightarrow> R s (s\<lparr>rs_out := rs_out s @ outs\<rparr>)"
    and view:
      "v (t\<lparr>tr_stats := st\<rparr>) = v t" "v (t\<lparr>tr_fileMetadata := p\<rparr>) = v t"
      "v (t\<lparr>tr_logFile := p\<rparr>) = v t" "v (t\<lparr>tr_debugLogFile := p\<rparr>) = v t"
      "v (t\<lparr>tr_averageThroughput := x\<rparr>) = v t" "v (t\<lparr>tr_instantaneousThroughput := x\<rparr>) = v t"
      "v (t\<lparr>tr_transferredBytes := m\<rparr>) = v t" "v (t\<lparr>tr_sourceTurl := u\<rparr>) = v t" "v (t\<lparr>tr_destTurl := u\<rparr>) = v t"
begin

lemma turls_loop_view: "v (turls_loop str t) = v t"
proof (induction str t rule: turls_loop.induct)
  case (1 str t)
  then show ?case
    by (subst turls_loop.simps) (auto simp: view split: option.split)
qed

lemma call_back_view: "v (call_back installed cb t) = v t"
  by (cases cb) (simp_all add: call_back_def performanceCallback_def eventCallback_def extractTurls_def Let_def view turls_loop_view)

lemma fold_call_back_view: "v (fold (call_back installed) calls t) = v t"
  by (induction calls arbitrary: t) (simp_all add: call_back_view)

lemma keeps_gfal_call: "(\<And>w. platform_move pf w (snd (f w))) \<Longrightarrow> keeps R (gfal_call f)"
  by (auto simp: keeps_def gfal_call_def split: prod.split option.split) (metis snd_conv world_ok)+

lemma keeps_gfal_value: "(\<And>w. platform_move pf w (snd (f w))) \<Longrightarrow> keeps R (gfal_value f)"
  by (auto simp: keeps_def gfal_value_def split: prod.split sum.split) (metis snd_conv world_ok)+

lemma keeps_os_call: "(\<And>w. platform_move pf w (snd (f w))) \<Longrightarrow> keeps R (os_call f)"
  by (auto simp: keeps_def os_call_def split: prod.split option.split) (metis snd_conv world_ok)+

lemma keeps_os_do: "(\<And>w. platform_move pf w (f w)) \<Longrightarrow> keeps R (os_do f)"
  by (simp add: keeps_def os_do_def act_modify_def world_ok)

lemma keeps_set_param: "keeps R (set_param pf x)"
  by (auto simp: keeps_def set_param_def R_refl split: option.split intro!: params_ok)

lemma keeps_tokens: "keeps R (setSourceBearerToken x)" "keeps R (setDestBearerToken x)"
  by (simp_all add: keeps_def setSourceBearerToken_def setDestBearerToken_def act_modify_def params_ok)

lemma keeps_set_transfer: "(\<And>t. v (f t) = v t) \<Longrightarrow> keeps R (set_transfer f)"
  by (simp add: keeps_def set_transfer_def act_modify_def transfer_ok)

lemma keeps_send: "(\<And>s. final_ids (f s) = []) \<Longrightarrow> keeps R (send f)"
  by (simp add: keeps_def send_def act_modify_def out_ok)

lemma keeps_process_time: "keeps R (set_process_time pf f)"
  by (simp add: keeps_def set_process_time_def act_modify_def transfer_ok view)

lemma keeps_bearer: "keeps R (bearerInit pf u d)"
  unfolding bearerInit_def by (intro keeps_rules keeps_gfal_call platform_move.intros)

lemma keeps_stat: "keeps R (stat_file pf u b)"
  unfolding stat_file_def by (intro keeps_rules keeps_bearer keeps_gfal_value platform_move.intros)

lemma keeps_copy: "keeps R (copy_file pf u d)"
  unfolding copy_file_def
proof (intro keeps_seq keeps_bearer)
  let ?go = "\<lambda>s. case gf_copy_file pf (rs_params s) u d (rs_world s) of (err, calls, w) \<Rightarrow>
      (case err of None \<Rightarrow> Inr () | Some (code1, msg) \<Rightarrow> Inl (Gfal2Exception code1 msg),
       s\<lparr>rs_world := w, rs_transfer := fold (call_back (gp_settings (rs_params s))) calls (rs_transfer s)\<rparr>)"
  show "keeps R ?go"
    unfolding keeps_def
  proof
    fix s :: "'w run_state"
    obtain err calls w where c: "gf_copy_file pf (rs_params s) u d (rs_world s) = (err, calls, w)"
      by (cases "gf_copy_file pf (rs_params s) u d (rs_world s)")
    have "platform_move pf (rs_world s) w"
      using platform_move.intros(6) [of pf "rs_world s" "rs_params s" u d] c by simp
    then have "R s (s\<lparr>rs_world := w\<rparr>)"
      by (rule world_ok)
    moreover have "R (s\<lparr>rs_world := w\<rparr>) (s\<lparr>rs_world := w, rs_transfer := fold (call_back (gp_settings (rs_params s))) calls (rs_transfer s)\<rparr>)"
      by (rule transfer_ok) (simp add: fold_call_back_view)
    ultimately show "R s (snd (?go s))"
      using R_trans c by simp
  qed
qed

lemmas keeps_basic = keeps_rules keeps_set_param keeps_tokens keeps_stat keeps_copy keeps_process_time

lemma keeps_throw_error: "keeps R (throw_error a b c d)" "keeps R (rethrow_as a b e)"
  by (simp_all add: throw_error_def rethrow_as_def keeps_return split: failure.split)

lemma keeps_set_opt: "keeps R (set_opt pf g k x)"
  unfolding set_opt_def by (intro keeps_gfal_call platform_move.intros)

lemma keeps_unlink: "keeps R (unlink pf p)"
  unfolding unlink_def by (intro keeps_os_do platform_move.intros)

lemma keeps_retrieve: "(\<And>x. keeps R (store x)) \<Longrightarrow> keeps R (retrieve_token pf u i n acts store)"
  unfolding retrieve_token_def
  by (intro keeps_rules keeps_gfal_value platform_move.intros) (auto simp: keeps_return split: failure.split)

lemma keeps_token_config: "keeps R (setupTokenConfig pf o1 t)"
  unfolding setupTokenConfig_def loadTokensFile_def
  by (simp split: if_split) (intro impI conjI keeps_basic keeps_unlink keeps_retrieve keeps_gfal_call platform_move.intros)

lemma keeps_checksum: "keeps R (set_checksum pf t)"
  unfolding set_checksum_def
  by (intro keeps_basic) (auto simp: keeps_return keeps_throw_error split: failure.split Checksum_mode.split)

lemma keeps_http: "keeps R (act_seq (http_options pf o1 t) (set_client_info pf o1 t))"
  unfolding http_options_def set_client_info_def
  by (intro keeps_basic keeps_set_opt keeps_gfal_call platform_move.intros) (auto simp: keeps_return keeps_set_opt split: option.split)

lemma keeps_transfer_config: "keeps R (setupTransferConfig pf o1 t)"
  unfolding setupTransferConfig_def by (intro keeps_basic keeps_token_config keeps_checksum keeps_http)

lemma keeps_check_destination: "keeps R (check_destination pf o1 t)"
proof -
  have "keeps R (destination_report pf t)"
    unfolding destination_report_def createDestFileReport_def
    by (intro keeps_basic keeps_set_transfer keeps_gfal_value platform_move.intros) (simp add: view)
  then show ?thesis
    unfolding check_destination_def
    by (intro keeps_basic keeps_throw_error) (auto simp: keeps_return keeps_throw_error split: failure.split)
qed

lemma keeps_do_copy: "keeps R (do_copy pf t tmo)"
  unfolding do_copy_def by (intro keeps_basic) (auto simp: keeps_bind keeps_return keeps_throw_error split: failure.split)

lemma keeps_copy_transfer: "keeps R (copy_transfer pf o1 t)"
  unfolding copy_transfer_def set_protocol_def sendProtocol_def
  by (intro keeps_basic keeps_send keeps_do_copy) (simp add: final_of_def status_message_def Let_def)

lemma keeps_release: "keeps R (release_source pf o1 t)"
  unfolding release_source_def releaseFile_def
  by (intro keeps_basic keeps_bearer keeps_gfal_call platform_move.intros keeps_set_transfer)
    (auto simp: keeps_return keeps_set_transfer view split: failure.split)

lemma keeps_validate: "keeps R (validate_size pf t)"
  unfolding validate_size_def by (intro keeps_basic keeps_throw_error)

lemma keeps_logs: "keeps R (set_logs pf o1)"
  unfolding set_logs_def by (intro keeps_basic keeps_set_transfer) (simp add: view)

lemma keeps_start: "keeps R (sendTransferStart pf o1)"
  unfolding sendTransferStart_def by (intro keeps_send) (simp add: final_of_def log_output_def status_message_def Let_def)

lemma keeps_protocol: "keeps R (act_seq (set_protocol pf o1 tmo) (sendProtocol pf))"
  unfolding set_protocol_def sendProtocol_def by (intro keeps_basic keeps_send) (simp add: final_of_def status_message_def Let_def)

lemma keeps_archive: "keeps R (archiveLogs pf o1)"
  unfolding archiveLogs_def archive_log_def generateArchiveLogPath_def
  by (intro keeps_basic keeps_os_call keeps_set_transfer platform_move.intros) (simp_all add: view)

end

text \<open>
  Where the view ignores the file size too, the relation holds across \<^verbatim>\<open>runTransfer\<close>, and where it
  ignores errors as well, across the whole work on a transfer.
\<close>

locale run_relation = transfer_relation +
  assumes view_size: "v (t\<lparr>tr_fileSize := n\<rparr>) = v t"
begin

lemma keeps_prepare: "keeps R (prepare_transfer pf o1 t)"
proof -
  have "keeps R (source_size pf t)"
    unfolding source_size_def by (intro keeps_basic keeps_set_transfer keeps_throw_error) (simp add: view_size)
  then show ?thesis
    by (simp add: prepare_transfer_def keeps_seq keeps_if keeps_set_transfer keeps_check_destination view_size)
qed

lemma keeps_runTransfer: "keeps R (runTransfer pf o1 t)"
  unfolding runTransfer_def by (intro keeps_basic keeps_prepare keeps_copy_transfer keeps_release keeps_validate)

end

locale work_relation = run_relation +
  assumes view_error: "v (t\<lparr>tr_error := e\<rparr>) = v t"
begin

lemma keeps_work: "keeps R (work pf o1 t)"
  unfolding work_def set_error_def
  by (intro keeps_basic keeps_transfer_config keeps_runTransfer keeps_archive keeps_logs keeps_start)
    (auto simp: keeps_return keeps_set_transfer view_error split: failure.split)

end

definition same_transfer :: "'w run_state \<Rightarrow> 'w run_state \<Rightarrow> bool" where
  "same_transfer s s' \<longleftrightarrow>
     transfer_id (rs_transfer s') = transfer_id (rs_transfer s) \<and> final_ids (rs_out s') = final_ids (rs_out s)"

interpretation same: work_relation same_transfer pf transfer_id for pf :: "'w platform"
  by unfold_locales (simp_all add: same_transfer_def transfer_id_def file_id_of_def)

definition moves :: "'w platform \<Rightarrow> 'w run_state \<Rightarrow> 'w run_state \<Rightarrow> bool" where
  "moves pf s s' \<longleftrightarrow> (platform_move pf)\<^sup>*\<^sup>* (rs_world s) (rs_world s')"

interpretation world: work_relation "moves pf" pf "\<lambda>t. ()" for pf :: "'w platform"
  by unfold_locales (auto simp: moves_def)

interpretation copied: transfer_relation "\<lambda>s s'. tr_fileSize (rs_transfer s') = tr_fileSize (rs_transfer s)" pf tr_fileSize for pf :: "'w platform"
  by unfold_locales simp_all

definition grows :: "'w run_state \<Rightarrow> 'w run_state \<Rightarrow> bool" where
  "grows s s' \<longleftrightarrow> tr_error (rs_transfer s') = tr_error (rs_transfer s) \<and> set (gp_settings (rs_params s)) \<subseteq> set (gp_settings (rs_params s'))"

interpretation runs: run_relation grows pf tr_error for pf :: "'w platform"
  by unfold_locales (auto simp: grows_def)

lemma work_reports_nothing_final:
  assumes "work pf o1 t (start_state t w) = (r, s)"
  shows "transfer_id (rs_transfer s) = transfer_id t" "final_ids (rs_out s) = []"
  using same.keeps_work [of pf o1 t, unfolded keeps_def, rule_format, of "start_state t w"] assms
  by (simp_all add: same_transfer_def start_state_def)

subsection \<open>Every transfer is reported once\<close>

text \<open>
  What has been reported and what is left to do are always the transfers of the command line, in
  their order; the transfer in work is the first of the list, unless a panic has emptied it.
\<close>

definition agent_ok :: "(job_id \<times> nat) list \<Rightarrow> 'w agent \<Rightarrow> bool" where
  "agent_ok ids a \<longleftrightarrow>
     (case ag_phase a of
        Left \<Rightarrow> final_ids (ag_out a) = ids
      | Over \<Rightarrow> final_ids (ag_out a) = ids
      | Working t \<Rightarrow> final_ids (ag_out a) @ map transfer_id (ag_todo a) = ids \<and> (ag_todo a = [] \<or> transfer_id (hd (ag_todo a)) = transfer_id t)
      | Finishing ps t \<Rightarrow>
          final_ids (ag_out a) @ map transfer_id (ag_todo a) = ids \<and> (ag_todo a = [] \<or> transfer_id (hd (ag_todo a)) = transfer_id t)
      | _ \<Rightarrow> final_ids (ag_out a) @ map transfer_id (ag_todo a) = ids)"

lemma agent_ok_new: "new_UrlCopyProcess pf o1 w = Some a \<Longrightarrow> agent_ok (map transfer_id (uo_transfers o1)) a"
  by (auto simp: new_UrlCopyProcess_def agent_ok_def split: prod.splits sum.splits)

lemma final_ids_panic [simp]:
  "final_ids (ag_out (panic pf o1 msg a)) = final_ids (ag_out a) @ map transfer_id (ag_todo a)" "ag_todo (panic pf o1 msg a) = []"
  by (simp_all add: panic_def Let_def comp_def)

lemma agent_ok_panic:
  assumes "agent_ok ids a" "ag_phase a \<notin> {Left, Over}" "ph \<in> {ag_phase a, Over}"
  shows "agent_ok ids ((panic pf o1 msg a)\<lparr>ag_phase := ph\<rparr>)"
  using assms by (auto simp: agent_ok_def split: agent_phase.splits)

lemma agent_ok_work:
  assumes "agent_ok ids a" "ag_phase a = Working t"
  shows "agent_ok ids (do_work pf o1 t a)"
proof -
  obtain r s where w: "work pf o1 t (start_state t (ag_world a)) = (r, s)"
    by fastforce
  show ?thesis
    using assms work_reports_nothing_final [OF w] by (simp add: agent_ok_def do_work_def w split: sum.split)
qed

lemma agent_ok_finish:
  assumes "agent_ok ids a" "ag_phase a = Finishing ps t"
  shows "agent_ok ids (finish pf o1 ps t a)"
  using assms by (cases "ag_todo a") (auto simp: agent_ok_def finish_def Let_def)

lemma agent_ok_step: "agent_step pf o1 a b \<Longrightarrow> agent_ok ids a \<Longrightarrow> agent_ok ids b"
proof (induction rule: agent_step.induct)
  case (Take a t ts)
  then show ?case by (simp add: agent_ok_def)
next
  case (Leave a)
  then show ?case by (simp add: agent_ok_def leave_def Let_def comp_def)
next
  case (Recover a msg)
  then show ?case using agent_ok_panic [of ids a Over] by simp
next
  case (Cancel a)
  then show ?case by (simp add: agent_ok_def cancel_def split: agent_phase.splits)
next
  case (Panic a ph msg)
  then show ?case using agent_ok_panic by blast
qed (simp_all add: agent_ok_work agent_ok_finish)

lemma agent_ok_steps: "(agent_step pf o1)\<^sup>*\<^sup>* a b \<Longrightarrow> agent_ok ids a \<Longrightarrow> agent_ok ids b"
  by (induction rule: rtranclp_induct) (auto intro: agent_ok_step)


subsection \<open>The process comes to an end\<close>

text \<open>\<^verbatim>\<open>run\<close> without signals, and the \<^verbatim>\<open>catch\<close> of \<^verbatim>\<open>main\<close>.\<close>

definition work_turn :: "'w platform \<Rightarrow> UrlCopyOpts \<Rightarrow> 'w agent \<Rightarrow> 'w agent" where
  "work_turn pf o1 a =
     (let b = do_work pf o1 (hd (ag_todo a)) a
      in case ag_phase b of
           Finishing ps t \<Rightarrow> finish pf o1 ps t b
         | Crashed msg \<Rightarrow> (panic pf o1 msg b)\<lparr>ag_phase := Over\<rparr>
         | _ \<Rightarrow> b)"

lemma do_work_todo [simp]: "ag_todo (do_work pf o1 t a) = ag_todo a"
  by (simp add: do_work_def split: prod.split)

lemma work_turn_shorter: "ag_todo a \<noteq> [] \<Longrightarrow> length (ag_todo (work_turn pf o1 a)) < length (ag_todo a)"
  by (auto simp: work_turn_def do_work_def finish_def Let_def split: prod.split sum.split)

function run_process :: "'w platform \<Rightarrow> UrlCopyOpts \<Rightarrow> 'w agent \<Rightarrow> 'w agent" where
  "run_process pf o1 a =
     (if ag_phase a \<noteq> Idle then a
      else if ag_todo a \<noteq> [] \<and> \<not> ag_canceled a then run_process pf o1 (work_turn pf o1 a)
      else leave pf o1 a)"
  by pat_completeness auto
termination
  by (relation "measure (\<lambda>(pf, o1, a). length (ag_todo a))") (auto simp: work_turn_shorter)

declare run_process.simps [simp del]

lemma do_work_phase:
  "(\<exists>ps t'. ag_phase (do_work pf o1 t a) = Finishing ps t') \<or> (\<exists>msg. ag_phase (do_work pf o1 t a) = Crashed msg)"
  by (auto simp: do_work_def split: prod.split sum.split)

lemma finish_phase [simp]: "ag_phase (finish pf o1 ps t a) = Idle"
  by (simp add: finish_def Let_def)

lemma do_work_take [simp]: "do_work pf o1 t (a\<lparr>ag_phase := ph\<rparr>) = do_work pf o1 t a"
  by (simp add: do_work_def split: prod.split)

lemma work_turn_steps:
  assumes "ag_phase a = Idle" "ag_todo a \<noteq> []" "\<not> ag_canceled a"
  shows "(agent_step pf o1)\<^sup>*\<^sup>* a (work_turn pf o1 a)" "ag_phase (work_turn pf o1 a) \<in> {Idle, Over}"
proof -
  define t b where "t = hd (ag_todo a)" and "b = do_work pf o1 t a"
  have "agent_step pf o1 a (a\<lparr>ag_phase := Working t\<rparr>)"
    using assms by (cases "ag_todo a") (auto simp: t_def intro: agent_step.Take)
  moreover have "agent_step pf o1 (a\<lparr>ag_phase := Working t\<rparr>) b"
    using agent_step.Work [of "a\<lparr>ag_phase := Working t\<rparr>" t] by (simp add: b_def)
  ultimately have ab: "(agent_step pf o1)\<^sup>*\<^sup>* a b"
    by simp
  have "agent_step pf o1 b (work_turn pf o1 a) \<and> ag_phase (work_turn pf o1 a) \<in> {Idle, Over}"
    using do_work_phase [of pf o1 t a]
    by (auto simp: work_turn_def b_def t_def Let_def intro!: agent_step.Recover agent_step.Finish)
  then show "(agent_step pf o1)\<^sup>*\<^sup>* a (work_turn pf o1 a)" "ag_phase (work_turn pf o1 a) \<in> {Idle, Over}"
    using ab by auto
qed

lemma run_steps:
  assumes "ag_phase a \<in> {Idle, Over}"
  shows "(agent_step pf o1)\<^sup>*\<^sup>* a (run_process pf o1 a) \<and> ag_phase (run_process pf o1 a) \<in> {Left, Over}"
  using assms
proof (induction pf o1 a rule: run_process.induct)
  case (1 pf o1 a)
  show ?case
  proof (cases "ag_phase a = Idle \<and> ag_todo a \<noteq> [] \<and> \<not> ag_canceled a")
    case True
    then have "run_process pf o1 a = run_process pf o1 (work_turn pf o1 a)"
      by (subst run_process.simps) simp
    then show ?thesis
      using 1 True work_turn_steps [of a pf o1] by (auto intro: rtranclp_trans)
  next
    case False
    then have "ag_phase a = Over \<and> run_process pf o1 a = a \<or> ag_phase a = Idle \<and> run_process pf o1 a = leave pf o1 a \<and> (ag_todo a = [] \<or> ag_canceled a)"
      using 1(2) by (subst (1 2) run_process.simps) auto
    then show ?thesis
      by (auto simp: leave_def Let_def dest: agent_step.Leave [of _ pf o1, unfolded leave_def Let_def])
  qed
qed

text \<open>
  C13: Left alone, the transfer process terminates (\<open>run_process\<close> is total, whatever the platform does), its
  course is one of the step relation, and it reports every transfer of its command line.
\<close>

theorem run_reports_all:
  assumes "new_UrlCopyProcess pf o1 w = Some a0"
  shows "ag_phase (run_process pf o1 a0) \<in> {Left, Over} \<and> (agent_step pf o1)\<^sup>*\<^sup>* a0 (run_process pf o1 a0) \<and>
    final_ids (ag_out (run_process pf o1 a0)) = map transfer_id (uo_transfers o1)"
proof -
  have "ag_phase a0 \<in> {Idle, Over}"
    using assms by (auto simp: new_UrlCopyProcess_def split: prod.splits sum.splits)
  then have r: "(agent_step pf o1)\<^sup>*\<^sup>* a0 (run_process pf o1 a0) \<and> ag_phase (run_process pf o1 a0) \<in> {Left, Over}"
    by (rule run_steps)
  then show ?thesis
    using agent_ok_steps [OF _ agent_ok_new [OF assms]] by (fastforce simp: agent_ok_def)
qed

subsection \<open>A late panic\<close>

text \<open>
  The loop that reports cancelled transfers does not clear the list. A fatal signal that comes after
  \<^verbatim>\<open>run\<close> has left and before \<^verbatim>\<open>main\<close> has reset the handlers makes \<open>panic\<close> report them a second time.
\<close>

lemma late_panic:
  assumes "ag_phase a = Idle" "ag_canceled a"
  shows "final_ids (ag_out (panic pf o1 msg (leave pf o1 a))) = final_ids (ag_out a) @ map transfer_id (ag_todo a) @ map transfer_id (ag_todo a)"
  using assms by (simp add: leave_def Let_def comp_def)

subsection \<open>An example\<close>

text \<open>A platform on which everything works: the world says whether the file has been copied.\<close>

definition demo_platform :: "bool platform" where
  "demo_platform =
     \<lparr>gf_set_param = \<lambda>_ _. None, gf_get_nbstreams = \<lambda>_. 4, gf_get_tcp_buffer_size = \<lambda>_. 0, gf_get_timeout = \<lambda>_. 3600,
      gf_set_opt = \<lambda>_ _ _ w. (None, w), gf_load_opts = \<lambda>_ w. (None, w), gf_set_user_agent = \<lambda>_ w. (None, w),
      gf_add_client_info = \<lambda>_ _ w. (None, w), gf_cred_set = \<lambda>_ _ w. (None, w),
      gf_stat = \<lambda>u w. (if u = ''mock://b'' \<and> \<not> w then Inl (ENOENT, ''No such file'') else Inr 7, w),
      gf_copy_file = \<lambda>_ _ _ _. (None, [], True), gf_release_file = \<lambda>_ _ w. (None, w), gf_checksum = \<lambda>_ _ w. (Inr ''1'', w),
      gf_getxattr = \<lambda>_ _ w. (Inr ''ONLINE'', w), gf_token_retrieve = \<lambda>_ _ _ _ w. (Inr ''token'', w), js_read = \<lambda>s. Some s,
      js_set = \<lambda>_ _ s. s, js_string = \<lambda>s. s, js_number = \<lambda>_. [], js_bool = \<lambda>_. [], js_null = [], os_lines = \<lambda>_ _. [],
      os_unlink = \<lambda>_ w. w, os_clock = \<lambda>_. 0, os_expired = \<lambda>_ _. False, os_strerror = \<lambda>_. [], os_pid = 1,
      os_gmtime = \<lambda>_. \<lparr>tm_year = 124, tm_mon = 0, tm_mday = 1, tm_hour = 0, tm_min = 0\<rparr>, os_setenv = \<lambda>_ _ w. w, os_unsetenv = \<lambda>_ w. w,
      bf_join = \<lambda>a b. a @ ''/'' @ b, bf_create_directories = \<lambda>_ w. (None, w), bf_rename = \<lambda>_ _ w. (None, w), gf_cancel = \<lambda>w. w,
      gx_status = ''user.status'', gx_status_online = ''ONLINE'', gx_status_nearline = ''NEARLINE'', gx_status_nearline_online = ''BOTH'',
      version = ''1''\<rparr>"

definition demo_transfer :: Transfer where
  "demo_transfer = new_Transfer\<lparr>tr_jobId := ''job'', tr_fileId := 1, tr_source := empty_Uri\<lparr>fullUri := ''mock://a''\<rparr>,
     tr_destination := empty_Uri\<lparr>fullUri := ''mock://b''\<rparr>\<rparr>"

definition demo_opts :: UrlCopyOpts where
  "demo_opts = new_UrlCopyOpts\<lparr>uo_transfers := [demo_transfer]\<rparr>"

definition demo_agent :: "bool agent" where
  "demo_agent = \<lparr>ag_world = False, ag_todo = [demo_transfer], ag_done = [], ag_canceled = False, ag_out = [], ag_phase = Idle\<rparr>"

lemmas demo_defs = demo_platform_def demo_opts_def new_UrlCopyOpts_def

lemma demo_new: "new_UrlCopyProcess demo_platform demo_opts False = Some demo_agent"
  by (simp add: new_UrlCopyProcess_def setupGlobalGfal2Config_def demo_defs demo_agent_def act_defs set_opt_def gfal_call_def start_state_def)

lemma demo_config:
  "\<exists>ps. setupTransferConfig demo_platform demo_opts demo_transfer s = (Inr (), s\<lparr>rs_params := ps\<rparr>) \<and>
     gp_src_token ps = gp_src_token (rs_params s) \<and> gp_dst_token ps = gp_dst_token (rs_params s)"
  by (simp add: setupTransferConfig_def demo_defs demo_transfer_def new_Transfer_def empty_Uri_def act_defs set_param_def setupTokenConfig_def
      set_checksum_def http_options_def set_client_info_def set_opt_def gfal_call_def macaroon_enabled_def starts_with_def)
    (rule exI, rule conjI, rule refl, simp)

lemma demo_run:
  assumes "\<not> rs_world s" "gp_src_token (rs_params s) = []" "gp_dst_token (rs_params s) = []"
  shows "\<exists>s'. runTransfer demo_platform demo_opts demo_transfer s = (Inr (), s') \<and> tr_error (rs_transfer s') = tr_error (rs_transfer s)"
  using assms
  by (simp add: runTransfer_def prepare_transfer_def source_size_def check_destination_def copy_transfer_def set_protocol_def sendProtocol_def
      do_copy_def release_source_def validate_size_def stat_file_def copy_file_def bearerInit_def gfal_value_def set_param_def set_transfer_def send_def
      demo_defs demo_transfer_def new_Transfer_def empty_Uri_def act_defs)

lemma demo_archive:
  "\<exists>s'. archiveLogs demo_platform demo_opts s = (Inr (), s') \<and> tr_error (rs_transfer s') = tr_error (rs_transfer s)"
  by (simp add: archiveLogs_def archive_log_def generateArchiveLogPath_def os_call_def set_transfer_def demo_defs act_defs)

lemma demo_work:
  "\<exists>s. work demo_platform demo_opts demo_transfer (start_state demo_transfer False) = (Inr (), s) \<and> tr_error (rs_transfer s) = None"
proof -
  obtain s1 where 1: "act_seq (set_process_time demo_platform (\<lambda>now1 i. (now1, snd i))) (set_logs demo_platform demo_opts) (start_state demo_transfer False) = (Inr (), s1)"
    "\<not> rs_world s1" "rs_params s1 = new_params" "tr_error (rs_transfer s1) = None"
    by (simp add: act_defs set_process_time_def set_logs_def set_transfer_def start_state_def demo_transfer_def new_Transfer_def)
  obtain ps where 2: "setupTransferConfig demo_platform demo_opts demo_transfer s1 = (Inr (), s1\<lparr>rs_params := ps\<rparr>)"
    "gp_src_token ps = []" "gp_dst_token ps = []"
    using demo_config [of s1] 1(3) by (auto simp: new_params_def)
  obtain s3 where 3: "sendTransferStart demo_platform demo_opts (s1\<lparr>rs_params := ps\<rparr>) = (Inr (), s3)"
    "\<not> rs_world s3" "rs_params s3 = ps" "tr_error (rs_transfer s3) = None"
    using 1 by (simp add: sendTransferStart_def send_def act_modify_def)
  obtain s4 where 4: "runTransfer demo_platform demo_opts demo_transfer s3 = (Inr (), s4)" "tr_error (rs_transfer s4) = None"
    using demo_run [of s3] 2 3 by auto
  obtain s5 where 5: "archiveLogs demo_platform demo_opts s4 = (Inr (), s5)" "tr_error (rs_transfer s5) = None"
    using demo_archive [of s4] 4(2) by auto
  obtain s0 where 0: "set_process_time demo_platform (\<lambda>now1 i. (now1, snd i)) (start_state demo_transfer False) = (Inr (), s0)"
      "set_logs demo_platform demo_opts s0 = (Inr (), s1)"
    using 1(1) by (auto elim: act_seqE)
  show ?thesis
    using 0 2 3 4 5 by (simp add: work_def act_seq_def act_bind_def act_catch_def set_process_time_def [of _ "\<lambda>now1 i. (fst i, now1)"] act_modify_def)
qed

text \<open>The example runs to a message FINISHED.\<close>

lemma demo_finished:
  "\<exists>a m. (agent_step demo_platform demo_opts)\<^sup>*\<^sup>* demo_agent a \<and> ag_phase a = Idle \<and> OutStatus m \<in> set (ag_out a) \<and> m_status m = Status FINISHED"
proof -
  obtain s where s: "work demo_platform demo_opts demo_transfer (start_state demo_transfer False) = (Inr (), s)" "tr_error (rs_transfer s) = None"
    using demo_work by blast
  define b where "b = do_work demo_platform demo_opts demo_transfer demo_agent"
  define a where "a = finish demo_platform demo_opts (rs_params s) (rs_transfer s) b"
  have "agent_step demo_platform demo_opts demo_agent (demo_agent\<lparr>ag_phase := Working demo_transfer\<rparr>)"
    by (rule agent_step.Take) (simp_all add: demo_agent_def)
  moreover have "agent_step demo_platform demo_opts (demo_agent\<lparr>ag_phase := Working demo_transfer\<rparr>) b"
    using agent_step.Work [of "demo_agent\<lparr>ag_phase := Working demo_transfer\<rparr>" demo_transfer] by (simp add: b_def)
  moreover have "ag_phase b = Finishing (rs_params s) (rs_transfer s)" "ag_todo b = [demo_transfer]"
    using s(1) by (simp_all add: b_def do_work_def demo_agent_def)
  moreover from this have "agent_step demo_platform demo_opts b a"
    unfolding a_def by (intro agent_step.Finish)
  ultimately have "(agent_step demo_platform demo_opts)\<^sup>*\<^sup>* demo_agent a"
    by (meson r_into_rtranclp rtranclp_trans)
  moreover have "OutStatus (completed_status demo_platform demo_opts (os_clock demo_platform (ag_world b)) (rs_transfer s)) \<in> set (ag_out a)"
    using \<open>ag_todo b = [demo_transfer]\<close> by (simp add: a_def finish_def Let_def completed_outputs_def)
  ultimately show ?thesis
    using s(2) by (intro exI conjI) (auto simp: a_def completed_status_verdict)
qed


theorem run_reports_all_witness:
  "ag_phase (run_process demo_platform demo_opts demo_agent) \<in> {Left, Over} \<and> final_ids (ag_out (run_process demo_platform demo_opts demo_agent)) = [(''job'', 1)]"
  using run_reports_all [OF demo_new] by (simp add: demo_defs transfer_id_def file_id_of_def demo_transfer_def)

end
