(* ===== verification/VerifiedCopy.thy ===== *)
theory VerifiedCopy
  imports TransferAgent
begin

section \<open>What a transfer process has checked\<close>

text \<open>
  What is true of the outside world when a transfer process reports FINISHED, and when it refuses a
  transfer because its destination exists. The order of the calls to gfal2 is the order of the states
  of the outside world, by the relation \<open>reaches\<close>: the closure of what the process can ask for. The
  laws of the actions come from the interpretations \<open>world\<close>, \<open>copied\<close> and \<open>runs\<close> of theory TransferAgent.
\<close>

subsection \<open>A finished transfer has been checked\<close>

abbreviation reaches :: "'w platform \<Rightarrow> 'w \<Rightarrow> 'w \<Rightarrow> bool" where
  "reaches pf \<equiv> (platform_move pf)\<^sup>*\<^sup>*"

text \<open>The destination was looked for between \<open>w\<close> and \<open>w'\<close> and was not there.\<close>

definition absent :: "'w platform \<Rightarrow> string \<Rightarrow> 'w \<Rightarrow> 'w \<Rightarrow> bool" where
  "absent pf dst w w' \<longleftrightarrow>
     (\<exists>w0 w1 msg. reaches pf w w0 \<and> reaches pf w1 w' \<and>
        (gf_stat pf dst w0 = (Inl (ENOENT, msg), w1) \<or> (\<exists>u c. gf_cred_set pf u c w0 = (Some (ENOENT, msg), w1))))"

text \<open>
  Between \<open>w\<close> and \<open>w'\<close> the source was seen with size \<open>n\<close>, the destination was not there unless it may be
  overwritten, gfal2 copied without an error, and the destination was then seen with the same size.
\<close>

definition verified_copy :: "'w platform \<Rightarrow> UrlCopyOpts \<Rightarrow> Transfer \<Rightarrow> 64 word \<Rightarrow> 'w \<Rightarrow> 'w \<Rightarrow> bool" where
  "verified_copy pf o1 t n w w' \<longleftrightarrow>
     (\<exists>w1 w1' w2 w2' w3 w3' ps calls.
        reaches pf w w1 \<and> gf_stat pf (fullUri (tr_source t)) w1 = (Inr n, w1') \<and> reaches pf w1' w2 \<and>
        (\<not> uo_overwrite o1 \<longrightarrow> absent pf (fullUri (tr_destination t)) w1' w2) \<and>
        ReplaceExistingFile (uo_overwrite o1) \<in> set (gp_settings ps) \<and>
        (tr_checksumAlgorithm t \<noteq> [] \<longrightarrow>
           ChecksumSetting (tr_checksumMode t) (tr_checksumAlgorithm t) (tr_checksumValue t) \<in> set (gp_settings ps)) \<and>
        gf_copy_file pf ps (fullUri (tr_source t)) (fullUri (tr_destination t)) w2 = (None, calls, w2') \<and> reaches pf w2' w3 \<and>
        gf_stat pf (fullUri (tr_destination t)) w3 = (Inr n, w3') \<and> reaches pf w3' w')"

lemma verified_copyI:
  assumes "reaches pf w w1" "gf_stat pf (fullUri (tr_source t)) w1 = (Inr n, w1')" "reaches pf w1' w2"
    and "\<not> uo_overwrite o1 \<Longrightarrow> absent pf (fullUri (tr_destination t)) w1' w2"
    and "ReplaceExistingFile (uo_overwrite o1) \<in> set (gp_settings ps)"
    and "tr_checksumAlgorithm t \<noteq> [] \<Longrightarrow>
      ChecksumSetting (tr_checksumMode t) (tr_checksumAlgorithm t) (tr_checksumValue t) \<in> set (gp_settings ps)"
    and "gf_copy_file pf ps (fullUri (tr_source t)) (fullUri (tr_destination t)) w2 = (None, calls, w2')"
    and "reaches pf w2' w3" "gf_stat pf (fullUri (tr_destination t)) w3 = (Inr n, w3')" "reaches pf w3' w'"
  shows "verified_copy pf o1 t n w w'"
  using assms unfolding verified_copy_def by blast

lemma verified_copy_wider:
  "verified_copy pf o1 t n w w' \<Longrightarrow> reaches pf v w \<Longrightarrow> reaches pf w' v' \<Longrightarrow> verified_copy pf o1 t n v v'"
  unfolding verified_copy_def by (meson rtranclp_trans)

lemma keepsD: "keeps R a \<Longrightarrow> a s = (r, s') \<Longrightarrow> R s s'"
  unfolding keeps_def by (metis snd_conv)

lemma movesD: "keeps (moves pf) a \<Longrightarrow> a s = (r, s') \<Longrightarrow> reaches pf (rs_world s) (rs_world s')"
  by (auto simp: moves_def dest: keepsD)

lemma growsD:
  assumes "keeps grows a" "a s = (r, s')"
  shows "set (gp_settings (rs_params s)) \<subseteq> set (gp_settings (rs_params s'))" "tr_error (rs_transfer s') = tr_error (rs_transfer s)"
  using keepsD [OF assms] by (simp_all add: grows_def)

lemma stat_ok:
  assumes "stat_file pf u b s = (Inr n, s')"
  shows "\<exists>w1. reaches pf (rs_world s) w1 \<and> gf_stat pf u w1 = (Inr n, rs_world s')"
  using assms unfolding stat_file_def
  by (auto elim!: act_seqE simp: gfal_value_def dest!: movesD [OF world.keeps_bearer] split: prod.splits sum.splits) blast

lemma bearer_fails:
  assumes "bearerInit pf x y s = (Inl e, s')"
  shows "\<exists>w1 u c code1 msg. reaches pf (rs_world s) w1 \<and> e = Gfal2Exception code1 msg \<and> gf_cred_set pf u c w1 = (Some (code1, msg), rs_world s')"
proof -
  have call: "reaches pf w (rs_world s1)" if "gfal_call (gf_cred_set pf u c) s0 = (r, s1)" "w = rs_world s0" for u c s0 r s1 w
    using movesD [OF world.keeps_gfal_call [OF platform_move.intros(4)] that(1)] that(2) by simp
  have fails: "\<exists>code1 msg. e = Gfal2Exception code1 msg \<and> gf_cred_set pf u c (rs_world s0) = (Some (code1, msg), rs_world s1)"
    if "gfal_call (gf_cred_set pf u c) s0 = (Inl e, s1)" for u c s0 e s1
    using that by (auto simp: gfal_call_def split: prod.splits option.splits)
  show ?thesis
    using assms call
    by (auto simp: bearerInit_def act_defs split: prod.splits sum.splits if_splits dest!: fails) blast+
qed

lemma stat_fails:
  assumes "stat_file pf u b s = (Inl e, s')"
  shows "\<exists>w1 code1 msg. reaches pf (rs_world s) w1 \<and> e = Gfal2Exception code1 msg \<and>
    (gf_stat pf u w1 = (Inl (code1, msg), rs_world s') \<or> (\<exists>x c. gf_cred_set pf x c w1 = (Some (code1, msg), rs_world s')))"
proof -
  consider (bearer) x y where "bearerInit pf x y s = (Inl e, s')"
    | (stat) x y z s1 where "bearerInit pf x y s = (Inr z, s1)" "gfal_value (gf_stat pf u) s1 = (Inl e, s')"
    using assms by (auto simp: stat_file_def act_seq_def act_bind_def split: prod.splits sum.splits)
  then show ?thesis
  proof cases
    case bearer
    then show ?thesis using bearer_fails by blast
  next
    case stat
    have "reaches pf (rs_world s) (rs_world s1)"
      using stat(1) by (rule movesD [OF world.keeps_bearer])
    then show ?thesis
      using stat(2) by (auto simp: gfal_value_def split: prod.splits sum.splits)
  qed
qed

lemma copy_ok:
  assumes "copy_file pf u d s = (Inr (), s')"
  shows "\<exists>w1 ps calls. reaches pf (rs_world s) w1 \<and> set (gp_settings (rs_params s)) \<subseteq> set (gp_settings ps) \<and>
    gf_copy_file pf ps u d w1 = (None, calls, rs_world s')"
proof -
  obtain z s1 where b: "bearerInit pf u d s = (Inr z, s1)"
    and c: "(case gf_copy_file pf (rs_params s1) u d (rs_world s1) of (err, calls, w) \<Rightarrow>
      (case err of None \<Rightarrow> Inr () | Some (code1, msg) \<Rightarrow> Inl (Gfal2Exception code1 msg),
       s1\<lparr>rs_world := w, rs_transfer := fold (call_back (gp_settings (rs_params s1))) calls (rs_transfer s1)\<rparr>)) = (Inr (), s')"
    using assms unfolding copy_file_def by (rule act_seqE)
  have "gf_copy_file pf (rs_params s1) u d (rs_world s1) = (None, fst (snd (gf_copy_file pf (rs_params s1) u d (rs_world s1))), rs_world s')"
    using c by (auto split: prod.splits option.splits)
  then show ?thesis
    using movesD [OF world.keeps_bearer b] keepsD [OF runs.keeps_bearer b] unfolding grows_def by blast
qed

lemma source_size_ok:
  assumes "source_size pf t s = (Inr (), s')"
  shows "\<exists>w1. reaches pf (rs_world s) w1 \<and> gf_stat pf (fullUri (tr_source t)) w1 = (Inr (tr_fileSize (rs_transfer s')), rs_world s')"
  using assms unfolding source_size_def
  by (elim act_catchE act_bindE)
    (auto simp: set_transfer_def act_modify_def rethrow_as_def throw_error_def act_throw_def dest!: stat_ok split: failure.splits)

lemma report_never_fails: "fst (act_if b (destination_report pf t) s) = Inr ()"
  by (auto simp: act_if_def destination_report_def act_catch_def act_return_def split: prod.split sum.split)

lemma check_destination_ok:
  assumes "check_destination pf o1 t s = (Inr (), s')"
  shows "absent pf (fullUri (tr_destination t)) (rs_world s) (rs_world s')"
proof -
  let ?stat = "stat_file pf (fullUri (tr_destination t)) False"
  show ?thesis
    using assms unfolding check_destination_def
  proof (cases rule: act_catchE)
    case ok
    then show ?thesis by (elim act_seqE) (simp add: throw_error_def act_throw_def)
  next
    case (caught e s1)
    then obtain msg where "e = Gfal2Exception ENOENT msg" "s' = s1"
      by (auto simp: throw_error_def act_throw_def act_return_def split: failure.splits if_splits)
    moreover have "?stat s = (Inl e, s1)"
      using caught(1) calculation(1)
      by (auto simp: act_seq_def act_bind_def throw_error_def act_throw_def split: prod.splits sum.splits)
        (metis report_never_fails Inr_not_Inl fst_conv)
    ultimately show ?thesis
      using stat_fails unfolding absent_def by blast
  qed
qed

lemma do_copy_ok: "do_copy pf t tmo s = (Inr (), s') \<Longrightarrow> copy_file pf (fullUri (tr_source t)) (fullUri (tr_destination t)) s = (Inr (), s')"
  unfolding do_copy_def by (erule act_catchE) (auto simp: throw_error_def act_throw_def act_bind_def act_gets_def split: failure.splits)

lemma copy_transfer_ok:
  assumes "copy_transfer pf o1 t s = (Inr (), s')"
  shows "\<exists>w1 ps calls. reaches pf (rs_world s) w1 \<and> set (gp_settings (rs_params s)) \<subseteq> set (gp_settings ps) \<and>
    gf_copy_file pf ps (fullUri (tr_source t)) (fullUri (tr_destination t)) w1 = (None, calls, rs_world s')"
proof -
  define tmo where "tmo = transfer_timeout o1 (rs_transfer s)"
  define before where
    "before = act_seq (act_seq (set_protocol pf o1 tmo) (sendProtocol pf)) (act_seq (set_param pf EventCallback) (set_param pf MonitorCallback))"
  have "\<exists>s1. before s = (Inr (), s1) \<and> do_copy pf t tmo s1 = (Inr (), s')"
    using assms
    by (auto simp: copy_transfer_def tmo_def before_def act_bind_def act_seq_def act_gets_def split: prod.splits sum.splits)
  then obtain s1 where b: "before s = (Inr (), s1)" and c: "do_copy pf t tmo s1 = (Inr (), s')"
    by blast
  have k: "keeps (moves pf) before" "keeps grows before"
    unfolding before_def
    by (rule world.keeps_protocol runs.keeps_protocol world.keeps_set_param runs.keeps_set_param world.keeps_seq runs.keeps_seq)+
  have "reaches pf (rs_world s) (rs_world s1)"
    using k(1) b by (rule movesD)
  moreover have "set (gp_settings (rs_params s)) \<subseteq> set (gp_settings (rs_params s1))"
    using k(2) b by (rule growsD)
  ultimately show ?thesis
    using copy_ok [OF do_copy_ok [OF c]] by (meson rtranclp_trans subset_trans)
qed

lemma validate_size_ok:
  assumes "validate_size pf t s = (Inr (), s')"
  shows "\<exists>w1. reaches pf (rs_world s) w1 \<and> gf_stat pf (fullUri (tr_destination t)) w1 = (Inr (tr_fileSize (rs_transfer s)), rs_world s') \<and>
    tr_fileSize (rs_transfer s') = tr_fileSize (rs_transfer s)"
proof -
  obtain n s1 where st: "stat_file pf (fullUri (tr_destination t)) False s = (Inr n, s1)"
    and r: "s' = s1 \<and> n = tr_fileSize (rs_transfer s1)"
    using assms unfolding validate_size_def
    by (elim act_bindE act_catchE)
      (auto simp: act_gets_def act_if_def act_return_def throw_error_def rethrow_as_def act_throw_def split: failure.splits if_splits)
  have "tr_fileSize (rs_transfer s1) = tr_fileSize (rs_transfer s)"
    using st by (rule keepsD [OF copied.keeps_stat])
  then show ?thesis
    using stat_ok [OF st] r by simp
qed

lemma runTransfer_ok:
  assumes "runTransfer pf o1 t s = (Inr (), s')" "\<not> uo_strictCopy o1"
    and "ReplaceExistingFile (uo_overwrite o1) \<in> set (gp_settings (rs_params s))"
    and "tr_checksumAlgorithm t \<noteq> [] \<Longrightarrow>
      ChecksumSetting (tr_checksumMode t) (tr_checksumAlgorithm t) (tr_checksumValue t) \<in> set (gp_settings (rs_params s))"
  shows "verified_copy pf o1 t (tr_fileSize (rs_transfer s')) (rs_world s) (rs_world s')"
proof -
  obtain s1 s2 s3 s4 where
        1: "source_size pf t s = (Inr (), s1)" and 2: "act_if (\<not> uo_overwrite o1) (check_destination pf o1 t) s1 = (Inr (), s2)"
    and 3: "copy_transfer pf o1 t s2 = (Inr (), s3)" and 4: "release_source pf o1 t s3 = (Inr (), s4)"
    and 5: "validate_size pf t s4 = (Inr (), s')"
    using assms(1,2) unfolding runTransfer_def prepare_transfer_def act_if_def by (auto elim!: act_seqE)
  note size1 = keepsD [OF copied.keeps_if [OF copied.keeps_check_destination] 2] keepsD [OF copied.keeps_copy_transfer 3]
    keepsD [OF copied.keeps_release 4]
  have "keeps grows
      (prepare_transfer pf o1 t)" "prepare_transfer pf o1 t s = (Inr (), s2)"
    using runs.keeps_prepare [of pf o1 t] 1 2 assms(2) by (simp_all add: prepare_transfer_def act_seq_def act_bind_def)
  then have settings: "set (gp_settings (rs_params s)) \<subseteq> set (gp_settings (rs_params s2))"
    by (rule growsD)
  have gone: "\<not> uo_overwrite o1 \<Longrightarrow> absent pf (fullUri (tr_destination t)) (rs_world s1) (rs_world s2)"
    using 2 by (auto simp: act_if_def dest: check_destination_ok)
  obtain w1 where w1: "reaches pf (rs_world s) w1" "gf_stat pf (fullUri (tr_source t)) w1 = (Inr (tr_fileSize (rs_transfer s1)), rs_world s1)"
    using source_size_ok [OF 1] by blast
  obtain w2 ps calls where w2: "reaches pf (rs_world s2) w2" "set (gp_settings (rs_params s2)) \<subseteq> set (gp_settings ps)"
    "gf_copy_file pf ps (fullUri (tr_source t)) (fullUri (tr_destination t)) w2 = (None, calls, rs_world s3)"
    using copy_transfer_ok [OF 3] by blast
  obtain w3 where w3: "reaches pf (rs_world s4) w3" "gf_stat pf (fullUri (tr_destination t)) w3 = (Inr (tr_fileSize (rs_transfer s4)), rs_world s')"
    "tr_fileSize (rs_transfer s') = tr_fileSize (rs_transfer s4)"
    using validate_size_ok [OF 5] by blast
  have "reaches pf (rs_world s1) w2"
    using movesD [OF world.keeps_if [OF world.keeps_check_destination] 2] w2(1) by (rule rtranclp_trans)
  moreover have "reaches pf (rs_world s3) w3"
    using movesD [OF world.keeps_release 4] w3(1) by (rule rtranclp_trans)
  moreover have "\<not> uo_overwrite o1 \<Longrightarrow> absent pf (fullUri (tr_destination t)) (rs_world s1) w2"
    using gone w2(1) unfolding absent_def by (meson rtranclp_trans)
  moreover have "tr_fileSize (rs_transfer s1) = tr_fileSize (rs_transfer s')" "tr_fileSize (rs_transfer s4) = tr_fileSize (rs_transfer s')"
    using size1 w3(3) by simp_all
  ultimately show ?thesis
    using verified_copyI [OF w1(1), of t "tr_fileSize (rs_transfer s')" "rs_world s1" w2 o1 ps calls "rs_world s3" w3 "rs_world s'" "rs_world s'"]
      w1(2) w2(2,3) w3(2) settings assms(3,4) by (metis rtranclp.rtrancl_refl subsetD)
qed

lemma set_param_ok: "set_param pf x s = (Inr (), s') \<Longrightarrow> x \<in> set (gp_settings (rs_params s'))"
  by (auto simp: set_param_def split: option.splits)

lemma set_checksum_ok:
  assumes "set_checksum pf t s = (Inr (), s')" "tr_checksumAlgorithm t \<noteq> []"
  shows "ChecksumSetting (tr_checksumMode t) (tr_checksumAlgorithm t) (tr_checksumValue t) \<in> set (gp_settings (rs_params s'))"
  using assms unfolding set_checksum_def
  by (auto simp: act_if_def throw_error_def act_throw_def elim!: act_catchE dest: set_param_ok split: failure.splits Checksum_mode.splits)

lemma setupTransferConfig_ok:
  assumes "setupTransferConfig pf o1 t s = (Inr (), s')"
  shows "ReplaceExistingFile (uo_overwrite o1) \<in> set (gp_settings (rs_params s'))"
    and "tr_checksumAlgorithm t \<noteq> [] \<Longrightarrow>
      ChecksumSetting (tr_checksumMode t) (tr_checksumAlgorithm t) (tr_checksumValue t) \<in> set (gp_settings (rs_params s'))"
proof -
  define tail2 where "tail2 = act_seq (http_options pf o1 t) (set_client_info pf o1 t)"
  define tail1 where "tail1 =
    act_seq (set_param pf (ProxyDelegation (\<not> uo_noDelegation o1)))
    (act_seq (set_param pf (LocalTransferPerm (\<not> uo_noStreaming o1)))
    (act_seq (act_if (tr_scitag t > 0) (set_param pf (SciTag (tr_scitag t))))
    (act_seq (act_if (tr_transferMetadata t \<noteq> []) (set_param pf (TransferMetadata (tr_transferMetadata t))))
    (act_seq (setupTokenConfig pf o1 t)
    (act_seq (act_if (tr_sourceTokenDescription t \<noteq> []) (set_param pf (SourceSpacetoken (tr_sourceTokenDescription t))))
    (act_seq (act_if (tr_destTokenDescription t \<noteq> []) (set_param pf (DestSpacetoken (tr_destTokenDescription t))))
    (act_seq (set_checksum pf t) tail2)))))))"
  have k2: "keeps grows tail2"
    unfolding tail2_def by (rule runs.keeps_http)
  have k1: "keeps grows tail1"
    unfolding tail1_def by (intro runs.keeps_basic runs.keeps_token_config runs.keeps_checksum k2)
  obtain s0 s1 where 1: "set_param pf (ReplaceExistingFile (uo_overwrite o1)) s0 = (Inr (), s1)" and t1: "tail1 s1 = (Inr (), s')"
    using assms unfolding setupTransferConfig_def tail2_def [symmetric] tail1_def [symmetric] by (auto elim!: act_seqE)
  obtain s2 s3 where 3: "set_checksum pf t s2 = (Inr (), s3)" and t2: "tail2 s3 = (Inr (), s')"
    using t1 unfolding tail1_def by (auto elim!: act_seqE)
  have 2: "grows s1 s'" and 4: "grows s3 s'"
    using keepsD [OF k1 t1] keepsD [OF k2 t2] by auto
  show "ReplaceExistingFile (uo_overwrite o1) \<in> set (gp_settings (rs_params s'))"
    using set_param_ok [OF 1] 2 by (auto simp: grows_def)
  show "ChecksumSetting (tr_checksumMode t) (tr_checksumAlgorithm t) (tr_checksumValue t) \<in> set (gp_settings (rs_params s'))"
    if "tr_checksumAlgorithm t \<noteq> []"
    using set_checksum_ok [OF 3 that] 4 by (auto simp: grows_def)
qed

lemma work_ok:
  assumes "work pf o1 t (start_state t w) = (Inr (), s)" "tr_error (rs_transfer s) = None" "\<not> uo_strictCopy o1"
  shows "verified_copy pf o1 t (tr_fileSize (rs_transfer s)) w (rs_world s)"
proof -
  obtain s1 s2 s3 s4 s5 where
        1: "act_seq (set_process_time pf (\<lambda>now1 i. (now1, snd i))) (set_logs pf o1) (start_state t w) = (Inr (), s1)"
    and 2: "act_catch (setupTransferConfig pf o1 t) (\<lambda>e. case e of UrlCopyException err \<Rightarrow> set_error err | _ \<Rightarrow> act_throw e) s1 = (Inr (), s2)"
    and 3: "sendTransferStart pf o1 s2 = (Inr (), s3)"
    and 4: "act_catch (runTransfer pf o1 t) (\<lambda>e. case e of UrlCopyException err \<Rightarrow> set_error err
              | _ \<Rightarrow> set_error (new_UrlCopyError ''GENERAL_FAILURE'' ''TRANSFER_SERVICE'' EINVAL (what e))) s3 = (Inr (), s4)"
    and 5: "act_seq (archiveLogs pf o1) (set_process_time pf (\<lambda>now1 i. (fst i, now1))) s4 = (Inr (), s)"
    using assms(1) unfolding work_def by (auto simp: act_seq_def act_bind_def split: prod.splits sum.splits)
  have errors: "tr_error (rs_transfer s3) = tr_error (rs_transfer s2)" "tr_error (rs_transfer s) = tr_error (rs_transfer s4)"
    using growsD(2) [OF runs.keeps_start 3] growsD(2) [OF runs.keeps_seq [OF runs.keeps_archive runs.keeps_process_time] 5] by auto
  have r: "runTransfer pf o1 t s3 = (Inr (), s4)"
    using 4 errors assms(2)
    by (elim act_catchE) (auto simp: set_error_def set_transfer_def act_modify_def split: failure.splits)
  then have "tr_error (rs_transfer s2) = None"
    using errors assms(2) growsD(2) [OF runs.keeps_runTransfer r] by simp
  then have c: "setupTransferConfig pf o1 t s1 = (Inr (), s2)"
    using 2 by (elim act_catchE) (auto simp: set_error_def set_transfer_def act_modify_def act_throw_def split: failure.splits)
  have settings: "set (gp_settings (rs_params s2)) \<subseteq> set (gp_settings (rs_params s3))"
    using growsD(1) [OF runs.keeps_start 3] .
  have "reaches pf w (rs_world s1)"
    using movesD [OF world.keeps_seq [OF world.keeps_process_time world.keeps_logs] 1] by (simp add: start_state_def)
  then have "reaches pf w (rs_world s3)"
    using movesD [OF world.keeps_transfer_config c] movesD [OF world.keeps_start 3] by (meson rtranclp_trans)
  moreover have "reaches pf (rs_world s4) (rs_world s)"
    using movesD [OF world.keeps_seq [OF world.keeps_archive world.keeps_process_time] 5] .
  moreover have "verified_copy pf o1 t (tr_fileSize (rs_transfer s4)) (rs_world s3) (rs_world s4)"
    using runTransfer_ok [OF r assms(3)] setupTransferConfig_ok [OF c] settings by blast
  moreover have "tr_fileSize (rs_transfer s) = tr_fileSize (rs_transfer s4)"
    using keepsD [OF copied.keeps_seq [OF copied.keeps_archive copied.keeps_process_time] 5] .
  ultimately show ?thesis
    using verified_copy_wider by metis
qed

text \<open>The transfer a message FINISHED is about, and what was checked for it.\<close>

definition justified :: "'w platform \<Rightarrow> UrlCopyOpts \<Rightarrow> 'w \<Rightarrow> 'w \<Rightarrow> Message \<Rightarrow> bool" where
  "justified pf o1 w0 w m \<longleftrightarrow>
     (\<exists>t n. t \<in> set (uo_transfers o1) \<and> transfer_id t = (m_job_id m, m_file_id m) \<and> m_filesize m = uint n \<and> verified_copy pf o1 t n w0 w)"

definition finished_messages :: "agent_output list \<Rightarrow> Message set" where
  "finished_messages xs = {m. OutStatus m \<in> set xs \<and> m_status m = Status FINISHED}"

definition agent_proven :: "'w platform \<Rightarrow> UrlCopyOpts \<Rightarrow> 'w \<Rightarrow> 'w agent \<Rightarrow> bool" where
  "agent_proven pf o1 w0 a \<longleftrightarrow>
     reaches pf w0 (ag_world a) \<and> (ag_phase a \<notin> {Left, Over} \<longrightarrow> set (ag_todo a) \<subseteq> set (uo_transfers o1)) \<and>
     (\<forall>m \<in> finished_messages (ag_out a). justified pf o1 w0 (ag_world a) m) \<and>
     (case ag_phase a of
        Working t \<Rightarrow> t \<in> set (uo_transfers o1)
      | Finishing ps t' \<Rightarrow>
          \<exists>t \<in> set (uo_transfers o1). transfer_id t = transfer_id t' \<and>
            (tr_error t' = None \<longrightarrow> verified_copy pf o1 t (tr_fileSize t') w0 (ag_world a))
      | _ \<Rightarrow> True)"

lemma finished_append [simp]: "finished_messages (xs @ ys) = finished_messages xs \<union> finished_messages ys"
  by (auto simp: finished_messages_def)

lemma finished_none: "final_ids xs = [] \<Longrightarrow> finished_messages xs = {}"
  by (induction xs) (auto simp: finished_messages_def final_of_def split: if_splits)

lemma finished_completed:
  "m \<in> finished_messages (completed_outputs pf o1 ps w t) \<Longrightarrow>
     tr_error t = None \<and> (m_job_id m, m_file_id m) = transfer_id t \<and> m_filesize m = uint (tr_fileSize t)"
  by (auto simp: finished_messages_def completed_outputs_def log_output_def transfer_id_def completed_status_verdict
      completed_status_def status_message_def Let_def split: option.splits if_splits)

lemma finished_reports: "finished_messages (final_reports pf o1 w (map (with_error err) ts)) = {}"
proof -
  have "finished_messages (concat (map (completed_outputs pf o1 new_params w) (map (with_error err) ts))) = {}"
    by (induction ts) (auto simp: finished_messages_def [of "[]"] with_error_def dest: finished_completed)
  then show ?thesis by (simp add: final_reports_def)
qed

lemma justified_wider: "justified pf o1 w0 w m \<Longrightarrow> reaches pf w w' \<Longrightarrow> justified pf o1 w0 w' m"
  unfolding justified_def using verified_copy_wider by (metis rtranclp.rtrancl_refl)

lemma agent_proven_work:
  assumes "agent_proven pf o1 w0 a" "ag_phase a = Working t" "\<not> uo_strictCopy o1"
  shows "agent_proven pf o1 w0 (do_work pf o1 t a)"
proof -
  obtain r s where w: "work pf o1 t (start_state t (ag_world a)) = (r, s)"
    by fastforce
  have "reaches pf (ag_world a) (rs_world s)"
    using movesD [OF world.keeps_work w] by (simp add: start_state_def)
  moreover have "finished_messages (rs_out s) = {}" "transfer_id (rs_transfer s) = transfer_id t"
    using work_reports_nothing_final [OF w] finished_none by auto
  moreover have "tr_error (rs_transfer s) = None \<Longrightarrow> r = Inr () \<Longrightarrow> verified_copy pf o1 t (tr_fileSize (rs_transfer s)) (ag_world a) (rs_world s)"
    using work_ok [of pf o1 t "ag_world a" s] w assms(3) by simp
  ultimately show ?thesis
    using assms(1,2) justified_wider verified_copy_wider
    by (fastforce simp: agent_proven_def do_work_def w split: sum.split)
qed

lemma agent_proven_finish:
  assumes "agent_proven pf o1 w0 a" "ag_phase a = Finishing ps t'"
  shows "agent_proven pf o1 w0 (finish pf o1 ps t' a)"
proof -
  have "justified pf o1 w0 (ag_world a) m" if "m \<in> finished_messages (completed_outputs pf o1 ps (ag_world a) t')" for m
    using finished_completed [OF that] assms unfolding agent_proven_def justified_def by fastforce
  then show ?thesis
    using assms by (auto simp: agent_proven_def finish_def Let_def dest: list.set_sel(2))
qed

lemma agent_proven_cancel:
  assumes "agent_proven pf o1 w0 a"
  shows "agent_proven pf o1 w0 (cancel pf a)"
proof -
  have m: "reaches pf (ag_world a) (gf_cancel pf (ag_world a))"
    using platform_move.intros(14) by (rule r_into_rtranclp)
  have "reaches pf w0 (gf_cancel pf (ag_world a))"
    using assms m unfolding agent_proven_def by (metis rtranclp_trans)
  moreover have "justified pf o1 w0 (gf_cancel pf (ag_world a)) x" if "justified pf o1 w0 (ag_world a) x" for x
    using that m by (rule justified_wider)
  moreover have "verified_copy pf o1 t n w0 (gf_cancel pf (ag_world a))" if "verified_copy pf o1 t n w0 (ag_world a)" for t n
    using that rtranclp.rtrancl_refl m by (rule verified_copy_wider)
  ultimately show ?thesis
    using assms by (cases "ag_phase a") (auto simp: agent_proven_def cancel_def)
qed

lemma agent_proven_step:
  "agent_step pf o1 a b \<Longrightarrow> \<not> uo_strictCopy o1 \<Longrightarrow> agent_proven pf o1 w0 a \<Longrightarrow> agent_proven pf o1 w0 b"
proof (induction rule: agent_step.induct)
  case (Work a t)
  then show ?case by (simp add: agent_proven_work)
next
  case (Finish a ps t)
  then show ?case by (simp add: agent_proven_finish)
next
  case (Cancel a)
  then show ?case by (simp add: agent_proven_cancel)
qed (auto simp: agent_proven_def leave_def panic_def Let_def finished_reports split: agent_phase.splits)

lemma agent_proven_steps:
  "(agent_step pf o1)\<^sup>*\<^sup>* a b \<Longrightarrow> \<not> uo_strictCopy o1 \<Longrightarrow> agent_proven pf o1 w0 a \<Longrightarrow> agent_proven pf o1 w0 b"
  by (induction rule: rtranclp_induct) (auto intro: agent_proven_step)

text \<open>
  C5: A status message FINISHED is never sent without proof: it names a transfer of the command line
  for which, in this order, the source was seen with the reported size, the destination was seen not
  to exist (unless it may be overwritten), gfal2 was told about overwriting and the checksum and
  copied without an error, and the destination was seen with the same size as the source. (A strict
  copy skips these checks on demand.)
\<close>

theorem finished_is_verified:
  assumes "new_UrlCopyProcess pf o1 w = Some a0" "(agent_step pf o1)\<^sup>*\<^sup>* a0 a" "\<not> uo_strictCopy o1"
    and "OutStatus m \<in> set (ag_out a)" "m_status m = Status FINISHED"
  shows "\<exists>t n. t \<in> set (uo_transfers o1) \<and> transfer_id t = (m_job_id m, m_file_id m) \<and> m_filesize m = uint n \<and>
    verified_copy pf o1 t n (ag_world a0) (ag_world a)"
proof -
  have "agent_proven pf o1 (ag_world a0) a0"
    using assms(1) by (auto simp: new_UrlCopyProcess_def agent_proven_def finished_messages_def split: prod.splits sum.splits)
  then have "agent_proven pf o1 (ag_world a0) a"
    using agent_proven_steps [OF assms(2,3)] by blast
  then show ?thesis
    using assms(4,5) by (auto simp: agent_proven_def justified_def finished_messages_def)
qed

theorem finished_is_verified_witness:
  "\<exists>a m. (agent_step demo_platform demo_opts)\<^sup>*\<^sup>* demo_agent a \<and> m_status m = Status FINISHED \<and> OutStatus m \<in> set (ag_out a) \<and>
     (\<exists>n. m_filesize m = uint n \<and> verified_copy demo_platform demo_opts demo_transfer n (ag_world demo_agent) (ag_world a))"
proof -
  obtain a m where am: "(agent_step demo_platform demo_opts)\<^sup>*\<^sup>* demo_agent a" "OutStatus m \<in> set (ag_out a)" "m_status m = Status FINISHED"
    using demo_finished by blast
  have "\<not> uo_strictCopy demo_opts" "set (uo_transfers demo_opts) = {demo_transfer}"
    by (simp_all add: demo_defs)
  then show ?thesis
    using finished_is_verified [OF demo_new am(1) _ am(2,3)] am by auto
qed

subsection \<open>An existing destination is not touched\<close>

lemma prepare_without_copy: "prepare_transfer (pf\<lparr>gf_copy_file := f\<rparr>) o1 t = prepare_transfer pf o1 t"
proof -
  have stat: "stat_file (pf\<lparr>gf_copy_file := f\<rparr>) = stat_file pf"
    by (simp add: fun_eq_iff stat_file_def bearerInit_def)
  have "file_locality (pf\<lparr>gf_copy_file := f\<rparr>) = file_locality pf" "toJSON (pf\<lparr>gf_copy_file := f\<rparr>) = toJSON pf"
    "appendDestFileToFileMetadata (pf\<lparr>gf_copy_file := f\<rparr>) = appendDestFileToFileMetadata pf"
    by (simp_all add: fun_eq_iff file_locality_def toJSON_def appendDestFileToFileMetadata_def Let_def split: option.split)
  then have "destination_report (pf\<lparr>gf_copy_file := f\<rparr>) t = destination_report pf t"
    by (simp add: destination_report_def createDestFileReport_def stat)
  then show ?thesis
    by (simp add: prepare_transfer_def source_size_def check_destination_def stat)
qed

lemma check_destination_exists:
  assumes "stat_file pf (fullUri (tr_destination t)) False s = (Inr n, s1)"
  shows "\<exists>s2. check_destination pf o1 t s = (Inl (UrlCopyException (new_UrlCopyError ''DESTINATION'' ''TRANSFER_PREPARATION'' EEXIST exists_reason)), s2)"
proof -
  obtain s2 where "act_if (uo_dstFileReport o1) (destination_report pf t) s1 = (Inr (), s2)"
    using report_never_fails [of "uo_dstFileReport o1" pf t s1] by (metis prod.collapse)
  then show ?thesis
    using assms by (simp add: check_destination_def act_catch_def act_seq_def act_bind_def throw_error_def act_throw_def)
qed

text \<open>
  C14: When the destination exists, may not be overwritten and the copy is not strict, \<^verbatim>\<open>runTransfer\<close>
  ends with EEXIST, and it never calls the copy function of gfal2: whatever that function
  does, the outcome and the state of the outside world are the same.
\<close>

theorem existing_destination_refused:
  assumes "\<not> uo_strictCopy o1" "\<not> uo_overwrite o1"
    and "source_size pf t s = (Inr (), s1)" "stat_file pf (fullUri (tr_destination t)) False s1 = (Inr n, s2)"
  shows "fst (runTransfer pf o1 t s) = Inl (UrlCopyException (new_UrlCopyError ''DESTINATION'' ''TRANSFER_PREPARATION'' EEXIST exists_reason)) \<and>
    runTransfer (pf\<lparr>gf_copy_file := f\<rparr>) o1 t s = runTransfer pf o1 t s"
proof -
  obtain s3 where "prepare_transfer pf o1 t s = (Inl (UrlCopyException (new_UrlCopyError ''DESTINATION'' ''TRANSFER_PREPARATION'' EEXIST exists_reason)), s3)"
    using check_destination_exists [OF assms(4), of o1] assms(1-3)
    by (auto simp: prepare_transfer_def act_if_def act_seq_def act_bind_def)
  then show ?thesis
    by (simp add: runTransfer_def prepare_without_copy act_seq_def act_bind_def)
qed

theorem existing_destination_refused_witness:
  "fst (runTransfer demo_platform demo_opts demo_transfer (start_state demo_transfer True)) =
     Inl (UrlCopyException (new_UrlCopyError ''DESTINATION'' ''TRANSFER_PREPARATION'' EEXIST exists_reason)) \<and>
   runTransfer (demo_platform\<lparr>gf_copy_file := \<lambda>_ _ _ _. (None, [], False)\<rparr>) demo_opts demo_transfer (start_state demo_transfer True) =
     runTransfer demo_platform demo_opts demo_transfer (start_state demo_transfer True)"
proof -
  obtain s1 where 1: "source_size demo_platform demo_transfer (start_state demo_transfer True) = (Inr (), s1)" "rs_world s1" "rs_params s1 = new_params"
    by (simp add: source_size_def stat_file_def bearerInit_def gfal_value_def set_transfer_def demo_defs start_state_def new_params_def act_defs)
  obtain s2 where "stat_file demo_platform (fullUri (tr_destination demo_transfer)) False s1 = (Inr 7, s2)"
    using 1 by (simp add: stat_file_def bearerInit_def gfal_value_def demo_defs new_params_def act_defs)
  then show ?thesis
    using existing_destination_refused [OF _ _ 1(1)] by (simp add: demo_opts_def new_UrlCopyOpts_def)
qed

end
