(* ===== verification/Deletions.thy ===== *)
theory Deletions
  imports Scheduler
begin

section \<open>Deletions\<close>

text \<open>
  \<^verbatim>\<open>src/db/mysql/MySqlAPI.cpp\<close>: the deletions of \<^verbatim>\<open>t_dm\<close>. \<open>getFilesForDeletion\<close> hands work to the daemon
  and marks it STARTED, \<open>updateDeletionsStateInternal\<close> records what the daemon reports and decides on the
  state of the jobs, \<open>resetForRetryDelete\<close> puts a failed deletion back, \<open>requeueStartedDeletes\<close> does so
  when the daemon starts.

  \<^item> An UPDATE of \<^verbatim>\<open>resetForRetryDelete\<close> begins and commits a transaction of its own, which commits the one
    of the loop: after it every statement commits by itself (the flag of \<open>delete_one\<close>).
  \<^item> Rows with the same submission time come in the order of the table.
  \<^item> The spool directory with the states of an earlier failed update is an argument and a result. The
    monitoring messages are not part of the model.
\<close>

record MinDeleteStatus =
  md_jobId :: job_id
  md_fileId :: nat
  md_state :: dm_state
  md_reason :: string
  md_retry :: bool

definition update_dm :: "(dm_row \<Rightarrow> bool) \<Rightarrow> (dm_row \<Rightarrow> dm_row) \<Rightarrow> db \<Rightarrow> db" where
  "update_dm P f d = d\<lparr>t_dm := update_where P f (t_dm d)\<rparr>"

subsection \<open>Retries\<close>

text \<open>As for staging, a NULL \<^verbatim>\<open>retry_delay\<close> throws. The retry counter gets the number of retries allowed plus one.\<close>

definition delete_retries :: "job_id \<Rightarrow> db \<Rightarrow> int option" where
  "delete_retries jobId d =
     (let own = (case job_by_id jobId d of None \<Rightarrow> Some 0 | Some j \<Rightarrow> j_retry j);
          vo = (case job_by_id jobId d of None \<Rightarrow> '''' | Some j \<Rightarrow> j_vo_name j)
      in if (case own of None \<Rightarrow> True | Some n \<Rightarrow> n \<le> 0) then
           (case select_first (\<lambda>c. c_vo_name c = Some vo) (t_server_config d) of
              None \<Rightarrow> own | Some c \<Rightarrow> c_retry c)
         else own)"

definition delete_attempts :: "job_id \<Rightarrow> nat \<Rightarrow> db \<Rightarrow> int option" where
  "delete_attempts jobId fileId d =
     (case select_first (\<lambda>r. d_file_id r = fileId \<and> d_job_id r = jobId) (t_dm d) of
        None \<Rightarrow> Some 0 | Some r \<Rightarrow> d_retry r)"

definition delete_again :: "timestamp \<Rightarrow> int \<Rightarrow> dm_row \<Rightarrow> dm_row" where
  "delete_again t n r = r\<lparr>d_retry_timestamp := Some t, d_retry := Some n, d_file_state := DM_DELETE, d_start_time := None, d_dmHost := None\<rparr>"

text \<open>The two branches differ in the states they exclude; SUBMITTED is no state of a deletion.\<close>

definition resetForRetryDelete :: "env \<Rightarrow> nat \<Rightarrow> job_id \<Rightarrow> bool \<Rightarrow> db \<Rightarrow> fts_error + (db \<times> bool)" where
  "resetForRetryDelete e fileId jobId retry d =
     (if \<not> retry then Inr (d, False)
      else if (case job_by_id jobId d of None \<Rightarrow> False | Some j \<Rightarrow> j_retry_delay j = None) then Inl UserError
      else
        let retry_delay = (case job_by_id jobId d of None \<Rightarrow> 0 | Some j \<Rightarrow> (case j_retry_delay j of None \<Rightarrow> 0 | Some x \<Rightarrow> x)) in
        case (delete_retries jobId d, delete_attempts jobId fileId d) of
          (Some nRetries, Some nTimes) \<Rightarrow>
            if nRetries > 0 \<and> nTimes \<le> nRetries - 1 then
              Inr (if retry_delay > 0 then
                     update_dm (\<lambda>r. d_file_id r = fileId \<and> d_job_id r = jobId \<and> d_file_state r \<notin> {DM_FINISHED, DM_DELETE, DM_FAILED, DM_CANCELED})
                       (delete_again (now e + retry_delay) (nRetries + 1)) d
                   else
                     update_dm (\<lambda>r. d_file_id r = fileId \<and> d_job_id r = jobId \<and> d_file_state r \<notin> {DM_FINISHED, DM_FAILED, DM_CANCELED})
                       (delete_again (now e + 120) (nRetries + 1)) d,
                   True)
            else Inr (d, False)
        | _ \<Rightarrow> Inr (d, False))"

subsection \<open>The state of the deletions\<close>

definition delete_started :: "env \<Rightarrow> dm_row \<Rightarrow> dm_row" where
  "delete_started e r = r\<lparr>d_start_time := Some (now e), d_dmHost := Some (hostname e), d_file_state := DM_STARTED\<rparr>"

definition delete_ended :: "env \<Rightarrow> dm_state \<Rightarrow> string \<Rightarrow> dm_row \<Rightarrow> dm_row" where
  "delete_ended e st reason r = r\<lparr>d_job_finished := Some (now e), d_finish_time := Some (now e), d_reason := reason, d_file_state := st\<rparr>"

definition delete_one :: "env \<Rightarrow> MinDeleteStatus \<Rightarrow> db \<times> bool \<Rightarrow> fts_error + (db \<times> bool)" where
  "delete_one e i dt =
     (case dt of (d, tx) \<Rightarrow>
      if md_state i = DM_STARTED then Inr (update_dm (\<lambda>r. d_file_id r = md_fileId i) (delete_started e) d, tx)
      else if md_state i = DM_FAILED then
        (case resetForRetryDelete e (md_fileId i) (md_jobId i) (md_retry i) d of
           Inl err \<Rightarrow> Inl err
         | Inr (d1, retried) \<Rightarrow>
             if retried then Inr (d1, False)
             else Inr (update_dm (\<lambda>r. d_file_id r = md_fileId i) (delete_ended e (md_state i) (md_reason i)) d1, tx))
      else Inr (update_dm (\<lambda>r. d_file_id r = md_fileId i) (delete_ended e (md_state i) (md_reason i)) d, tx))"

fun delete_loop :: "env \<Rightarrow> db \<Rightarrow> MinDeleteStatus list \<Rightarrow> db \<times> bool \<Rightarrow> db \<times> fts_error option" where
  "delete_loop e d0 [] dt = (fst dt, None)"
| "delete_loop e d0 (i # is) dt =
     (case delete_one e i dt of
        Inl err \<Rightarrow> (if snd dt then d0 else fst dt, Some err)
      | Inr dt1 \<Rightarrow> delete_loop e d0 is dt1)"

subsection \<open>The state of the jobs\<close>

definition dm_count :: "job_id \<Rightarrow> dm_state \<Rightarrow> db \<Rightarrow> nat" where
  "dm_count jobId st d = length (filter (\<lambda>r. d_job_id r = jobId \<and> d_file_state r = st) (t_dm d))"

definition failed_files_reason :: string where
  "failed_files_reason = ''Job failed, check files for more details''"

definition end_delete_job :: "env \<Rightarrow> job_state \<Rightarrow> string option \<Rightarrow> job_row \<Rightarrow> job_row" where
  "end_delete_job e st reason j =
     j\<lparr>j_job_state := st, j_job_finished := Some (now e), j_reason := (case reason of None \<Rightarrow> j_reason j | Some x \<Rightarrow> x)\<rparr>"

definition delete_job_change :: "env \<Rightarrow> job_id \<Rightarrow> db \<Rightarrow> job_row \<Rightarrow> job_row" where
  "delete_job_change e jobId d =
     (let canceled = dm_count jobId DM_CANCELED d; finished = dm_count jobId DM_FINISHED d; failed = dm_count jobId DM_FAILED d;
          started = dm_count jobId DM_STARTED d; delete = dm_count jobId DM_DELETE d;
          files = finished + failed + started + canceled + delete; terminal = finished + failed + canceled
      in if files = finished then end_delete_job e J_FINISHED None
         else if files = failed then end_delete_job e J_FAILED (Some failed_files_reason)
         else if files = canceled then end_delete_job e J_CANCELED (Some failed_files_reason)
         else if started \<ge> 1 \<and> delete \<ge> 1 then (\<lambda>j. j\<lparr>j_job_state := J_ACTIVE\<rparr>)
         else if files = terminal \<and> canceled = 0 \<and> failed > 0 then end_delete_job e J_FINISHEDDIRTY (Some failed_files_reason)
         else if files = terminal \<and> canceled \<ge> 1 then end_delete_job e J_CANCELED (Some ''Job canceled, check files for more details'')
         else (\<lambda>j. j))"

definition update_delete_job :: "env \<Rightarrow> job_id \<Rightarrow> db \<Rightarrow> db" where
  "update_delete_job e jobId d = update_jobs (\<lambda>j. j_job_id j = jobId) (delete_job_change e jobId d) d"

definition updateDeletionsStateInternal :: "env \<Rightarrow> MinDeleteStatus list \<Rightarrow> db \<Rightarrow> db \<times> fts_error option" where
  "updateDeletionsStateInternal e ops d =
     (case delete_loop e d ops (d, True) of
        (d1, Some err) \<Rightarrow> (d1, Some err)
      | (d1, None) \<Rightarrow> (fold (update_delete_job e) (rev (remdups (rev (map md_jobId ops)))) d1, None))"

subsection \<open>Work for the daemon\<close>

record DeleteOperation =
  do_jobId :: job_id
  do_fileId :: nat
  do_voName :: string
  do_userDn :: string
  do_credId :: string
  do_surl :: string

definition dm_in_segment :: "nat \<times> nat \<Rightarrow> dm_row \<Rightarrow> bool" where
  "dm_in_segment seg r \<longleftrightarrow> fst seg \<le> d_hashed_id r \<and> d_hashed_id r \<le> snd seg"

definition deletion_queues :: "nat \<times> nat \<Rightarrow> db \<Rightarrow> (string \<times> string) list" where
  "deletion_queues seg d =
     remdups (map (\<lambda>r. (d_vo_name r, d_source_se r)) (filter (\<lambda>r. d_file_state r = DM_DELETE \<and> dm_in_segment seg r) (t_dm d)))"

definition concurrent_ops :: "string \<Rightarrow> string \<Rightarrow> string \<Rightarrow> db \<Rightarrow> int \<Rightarrow> int" where
  "concurrent_ops vo host1 op1 d before =
     (case select_first (\<lambda>s. sr_vo_name s = vo \<and> sr_host s = host1 \<and> sr_operation s = op1 \<and> sr_concurrent_ops s \<noteq> None) (t_stage_req d) of
        None \<Rightarrow> before
      | Some s \<Rightarrow> (case sr_concurrent_ops s of None \<Rightarrow> before | Some n \<Rightarrow> n))"

definition max_deletions :: "string \<Rightarrow> string \<Rightarrow> db \<Rightarrow> int" where
  "max_deletions vo se d =
     (let own = concurrent_ops vo se ''delete'' d 0
      in if own \<le> 0 then concurrent_ops vo ''*'' ''delete'' d own else own)"

definition active_deletions :: "string \<Rightarrow> string \<Rightarrow> db \<Rightarrow> int" where
  "active_deletions vo se d =
     int (length (filter (\<lambda>r. d_vo_name r = vo \<and> d_source_se r = se \<and> d_file_state r = DM_STARTED \<and> d_job_finished r = None) (t_dm d)))"

definition deletion_limit :: "string \<Rightarrow> string \<Rightarrow> db \<Rightarrow> int" where
  "deletion_limit vo se d = (if max_deletions vo se d > 0 then max_deletions vo se d else 2000) - active_deletions vo se d"

definition waiting_deletion :: "nat \<times> nat \<Rightarrow> string \<Rightarrow> dm_row \<Rightarrow> job_row \<Rightarrow> bool" where
  "waiting_deletion seg se r j \<longleftrightarrow>
     d_job_id r = j_job_id j \<and> d_file_state r = DM_DELETE \<and> d_start_time r = None \<and> j_job_finished j = None \<and> dm_in_segment seg r \<and>
     d_source_se r = se"

definition dm_join :: "(dm_row \<Rightarrow> job_row \<Rightarrow> bool) \<Rightarrow> db \<Rightarrow> (dm_row \<times> job_row) list" where
  "dm_join P d = concat (map (\<lambda>r. map (Pair r) (filter (P r) (t_job d))) (t_dm d))"

definition deletion_users :: "nat \<times> nat \<Rightarrow> string \<Rightarrow> string \<Rightarrow> db \<Rightarrow> string option list" where
  "deletion_users seg vo se d =
     remdups (map (\<lambda>(r, j). j_user_dn j) (dm_join (\<lambda>r j. waiting_deletion seg se r j \<and> d_vo_name r = vo) d))"

definition deletions_of_user :: "nat \<times> nat \<Rightarrow> string \<Rightarrow> string \<Rightarrow> string \<Rightarrow> nat \<Rightarrow> db \<Rightarrow> (dm_row \<times> job_row) list" where
  "deletions_of_user seg vo se user limit d =
     take limit (sort_key (\<lambda>(r, j). j_submit_time j)
       (dm_join (\<lambda>r j. waiting_deletion seg se r j \<and> j_user_dn j = Some user \<and> j_vo_name j = vo) d))"

definition delete_operation :: "string \<Rightarrow> string \<Rightarrow> dm_row \<times> job_row \<Rightarrow> fts_error + DeleteOperation" where
  "delete_operation vo user rj =
     (case rj of (r, j) \<Rightarrow> case j_cred_id j of
        None \<Rightarrow> Inl UserError
      | Some cred \<Rightarrow>
          Inr \<lparr>do_jobId = d_job_id r, do_fileId = d_file_id r, do_voName = vo, do_userDn = user, do_credId = cred, do_surl = d_source_surl r\<rparr>)"

text \<open>A NULL \<^verbatim>\<open>user_dn\<close> or \<^verbatim>\<open>cred_id\<close> throws.\<close>

fun sequence_results :: "(fts_error + 'a list) list \<Rightarrow> fts_error + 'a list" where
  "sequence_results [] = Inr []"
| "sequence_results (x # xs) =
     (case x of Inl err \<Rightarrow> Inl err | Inr ys \<Rightarrow> (case sequence_results xs of Inl err \<Rightarrow> Inl err | Inr zs \<Rightarrow> Inr (ys @ zs)))"

definition user_deletions :: "nat \<times> nat \<Rightarrow> string \<Rightarrow> string \<Rightarrow> nat \<Rightarrow> db \<Rightarrow> string option \<Rightarrow> fts_error + DeleteOperation list" where
  "user_deletions seg vo se limit d user =
     (case user of
        None \<Rightarrow> Inl UserError
      | Some u \<Rightarrow> sequence_results (map (\<lambda>rj. map_sum id (\<lambda>x. [x]) (delete_operation vo u rj)) (deletions_of_user seg vo se u limit d)))"

definition queue_deletions :: "nat \<times> nat \<Rightarrow> db \<Rightarrow> string \<times> string \<Rightarrow> fts_error + DeleteOperation list" where
  "queue_deletions seg d q =
     (case q of (vo, se) \<Rightarrow>
      let limit = deletion_limit vo se d
      in if limit \<le> 0 then Inr []
         else sequence_results (map (user_deletions seg vo se (nat limit) d) (deletion_users seg vo se d)))"

definition started_status :: "DeleteOperation \<Rightarrow> MinDeleteStatus" where
  "started_status x = \<lparr>md_jobId = do_jobId x, md_fileId = do_fileId x, md_state = DM_STARTED, md_reason = [], md_retry = False\<rparr>"

text \<open>The operations, the database, and the states to be spooled when the update fails.\<close>

definition getFilesForDeletion ::
  "env \<Rightarrow> nat \<times> nat \<Rightarrow> MinDeleteStatus list \<Rightarrow> db \<Rightarrow> fts_error + (DeleteOperation list \<times> db \<times> MinDeleteStatus list)" where
  "getFilesForDeletion e seg spooled d =
     (case sequence_results (map (queue_deletions seg d) (deletion_queues seg d)) of
        Inl err \<Rightarrow> Inl err
      | Inr delOps \<Rightarrow>
          let filesState = map (\<lambda>m. m\<lparr>md_retry := False\<rparr>) spooled @ map started_status delOps
          in if filesState = [] then Inr (delOps, d, [])
             else (case updateDeletionsStateInternal e filesState d of
                     (d1, None) \<Rightarrow> Inr (delOps, d1, [])
                   | (d1, Some err) \<Rightarrow> Inr (delOps, d1, filesState)))"

definition requeueStartedDeletes :: "nat \<times> nat \<Rightarrow> db \<Rightarrow> db" where
  "requeueStartedDeletes seg =
     update_dm (\<lambda>r. d_file_state r = DM_STARTED \<and> dm_in_segment seg r) (\<lambda>r. r\<lparr>d_file_state := DM_DELETE, d_start_time := None\<rparr>)"

subsection \<open>When a deletion job ends\<close>

text \<open>What the states of its deletions make of a job, once all of them are terminal.\<close>

definition deletion_verdict :: "dm_state set \<Rightarrow> job_state" where
  "deletion_verdict S =
     (if DM_CANCELED \<in> S then J_CANCELED else if S = {DM_FINISHED} then J_FINISHED else if S = {DM_FAILED} then J_FAILED else J_FINISHEDDIRTY)"

definition dm_states :: "job_id \<Rightarrow> db \<Rightarrow> dm_state set" where
  "dm_states jobId d = set (map d_file_state (filter (\<lambda>r. d_job_id r = jobId) (t_dm d)))"

lemma dm_count_zero: "dm_count jobId st d = 0 \<longleftrightarrow> st \<notin> dm_states jobId d"
  by (auto simp: dm_count_def dm_states_def filter_empty_conv)

lemma t_dm_update_jobs [simp]: "t_dm (update_jobs P f d) = t_dm d"
  by (simp add: update_jobs_def)

lemma update_delete_job_dm [simp]: "t_dm (update_delete_job e jobId d) = t_dm d"
  by (simp add: update_delete_job_def)

lemma fold_delete_job_dm [simp]: "t_dm (fold (update_delete_job e) js d) = t_dm d"
  by (induction js arbitrary: d) simp_all

lemma dm_count_jobs: "t_dm d = t_dm d' \<Longrightarrow> delete_job_change e jobId d = delete_job_change e jobId d'"
  by (simp add: delete_job_change_def dm_count_def)

lemma delete_job_change_id [simp]: "j_job_id (delete_job_change e jobId d j) = j_job_id j"
  by (simp add: delete_job_change_def end_delete_job_def Let_def)

lemma job_by_id_delete_job:
  "job_by_id i d = Some j \<Longrightarrow> job_by_id i (update_delete_job e k d) = Some (if k = i then delete_job_change e k d j else j)"
  by (auto simp: update_delete_job_def job_by_id_update_jobs dest: job_by_id_Some)

lemma job_by_id_fold:
  "distinct js \<Longrightarrow> job_by_id i d = Some j \<Longrightarrow>
     job_by_id i (fold (update_delete_job e) js d) = Some (if i \<in> set js then delete_job_change e i d j else j)"
proof (induction js arbitrary: d j)
  case (Cons k js)
  have "delete_job_change e i (update_delete_job e k d) = delete_job_change e i d"
    by (rule dm_count_jobs) simp
  with Cons show ?case
    using job_by_id_delete_job [OF Cons.prems(2), of e k] by auto
qed simp

lemma job_by_id_fold_None: "job_by_id i d = None \<Longrightarrow> job_by_id i (fold (update_delete_job e) js d) = None"
  by (induction js arbitrary: d) (simp_all add: update_delete_job_def job_by_id_update_jobs)

lemma delete_job_verdict:
  assumes "dm_states jobId d \<noteq> {}" "dm_states jobId d \<subseteq> {DM_FINISHED, DM_FAILED, DM_CANCELED}"
  shows "j_job_state (delete_job_change e jobId d j) = deletion_verdict (dm_states jobId d)"
    and "j_job_finished (delete_job_change e jobId d j) = Some (now e)"
proof -
  define S where "S = dm_states jobId d"
  define c f x where "c = dm_count jobId DM_CANCELED d" and "f = dm_count jobId DM_FINISHED d" and "x = dm_count jobId DM_FAILED d"
  have z: "dm_count jobId DM_STARTED d = 0" "dm_count jobId DM_DELETE d = 0"
    using assms(2) by (auto simp: dm_count_zero)
  have change: "delete_job_change e jobId d =
      (if x = 0 \<and> c = 0 then end_delete_job e J_FINISHED None
       else if f = 0 \<and> c = 0 then end_delete_job e J_FAILED (Some failed_files_reason)
       else if f = 0 \<and> x = 0 then end_delete_job e J_CANCELED (Some failed_files_reason)
       else if c = 0 then end_delete_job e J_FINISHEDDIRTY (Some failed_files_reason)
       else end_delete_job e J_CANCELED (Some ''Job canceled, check files for more details''))"
    unfolding delete_job_change_def z Let_def c_def [symmetric] f_def [symmetric] x_def [symmetric] by auto
  have "c = 0 \<longleftrightarrow> DM_CANCELED \<notin> S" "f = 0 \<longleftrightarrow> DM_FINISHED \<notin> S" "x = 0 \<longleftrightarrow> DM_FAILED \<notin> S"
    by (simp_all add: c_def f_def x_def S_def dm_count_zero)
  moreover have "S = {DM_FINISHED} \<longleftrightarrow> DM_FAILED \<notin> S \<and> DM_CANCELED \<notin> S" "S = {DM_FAILED} \<longleftrightarrow> DM_FINISHED \<notin> S \<and> DM_CANCELED \<notin> S"
    using assms unfolding S_def [symmetric] by auto
  ultimately show "j_job_state (delete_job_change e jobId d j) = deletion_verdict (dm_states jobId d)"
    "j_job_finished (delete_job_change e jobId d j) = Some (now e)"
    unfolding S_def [symmetric] change by (simp_all add: end_delete_job_def deletion_verdict_def)
qed

text \<open>
  C33: Once all deletions of a job are terminal, recording the statuses of some of them leaves the job
  in the state that the set of their outcomes demands, with its end time.
\<close>

theorem deletion_job_settled:
  assumes "updateDeletionsStateInternal e ops d = (d', None)" "i \<in> set ops" "job_by_id (md_jobId i) d' = Some j"
    and "dm_states (md_jobId i) d' \<noteq> {}" "dm_states (md_jobId i) d' \<subseteq> {DM_FINISHED, DM_FAILED, DM_CANCELED}"
  shows "j_job_state j = deletion_verdict (dm_states (md_jobId i) d') \<and> j_job_finished j = Some (now e)"
proof -
  define js where "js = rev (remdups (rev (map md_jobId ops)))"
  obtain d1 where d': "d' = fold (update_delete_job e) js d1"
    using assms(1) by (auto simp: updateDeletionsStateInternal_def js_def split: prod.splits option.splits)
  have "distinct js" "md_jobId i \<in> set js"
    using assms(2) by (auto simp: js_def)
  moreover have states: "dm_states (md_jobId i) d' = dm_states (md_jobId i) d1"
    by (simp add: dm_states_def d')
  moreover obtain j1 where "job_by_id (md_jobId i) d1 = Some j1"
    using job_by_id_fold_None [of "md_jobId i" d1 e js] assms(3) d' by (cases "job_by_id (md_jobId i) d1") auto
  ultimately have "j = delete_job_change e (md_jobId i) d1 j1"
    using job_by_id_fold [of js "md_jobId i" d1 j1 e] assms(3) d' by simp
  then show ?thesis
    using delete_job_verdict [of "md_jobId i" d1 e j1] assms(4,5) unfolding states by simp
qed

subsection \<open>Retries of a deletion\<close>

lemma update_dm_simps [simp]:
  "t_dm (update_dm P f d) = update_where P f (t_dm d)" "t_job (update_dm P f d) = t_job d" "t_file (update_dm P f d) = t_file d"
  "t_server_config (update_dm P f d) = t_server_config d" "job_by_id i (update_dm P f d) = job_by_id i d"
  "delete_retries i (update_dm P f d) = delete_retries i d"
  by (simp_all add: update_dm_def job_by_id_def delete_retries_def Let_def)

lemma dm_first_update:
  assumes "\<And>r. d_file_id (f r) = d_file_id r" "\<And>r. d_job_id (f r) = d_job_id r"
  shows "select_first (\<lambda>r. d_file_id r = i \<and> d_job_id r = k) (update_where P f rows) =
    map_option (\<lambda>r. if P r then f r else r) (select_first (\<lambda>r. d_file_id r = i \<and> d_job_id r = k) rows)"
  using assms by (induction rows) auto

lemma reset_delete_retried:
  assumes "resetForRetryDelete e fileId jobId retry d = Inr (d1, True)"
  obtains n k P t where "delete_retries jobId d = Some n" "d1 = update_dm P (delete_again t (n + 1)) d" "n > 0"
    "\<And>r. d_file_id r = fileId \<Longrightarrow> d_job_id r = jobId \<Longrightarrow> d_file_state r = DM_STARTED \<Longrightarrow> P r"
  using assms
  by (auto simp: resetForRetryDelete_def Let_def split: if_splits option.splits sum.splits)

text \<open>
  A failed deletion is retried once, whatever number of retries is allowed: the retry counter is set
  past that number at once, so when the deletion has been started again and fails again, it is not retried.
\<close>

lemma deletion_retried_once:
  assumes "resetForRetryDelete e fileId jobId retry d = Inr (d1, True)"
    and "select_first (\<lambda>r. d_file_id r = fileId \<and> d_job_id r = jobId) (t_dm d) = Some r" "d_file_state r = DM_STARTED"
    and "d2 = update_dm (\<lambda>r. d_file_id r = fileId) (delete_started e2) d1"
  shows "resetForRetryDelete e3 fileId jobId retry2 d2 \<in> {Inr (d2, False), Inl UserError}"
proof -
  obtain n P t where n: "delete_retries jobId d = Some n" "n > 0" and d1: "d1 = update_dm P (delete_again t (n + 1)) d"
    and P: "\<And>r. d_file_id r = fileId \<Longrightarrow> d_job_id r = jobId \<Longrightarrow> d_file_state r = DM_STARTED \<Longrightarrow> P r"
    using assms(1) by (rule reset_delete_retried) blast
  have "P r"
    using P select_first_Some [OF assms(2)] assms(3) by blast
  have "delete_attempts jobId fileId d2 = Some (n + 1)"
    using assms(2) \<open>P r\<close> unfolding assms(4) d1 delete_attempts_def update_dm_simps
    by (subst dm_first_update, simp_all add: delete_started_def, subst dm_first_update, simp_all add: delete_again_def delete_started_def)
  moreover have "delete_retries jobId d2 = Some n"
    by (simp add: assms(4) d1 n(1))
  ultimately show ?thesis
    by (auto simp: resetForRetryDelete_def Let_def)
qed

text \<open>The deletions do not touch the files, and the loop does not touch the jobs.\<close>

lemma delete_loop_tables:
  "t_file d0 = t_file (fst dt) \<Longrightarrow> t_job d0 = t_job (fst dt) \<Longrightarrow>
     t_file (fst (delete_loop e d0 ops dt)) = t_file (fst dt) \<and> t_job (fst (delete_loop e d0 ops dt)) = t_job (fst dt)"
proof (induction ops arbitrary: dt)
  case (Cons i ops)
  have "t_file (fst dt1) = t_file (fst dt) \<and> t_job (fst dt1) = t_job (fst dt)" if "delete_one e i dt = Inr dt1" for dt1
    using that by (auto simp: delete_one_def resetForRetryDelete_def Let_def split: prod.splits if_splits sum.splits option.splits)
  then show ?case
    using Cons by (cases "delete_one e i dt") auto
qed simp

subsection \<open>Handing out work\<close>

lemma sequence_resultsD:
  "sequence_results xs = Inr ys \<Longrightarrow> y \<in> set ys \<Longrightarrow> \<exists>zs. Inr zs \<in> set xs \<and> y \<in> set zs"
  by (induction xs arbitrary: ys) (fastforce split: sum.splits)+

lemma sequence_results_mapD:
  "sequence_results (map f xs) = Inr ys \<Longrightarrow> y \<in> set ys \<Longrightarrow> \<exists>x zs. x \<in> set xs \<and> f x = Inr zs \<and> y \<in> set zs"
  by (drule (1) sequence_resultsD) (metis imageE list.set_map)

lemma deletions_of_user_row:
  "(r, j) \<in> set (deletions_of_user seg vo se user limit d) \<Longrightarrow> r \<in> set (t_dm d) \<and> j \<in> set (t_job d) \<and> waiting_deletion seg se r j"
  by (auto simp: deletions_of_user_def dm_join_def dest!: in_set_takeD)

lemma user_deletions_row:
  assumes "user_deletions seg vo se limit d user = Inr xs" "x \<in> set xs"
  shows "\<exists>r j. r \<in> set (t_dm d) \<and> j \<in> set (t_job d) \<and> waiting_deletion seg se r j \<and> do_fileId x = d_file_id r \<and> do_jobId x = d_job_id r"
  using assms
  by (auto simp: user_deletions_def delete_operation_def split: option.splits prod.splits
      dest!: sequence_resultsD deletions_of_user_row) blast

text \<open>The operations handed out are waiting deletions.\<close>

lemma deletion_ops_waiting:
  assumes "getFilesForDeletion e seg spooled d = Inr (ops, d', again)" "x \<in> set ops"
  shows "\<exists>r j se. r \<in> set (t_dm d) \<and> j \<in> set (t_job d) \<and> waiting_deletion seg se r j \<and> do_fileId x = d_file_id r \<and> do_jobId x = d_job_id r"
proof -
  have "sequence_results (map (queue_deletions seg d) (deletion_queues seg d)) = Inr ops"
    using assms(1) by (auto simp: getFilesForDeletion_def Let_def split: sum.splits if_splits prod.splits option.splits)
  then obtain vo se xs where q: "queue_deletions seg d (vo, se) = Inr xs" "x \<in> set xs"
    using assms(2) by (metis sequence_results_mapD surj_pair)
  then obtain user ys where "user_deletions seg vo se (nat (deletion_limit vo se d)) d user = Inr ys" "x \<in> set ys"
    using sequence_results_mapD [of "user_deletions seg vo se (nat (deletion_limit vo se d)) d"]
    by (auto simp: queue_deletions_def Let_def split: if_splits) blast
  then show ?thesis
    using user_deletions_row by blast
qed

text \<open>What the statuses do to a row when no retry is asked for.\<close>

definition row_status :: "env \<Rightarrow> MinDeleteStatus \<Rightarrow> dm_row \<Rightarrow> dm_row" where
  "row_status e i r =
     (if d_file_id r = md_fileId i
      then (if md_state i = DM_STARTED then delete_started e r else delete_ended e (md_state i) (md_reason i) r) else r)"

lemma delete_loop_rows:
  assumes "\<And>i. i \<in> set ops \<Longrightarrow> \<not> md_retry i"
  shows "snd (delete_loop e d0 ops (d, tx)) = None \<and> t_dm (fst (delete_loop e d0 ops (d, tx))) = map (fold (row_status e) ops) (t_dm d)"
  using assms
proof (induction ops arbitrary: d)
  case (Cons i ops)
  have "delete_one e i (d, tx) = Inr (update_dm (\<lambda>r. d_file_id r = md_fileId i) (row_status e i) d, tx)"
    using Cons.prems [of i]
    by (auto simp: delete_one_def resetForRetryDelete_def row_status_def update_dm_def update_where_def)
  moreover have "update_where (\<lambda>r. d_file_id r = md_fileId i) (row_status e i) rows = map (row_status e i) rows" for rows
    by (simp add: update_where_def row_status_def)
  ultimately show ?case
    using Cons by simp
qed simp

lemma row_status_id [simp]: "d_file_id (row_status e i r) = d_file_id r" "d_file_id (fold (row_status e) is r) = d_file_id r"
proof -
  show one: "d_file_id (row_status e i r) = d_file_id r" for i r
    by (simp add: row_status_def delete_started_def delete_ended_def)
  show "d_file_id (fold (row_status e) is r) = d_file_id r"
    by (induction "is" arbitrary: r) (simp_all add: one)
qed

lemma fold_started:
  "d_file_state r = DM_STARTED \<or> d_file_id r \<in> do_fileId ` set ops \<Longrightarrow> d_file_state (fold (row_status e) (map started_status ops) r) = DM_STARTED"
proof (induction ops arbitrary: r)
  case (Cons x ops)
  have "d_file_state (row_status e (started_status x) r) = DM_STARTED \<or> d_file_id (row_status e (started_status x) r) \<in> do_fileId ` set ops"
    using Cons.prems by (auto simp: row_status_def started_status_def delete_started_def)
  then show ?case
    using Cons.IH by simp
qed simp

lemma deletion_rows_started:
  assumes "getFilesForDeletion e seg spooled d = Inr (ops, d', again)" "r' \<in> set (t_dm d')" "d_file_id r' \<in> do_fileId ` set ops"
  shows "d_file_state r' = DM_STARTED"
proof -
  define fs where "fs = map (\<lambda>m. m\<lparr>md_retry := False\<rparr>) spooled @ map started_status ops"
  have "fs \<noteq> []"
    using assms(3) by (auto simp: fs_def)
  moreover have "\<not> md_retry i" if "i \<in> set fs" for i
    using that by (auto simp: fs_def started_status_def)
  note rows = delete_loop_rows [OF this, of fs e d d True]
  ultimately have "t_dm d' = map (fold (row_status e) fs) (t_dm d)"
    using assms(1)
    by (auto simp: getFilesForDeletion_def updateDeletionsStateInternal_def Let_def fs_def split: sum.splits if_splits prod.splits option.splits)
  then obtain r where "r' = fold (row_status e) (map started_status ops) (fold (row_status e) (map (\<lambda>m. m\<lparr>md_retry := False\<rparr>) spooled) r)"
    using assms(2) by (auto simp: fs_def)
  then show ?thesis
    using assms(3) by (auto intro!: fold_started)
qed


subsection \<open>An example\<close>

definition sample_deletion :: "nat \<Rightarrow> dm_state \<Rightarrow> dm_row" where
  "sample_deletion i st =
     \<lparr>d_file_id = i, d_job_id = ''j'', d_file_state = st, d_dmHost = None, d_source_surl = ''root://src//a'', d_source_se = ''root://src'',
      d_vo_name = ''atlas'', d_hashed_id = 5, d_reason = [], d_retry = Some 0, d_retry_timestamp = None, d_start_time = None,
      d_finish_time = None, d_job_finished = None\<rparr>"

definition sample_deletion_db :: db where
  "sample_deletion_db = (sample_db [] [(sample_job ''j'' None J_ACTIVE)\<lparr>j_retry := Some 3, j_retry_delay := Some 60\<rparr>])
     \<lparr>t_dm := [sample_deletion 1 DM_DELETE, sample_deletion 2 DM_STARTED]\<rparr>"

definition sample_deletion_ops :: "DeleteOperation list" where
  "sample_deletion_ops =
     [\<lparr>do_jobId = ''j'', do_fileId = 1, do_voName = ''atlas'', do_userDn = ''/CN=user'', do_credId = ''cred'', do_surl = ''root://src//a''\<rparr>]"

lemma sample_deletion_fetch:
  "sequence_results (map (queue_deletions (0, 9) sample_deletion_db) (deletion_queues (0, 9) sample_deletion_db)) = Inr sample_deletion_ops"
  by (simp add: sample_deletion_db_def sample_deletion_def sample_deletion_ops_def sample_job_def deletion_queues_def dm_in_segment_def
      queue_deletions_def deletion_limit_def max_deletions_def concurrent_ops_def active_deletions_def sample_db_def deletion_users_def dm_join_def
      waiting_deletion_def user_deletions_def deletions_of_user_def delete_operation_def Let_def)

definition sample_started_db :: db where
  "sample_started_db = fst (updateDeletionsStateInternal sample_env (map started_status sample_deletion_ops) sample_deletion_db)"

lemma sample_started:
  "updateDeletionsStateInternal sample_env (map started_status sample_deletion_ops) sample_deletion_db = (sample_started_db, None)"
  "t_dm sample_started_db = map (fold (row_status sample_env) (map started_status sample_deletion_ops)) (t_dm sample_deletion_db)"
proof -
  have "\<not> md_retry i" if "i \<in> set (map started_status sample_deletion_ops)" for i
    using that by (auto simp: started_status_def)
  note loop = delete_loop_rows [OF this, of "map started_status sample_deletion_ops" sample_env sample_deletion_db sample_deletion_db True, simplified]
  then show "updateDeletionsStateInternal sample_env (map started_status sample_deletion_ops) sample_deletion_db = (sample_started_db, None)"
    by (auto simp: sample_started_db_def updateDeletionsStateInternal_def split: prod.splits option.splits)
  show "t_dm sample_started_db = map (fold (row_status sample_env) (map started_status sample_deletion_ops)) (t_dm sample_deletion_db)"
    using loop by (auto simp: sample_started_db_def updateDeletionsStateInternal_def split: prod.splits option.splits)
qed


theorem deletion_job_settled_witness:
  "\<exists>d' j. updateDeletionsStateInternal sample_env [\<lparr>md_jobId = ''j'', md_fileId = 1, md_state = DM_FINISHED, md_reason = [], md_retry = False\<rparr>,
       \<lparr>md_jobId = ''j'', md_fileId = 2, md_state = DM_FAILED, md_reason = ''x'', md_retry = False\<rparr>] sample_deletion_db = (d', None) \<and>
     job_by_id ''j'' d' = Some j \<and> j_job_state j = J_FINISHEDDIRTY"
proof -
  define ops where "ops = [\<lparr>md_jobId = ''j'', md_fileId = 1, md_state = DM_FINISHED, md_reason = [], md_retry = False\<rparr>,
       \<lparr>md_jobId = ''j'', md_fileId = 2, md_state = DM_FAILED, md_reason = ''x'', md_retry = False\<rparr>]"
  have no: "\<not> md_retry i" if "i \<in> set ops" for i
    using that by (auto simp: ops_def)
  obtain d1 where d1: "delete_loop sample_env sample_deletion_db ops (sample_deletion_db, True) = (d1, None)"
    "t_dm d1 = map (fold (row_status sample_env) ops) (t_dm sample_deletion_db)"
    using delete_loop_rows [OF no, where e = sample_env and tx = True and d = sample_deletion_db and ?d0.0 = sample_deletion_db] by (metis prod.collapse)
  define d' where "d' = fold (update_delete_job sample_env) (rev (remdups (rev (map md_jobId ops)))) d1"
  have u: "updateDeletionsStateInternal sample_env ops sample_deletion_db = (d', None)"
    by (simp add: updateDeletionsStateInternal_def d1(1) d'_def)
  have states: "dm_states ''j'' d' = {DM_FINISHED, DM_FAILED}"
    by (simp add: dm_states_def d'_def d1(2) sample_deletion_db_def sample_deletion_def ops_def row_status_def delete_ended_def)
  have "t_job d1 = t_job sample_deletion_db"
    using delete_loop_tables [of sample_deletion_db "(sample_deletion_db, True)" sample_env ops] d1(1) by simp
  then obtain j1 where "job_by_id ''j'' d1 = Some j1"
    by (simp add: job_by_id_def sample_deletion_db_def)
  then obtain j where j: "job_by_id ''j'' d' = Some j"
    using job_by_id_fold [of "rev (remdups (rev (map md_jobId ops)))" "''j''" d1 j1 sample_env] by (simp add: d'_def)
  show ?thesis
    using deletion_job_settled [OF u, of "hd ops" j] j u states by (auto simp: ops_def deletion_verdict_def)
qed

end
