(* ===== verification/SanityChecks.thy ===== *)
theory SanityChecks
  imports Deletions
begin

section \<open>Sanity checks\<close>

text \<open>
  \<^verbatim>\<open>src/db/mysql/SanityChecks.cpp\<close> and \<^verbatim>\<open>MultihopSanityCheck.cpp\<close>: the repairs the host with the first hash
  segment runs periodically (\<open>CleanerService\<close>). Each rowset is taken at the start of its loop. The
  monitoring messages are not part of the model.

  The counts of file states are looked up by name, as in the code: \<^verbatim>\<open>stateCount["CANCEL"]\<close> is the number
  of files whose state is called \<^verbatim>\<open>CANCEL\<close>.
\<close>

fun state_name :: "file_state \<Rightarrow> string" where
  "state_name STAGING = ''STAGING''"
| "state_name ARCHIVING = ''ARCHIVING''"
| "state_name QOS_TRANSITION = ''QOS_TRANSITION''"
| "state_name QOS_REQUEST_SUBMITTED = ''QOS_REQUEST_SUBMITTED''"
| "state_name STARTED = ''STARTED''"
| "state_name SUBMITTED = ''SUBMITTED''"
| "state_name READY = ''READY''"
| "state_name ACTIVE = ''ACTIVE''"
| "state_name FINISHED = ''FINISHED''"
| "state_name FAILED = ''FAILED''"
| "state_name CANCELED = ''CANCELED''"
| "state_name NOT_USED = ''NOT_USED''"
| "state_name ON_HOLD = ''ON_HOLD''"
| "state_name ON_HOLD_STAGING = ''ON_HOLD_STAGING''"
| "state_name FORCE_START = ''FORCE_START''"
| "state_name TOKEN_PREP = ''TOKEN_PREP''"

definition stateCount :: "job_id \<Rightarrow> string \<Rightarrow> db \<Rightarrow> nat" where
  "stateCount jobId name d = length (filter (\<lambda>r. state_name (f_file_state r) = name) (files_of_job jobId d))"

subsection \<open>Jobs\<close>

definition end_sanity_job :: "env \<Rightarrow> job_state \<Rightarrow> string option \<Rightarrow> job_row \<Rightarrow> job_row" where
  "end_sanity_job e st reason j =
     j\<lparr>j_job_state := st, j_job_finished := Some (now e), j_reason := (case reason of None \<Rightarrow> j_reason j | Some x \<Rightarrow> x)\<rparr>"

definition fixEmptyJob :: "env \<Rightarrow> job_id \<Rightarrow> db \<Rightarrow> db" where
  "fixEmptyJob e jobId = update_jobs (\<lambda>j. j_job_id j = jobId) (end_sanity_job e J_CANCELED (Some ''The job was empty''))"

definition sanity_failed_reason :: string where
  "sanity_failed_reason = ''One or more files failed. Please have a look at the details for more information''"

definition fixNonTerminalJob :: "env \<Rightarrow> job_id \<Rightarrow> nat \<Rightarrow> nat \<Rightarrow> nat \<Rightarrow> nat \<Rightarrow> db \<Rightarrow> db" where
  "fixNonTerminalJob e jobId filesInJob cancelCount finishedCount failedCount =
     (let set_to = \<lambda>st reason. update_jobs (\<lambda>j. j_job_id j = jobId \<and> j_job_state j \<noteq> st) (end_sanity_job e st reason)
      in if cancelCount > 0 then set_to J_CANCELED (Some ''Transfer canceled by the user'')
         else if filesInJob = finishedCount then set_to J_FINISHED None
         else if filesInJob = failedCount then set_to J_FAILED (Some sanity_failed_reason)
         else set_to J_FINISHEDDIRTY (Some sanity_failed_reason))"

definition unuse_file :: "file_row \<Rightarrow> file_row" where
  "unuse_file r = r\<lparr>f_file_state := NOT_USED, f_finish_time := None, f_dest_surl_uuid := None, f_reason := ''''\<rparr>"

definition fix_replica_job :: "env \<Rightarrow> job_row \<Rightarrow> db \<Rightarrow> db" where
  "fix_replica_job e j d =
     (let jobId = j_job_id j; cnt = \<lambda>name. stateCount jobId name d; files = length (files_of_job jobId d);
          inconsistent = update_jobs (\<lambda>x. j_job_id x = jobId) (end_sanity_job e J_FAILED (Some ''Inconsistent state found''))
      in if cnt ''FINISHED'' \<ge> 1 then
           update_jobs (\<lambda>x. j_job_id x = jobId) (end_sanity_job e J_FINISHED None)
             (update_files (\<lambda>r. f_file_state r \<in> {ACTIVE, SUBMITTED} \<and> f_job_id r = jobId) unuse_file d)
         else if cnt ''FAILED'' + cnt ''CANCEL'' \<ge> files then inconsistent d
         else if j_job_state j \<in> {J_ACTIVE, J_READY} \<and> cnt ''ACTIVE'' + cnt ''SUBMITTED'' = 0 then inconsistent d
         else d)"

definition fix_unfinished_job :: "env \<Rightarrow> job_row \<Rightarrow> db \<Rightarrow> db" where
  "fix_unfinished_job e j d =
     (let jobId = j_job_id j; cnt = \<lambda>name. stateCount jobId name d; files = length (files_of_job jobId d)
      in if files = 0 then fixEmptyJob e jobId d
         else if job_type_of j \<noteq> kTypeMultipleReplica then
           (if files = cnt ''FINISHED'' + cnt ''FAILED'' + cnt ''CANCEL''
            then fixNonTerminalJob e jobId files (cnt ''CANCEL'') (cnt ''FINISHED'') (cnt ''FAILED'') d else d)
         else fix_replica_job e j d)"

definition fixJobNonTerminallAllFilesTerminal :: "env \<Rightarrow> db \<Rightarrow> db" where
  "fixJobNonTerminallAllFilesTerminal e d = fold (fix_unfinished_job e) (filter (\<lambda>j. j_job_finished j = None) (t_job d)) d"

subsection \<open>Files and deletions\<close>

definition inconsistency_reason :: string where
  "inconsistency_reason = ''Force failure due to file state inconsistency''"

definition running_file :: "file_row \<Rightarrow> bool" where
  "running_file r \<longleftrightarrow> f_file_state r \<in> {SUBMITTED, ACTIVE, STAGING, STARTED}"

definition force_file :: "env \<Rightarrow> file_row \<Rightarrow> file_row" where
  "force_file e r = r\<lparr>f_file_state := FAILED, f_finish_time := Some (now e), f_dest_surl_uuid := None, f_reason := inconsistency_reason\<rparr>"

definition fixJobTerminalFileNonTerminal :: "env \<Rightarrow> db \<Rightarrow> db" where
  "fixJobTerminalFileNonTerminal e d =
     fold (\<lambda>j. update_files (\<lambda>r. running_file r \<and> f_job_id r = j_job_id j) (force_file e))
       (filter (\<lambda>j. j_job_finished j \<noteq> None \<and> (\<exists>r \<in> set (t_file d). f_job_id r = j_job_id j \<and> running_file r)) (t_job d)) d"

definition force_deletion :: "env \<Rightarrow> dm_row \<Rightarrow> dm_row" where
  "force_deletion e r =
     r\<lparr>d_file_state := DM_FAILED, d_job_finished := Some (now e), d_finish_time := Some (now e), d_reason := inconsistency_reason\<rparr>"

definition fixDeleteInconsistencies :: "env \<Rightarrow> db \<Rightarrow> db" where
  "fixDeleteInconsistencies e d =
     fold (\<lambda>j. update_dm (\<lambda>r. d_file_state r \<in> {DM_DELETE, DM_STARTED} \<and> d_job_id r = j_job_id j) (force_deletion e))
       (filter (\<lambda>j. (case j_job_finished j of None \<Rightarrow> False | Some t \<Rightarrow> t \<ge> now e - 24 * 3600) \<and>
                    (\<exists>r \<in> set (t_dm d). d_job_id r = j_job_id j \<and> d_file_state r \<in> {DM_DELETE, DM_STARTED})) (t_job d)) d"

subsection \<open>Dead hosts and stalled operations\<close>

definition forced_report :: "string \<Rightarrow> report" where
  "forced_report reason =
     \<lparr>processId = 0, errorReason = reason, filesize = 0, duration = 0, throughput = 0, will_retry = False, fileMetadata = ''''\<rparr>"

definition force_status :: "env \<Rightarrow> bool \<Rightarrow> job_id \<Rightarrow> nat \<Rightarrow> file_state \<Rightarrow> string \<Rightarrow> db \<Rightarrow> db" where
  "force_status e cu jobId fileId st reason d =
     updateJobTransferStatusInternal e cu jobId st (fst (updateFileTransferStatusInternal e jobId fileId st (forced_report reason) d))"

definition dead_host_reason :: "string \<Rightarrow> string" where
  "dead_host_reason h = ''Transfer has been forced-canceled because host '' @ h @ '' is offline and the transfer is still assigned to it''"

definition recover_host :: "env \<Rightarrow> bool \<Rightarrow> string \<Rightarrow> db \<Rightarrow> db" where
  "recover_host e cu h d =
     fold (\<lambda>r. force_status e cu (f_job_id r) (f_file_id r) CANCELED (dead_host_reason h))
       (filter (\<lambda>r. f_file_state r = ACTIVE \<and> f_transfer_host r = Some h) (t_file d)) d"

definition recoverFromDeadHosts :: "env \<Rightarrow> bool \<Rightarrow> db \<Rightarrow> db" where
  "recoverFromDeadHosts e cu d =
     fold (recover_host e cu) (map h_hostname (filter (\<lambda>h. h_beat h < now e - 120 * 60 \<and> h_service_name h = ''fts_server'') (t_hosts d))) d"

definition staging_reason :: string where
  "staging_reason = ''Transfer has been forced-canceled because it has been in staging started state beyond its bringonline timeout''"

definition archiving_reason :: string where
  "archiving_reason = ''Transfer has been forced-canceled because it has been in ARCHIVING state beyond its archive timeout''"

text \<open>The files of a rowset joined with their jobs.\<close>

definition file_join :: "(file_row \<Rightarrow> bool) \<Rightarrow> db \<Rightarrow> (file_row \<times> job_row) list" where
  "file_join P d = concat (map (\<lambda>r. map (Pair r) (filter (\<lambda>j. j_job_id j = f_job_id r) (t_job d))) (filter P (t_file d)))"

definition stage_expired :: "env \<Rightarrow> timestamp option \<Rightarrow> int option \<Rightarrow> bool" where
  "stage_expired e start allowed \<longleftrightarrow> now e - or_default 0 start > or_default 0 allowed + 800"

definition recoverStalledStaging :: "env \<Rightarrow> bool \<Rightarrow> db \<Rightarrow> db" where
  "recoverStalledStaging e cu d =
     fold (\<lambda>(r, j) d. if stage_expired e (f_staging_start r) (j_bring_online j)
             then update_files (\<lambda>x. f_file_id x = f_file_id r) (\<lambda>x. x\<lparr>f_staging_finished := Some (now e), f_dest_surl_uuid := None\<rparr>)
                    (force_status e cu (j_job_id j) (f_file_id r) FAILED staging_reason d) else d)
       (file_join (\<lambda>r. f_file_state r = STARTED) d) d"

definition recoverStalledArchiving :: "env \<Rightarrow> bool \<Rightarrow> db \<Rightarrow> db" where
  "recoverStalledArchiving e cu d =
     fold (\<lambda>(r, j) d. if stage_expired e (f_archive_start_time r) (j_archive_timeout j)
             then update_files (\<lambda>x. f_file_id x = f_file_id r) (\<lambda>x. x\<lparr>f_archive_finish_time := Some (now e), f_dest_surl_uuid := None\<rparr>)
                    (force_status e cu (j_job_id j) (f_file_id r) FAILED archiving_reason d) else d)
       (file_join (\<lambda>r. f_file_state r = ARCHIVING \<and> f_archive_start_time r \<noteq> None) d) d"

definition fix_states :: "env \<Rightarrow> db \<Rightarrow> db" where
  "fix_states e d = fixDeleteInconsistencies e (fixJobTerminalFileNonTerminal e (fixJobNonTerminallAllFilesTerminal e d))"

definition checkSanityState :: "env \<Rightarrow> bool \<Rightarrow> nat \<times> nat \<Rightarrow> db \<Rightarrow> db" where
  "checkSanityState e cu seg d =
     (if fst seg \<noteq> 0 then d
      else recoverStalledArchiving e cu (recoverStalledStaging e cu (recoverFromDeadHosts e cu (fix_states e d))))"

subsection \<open>Multi-hop jobs\<close>

text \<open>
  \<^verbatim>\<open>MAX(file_index)\<close> of no rows is NULL. When no file has the next index, the string of the state stays
  empty.
\<close>

definition fix_stuck_hop :: "job_id \<Rightarrow> db \<Rightarrow> db" where
  "fix_stuck_hop jobId d =
     (case sql_max (List.map_filter f_file_index (filter (\<lambda>r. f_file_state r = FINISHED) (files_of_job jobId d))) of
        None \<Rightarrow> d
      | Some k \<Rightarrow>
          (case select_first (\<lambda>r. f_job_id r = jobId \<and> f_file_index r = Some (k + 1)) (t_file d) of
             None \<Rightarrow> d
           | Some r \<Rightarrow>
               if f_file_state r = NOT_USED
               then update_files (\<lambda>x. f_file_index x = Some (k + 1) \<and> f_job_id x = jobId) (\<lambda>x. x\<lparr>f_file_state := SUBMITTED\<rparr>) d
               else d))"

definition multihopSanitySate :: "nat \<times> nat \<Rightarrow> db \<Rightarrow> db" where
  "multihopSanitySate seg d =
     (if fst seg \<noteq> 0 then d
      else fold (\<lambda>j. fix_stuck_hop (j_job_id j))
             (filter (\<lambda>j. j_job_state j \<in> {J_SUBMITTED, J_ACTIVE} \<and> j_job_type j = Some kTypeMultiHop) (t_job d)) d)"

subsection \<open>The service\<close>

text \<open>
  A second of \<^verbatim>\<open>CleanerService::runService\<close>: the counter, and the checks that are due. The purge of the
  spool directories is left out.
\<close>

record cleaner_config =
  cc_checkSanityState :: int
  cc_multihopSanitySate :: int

definition due :: "int \<Rightarrow> int \<Rightarrow> bool" where
  "due interval1 counter \<longleftrightarrow> interval1 > 0 \<and> counter mod interval1 = 0"

definition cleaner_turn :: "cleaner_config \<Rightarrow> env \<Rightarrow> bool \<Rightarrow> nat \<times> nat \<Rightarrow> int \<times> db \<Rightarrow> int \<times> db" where
  "cleaner_turn cfg e cu seg cd =
     (case cd of (c, d) \<Rightarrow>
      let c1 = c + 1;
          d1 = (if due (cc_checkSanityState cfg) c1 then checkSanityState e cu seg d else d);
          d2 = (if due (cc_multihopSanitySate cfg) c1 then multihopSanitySate seg d1 else d1)
      in (c1, d2))"

subsection \<open>Terminal states survive\<close>

lemma file_operation_cases:
  "file_operation f \<Longrightarrow> file_operation g \<Longrightarrow> file_operation (\<lambda>d. if b d then f d else g d)"
  by unfold_locales (simp_all add: file_operation.keeps_wf file_operation.keeps_frozen)

lemma file_operation_rowset: "(\<And>x. file_operation (f x)) \<Longrightarrow> file_operation (\<lambda>d. fold f (rows d) d)"
  by (rule file_operationI) (blast intro: file_operation_fold)

lemma update_dm_operation: "file_operation (update_dm P f)"
  by (rule file_operation_tables) simp_all

lemma end_sanity_job_id [simp]: "j_job_id (end_sanity_job e st reason j) = j_job_id j"
  by (simp add: end_sanity_job_def)

lemma ended_operation: "file_operation (update_jobs P (end_sanity_job e st reason))"
  by (rule file_operation_update_jobs) simp

lemma fixNonTerminalJob_operation: "file_operation (fixNonTerminalJob e jobId n c f x)"
  unfolding fixNonTerminalJob_def Let_def by (auto intro!: ended_operation)

lemma unuse_operation: "file_operation (update_files (\<lambda>r. f_file_state r \<in> {ACTIVE, SUBMITTED} \<and> f_job_id r = jobId) unuse_file)"
  by (rule file_operation_update [OF keeps_keysI clears_uuidI]) (simp_all add: unuse_file_def terminal_file_def, (elim conjE disjE; simp))

lemma fix_unfinished_operation: "file_operation (fix_unfinished_job e j)"
proof -
  have "file_operation (\<lambda>d. fixNonTerminalJob e jobId (n d) (c d) (f d) (x d) d)" for jobId n c f x
    by (rule file_operationI) (blast intro: fixNonTerminalJob_operation)
  moreover have "file_operation (fix_replica_job e j)"
    unfolding fix_replica_job_def [abs_def] Let_def
    by (intro file_operation_cases file_operation_comp [OF unuse_operation ended_operation] ended_operation file_operation_id)
  ultimately show ?thesis
    unfolding fix_unfinished_job_def [abs_def] Let_def fixEmptyJob_def
    by (intro file_operation_cases ended_operation file_operation_id)
qed

lemma force_file_operation: "file_operation (update_files (\<lambda>r. running_file r \<and> f_job_id r = jobId) (force_file e))"
  by (rule file_operation_update [OF keeps_keysI clears_uuidI]) (simp_all add: force_file_def terminal_file_def running_file_def, (elim conjE disjE; simp))

lemma fix_states_operation: "file_operation (fix_states e)"
  unfolding fix_states_def [abs_def] fixJobNonTerminallAllFilesTerminal_def [abs_def] fixJobTerminalFileNonTerminal_def [abs_def]
    fixDeleteInconsistencies_def [abs_def]
  by (rule file_operation_comp [OF file_operation_comp [OF file_operation_rowset [OF fix_unfinished_operation]
        file_operation_rowset [OF force_file_operation]] file_operation_rowset [OF update_dm_operation]])

lemma force_status_operation: "file_operation (force_status e cu jobId fileId st reason)"
  unfolding force_status_def [abs_def]
  by (rule file_operation_comp [OF file_status.file_operation_axioms job_status.file_operation_axioms])

lemma recover_operation:
  "file_operation (recoverFromDeadHosts e cu)" "file_operation (recoverStalledStaging e cu)" "file_operation (recoverStalledArchiving e cu)"
proof -
  have "file_operation (recover_host e cu h)" for h
    unfolding recover_host_def [abs_def] by (rule file_operation_rowset) (rule force_status_operation)
  then show "file_operation (recoverFromDeadHosts e cu)"
    unfolding recoverFromDeadHosts_def [abs_def] by (rule file_operation_rowset)
  have stamp: "file_operation (update_files P (\<lambda>x. x\<lparr>f_staging_finished := t, f_dest_surl_uuid := None\<rparr>))"
    "file_operation (update_files P (\<lambda>x. x\<lparr>f_archive_finish_time := t, f_dest_surl_uuid := None\<rparr>))" for P t
    by (rule file_operation_update [OF keeps_keysI clears_uuidI]; simp)+
  show "file_operation (recoverStalledStaging e cu)" "file_operation (recoverStalledArchiving e cu)"
    unfolding recoverStalledStaging_def [abs_def] recoverStalledArchiving_def [abs_def] case_prod_beta
    by (rule file_operation_rowset, intro file_operation_if file_operation_id file_operation_comp [OF force_status_operation] stamp)+
qed

interpretation sanity: file_operation "checkSanityState e cu seg"
  unfolding checkSanityState_def [abs_def]
  by (rule file_operation_if [OF file_operation_id file_operation_comp [OF file_operation_comp [OF file_operation_comp
          [OF fix_states_operation recover_operation(1)] recover_operation(2)] recover_operation(3)]])

text \<open>The deletions do not touch the files at all.\<close>

interpretation deletions: file_operation "\<lambda>d. fst (updateDeletionsStateInternal e ops d)"
proof -
  have loop: "file_operation (\<lambda>d. fst (delete_loop e d ops (d, True)))"
    by (rule file_operation_tables) (simp_all add: delete_loop_tables)
  have "file_operation (update_delete_job e jobId)" for jobId
    unfolding update_delete_job_def [abs_def] by (rule file_operationI) (blast intro: file_operation_update_jobs delete_job_change_id)
  then have jobs: "file_operation (fold (update_delete_job e) js)" for js
    by (rule file_operation_fold)
  have eq: "(\<lambda>d. fst (updateDeletionsStateInternal e ops d)) =
      (\<lambda>d. if snd (delete_loop e d ops (d, True)) = None
           then fold (update_delete_job e) (rev (remdups (rev (map md_jobId ops)))) (fst (delete_loop e d ops (d, True)))
           else fst (delete_loop e d ops (d, True)))"
    by (auto simp: updateDeletionsStateInternal_def fun_eq_iff split: prod.split option.split)
  show "file_operation (\<lambda>d. fst (updateDeletionsStateInternal e ops d))"
    unfolding eq by (rule file_operation_cases [OF file_operation_comp [OF loop jobs] loop])
qed

subsection \<open>What the checks repair\<close>

text \<open>The check of one job leaves the other jobs, their files and the deletions alone.\<close>

definition leaves_job :: "job_id \<Rightarrow> db \<Rightarrow> db \<Rightarrow> bool" where
  "leaves_job k d d' \<longleftrightarrow> job_by_id k d' = job_by_id k d \<and> files_of_job k d' = files_of_job k d \<and> t_dm d' = t_dm d"

lemma leaves_job_refl [simp]: "leaves_job k d d"
  by (simp add: leaves_job_def)

lemma leaves_job_trans: "leaves_job k d d1 \<Longrightarrow> leaves_job k d1 d2 \<Longrightarrow> leaves_job k d d2"
  by (simp add: leaves_job_def)

lemma leaves_ended:
  assumes "\<And>j. P j \<Longrightarrow> j_job_id j \<noteq> k"
  shows "leaves_job k d (update_jobs P (end_sanity_job e st reason) d)"
proof -
  have "map_option (\<lambda>r. if P r then end_sanity_job e st reason r else r) (job_by_id k d) = job_by_id k d"
    using assms by (cases "job_by_id k d") (auto dest: job_by_id_Some)
  then show ?thesis
    by (simp add: leaves_job_def job_by_id_update_jobs files_of_job_def)
qed

lemma leaves_unused:
  assumes "i \<noteq> k"
  shows "leaves_job k d (update_files (\<lambda>r. f_file_state r \<in> {ACTIVE, SUBMITTED} \<and> f_job_id r = i) unuse_file d)"
proof -
  have "filter (\<lambda>r. f_job_id r = k) (update_where (\<lambda>r. Q r \<and> f_job_id r = i) unuse_file rows) = filter (\<lambda>r. f_job_id r = k) rows" for Q rows
    using assms by (induction rows) (simp_all add: unuse_file_def)
  then show ?thesis
    by (simp add: leaves_job_def files_of_job_def update_files_def job_by_id_def)
qed

lemma leaves_fixed:
  assumes "i \<noteq> k"
  shows "leaves_job k d (update_jobs (\<lambda>x. j_job_id x = i) (end_sanity_job e st reason) d)"
    "leaves_job k d (update_jobs (\<lambda>x. j_job_id x = i \<and> j_job_state x \<noteq> st) (end_sanity_job e st reason) d)"
  by (rule leaves_ended, use assms in blast)+

lemma fix_leaves_others:
  assumes "j_job_id j \<noteq> k"
  shows "leaves_job k d (fix_unfinished_job e j d)"
proof -
  note fixed = leaves_fixed [OF assms]
  have "leaves_job k d (fixNonTerminalJob e (j_job_id j) n c f x d)" for n c f x
    unfolding fixNonTerminalJob_def Let_def by (auto intro: fixed)
  moreover have "leaves_job k d (fix_replica_job e j d)"
    unfolding fix_replica_job_def Let_def
    by (auto intro: fixed leaves_job_trans [OF leaves_unused [OF assms] fixed(1), simplified])
  ultimately show ?thesis
    unfolding fix_unfinished_job_def Let_def fixEmptyJob_def by (auto intro: fixed)
qed

lemma fold_fix_leaves: "k \<notin> j_job_id ` set js \<Longrightarrow> leaves_job k d (fold (fix_unfinished_job e) js d)"
proof (induction js arbitrary: d)
  case (Cons j js)
  then have "leaves_job k d (fix_unfinished_job e j d)"
    by (intro fix_leaves_others) auto
  then show ?case
    using Cons leaves_job_trans by simp
qed simp

lemma fix_jobs_own:
  assumes "wf_db d" "job_by_id k d = Some j" "j_job_finished j = None"
  shows "\<exists>d1. leaves_job k d d1 \<and> leaves_job k (fix_unfinished_job e j d1) (fixJobNonTerminallAllFilesTerminal e d)"
proof -
  define js where "js = filter (\<lambda>j. j_job_finished j = None) (t_job d)"
  have j: "j \<in> set js" "j_job_id j = k"
    using assms(2,3) by (auto simp: js_def dest: job_by_id_Some)
  then obtain as bs where js: "js = as @ j # bs"
    by (meson split_list)
  have "distinct (map j_job_id js)"
    using assms(1) unfolding js_def wf_db_def by (simp add: distinct_map_filter)
  then have "k \<notin> j_job_id ` set as" "k \<notin> j_job_id ` set bs"
    using j(2) by (auto simp: js)
  then show ?thesis
    using fold_fix_leaves [of k as d e] fold_fix_leaves [of k bs "fix_unfinished_job e j (fold (fix_unfinished_job e) as d)" e]
    by (intro exI [of _ "fold (fix_unfinished_job e) as d"]) (simp add: fixJobNonTerminallAllFilesTerminal_def js_def [symmetric] js)
qed

lemma fold_dm_jobs: "job_by_id k (fold (\<lambda>j. update_dm (P j) f) js d) = job_by_id k d"
  by (induction js arbitrary: d) simp_all

lemma fold_files_jobs: "job_by_id k (fold (\<lambda>j. update_files (P j) f) js d) = job_by_id k d"
  by (induction js arbitrary: d) simp_all

lemma job_by_id_fix_states: "job_by_id k (fix_states e d) = job_by_id k (fixJobNonTerminallAllFilesTerminal e d)"
  unfolding fix_states_def fixDeleteInconsistencies_def fixJobTerminalFileNonTerminal_def by (simp add: fold_dm_jobs fold_files_jobs)

lemma stateCount_files: "files_of_job k d = files_of_job k d' \<Longrightarrow> stateCount k name d = stateCount k name d'"
  by (simp add: stateCount_def)

lemma stateCount_cancel [simp]: "stateCount k ''CANCEL'' d = 0"
proof -
  have "state_name st \<noteq> ''CANCEL''" for st
    by (cases st) simp_all
  then show ?thesis
    by (simp add: stateCount_def)
qed

lemma state_name_terminal [simp]:
  "state_name st = ''FINISHED'' \<longleftrightarrow> st = FINISHED" "state_name st = ''FAILED'' \<longleftrightarrow> st = FAILED"
  by (cases st; simp)+

lemma stateCount_terminal:
  assumes "\<forall>r \<in> set (files_of_job k d). f_file_state r \<in> {FINISHED, FAILED}"
  shows "length (files_of_job k d) = stateCount k ''FINISHED'' d + stateCount k ''FAILED'' d"
proof -
  have "length rows = length (filter (\<lambda>r. state_name (f_file_state r) = ''FINISHED'') rows) + length (filter (\<lambda>r. state_name (f_file_state r) = ''FAILED'') rows)"
    if "\<forall>r \<in> set rows. f_file_state r \<in> {FINISHED, FAILED}" for rows
    using that by (induction rows) auto
  then show ?thesis
    using assms by (simp add: stateCount_def)
qed

text \<open>What the outcomes of the files make of a job.\<close>

definition sanity_verdict :: "file_state set \<Rightarrow> job_state" where
  "sanity_verdict S = (if S = {FINISHED} then J_FINISHED else if S = {FAILED} then J_FAILED else J_FINISHEDDIRTY)"

lemma stateCount_verdict:
  assumes "files_of_job k d \<noteq> []" "\<forall>r \<in> set (files_of_job k d). f_file_state r \<in> {FINISHED, FAILED}"
  shows "sanity_verdict (f_file_state ` set (files_of_job k d)) =
    (if length (files_of_job k d) = stateCount k ''FINISHED'' d then J_FINISHED
     else if length (files_of_job k d) = stateCount k ''FAILED'' d then J_FAILED else J_FINISHEDDIRTY)"
proof -
  define S where "S = f_file_state ` set (files_of_job k d)"
  have S: "S \<noteq> {}" "S \<subseteq> {FINISHED, FAILED}"
    using assms by (auto simp: S_def)
  have "stateCount k ''FAILED'' d = 0 \<longleftrightarrow> FAILED \<notin> S" "stateCount k ''FINISHED'' d = 0 \<longleftrightarrow> FINISHED \<notin> S"
    by (auto simp: stateCount_def S_def filter_empty_conv image_iff)
  moreover have "S = {FINISHED} \<longleftrightarrow> FAILED \<notin> S" "S = {FAILED} \<longleftrightarrow> FINISHED \<notin> S"
    using S by auto
  ultimately show ?thesis
    unfolding S_def [symmetric] sanity_verdict_def stateCount_terminal [OF assms(2)] by auto
qed

text \<open>
  C34: After the checks a job that was left unfinished although all its files have finished or failed is
  in the state their outcomes demand (multiple-replica jobs apart).
\<close>

theorem sanity_settles_job:
  assumes "wf_db d" "job_by_id k d = Some j" "j_job_finished j = None" "job_type_of j \<noteq> kTypeMultipleReplica"
    and "files_of_job k d \<noteq> []" "\<forall>r \<in> set (files_of_job k d). f_file_state r \<in> {FINISHED, FAILED}"
  shows "map_option j_job_state (job_by_id k (fix_states e d)) = Some (sanity_verdict (f_file_state ` set (files_of_job k d)))"
proof -
  obtain d1 where d1: "leaves_job k d d1" "leaves_job k (fix_unfinished_job e j d1) (fixJobNonTerminallAllFilesTerminal e d)"
    using fix_jobs_own [OF assms(1-3)] by blast
  have k: "j_job_id j = k" "job_by_id k d1 = Some j" and files: "files_of_job k d1 = files_of_job k d"
    using d1(1) assms(2) by (auto simp: leaves_job_def dest: job_by_id_Some)
  have "fix_unfinished_job e j d1 =
      fixNonTerminalJob e k (length (files_of_job k d)) 0 (stateCount k ''FINISHED'' d) (stateCount k ''FAILED'' d) d1"
    using assms(4,5) stateCount_terminal [OF assms(6)] stateCount_files [OF files]
    by (simp add: fix_unfinished_job_def Let_def k(1) files)
  then have "map_option j_job_state (job_by_id k (fix_unfinished_job e j d1)) = Some (sanity_verdict (f_file_state ` set (files_of_job k d)))"
    using stateCount_verdict [OF assms(5,6)] k
    by (simp add: fixNonTerminalJob_def Let_def job_by_id_update_jobs) (simp add: end_sanity_job_def)
  then show ?thesis
    using d1(2) by (simp add: job_by_id_fix_states leaves_job_def)
qed

text \<open>
  The name CANCEL belongs to no state, so a job with a cancelled file never counts as complete and is
  left as it is.
\<close>

lemma canceled_job_not_settled:
  assumes "wf_db d" "job_by_id k d = Some j" "j_job_finished j = None" "job_type_of j \<noteq> kTypeMultipleReplica"
    and "\<exists>r \<in> set (files_of_job k d). f_file_state r = CANCELED"
  shows "job_by_id k (fix_states e d) = Some j"
proof -
  obtain d1 where d1: "leaves_job k d d1" "leaves_job k (fix_unfinished_job e j d1) (fixJobNonTerminallAllFilesTerminal e d)"
    using fix_jobs_own [OF assms(1-3)] by blast
  have k: "j_job_id j = k" "job_by_id k d1 = Some j" and files: "files_of_job k d1 = files_of_job k d"
    using d1(1) assms(2) by (auto simp: leaves_job_def dest: job_by_id_Some)
  have "length (filter (\<lambda>r. f_file_state r = FINISHED) rows) + length (filter (\<lambda>r. f_file_state r = FAILED) rows) < length rows"
    if "\<exists>r \<in> set rows. f_file_state r = CANCELED" for rows
    using that
  proof (induction rows)
    case (Cons r rows)
    have "length (filter (\<lambda>r. f_file_state r = FINISHED) rows) + length (filter (\<lambda>r. f_file_state r = FAILED) rows) \<le> length rows"
      by (induction rows) auto
    with Cons show ?case by auto
  qed simp
  then have "stateCount k ''FINISHED'' d1 + stateCount k ''FAILED'' d1 < length (files_of_job k d1)"
    using assms(5) unfolding stateCount_def state_name_terminal files by blast
  then have "fix_unfinished_job e j d1 = d1"
    using assms(4,5) by (auto simp: fix_unfinished_job_def Let_def k(1) files)
  then show ?thesis
    using d1(2) k(2) by (simp add: job_by_id_fix_states leaves_job_def)
qed

subsubsection \<open>Files of finished jobs\<close>

lemma fold_update_keyed:
  assumes "\<And>r. \<not> P (f r)"
  shows "fold (\<lambda>k. update_where (\<lambda>r. P r \<and> key r = k) f) ks rows = map (\<lambda>r. if P r \<and> key r \<in> set ks then f r else r) rows"
proof (induction ks arbitrary: rows)
  case (Cons k ks)
  have "fold (\<lambda>k. update_where (\<lambda>r. P r \<and> key r = k) f) (k # ks) rows =
      map ((\<lambda>r. if P r \<and> key r \<in> set ks then f r else r) \<circ> (\<lambda>r. if P r \<and> key r = k then f r else r)) rows"
    by (simp add: Cons.IH update_where_def)
  also have "\<dots> = map (\<lambda>r. if P r \<and> key r \<in> set (k # ks) then f r else r) rows"
    using assms by (intro map_cong) auto
  finally show ?case .
qed simp

lemma fold_force_files:
  "t_file (fold (\<lambda>j. update_files (\<lambda>r. running_file r \<and> f_job_id r = j_job_id j) (force_file e)) js d) =
     map (\<lambda>r. if running_file r \<and> f_job_id r \<in> j_job_id ` set js then force_file e r else r) (t_file d)"
proof -
  have "t_file (fold (\<lambda>j. update_files (\<lambda>r. running_file r \<and> f_job_id r = j_job_id j) (force_file e)) js d) =
      fold (\<lambda>k. update_where (\<lambda>r. running_file r \<and> f_job_id r = k) (force_file e)) (map j_job_id js) (t_file d)"
    by (induction js arbitrary: d) simp_all
  moreover have "\<not> running_file (force_file e r)" for r
    by (simp add: running_file_def force_file_def)
  ultimately show ?thesis
    by (simp add: fold_update_keyed)
qed

lemma fold_dm_files [simp]: "t_file (fold (\<lambda>j. update_dm (P j) f) js d) = t_file d"
  by (induction js arbitrary: d) simp_all

text \<open>
  After the checks no file of a finished job waits, is staged or is transferred.
\<close>

lemma sanity_no_running_file:
  assumes "wf_db d" "r \<in> set (t_file (fix_states e d))" "job_by_id (f_job_id r) (fix_states e d) = Some j" "j_job_finished j \<noteq> None"
  shows "f_file_state r \<notin> {SUBMITTED, ACTIVE, STAGING, STARTED}"
proof
  assume "f_file_state r \<in> {SUBMITTED, ACTIVE, STAGING, STARTED}"
  then have run: "running_file r"
    by (simp add: running_file_def)
  define d1 js where "d1 = fixJobNonTerminallAllFilesTerminal e d"
    and "js = filter (\<lambda>j. j_job_finished j \<noteq> None \<and> (\<exists>r \<in> set (t_file d1). f_job_id r = j_job_id j \<and> running_file r)) (t_job d1)"
  have "t_file (fix_states e d) = map (\<lambda>r. if running_file r \<and> f_job_id r \<in> j_job_id ` set js then force_file e r else r) (t_file d1)"
    unfolding fix_states_def fixDeleteInconsistencies_def fold_dm_files fixJobTerminalFileNonTerminal_def fold_force_files d1_def js_def ..
  then obtain r1 where r1: "r1 \<in> set (t_file d1)" "r = (if running_file r1 \<and> f_job_id r1 \<in> j_job_id ` set js then force_file e r1 else r1)"
    using assms(2) by auto
  then have r: "r = r1" "f_job_id r \<notin> j_job_id ` set js"
    using run by (auto simp: running_file_def force_file_def split: if_splits)
  have "j \<in> set (t_job d1)" "j_job_id j = f_job_id r"
    using assms(3) by (auto simp: job_by_id_fix_states d1_def dest: job_by_id_Some)
  then have "j \<in> set js"
    using assms(4) run r(1) r1(1) by (auto simp: js_def)
  with r(2) \<open>j_job_id j = f_job_id r\<close> show False
    by (metis imageI)
qed

subsubsection \<open>Deletion jobs\<close>

lemma fold_force_deletions:
  "t_dm (fold (\<lambda>j. update_dm (\<lambda>r. d_file_state r \<in> {DM_DELETE, DM_STARTED} \<and> d_job_id r = j_job_id j) (force_deletion e)) js d) =
     map (\<lambda>r. if d_file_state r \<in> {DM_DELETE, DM_STARTED} \<and> d_job_id r \<in> j_job_id ` set js then force_deletion e r else r) (t_dm d)"
proof -
  have "t_dm (fold (\<lambda>j. update_dm (\<lambda>r. d_file_state r \<in> {DM_DELETE, DM_STARTED} \<and> d_job_id r = j_job_id j) (force_deletion e)) js d) =
      fold (\<lambda>k. update_where (\<lambda>r. d_file_state r \<in> {DM_DELETE, DM_STARTED} \<and> d_job_id r = k) (force_deletion e)) (map j_job_id js) (t_dm d)"
    by (induction js arbitrary: d) simp_all
  moreover have "d_file_state (force_deletion e r) \<notin> {DM_DELETE, DM_STARTED}" for r
    by (simp add: force_deletion_def)
  ultimately show ?thesis
    using fold_update_keyed [of "\<lambda>r. d_file_state r \<in> {DM_DELETE, DM_STARTED}" "force_deletion e" d_job_id "map j_job_id js" "t_dm d"] by simp
qed

lemma fold_files_dm [simp]: "t_dm (fold (\<lambda>j. update_files (P j) f) js d) = t_dm d"
  by (induction js arbitrary: d) (simp_all add: update_files_def)


subsection \<open>Examples\<close>

definition sample_forgotten_db :: db where
  "sample_forgotten_db = sample_db [sample_file 1 ''j'' 0 FINISHED, sample_file 2 ''j'' 1 FAILED, sample_file 3 ''k'' 0 ACTIVE]
     [sample_job ''j'' None J_ACTIVE, sample_job ''k'' None J_ACTIVE]"

theorem sanity_settles_job_witness:
  "map_option j_job_state (job_by_id ''j'' (fix_states sample_env sample_forgotten_db)) = Some J_FINISHEDDIRTY"
proof -
  have "wf_db sample_forgotten_db"
    by (simp add: sample_forgotten_db_def wf_db_def List.map_filter_simps)
  moreover have "job_by_id ''j'' sample_forgotten_db = Some (sample_job ''j'' None J_ACTIVE)"
    by (simp add: sample_forgotten_db_def job_by_id_def)
  moreover have files: "files_of_job ''j'' sample_forgotten_db = [sample_file 1 ''j'' 0 FINISHED, sample_file 2 ''j'' 1 FAILED]"
    by (simp add: sample_forgotten_db_def files_of_job_def)
  moreover have "j_job_finished (sample_job ''j'' None J_ACTIVE) = None" "job_type_of (sample_job ''j'' None J_ACTIVE) \<noteq> kTypeMultipleReplica"
    by (simp_all add: sample_job_def job_type_of_def)
  ultimately show ?thesis
    using sanity_settles_job [of sample_forgotten_db "''j''" "sample_job ''j'' None J_ACTIVE" sample_env]
    by (auto simp: sanity_verdict_def doubleton_eq_iff)
qed


end
