(* ===== verification/HeartBeat.thy ===== *)
theory HeartBeat
  imports Schema "HOL-Library.Word"
begin

section \<open>Heart beat: how the servers share the queue\<close>

text \<open>
  \<^verbatim>\<open>src/db/mysql/MySqlAPI.cpp\<close>, \<open>updateHeartBeatInternal\<close>, and
  \<^verbatim>\<open>src/server/services/heartbeat/HeartBeat.cpp\<close>.

  Every file has a random \<^verbatim>\<open>hashed_id\<close>. A server beats by writing its row of \<^verbatim>\<open>t_hosts\<close>, counts
  the servers whose beat is recent, finds its place among them and takes the part of the
  range 0..65535 that belongs to that place. The four numbers are \<^verbatim>\<open>unsigned\<close>: 32 bit words.
  A division by zero, which ends the process, is \<open>None\<close>.
\<close>

record heartbeat =
  hb_index :: "32 word"
  hb_count :: "32 word"
  hb_start :: "32 word"
  hb_end :: "32 word"

definition UINT16_MAX :: "32 word" where
  "UINT16_MAX = 65535"

text \<open>\<open>getHashedId\<close>; the value of \<^verbatim>\<open>thread_random\<close> is the argument.\<close>

definition getHashedId :: "32 word \<Rightarrow> 32 word" where
  "getHashedId r = r mod UINT16_MAX"

text \<open>The start and end of a segment, from the number of servers and the place of this one.\<close>

definition hash_segment :: "32 word \<Rightarrow> 32 word \<Rightarrow> (32 word \<times> 32 word) option" where
  "hash_segment cnt idx =
     (if cnt = 0 then None
      else
        let segsize = UINT16_MAX div cnt;
            segmod = UINT16_MAX mod cnt;
            start = segsize * idx;
            last = segsize * (idx + 1) - 1
        in Some (start, if idx = cnt - 1 then last + (segmod + 1) else last))"

text \<open>\<^verbatim>\<open>INSERT .. ON DUPLICATE KEY UPDATE beat\<close>; the key is the host and the service.\<close>

definition same_host :: "string \<Rightarrow> string \<Rightarrow> host_row \<Rightarrow> bool" where
  "same_host host service h \<longleftrightarrow> h_hostname h = host \<and> h_service_name h = service"

definition beat :: "env \<Rightarrow> string \<Rightarrow> host_row list \<Rightarrow> host_row list" where
  "beat e service hosts =
     (if select_first (same_host (hostname e) service) hosts = None
      then hosts @ [\<lparr>h_hostname = hostname e, h_service_name = service, h_beat = now e, h_drain = False\<rparr>]
      else update_where (same_host (hostname e) service) (\<lambda>h. h\<lparr>h_beat := now e\<rparr>) hosts)"

text \<open>The servers that count, in the order of their names.\<close>

definition live_host :: "timestamp \<Rightarrow> int \<Rightarrow> string \<Rightarrow> host_row \<Rightarrow> bool" where
  "live_host t grace service h \<longleftrightarrow> h_beat h \<ge> t - grace \<and> h_service_name h = service"

definition live_hosts :: "timestamp \<Rightarrow> int \<Rightarrow> string \<Rightarrow> host_row list \<Rightarrow> string list" where
  "live_hosts t grace service hosts = sort (map h_hostname (filter (live_host t grace service) hosts))"

text \<open>The loop over them: the place of this host, and whether it was met.\<close>

fun host_index :: "string \<Rightarrow> string list \<Rightarrow> nat \<times> bool" where
  "host_index host [] = (0, False)"
| "host_index host (h # hs) =
     (if h = host then (0, True) else (case host_index host hs of (i, found) \<Rightarrow> (Suc i, found)))"

definition stale_host :: "timestamp \<Rightarrow> host_row \<Rightarrow> bool" where
  "stale_host t h \<longleftrightarrow> (h_beat h \<le> t - 120 * 60 \<and> \<not> h_drain h) \<or> h_beat h \<le> t - 15 * 86400"

definition updateHeartBeatInternal :: "env \<Rightarrow> int \<Rightarrow> string \<Rightarrow> db \<Rightarrow> (db \<times> heartbeat) option" where
  "updateHeartBeatInternal e grace service d =
     (let d1 = d\<lparr>t_hosts := beat e service (t_hosts d)\<rparr>;
          hosts = live_hosts (now e) grace service (t_hosts d1)
      in case host_index (hostname e) hosts of (i, found) \<Rightarrow>
         let idx = of_nat i; cnt = (if found then of_nat (length hosts) else 0) in
         (case hash_segment cnt idx of
           None \<Rightarrow> None
         | Some (start, fin) \<Rightarrow>
             Some (if start = 0 then d1\<lparr>t_hosts := filter (\<lambda>h. \<not> stale_host (now e) h) (t_hosts d1)\<rparr> else d1,
                   \<lparr>hb_index = idx, hb_count = cnt, hb_start = start, hb_end = fin\<rparr>)))"

subsection \<open>The service\<close>

text \<open>Seconds since the critical threads last reported; a \<^verbatim>\<open>difftime\<close> of whole seconds is exact.\<close>

definition criticalThreadExpired :: "timestamp \<Rightarrow> timestamp \<Rightarrow> timestamp \<Rightarrow> timestamp \<Rightarrow> bool" where
  "criticalThreadExpired t retrieveRecords updateRecords stallRecords \<longleftrightarrow>
     t - retrieveRecords > 7200 \<or> t - updateRecords > 7200 \<or> t - stallRecords > 10000"

definition isLeadNode :: "bool \<Rightarrow> bool \<Rightarrow> heartbeat \<Rightarrow> bool" where
  "isLeadNode drainMode bypassDraining hb \<longleftrightarrow>
     (if drainMode \<and> \<not> bypassDraining then False else hb_index hb = 0)"

text \<open>
  One turn of \<open>runService\<close>: nothing while draining, the process ends when a critical thread is
  stalled, a beat otherwise.
\<close>

datatype turn = Draining | Shutdown | Beaten db heartbeat | Crashed

definition heartbeat_turn ::
  "bool \<Rightarrow> timestamp \<Rightarrow> timestamp \<Rightarrow> timestamp \<Rightarrow> env \<Rightarrow> int \<Rightarrow> db \<Rightarrow> turn" where
  "heartbeat_turn drainMode retrieveRecords updateRecords stallRecords e grace d =
     (if drainMode then Draining
      else if criticalThreadExpired (now e) retrieveRecords updateRecords stallRecords then Shutdown
      else case updateHeartBeatInternal e grace ''fts_server'' d of
             None \<Rightarrow> Crashed | Some (d', hb) \<Rightarrow> Beaten d' hb)"

text \<open>The table's primary key, and a table with three servers.\<close>

definition wf_hosts :: "db \<Rightarrow> bool" where
  "wf_hosts d \<longleftrightarrow> distinct (map (\<lambda>h. (h_hostname h, h_service_name h)) (t_hosts d))"

definition sample_hosts_db :: db where
  "sample_hosts_db = (sample_db [] [])\<lparr>t_hosts :=
     [\<lparr>h_hostname = ''c'', h_service_name = ''fts_server'', h_beat = 990, h_drain = False\<rparr>,
      \<lparr>h_hostname = ''a'', h_service_name = ''fts_server'', h_beat = 995, h_drain = False\<rparr>,
      \<lparr>h_hostname = ''b'', h_service_name = ''fts_server'', h_beat = 980, h_drain = False\<rparr>]\<rparr>"

subsection \<open>The segments\<close>

text \<open>The segments as natural numbers.\<close>

definition segment_start :: "nat \<Rightarrow> nat \<Rightarrow> nat" where
  "segment_start n i = 65535 div n * i"

definition segment_end :: "nat \<Rightarrow> nat \<Rightarrow> nat" where
  "segment_end n i = (if i = n - 1 then 65535 else 65535 div n * (i + 1) - 1)"

lemma unat_of_nat_small: "k < 2 ^ 32 \<Longrightarrow> unat (of_nat k :: 32 word) = k"
  by (simp add: unat_of_nat)

lemma of_nat_eq_small: "a < 2 ^ 32 \<Longrightarrow> b < 2 ^ 32 \<Longrightarrow> (of_nat a :: 32 word) = of_nat b \<longleftrightarrow> a = b"
  by (metis unat_of_nat_small)

lemma uint16_max_div: "n < 2 ^ 32 \<Longrightarrow> UINT16_MAX div (of_nat n :: 32 word) = of_nat (65535 div n)"
  using le_less_trans [OF div_le_dividend [of 65535 n], of "2 ^ 32"]
  by (intro word_unat_eq_iff [THEN iffD2]) (simp add: UINT16_MAX_def unat_div unat_of_nat)

lemma uint16_max_mod: "n < 2 ^ 32 \<Longrightarrow> UINT16_MAX mod (of_nat n :: 32 word) = of_nat (65535 mod n)"
  using le_less_trans [OF mod_less_eq_dividend [of 65535 n], of "2 ^ 32"]
  by (intro word_unat_eq_iff [THEN iffD2]) (simp add: UINT16_MAX_def unat_mod unat_of_nat)

lemma hash_segment_nat:
  assumes "0 < n" "n \<le> 65535" "i < n"
  shows "hash_segment (of_nat n) (of_nat i) = Some (of_nat (segment_start n i), of_nat (segment_end n i))"
proof -
  let ?s = "65535 div n" and ?m = "65535 mod n"
  have n: "n < 2 ^ 32" "(of_nat n :: 32 word) \<noteq> 0"
    using assms of_nat_eq_small [of n 0] by simp_all
  have s: "0 < ?s" using assms by (simp add: div_greater_zero_iff)
  have last: "(of_nat i = (of_nat n - 1 :: 32 word)) \<longleftrightarrow> i = n - 1"
    using of_nat_eq_small [of i "n - 1"] assms by (simp add: of_nat_diff)
  have pos: "1 \<le> ?s * (i + 1)" using s by simp
  have e: "of_nat ?s * (of_nat i + 1) - 1 = (of_nat (?s * (i + 1) - 1) :: 32 word)"
    by (subst of_nat_diff [OF pos]) (simp add: distrib_left)
  have l: "of_nat ?s * (of_nat i + 1) - 1 + (of_nat ?m + 1) = (of_nat 65535 :: 32 word)" if "i = n - 1"
  proof -
    have "of_nat n = (of_nat i + 1 :: 32 word)" using that assms by (cases n) simp_all
    then have "of_nat ?s * (of_nat i + 1) - 1 + (of_nat ?m + 1) = (of_nat (?s * n + ?m) :: 32 word)"
      unfolding of_nat_add of_nat_mult by (simp only: add_diff_eq diff_add_eq) simp
    also have "?s * n + ?m = 65535" by (rule div_mult_mod_eq)
    finally show ?thesis .
  qed
  show ?thesis
  proof (cases "i = n - 1")
    case True
    then show ?thesis
      using n last l by (simp add: hash_segment_def Let_def uint16_max_div uint16_max_mod segment_start_def
          segment_end_def del: of_nat_diff)
  next
    case False
    then show ?thesis
      using n last e by (simp add: hash_segment_def Let_def uint16_max_div uint16_max_mod segment_start_def
          segment_end_def)
  qed
qed

lemma segment_bounds:
  assumes "0 < n" "n \<le> 65535" "i < n"
  shows "segment_start n i \<le> 65535" "segment_end n i \<le> 65535"
proof -
  have "65535 div n * (i + 1) \<le> 65535 div n * n" using assms by (intro mult_le_mono2) simp
  also have "\<dots> \<le> 65535" by (rule div_times_less_eq_dividend)
  finally show "segment_start n i \<le> 65535" "segment_end n i \<le> 65535"
    by (auto simp: segment_start_def segment_end_def)
qed

lemma segment_place: "i < n \<Longrightarrow> i \<noteq> n - 1 \<Longrightarrow> (i \<le> q \<and> q < i + 1) = (i = min q (n - 1))" for q :: nat
  by (auto simp: min_def)

text \<open>Each number of the range lies in exactly one segment.\<close>

lemma segment_unique:
  assumes n: "0 < n" "n \<le> 65535" and h: "h \<le> 65535" and i: "i < n"
  shows "segment_start n i \<le> h \<and> h \<le> segment_end n i \<longleftrightarrow> i = min (h div (65535 div n)) (n - 1)"
proof -
  let ?s = "65535 div n"
  have s: "0 < ?s" using n by (simp add: div_greater_zero_iff)
  have lo: "segment_start n i \<le> h \<longleftrightarrow> i \<le> h div ?s"
    using s by (simp add: segment_start_def less_eq_div_iff_mult_less_eq mult.commute)
  have hi: "h \<le> ?s * (i + 1) - 1 \<longleftrightarrow> h div ?s < i + 1"
    using s by (simp add: div_less_iff_less_mult mult.commute) linarith
  show ?thesis
  proof (cases "i = n - 1")
    case True
    then show ?thesis using h lo by (auto simp: segment_end_def min_def)
  next
    case False
    then have "segment_end n i = ?s * (i + 1) - 1" by (simp only: segment_end_def if_False)
    then have "segment_start n i \<le> h \<and> h \<le> segment_end n i \<longleftrightarrow> i \<le> h div ?s \<and> h div ?s < i + 1"
      by (simp only: lo hi)
    then show ?thesis using segment_place [OF i False, of "h div ?s"] by (simp only:)
  qed
qed

subsection \<open>Beats\<close>

lemma host_index_in: "x \<in> set hs \<Longrightarrow> \<exists>i. host_index x hs = (i, True) \<and> i < length hs"
  by (induction hs) auto

lemma host_index_nth: "distinct hs \<Longrightarrow> i < length hs \<Longrightarrow> host_index (hs ! i) hs = (i, True)"
  by (induction hs arbitrary: i) (auto simp: nth_Cons split: nat.split)

lemma set_live_hosts: "x \<in> set (live_hosts t grace service hosts)
   \<longleftrightarrow> (\<exists>h \<in> set hosts. live_host t grace service h \<and> h_hostname h = x)"
  by (auto simp: live_hosts_def)

lemma length_live_hosts: "length (live_hosts t grace service hosts) \<le> length hosts"
  by (simp add: live_hosts_def)

lemma length_beat: "length (beat e service hosts) \<le> length hosts + 1"
  by (simp add: beat_def)

text \<open>A server that has just beaten is among the live ones, whatever the table held.\<close>

lemma beat_is_live:
  assumes "grace \<ge> 0"
  shows "hostname e \<in> set (live_hosts (now e) grace service (beat e service hosts))"
proof (cases "select_first (same_host (hostname e) service) hosts")
  case None
  then show ?thesis using assms by (auto simp: set_live_hosts beat_def live_host_def)
next
  case (Some h)
  then have "h \<in> set hosts" "same_host (hostname e) service h" by (auto dest: select_first_Some)
  then have "h\<lparr>h_beat := now e\<rparr> \<in> set (beat e service hosts)"
    using Some by (force simp: beat_def set_update_where)
  then show ?thesis
    using assms \<open>same_host _ _ _\<close> unfolding set_live_hosts
    by (intro bexI [of _ "h\<lparr>h_beat := now e\<rparr>"]) (auto simp: live_host_def same_host_def)
qed

lemma filter_live_beat:
  assumes "\<And>h. h \<in> set hosts \<Longrightarrow> same_host (hostname e) service h \<Longrightarrow> live_host (now e) grace service h"
    "grace \<ge> 0"
  shows "map h_hostname (filter (live_host (now e) grace service)
      (update_where (same_host (hostname e) service) (\<lambda>h. h\<lparr>h_beat := now e\<rparr>) hosts))
    = map h_hostname (filter (live_host (now e) grace service) hosts)"
  by (rule map_filter_update_where) (use assms in \<open>simp add: live_host_def\<close>)

text \<open>A beat of a server that is live already does not change who is live.\<close>

lemma live_hosts_beat:
  assumes "distinct (map (\<lambda>h. (h_hostname h, h_service_name h)) hosts)" "grace \<ge> 0"
    "hostname e \<in> set (live_hosts (now e) grace service hosts)"
  shows "live_hosts (now e) grace service (beat e service hosts) = live_hosts (now e) grace service hosts"
proof -
  from assms(3) obtain h where h: "h \<in> set hosts" "live_host (now e) grace service h" "h_hostname h = hostname e"
    by (auto simp: set_live_hosts)
  then have same: "same_host (hostname e) service h" by (simp add: same_host_def live_host_def)
  have "live_host (now e) grace service g" if "g \<in> set hosts" "same_host (hostname e) service g" for g
  proof -
    have "g = h"
      by (rule distinct_key_unique [OF assms(1) that(1) h(1)])
        (use that(2) same in \<open>simp add: same_host_def\<close>)
    then show ?thesis using h(2) by simp
  qed
  moreover have "select_first (same_host (hostname e) service) hosts \<noteq> None"
    using h(1) same by (auto simp: select_first_None)
  ultimately show ?thesis
    using filter_live_beat [of hosts e service grace] assms(2) by (auto simp: live_hosts_def beat_def)
qed

lemma distinct_live_hosts:
  assumes "distinct (map (\<lambda>h. (h_hostname h, h_service_name h)) hosts)"
  shows "distinct (live_hosts t grace service hosts)"
proof -
  have "inj_on h_hostname (set (filter (live_host t grace service) hosts))"
  proof (rule inj_onI)
    fix a b assume "a \<in> set (filter (live_host t grace service) hosts)"
      "b \<in> set (filter (live_host t grace service) hosts)" "h_hostname a = h_hostname b"
    then show "a = b" by (intro distinct_key_unique [OF assms]) (auto simp: live_host_def)
  qed
  then show ?thesis
    using assms by (simp add: live_hosts_def distinct_map)
qed

lemma updateHeartBeat_segment:
  assumes "host_index (hostname e) (live_hosts (now e) grace service (beat e service (t_hosts d))) = (i, True)"
    "i < n" "n = length (live_hosts (now e) grace service (beat e service (t_hosts d)))" "n \<le> 65535"
  shows "\<exists>d'. updateHeartBeatInternal e grace service d = Some (d', \<lparr>hb_index = of_nat i, hb_count = of_nat n,
    hb_start = of_nat (segment_start n i), hb_end = of_nat (segment_end n i)\<rparr>)"
proof -
  have "hash_segment (of_nat n) (of_nat i) = Some (of_nat (segment_start n i), of_nat (segment_end n i))"
    using assms(2,4) by (intro hash_segment_nat) simp_all
  then show ?thesis using assms(1) by (simp add: updateHeartBeatInternal_def Let_def flip: assms(3))
qed

subsection \<open>Properties\<close>

text \<open>
  With a grace interval that is not negative the beat of a server never divides by zero: the
  server finds itself among the live ones and its index is below their number.
\<close>

lemma heartbeat_defined:
  assumes "grace \<ge> 0" "length (t_hosts d) < 2 ^ 32 - 1"
  shows "\<exists>d' hb. updateHeartBeatInternal e grace service d = Some (d', hb) \<and> hb_index hb < hb_count hb"
proof -
  let ?live = "live_hosts (now e) grace service (beat e service (t_hosts d))"
  obtain i where i: "host_index (hostname e) ?live = (i, True)" "i < length ?live"
    using host_index_in [OF beat_is_live [OF assms(1)]] by blast
  have n: "length ?live < 2 ^ 32"
    using length_live_hosts [of "now e" grace service "beat e service (t_hosts d)"]
      length_beat [of e service "t_hosts d"] assms(2) by simp
  then have "(of_nat i :: 32 word) < of_nat (length ?live)"
    using i(2) by (simp add: word_less_nat_alt unat_of_nat_small)
  moreover from this have "(of_nat (length ?live) :: 32 word) \<noteq> 0" by auto
  ultimately show ?thesis
    using i(1) by (auto simp: updateHeartBeatInternal_def Let_def hash_segment_def)
qed

text \<open>
  C9: the servers that are live at one moment share the hashed ids without gap or overlap: of
  the beats they do at that moment, exactly one gets a segment that holds a given id.
\<close>

theorem heartbeat_partition:
  assumes "wf_hosts d" "grace \<ge> 0" "h \<le> 65535"
    and live: "live = live_hosts t grace service (t_hosts d)" "live \<noteq> []" "length live \<le> 65535"
  shows "\<exists>!x. x \<in> set live \<and> (\<exists>d' hb.
    updateHeartBeatInternal \<lparr>hostname = x, now = t\<rparr> grace service d = Some (d', hb)
      \<and> unat (hb_start hb) \<le> h \<and> h \<le> unat (hb_end hb))"
proof -
  let ?n = "length live"
  let ?seg = "\<lambda>x. \<exists>d' hb. updateHeartBeatInternal \<lparr>hostname = x, now = t\<rparr> grace service d = Some (d', hb)
      \<and> unat (hb_start hb) \<le> h \<and> h \<le> unat (hb_end hb)"
  have dist: "distinct live" using assms(1) distinct_live_hosts by (auto simp: live(1) wf_hosts_def)
  have seg: "?seg (live ! i) \<longleftrightarrow> i = min (h div (65535 div ?n)) (?n - 1)" if i: "i < ?n" for i
  proof -
    let ?e = "\<lparr>hostname = live ! i, now = t\<rparr>"
    have same: "live_hosts t grace service (beat ?e service (t_hosts d)) = live"
      using live_hosts_beat [of "t_hosts d" grace ?e service] assms(1,2) i live(1)
      by (simp add: wf_hosts_def)
    have "\<exists>d'. updateHeartBeatInternal ?e grace service d = Some (d', \<lparr>hb_index = of_nat i, hb_count = of_nat ?n,
        hb_start = of_nat (segment_start ?n i), hb_end = of_nat (segment_end ?n i)\<rparr>)"
      using host_index_nth [OF dist i] i live(3) by (intro updateHeartBeat_segment) (simp_all add: same)
    moreover have "unat (of_nat (segment_start ?n i) :: 32 word) = segment_start ?n i"
      "unat (of_nat (segment_end ?n i) :: 32 word) = segment_end ?n i"
      using segment_bounds [of ?n i] i live(2,3) by (auto intro!: unat_of_nat_small)
    ultimately have "?seg (live ! i) \<longleftrightarrow> segment_start ?n i \<le> h \<and> h \<le> segment_end ?n i" by auto
    then show ?thesis using segment_unique [of ?n h i] assms(3) live(2,3) i by simp
  qed
  let ?k = "min (h div (65535 div ?n)) (?n - 1)"
  have k: "?k < ?n" using live(2) by (cases live) auto
  show ?thesis
  proof (rule ex1I [of _ "live ! ?k"])
    show "live ! ?k \<in> set live \<and> ?seg (live ! ?k)" using seg [OF k] k by simp
    show "x = live ! ?k" if x: "x \<in> set live \<and> ?seg x" for x
    proof -
      from x obtain i where "i < ?n" "live ! i = x" by (auto simp: in_set_conv_nth)
      then show ?thesis using seg [of i] x by auto
    qed
  qed
qed

theorem heartbeat_partition_witness:
  "\<exists>!x. x \<in> set [''a'', ''b'', ''c''] \<and> (\<exists>d' hb.
    updateHeartBeatInternal \<lparr>hostname = x, now = 1000\<rparr> 120 ''fts_server'' sample_hosts_db = Some (d', hb)
      \<and> unat (hb_start hb) \<le> 40000 \<and> 40000 \<le> unat (hb_end hb))"
  by (rule heartbeat_partition)
    (simp_all add: sample_hosts_db_def wf_hosts_def live_hosts_def live_host_def)

text \<open>
  Every hashed id that the database layer draws lies in the range the servers share.
\<close>

lemma hashed_id_in_range: "unat (getHashedId r) < 65535"
proof -
  have "unat (getHashedId r) = unat r mod 65535" by (simp add: getHashedId_def UINT16_MAX_def unat_mod)
  then show ?thesis by simp
qed

end
