(* ===== verification/Staging.thy ===== *)
theory Staging
  imports JobLifecycle
begin

section \<open>Staging, archiving and quality of service\<close>

text \<open>
  \<^verbatim>\<open>src/db/mysql/MySqlAPI.cpp\<close>: what the daemons for tape and for quality of service report and
  how the database records it: \<open>updateStagingStateInternal\<close> with \<open>resetForRetryStaging\<close>,
  \<open>updateArchivingStateInternal\<close>, the cancellation queries and the two QoS updates. The monitoring
  messages they send are not part of the model.
\<close>

record MinFileStatus =
  ms_jobId :: job_id
  ms_fileId :: nat
  ms_state :: file_state
  ms_reason :: string
  ms_retry :: bool

subsection \<open>Staging\<close>

text \<open>
  The retries allowed, \<open>None\<close> for NULL: the value of the job, or that of the VO when the job's is
  NULL or not positive and the VO has a row.
\<close>

definition staging_retries :: "job_id \<Rightarrow> db \<Rightarrow> int option" where
  "staging_retries jobId d =
     (let own = (case job_by_id jobId d of None \<Rightarrow> Some 0 | Some j \<Rightarrow> j_retry j);
          vo = (case job_by_id jobId d of None \<Rightarrow> '''' | Some j \<Rightarrow> j_vo_name j)
      in if (case own of None \<Rightarrow> True | Some n \<Rightarrow> n \<le> 0) then
           (case select_first (\<lambda>c. c_vo_name c = Some vo) (t_server_config d) of
              None \<Rightarrow> own | Some c \<Rightarrow> c_retry c)
         else own)"

definition staging_attempts :: "job_id \<Rightarrow> nat \<Rightarrow> db \<Rightarrow> int option" where
  "staging_attempts jobId fileId d =
     (case select_first (\<lambda>r. f_file_id r = fileId \<and> f_job_id r = jobId) (t_file d) of
        None \<Rightarrow> Some 0 | Some r \<Rightarrow> f_retry r)"

definition restage :: "timestamp \<Rightarrow> int \<Rightarrow> file_row \<Rightarrow> file_row" where
  "restage t n r = r\<lparr>f_retry_timestamp := Some t, f_retry := Some n, f_file_state := STAGING, f_start_time := None,
     f_staging_start := None, f_transfer_host := None, f_log_file := None, f_log_file_debug := None,
     f_throughput := 0, f_current_failures := 1\<rparr>"

text \<open>
  \<open>resetForRetryStaging\<close>: the new database with whether the file will be retried and the attempt.
  A NULL \<^verbatim>\<open>retry_delay\<close> throws.
\<close>

definition resetForRetryStaging ::
  "env \<Rightarrow> nat \<Rightarrow> job_id \<Rightarrow> bool \<Rightarrow> db \<Rightarrow> fts_error + (db \<times> bool \<times> int)" where
  "resetForRetryStaging e fileId jobId retry d =
     (if \<not> retry then Inr (d, False, 0)
      else if (case job_by_id jobId d of None \<Rightarrow> False | Some j \<Rightarrow> j_retry_delay j = None) then Inl UserError
      else
        let retry_delay = (case job_by_id jobId d of None \<Rightarrow> 0
                           | Some j \<Rightarrow> (case j_retry_delay j of None \<Rightarrow> 0 | Some x \<Rightarrow> x)) in
        case (staging_retries jobId d, staging_attempts jobId fileId d) of
          (Some nRetries, Some nTimes) \<Rightarrow>
            if nRetries > 0 \<and> nTimes \<le> nRetries - 1 then
              Inr (update_files (\<lambda>r. f_file_id r = fileId \<and> f_job_id r = jobId
                       \<and> f_file_state r \<notin> {FINISHED, STAGING, FAILED, CANCELED})
                     (restage (now e + (if retry_delay > 0 then retry_delay else 120)) (nTimes + 1)) d,
                   True, nTimes + 1)
            else Inr (d, False, 0)
        | _ \<Rightarrow> Inr (d, False, 0))"

definition staging_file :: "nat \<Rightarrow> file_row \<Rightarrow> bool" where
  "staging_file fileId r \<longleftrightarrow> f_file_id r = fileId \<and> f_file_state r \<in> {STAGING, STARTED}"

definition stage_started :: "env \<Rightarrow> file_row \<Rightarrow> file_row" where
  "stage_started e r = r\<lparr>f_start_time := Some (now e), f_staging_start := Some (now e),
     f_staging_host := Some (hostname e), f_transfer_host := Some (hostname e), f_file_state := STARTED\<rparr>"

definition stage_submitted :: "env \<Rightarrow> nat \<Rightarrow> file_row \<Rightarrow> file_row" where
  "stage_submitted e hashedId r = r\<lparr>f_hashed_id := hashedId, f_staging_finished := Some (now e), f_finish_time := None,
     f_start_time := None, f_transfer_host := None, f_reason := '''', f_file_state := SUBMITTED\<rparr>"

definition stage_ended :: "env \<Rightarrow> file_state \<Rightarrow> string \<Rightarrow> file_row \<Rightarrow> file_row" where
  "stage_ended e st reason r = r\<lparr>f_staging_finished := Some (now e), f_finish_time := Some (now e), f_reason := reason,
     f_file_state := st, f_dest_surl_uuid := None\<rparr>"

definition log_staging_retry :: "env \<Rightarrow> nat \<Rightarrow> int \<Rightarrow> string \<Rightarrow> db \<Rightarrow> db" where
  "log_staging_retry e fileId n reason d =
     (if n > 0 \<and> \<not> (\<exists>x \<in> set (t_file_retry_errors d). e_file_id x = fileId \<and> e_attempt x = n)
         \<and> file_by_id fileId d \<noteq> None
      then d\<lparr>t_file_retry_errors := t_file_retry_errors d @
             [\<lparr>e_file_id = fileId, e_attempt = n, e_datetime = now e, e_reason = reason,
               e_transfer_host = None, e_log_file = None\<rparr>]\<rparr>
      else d)"

definition stage_in_only :: "nat \<Rightarrow> db \<Rightarrow> bool" where
  "stage_in_only fileId d \<longleftrightarrow> (\<exists>r \<in> set (t_file d). f_file_id r = fileId \<and> f_source_surl r = f_dest_surl r)"

text \<open>A status that is neither the start nor a failure; \<open>hashedId\<close> is the random number drawn.\<close>

definition stage_other :: "env \<Rightarrow> nat \<Rightarrow> MinFileStatus \<Rightarrow> db \<Rightarrow> db" where
  "stage_other e hashedId i d =
     (let only = stage_in_only (ms_fileId i) d;
          dbState = (if ms_state i = FINISHED then (if only then FINISHED else SUBMITTED) else ms_state i);
          dbReason = (if ms_state i = FINISHED then '''' else ms_reason i);
          multihop = (case job_by_id (ms_jobId i) d of None \<Rightarrow> False | Some j \<Rightarrow> job_type_of j = kTypeMultiHop);
          d1 = (if only \<and> dbState = FINISHED \<and> multihop then useNextHop (ms_jobId i) d else d)
      in if dbState = SUBMITTED then update_files (staging_file (ms_fileId i)) (stage_submitted e hashedId) d1
         else update_files (staging_file (ms_fileId i)) (stage_ended e dbState dbReason) d1)"

text \<open>
  One status. The second component tells whether the transaction of the loop is still open: a
  retry begins and commits one of its own, after which every statement commits by itself.
\<close>

definition stage_one :: "env \<Rightarrow> MinFileStatus \<times> nat \<Rightarrow> db \<times> bool \<Rightarrow> fts_error + (db \<times> bool)" where
  "stage_one e ih dt =
     (case ih of (i, hashedId) \<Rightarrow> case dt of (d, tx) \<Rightarrow>
      if ms_state i = STARTED then
        Inr (update_files (\<lambda>r. f_file_id r = ms_fileId i \<and> f_file_state r = STAGING) (stage_started e) d, tx)
      else if ms_state i = FAILED then
        (case resetForRetryStaging e (ms_fileId i) (ms_jobId i) (ms_retry i) d of
           Inl err \<Rightarrow> Inl err
         | Inr (d1, retried, attempt) \<Rightarrow>
             if retried then Inr (log_staging_retry e (ms_fileId i) attempt (ms_reason i) d1, False)
             else Inr (update_files (staging_file (ms_fileId i)) (stage_ended e FAILED (ms_reason i)) d1, tx))
      else Inr (stage_other e hashedId i d, tx))"

text \<open>The loop; an error rolls back to the start of the open transaction.\<close>

fun stage_loop :: "env \<Rightarrow> db \<Rightarrow> (MinFileStatus \<times> nat) list \<Rightarrow> db \<times> bool \<Rightarrow> db \<times> fts_error option" where
  "stage_loop e d0 [] dt = (fst dt, None)"
| "stage_loop e d0 (i # is) dt =
     (case stage_one e i dt of
        Inl err \<Rightarrow> (if snd dt then d0 else fst dt, Some err)
      | Inr dt1 \<Rightarrow> stage_loop e d0 is dt1)"

definition updateStagingStateInternal ::
  "env \<Rightarrow> bool \<Rightarrow> (MinFileStatus \<times> nat) list \<Rightarrow> db \<Rightarrow> db \<times> fts_error option" where
  "updateStagingStateInternal e cu ops d =
     (case stage_loop e d ops (d, True) of
        (d1, Some err) \<Rightarrow> (d1, Some err)
      | (d1, None) \<Rightarrow>
          (fold (\<lambda>ih. updateJobTransferStatusInternal e cu (ms_jobId (fst ih))
                        (if ms_state (fst ih) = SUBMITTED then ACTIVE else ms_state (fst ih))) ops d1, None))"

text \<open>
  \<open>updateBringOnlineToken\<close> and \<open>setArchivingStartTime\<close>: the ids of each job, all urls together. An
  empty list of ids is not valid SQL: the transaction is rolled back.
\<close>

definition update_job_files ::
  "(file_row \<Rightarrow> file_row) \<Rightarrow> (job_id \<times> nat list) list \<Rightarrow> db \<Rightarrow> fts_error + db" where
  "update_job_files f jobs d =
     (if (\<exists>j \<in> set jobs. snd j = []) then Inl UserError
      else Inr (fold (\<lambda>j. update_files (\<lambda>r. f_job_id r = fst j \<and> f_file_id r \<in> set (snd j)) f) jobs d))"

definition updateBringOnlineToken :: "string \<Rightarrow> (job_id \<times> nat list) list \<Rightarrow> db \<Rightarrow> fts_error + db" where
  "updateBringOnlineToken token jobs d = update_job_files (\<lambda>r. r\<lparr>f_bringonline_token := Some token\<rparr>) jobs d"

definition setArchivingStartTime :: "env \<Rightarrow> (job_id \<times> nat list) list \<Rightarrow> db \<Rightarrow> fts_error + db" where
  "setArchivingStartTime e jobs d = update_job_files (\<lambda>r. r\<lparr>f_archive_start_time := Some (now e)\<rparr>) jobs d"

subsection \<open>Archiving\<close>

text \<open>The update is by file id only: whatever the state of the file is, it is overwritten.\<close>

definition archive_one :: "env \<Rightarrow> MinFileStatus \<Rightarrow> db \<Rightarrow> db" where
  "archive_one e i d =
     update_files (\<lambda>r. f_file_id r = ms_fileId i)
       (\<lambda>r. r\<lparr>f_archive_finish_time := Some (now e), f_file_state := ms_state i, f_reason := ms_reason i\<rparr>) d"

definition updateArchivingStateInternal :: "env \<Rightarrow> bool \<Rightarrow> MinFileStatus list \<Rightarrow> db \<Rightarrow> db" where
  "updateArchivingStateInternal e cu ops d =
     fold (\<lambda>i. updateJobTransferStatusInternal e cu (ms_jobId i) (ms_state i)) ops (fold (archive_one e) ops d)"

subsection \<open>Canceling\<close>

text \<open>The canceled files of this host whose archiving or staging has to be aborted.\<close>

definition archiving_canceled :: "env \<Rightarrow> file_row \<Rightarrow> bool" where
  "archiving_canceled e r \<longleftrightarrow> f_file_state r = CANCELED \<and> f_archive_finish_time r = None
     \<and> f_transfer_host r = Some (hostname e) \<and> f_archive_start_time r \<noteq> None"

definition getArchivingFilesForCanceling :: "env \<Rightarrow> db \<Rightarrow> db \<times> (job_id \<times> string) set" where
  "getArchivingFilesForCanceling e d =
     (let rows = filter (archiving_canceled e) (t_file d) in
      (update_files (\<lambda>r. f_file_id r \<in> set (map f_file_id rows)) (\<lambda>r. r\<lparr>f_archive_finish_time := Some (now e)\<rparr>) d,
       set (map (\<lambda>r. (f_job_id r, f_source_surl r)) rows)))"

definition staging_canceled :: "env \<Rightarrow> file_row \<Rightarrow> bool" where
  "staging_canceled e r \<longleftrightarrow> f_file_state r = CANCELED \<and> f_staging_finished r = None
     \<and> f_transfer_host r = Some (hostname e) \<and> f_staging_start r \<noteq> None"

definition getStagingFilesForCanceling :: "env \<Rightarrow> db \<Rightarrow> db \<times> (job_id \<times> string) set" where
  "getStagingFilesForCanceling e d =
     (let rows = filter (staging_canceled e) (t_file d) in
      (update_files (\<lambda>r. f_file_id r \<in> set (map f_file_id rows))
         (\<lambda>r. r\<lparr>f_finish_time := Some (now e), f_staging_finished := Some (now e)\<rparr>) d,
       set (map (\<lambda>r. (f_job_id r, f_source_surl r)) rows)))"

subsection \<open>Quality of service\<close>

definition updateFileStateToQosRequestSubmitted :: "env \<Rightarrow> job_id \<Rightarrow> nat \<Rightarrow> db \<Rightarrow> db \<times> bool" where
  "updateFileStateToQosRequestSubmitted e jobId fileId d =
     (case select_first (\<lambda>r. f_job_id r = jobId \<and> f_file_id r = fileId) (t_file d) of
        None \<Rightarrow> (d, False)
      | Some row \<Rightarrow>
          if f_file_state row \<noteq> QOS_TRANSITION then (d, False)
          else (update_files (\<lambda>r. f_job_id r = jobId \<and> f_file_id r = fileId)
                  (\<lambda>r. r\<lparr>f_file_state := QOS_REQUEST_SUBMITTED, f_start_time := Some (now e),
                         f_transfer_host := Some (hostname e)\<rparr>) d, True))"

definition qos_ended :: "env \<Rightarrow> file_state \<Rightarrow> string \<Rightarrow> file_row \<Rightarrow> file_row" where
  "qos_ended e st reason r =
     (let start = (case f_start_time r of None \<Rightarrow> now e | Some t \<Rightarrow> t) in
      r\<lparr>f_file_state := st, f_start_time := Some start, f_finish_time := Some (now e),
        f_tx_duration := real_of_int (now e - start),
        f_transfer_host := Some (case f_transfer_host r of None \<Rightarrow> hostname e | Some h \<Rightarrow> h),
        f_reason := (if st = FAILED \<and> reason \<noteq> [] then reason else f_reason r)\<rparr>)"

definition count_state :: "job_id \<Rightarrow> file_state \<Rightarrow> db \<Rightarrow> nat" where
  "count_state jobId st d = length (filter (\<lambda>r. f_file_state r = st) (files_of_job jobId d))"

definition qos_job_state :: "job_id \<Rightarrow> db \<Rightarrow> job_state option" where
  "qos_job_state jobId d =
     (let numberFilesInJob = length (files_of_job jobId d);
          numberFilesFinished = count_state jobId FINISHED d;
          numberFilesFailed = count_state jobId FAILED d
      in if numberFilesInJob = numberFilesFinished then Some J_FINISHED
         else if numberFilesInJob = numberFilesFailed then Some J_FAILED
         else if numberFilesInJob = numberFilesFinished + numberFilesFailed \<and> numberFilesFailed > 0
         then Some J_FINISHEDDIRTY else None)"

definition updateFileStateToQosTerminal :: "env \<Rightarrow> job_id \<Rightarrow> nat \<Rightarrow> file_state \<Rightarrow> string \<Rightarrow> db \<Rightarrow> db" where
  "updateFileStateToQosTerminal e jobId fileId fileState reason d =
     (let d1 = update_files (\<lambda>r. f_file_id r = fileId) (qos_ended e fileState reason) d in
      case qos_job_state jobId d1 of
        None \<Rightarrow> d1
      | Some st \<Rightarrow> update_jobs (\<lambda>j. j_job_id j = jobId) (\<lambda>j. j\<lparr>j_job_state := st, j_job_finished := Some (now e)\<rparr>) d1)"

text \<open>A canceled file whose archiving is still being watched.\<close>

definition sample_archiving_db :: db where
  "sample_archiving_db = sample_db [sample_file 1 ''j'' 0 CANCELED] [sample_job ''j'' None J_CANCELED]"

definition sample_staging_db :: db where
  "sample_staging_db = sample_db
     [(sample_file 1 ''j'' 0 STARTED)\<lparr>f_retry := Some 0\<rparr>, sample_file 2 ''j'' 1 STAGING]
     [(sample_job ''j'' None J_STAGING)\<lparr>j_retry := Some 3, j_retry_delay := Some 60\<rparr>]"

subsection \<open>The operations and the interface\<close>

lemma keeps_keys_stage [simp]:
  "keeps_keys (restage t n)" "keeps_keys (stage_started e)" "keeps_keys (stage_submitted e h)"
  "keeps_keys (stage_ended e st reason)" "keeps_keys (qos_ended e st reason)"
  by (rule keeps_keysI; simp add: restage_def stage_started_def stage_submitted_def stage_ended_def
      qos_ended_def Let_def)+

lemma clears_uuid_stage [simp]:
  "clears_uuid (restage t n)" "clears_uuid (stage_started e)" "clears_uuid (stage_submitted e h)"
  "clears_uuid (stage_ended e st reason)" "clears_uuid (qos_ended e st reason)"
  by (rule clears_uuidI; simp add: restage_def stage_started_def stage_submitted_def stage_ended_def
      qos_ended_def Let_def)+

lemma useNextHop_operation: "file_operation (useNextHop jobId)"
proof
  fix d assume "wf_db d"
  then show "wf_db (useNextHop jobId d)" by (rule wf_db_useNextHop)
  from \<open>wf_db d\<close> have "rows_rel (sibling_change jobId) d (useNextHop jobId d)" by (rule useNextHop_siblings)
  then show "rows_rel file_frozen d (useNextHop jobId d)"
    unfolding rows_rel_def by (rule list_all2_mono) (rule sibling_change_frozen)
qed

lemma staging_file_live: "staging_file i r \<Longrightarrow> \<not> terminal_file (f_file_state r)"
  by (auto simp: staging_file_def terminal_file_def)

lemma staging_update_operation:
  "keeps_keys f \<Longrightarrow> clears_uuid f \<Longrightarrow> file_operation (update_files (staging_file i) f)"
  by (rule file_operation_update) (auto dest: staging_file_live)

lemma restage_operation:
  "file_operation (update_files (\<lambda>r. f_file_id r = i \<and> f_job_id r = jobId
      \<and> f_file_state r \<notin> {FINISHED, STAGING, FAILED, CANCELED}) (restage t n))"
  by (rule file_operation_update) (auto simp: terminal_file_def)

lemma start_operation:
  "file_operation (update_files (\<lambda>r. f_file_id r = i \<and> f_file_state r = STAGING) (stage_started e))"
  by (rule file_operation_update) (auto simp: terminal_file_def)

lemma log_staging_operation: "file_operation (log_staging_retry e i n reason)"
  by (rule file_operation_tables) (simp_all add: log_staging_retry_def)

lemma resetForRetryStaging_cases:
  assumes "resetForRetryStaging e i jobId retry d = Inr (d1, retried, n)"
  obtains (no) "d1 = d" "\<not> retried"
  | (yes) t where "retry" "retried" "d1 = update_files (\<lambda>r. f_file_id r = i \<and> f_job_id r = jobId
      \<and> f_file_state r \<notin> {FINISHED, STAGING, FAILED, CANCELED}) (restage t n) d"
  using assms unfolding resetForRetryStaging_def Let_def
  by (auto split: if_splits option.splits intro: that)

lemma stage_other_operation: "file_operation (stage_other e h i)"
proof (rule file_operationI)
  fix d
  have comp: "file_operation (\<lambda>d. update_files (staging_file k) f (if b then useNextHop jobId d else d))"
    if "keeps_keys f" "clears_uuid f" for k f b jobId
    by (rule file_operation_comp [OF file_operation_if [OF useNextHop_operation file_operation_id]
          staging_update_operation [OF that]])
  show "\<exists>g. file_operation g \<and> stage_other e h i d = g d"
    unfolding stage_other_def Let_def
    by (rule file_operation_choice [OF comp comp]) simp_all
qed

lemma file_operation_step:
  "file_operation f \<Longrightarrow> wf_db d \<Longrightarrow> d' = f d \<Longrightarrow> wf_db d' \<and> rows_rel file_frozen d d'"
  by (simp add: file_operation.keeps_wf file_operation.keeps_frozen)

lemma stage_one_step:
  assumes "wf_db d" "stage_one e (i, h) (d, tx) = Inr (d1, tx1)"
  shows "wf_db d1 \<and> rows_rel file_frozen d d1"
proof -
  consider (start) "ms_state i = STARTED" | (fail) "ms_state i = FAILED" | (other) "ms_state i \<noteq> STARTED" "ms_state i \<noteq> FAILED"
    by blast
  then show ?thesis
  proof cases
    case start
    then have "d1 = update_files (\<lambda>r. f_file_id r = ms_fileId i \<and> f_file_state r = STAGING) (stage_started e) d"
      using assms(2) by (simp add: stage_one_def)
    then show ?thesis by (rule file_operation_step [OF start_operation assms(1)])
  next
    case fail
    then obtain d2 retried n where reset: "resetForRetryStaging e (ms_fileId i) (ms_jobId i) (ms_retry i) d = Inr (d2, retried, n)"
      and d1: "d1 = (if retried then log_staging_retry e (ms_fileId i) n (ms_reason i) d2
                     else update_files (staging_file (ms_fileId i)) (stage_ended e FAILED (ms_reason i)) d2)"
      using assms(2) by (auto simp: stage_one_def split: sum.splits if_splits)
    from reset show ?thesis
    proof (cases rule: resetForRetryStaging_cases)
      case no
      with d1 have "d1 = update_files (staging_file (ms_fileId i)) (stage_ended e FAILED (ms_reason i)) d" by simp
      then show ?thesis by (rule file_operation_step [OF staging_update_operation assms(1), rotated -1]) simp_all
    next
      case (yes t)
      with d1 have "d1 = log_staging_retry e (ms_fileId i) n (ms_reason i) (update_files (\<lambda>r. f_file_id r = ms_fileId i
          \<and> f_job_id r = ms_jobId i \<and> f_file_state r \<notin> {FINISHED, STAGING, FAILED, CANCELED}) (restage t n) d)" by simp
      then show ?thesis
        by (rule file_operation_step [OF file_operation_comp [OF restage_operation log_staging_operation] assms(1)])
    qed
  next
    case other
    then have "d1 = stage_other e h i d" using assms(2) by (simp add: stage_one_def)
    then show ?thesis by (rule file_operation_step [OF stage_other_operation assms(1)])
  qed
qed

lemma stage_loop_step:
  assumes "wf_db d0" "wf_db (fst dt)" "rows_rel file_frozen d0 (fst dt)"
  shows "wf_db (fst (stage_loop e d0 is dt)) \<and> rows_rel file_frozen d0 (fst (stage_loop e d0 is dt))"
  using assms(2,3)
proof (induction "is" arbitrary: dt)
  case Nil
  then show ?case by simp
next
  case (Cons ih "is")
  obtain i h d tx where eq: "ih = (i, h)" "dt = (d, tx)" by (cases ih; cases dt)
  show ?case
  proof (cases "stage_one e ih dt")
    case (Inl err)
    then show ?thesis using Cons.prems assms(1) by simp
  next
    case (Inr dt1)
    obtain d1 tx1 where dt1: "dt1 = (d1, tx1)" by (cases dt1)
    have "wf_db d1 \<and> rows_rel file_frozen d d1"
      using stage_one_step [of d e i h tx d1 tx1] Inr Cons.prems(1) unfolding eq dt1 by simp
    then have "wf_db (fst dt1)" "rows_rel file_frozen d0 (fst dt1)"
      using Cons.prems(2) rows_frozen_trans [of d0 d d1] unfolding eq dt1 by simp_all
    from Cons.IH [OF this] show ?thesis using Inr by simp
  qed
qed

interpretation staging_state: file_operation "\<lambda>d. fst (updateStagingStateInternal e cu ops d)"
proof
  fix d assume wf: "wf_db d"
  obtain d1 err where loop: "stage_loop e d ops (d, True) = (d1, err)" by (cases "stage_loop e d ops (d, True)")
  have d1: "wf_db d1" "rows_rel file_frozen d d1"
    using stage_loop_step [of d "(d, True)" e ops] wf loop by simp_all
  have jobs: "file_operation (fold (\<lambda>ih. updateJobTransferStatusInternal e cu (ms_jobId (fst ih))
      (if ms_state (fst ih) = SUBMITTED then ACTIVE else ms_state (fst ih))) ops)"
    by (rule file_operation_fold) (rule job_status.file_operation_axioms)
  show "wf_db (fst (updateStagingStateInternal e cu ops d))" "rows_rel file_frozen d (fst (updateStagingStateInternal e cu ops d))"
    using d1 file_operation.keeps_wf [OF jobs d1(1)]
      rows_frozen_trans [OF d1(2) file_operation.keeps_frozen [OF jobs d1(1)]] loop
    by (simp_all add: updateStagingStateInternal_def split: option.split)
qed

lemma canceling_operation:
  "file_operation (update_files P (\<lambda>r. r\<lparr>f_archive_finish_time := t\<rparr>))"
  "file_operation (update_files P (\<lambda>r. r\<lparr>f_finish_time := t, f_staging_finished := t\<rparr>))"
  "file_operation (update_files P (\<lambda>r. r\<lparr>f_bringonline_token := u\<rparr>))"
  "file_operation (update_files P (\<lambda>r. r\<lparr>f_archive_start_time := t\<rparr>))"
  by (rule bookkeeping_operation; simp)+

interpretation cancel_archiving: file_operation "\<lambda>d. fst (getArchivingFilesForCanceling e d)"
  by (rule file_operationI) (unfold getArchivingFilesForCanceling_def Let_def fst_conv, blast intro: canceling_operation)

interpretation cancel_staging: file_operation "\<lambda>d. fst (getStagingFilesForCanceling e d)"
  by (rule file_operationI) (unfold getStagingFilesForCanceling_def Let_def fst_conv, blast intro: canceling_operation)

lemma update_job_files_operation:
  assumes "\<And>P. file_operation (update_files P f)"
  shows "file_operation (\<lambda>d. db_after d (update_job_files f jobs d))"
proof (rule file_operationI)
  fix d
  have "file_operation (fold (\<lambda>j. update_files (\<lambda>r. f_job_id r = fst j \<and> f_file_id r \<in> set (snd j)) f) jobs)"
    by (rule file_operation_fold) (rule assms)
  from file_operation_choice [OF file_operation_id this]
  show "\<exists>g. file_operation g \<and> db_after d (update_job_files f jobs d) = g d"
    unfolding update_job_files_def db_after_if .
qed

interpretation bring_online_token: file_operation "\<lambda>d. db_after d (updateBringOnlineToken token jobs d)"
  unfolding updateBringOnlineToken_def by (rule update_job_files_operation) (rule canceling_operation)

interpretation archiving_start: file_operation "\<lambda>d. db_after d (setArchivingStartTime e jobs d)"
  unfolding setArchivingStartTime_def by (rule update_job_files_operation) (rule canceling_operation)

interpretation qos_request: file_operation "\<lambda>d. fst (updateFileStateToQosRequestSubmitted e jobId fileId d)"
proof
  fix d assume wf: "wf_db d"
  let ?f = "\<lambda>r. r\<lparr>f_file_state := QOS_REQUEST_SUBMITTED, f_start_time := Some (now e), f_transfer_host := Some (hostname e)\<rparr>"
  have keys: "keeps_keys ?f" by (rule keeps_keysI) simp_all
  moreover have "clears_uuid ?f" by (rule clears_uuidI) simp
  ultimately show "wf_db (fst (updateFileStateToQosRequestSubmitted e jobId fileId d))"
    using wf wf_db_update_files [OF wf, of ?f] by (simp add: updateFileStateToQosRequestSubmitted_def split: option.split)
  show "rows_rel file_frozen d (fst (updateFileStateToQosRequestSubmitted e jobId fileId d))"
  proof (cases "select_first (\<lambda>r. f_job_id r = jobId \<and> f_file_id r = fileId) (t_file d)")
    case None
    then show ?thesis by (simp add: updateFileStateToQosRequestSubmitted_def)
  next
    case (Some row)
    have row: "row \<in> set (t_file d)" "f_file_id row = fileId" using select_first_Some [OF Some] by simp_all
    have "rows_rel file_frozen d (update_files (\<lambda>r. f_job_id r = jobId \<and> f_file_id r = fileId) ?f d)"
      if "f_file_state row = QOS_TRANSITION"
    proof (rule rows_frozen_update_files [OF keys])
      fix r assume "r \<in> set (t_file d)" "f_job_id r = jobId \<and> f_file_id r = fileId" "terminal_file (f_file_state r)"
      then have "r = row" using wf_db_file_unique [OF wf _ row(1)] row(2) by simp
      then show "f_file_state (?f r) = f_file_state r" using that \<open>terminal_file (f_file_state r)\<close> by (simp add: terminal_file_def)
    qed
    then show ?thesis using Some by (simp add: updateFileStateToQosRequestSubmitted_def)
  qed
qed

subsection \<open>Properties\<close>

lemma cancel_change_other: "cancel_change jobId r r' \<Longrightarrow> f_file_state r \<noteq> NOT_USED \<Longrightarrow> r' = r"
  by (auto simp: cancel_change_def)

lemma cancel_change_id: "cancel_change jobId r r' \<Longrightarrow> f_file_id r' = f_file_id r"
  by (drule cancel_change_frozen) (simp add: file_frozen_def)

text \<open>An update of a job leaves the files that are in use alone.\<close>

lemma job_update_keeps_row:
  assumes "file_by_id i d = Some r" "f_file_state r \<noteq> NOT_USED"
  shows "file_by_id i (updateJobTransferStatusInternal e cu jobId st d) = Some r"
proof -
  from job_write_files [OF updateJobTransferStatus_write]
  have "\<exists>r'. file_by_id i (updateJobTransferStatusInternal e cu jobId st d) = Some r' \<and> cancel_change jobId r r'"
    by (rule rows_rel_file_by_id) (erule cancel_change_id, rule assms(1))
  then show ?thesis using assms(2) by (auto dest: cancel_change_other)
qed



text \<open>
  The retries of a failed staging are bounded: a file is staged again only as attempt number
  one above the last one and not above the number of retries allowed.
\<close>

lemma staging_retries_bounded:
  assumes "resetForRetryStaging e fileId jobId retry d = Inr (d', True, n)"
  shows "\<exists>nRetries nTimes. staging_retries jobId d = Some nRetries \<and> staging_attempts jobId fileId d = Some nTimes
    \<and> n = nTimes + 1 \<and> n \<le> nRetries"
  using assms by (auto simp: resetForRetryStaging_def Let_def split: if_splits option.splits)

lemma sample_staging_reset:
  "\<exists>d'. resetForRetryStaging sample_env 1 ''j'' True sample_staging_db = Inr (d', True, 1)"
proof -
  have "job_by_id ''j'' sample_staging_db = Some ((sample_job ''j'' None J_STAGING)\<lparr>j_retry := Some 3, j_retry_delay := Some 60\<rparr>)"
    "select_first (\<lambda>r. f_file_id r = 1 \<and> f_job_id r = ''j'') (t_file sample_staging_db) = Some ((sample_file 1 ''j'' 0 STARTED)\<lparr>f_retry := Some 0\<rparr>)"
    by (simp_all add: sample_staging_db_def job_by_id_def)
  then show ?thesis by (simp add: resetForRetryStaging_def Let_def staging_retries_def staging_attempts_def)
qed

text \<open>
  The report of an archiving operation overwrites the state of a file that was canceled in the
  meantime: unlike all other updates it does not look at the stored state.
\<close>

lemma archiving_overwrites_canceled:
  "map_option f_file_state (file_by_id 1 sample_archiving_db) = Some CANCELED \<and>
   map_option f_file_state (file_by_id 1 (updateArchivingStateInternal sample_env False
     [\<lparr>ms_jobId = ''j'', ms_fileId = 1, ms_state = FINISHED, ms_reason = '''', ms_retry = False\<rparr>] sample_archiving_db)) = Some FINISHED"
proof
  let ?i = "\<lparr>ms_jobId = ''j'', ms_fileId = 1, ms_state = FINISHED, ms_reason = '''', ms_retry = False\<rparr>"
  let ?r = "(sample_file 1 ''j'' 0 CANCELED)\<lparr>f_archive_finish_time := Some 1000, f_file_state := FINISHED, f_reason := ''''\<rparr>"
  show "map_option f_file_state (file_by_id 1 sample_archiving_db) = Some CANCELED"
    by (simp add: sample_archiving_db_def file_by_id_def)
  have "file_by_id 1 (archive_one sample_env ?i sample_archiving_db) = Some ?r"
    by (simp add: archive_one_def sample_archiving_db_def file_by_id_def sample_env_def)
  then have "file_by_id 1 (updateJobTransferStatusInternal sample_env False ''j'' FINISHED
      (archive_one sample_env ?i sample_archiving_db)) = Some ?r"
    by (rule job_update_keeps_row) simp
  then show "map_option f_file_state (file_by_id 1 (updateArchivingStateInternal sample_env False [?i] sample_archiving_db))
      = Some FINISHED"
    by (simp add: updateArchivingStateInternal_def)
qed

end
