(* ===== verification/Tokens.thy ===== *)
theory Tokens
  imports JobLifecycle
begin

section \<open>Access tokens\<close>

text \<open>
  \<^verbatim>\<open>src/db/mysql/MySqlAPI.cpp\<close>: files submitted with access tokens wait in TOKEN_PREP until both
  tokens have been exchanged for refresh tokens. A failed exchange is tried again with growing
  delays; transfers whose exchange has failed for good are failed.
\<close>

definition getAccessTokensWithoutRefresh :: "env \<Rightarrow> db \<Rightarrow> token_row list" where
  "getAccessTokensWithoutRefresh e d =
     filter (\<lambda>t. tk_refresh_token t = None \<and>
                 (case tk_retry_timestamp t of None \<Rightarrow> True | Some x \<Rightarrow> x < now e) \<and> tk_attempts t < 5) (t_token d)"

record ExchangedToken =
  x_tokenId :: string
  x_accessToken :: string
  x_refreshToken :: string
  x_previousAccessToken :: string

definition update_tokens :: "string \<Rightarrow> (token_row \<Rightarrow> token_row) \<Rightarrow> db \<Rightarrow> db" where
  "update_tokens tokenId f d = d\<lparr>t_token := update_where (\<lambda>t. tk_token_id t = tokenId) f (t_token d)\<rparr>"

text \<open>The set is ordered by token id; the argument lists it in that order.\<close>

definition store_token :: "ExchangedToken \<Rightarrow> token_row \<Rightarrow> token_row" where
  "store_token x t = t\<lparr>tk_access_token := (if x_accessToken x = [] then x_previousAccessToken x else x_accessToken x),
     tk_refresh_token := Some (x_refreshToken x), tk_exchange_message := None\<rparr>"

definition storeExchangedTokens :: "ExchangedToken list \<Rightarrow> db \<Rightarrow> db" where
  "storeExchangedTokens xs d = fold (\<lambda>x. update_tokens (x_tokenId x) (store_token x)) xs d"

text \<open>Delay and number of the next attempt, from the row.\<close>

definition fail_exchange :: "env \<Rightarrow> string \<Rightarrow> token_row \<Rightarrow> token_row" where
  "fail_exchange e err t =
     (let retryDelay = (case tk_retry_timestamp t of None \<Rightarrow> 10 | Some _ \<Rightarrow> min (tk_retry_delay_m t * 6) 1440);
          attempts = (case tk_retry_timestamp t of None \<Rightarrow> 0 | Some _ \<Rightarrow> tk_attempts t)
      in t\<lparr>tk_retry_timestamp := Some (now e + retryDelay * 60), tk_retry_delay_m := retryDelay,
           tk_attempts := attempts + 1, tk_exchange_message := Some err\<rparr>)"

definition markFailedTokenExchange :: "env \<Rightarrow> (string \<times> string) list \<Rightarrow> db \<Rightarrow> db" where
  "markFailedTokenExchange e lost d = fold (\<lambda>p. update_tokens (fst p) (fail_exchange e (snd p))) lost d"

text \<open>
  The reason names the source token whenever the file has one, also when it was the exchange of
  the destination token that failed.
\<close>

definition token_reason :: "string \<Rightarrow> file_row \<Rightarrow> string" where
  "token_reason err r =
     ''Failed to get refresh token for '' @
       (case f_src_token_id r of
          None \<Rightarrow> ''destination token: ''
        | Some s \<Rightarrow> if s = [] then ''destination token: '' else ''source token: '') @ err"

definition uses_token :: "string \<Rightarrow> file_row \<Rightarrow> bool" where
  "uses_token tokenId r \<longleftrightarrow> f_file_state r = TOKEN_PREP \<and> (f_src_token_id r = Some tokenId \<or> f_dst_token_id r = Some tokenId)"

definition fail_token_file :: "env \<Rightarrow> bool \<Rightarrow> string \<Rightarrow> file_row \<Rightarrow> db \<Rightarrow> db" where
  "fail_token_file e cu err r d =
     updateJobTransferStatusInternal e cu (f_job_id r) FAILED
       (fst (updateFileTransferStatusInternal e (f_job_id r) (f_file_id r) FAILED
          \<lparr>processId = 0, errorReason = token_reason err r, filesize = 0, duration = 0, throughput = 0,
           will_retry = False, fileMetadata = ''''\<rparr> d))"

definition failTransfersWithFailedTokenExchange :: "env \<Rightarrow> bool \<Rightarrow> (string \<times> string) list \<Rightarrow> db \<Rightarrow> db" where
  "failTransfersWithFailedTokenExchange e cu lost d =
     fold (\<lambda>p d. fold (fail_token_file e cu (snd p)) (filter (uses_token (fst p)) (t_file d)) d) lost d"

text \<open>A join on the two tokens; each is found by its key.\<close>

definition token_ready :: "db \<Rightarrow> string option \<Rightarrow> bool" where
  "token_ready d tid =
     (case tid of None \<Rightarrow> False
      | Some i \<Rightarrow> (\<exists>t \<in> set (t_token d). tk_token_id t = i \<and> tk_refresh_token t \<noteq> None))"

definition initial_state :: "file_row \<Rightarrow> file_state" where
  "initial_state r = (case f_file_state_initial r of None \<Rightarrow> SUBMITTED | Some s \<Rightarrow> s)"

definition prep_file :: "file_row \<Rightarrow> db \<Rightarrow> db" where
  "prep_file f d =
     update_files (\<lambda>r. f_file_id r = f_file_id f \<and> f_file_state r = TOKEN_PREP)
       (\<lambda>r. r\<lparr>f_file_state := initial_state f\<rparr>) d"

definition updateTokenPrepFiles :: "db \<Rightarrow> db" where
  "updateTokenPrepFiles d =
     fold prep_file (filter (\<lambda>r. f_file_state r = TOKEN_PREP \<and> token_ready d (f_src_token_id r)
                               \<and> token_ready d (f_dst_token_id r)) (t_file d)) d"

definition sample_token :: token_row where
  "sample_token = \<lparr>tk_token_id = ''t'', tk_access_token = ''a'', tk_refresh_token = None, tk_retry_timestamp = None,
     tk_retry_delay_m = 0, tk_attempts = 0, tk_exchange_message = None\<rparr>"

definition sample_token_db :: db where
  "sample_token_db = (sample_db [(sample_file 1 ''j'' 0 TOKEN_PREP)\<lparr>f_src_token_id := Some ''t'', f_dst_token_id := Some ''t''\<rparr>]
     [sample_job ''j'' None J_SUBMITTED])\<lparr>t_token := [sample_token\<lparr>tk_refresh_token := Some ''r''\<rparr>]\<rparr>"

text \<open>The result of a number of failures in a row, at the given times.\<close>

fun failures :: "(env \<times> string) list \<Rightarrow> token_row \<Rightarrow> token_row" where
  "failures [] t = t"
| "failures ((e, err) # xs) t = failures xs (fail_exchange e err t)"

definition backoff :: "nat \<Rightarrow> int" where
  "backoff n = min (10 * 6 ^ n) 1440"

subsection \<open>The operations and the interface\<close>

lemma update_tokens_operation: "file_operation (update_tokens i f)"
  by (rule file_operation_tables) (simp_all add: update_tokens_def)

interpretation store_tokens: file_operation "storeExchangedTokens xs"
  unfolding storeExchangedTokens_def [abs_def] by (rule file_operation_fold) (rule update_tokens_operation)

interpretation mark_failed: file_operation "markFailedTokenExchange e lost"
  unfolding markFailedTokenExchange_def [abs_def] by (rule file_operation_fold) (rule update_tokens_operation)

lemma fail_token_file_operation: "file_operation (fail_token_file e cu err r)"
  unfolding fail_token_file_def [abs_def]
  by (rule file_operation_comp [OF file_status.file_operation_axioms job_status.file_operation_axioms])

interpretation fail_token_transfers: file_operation "failTransfersWithFailedTokenExchange e cu lost"
  unfolding failTransfersWithFailedTokenExchange_def [abs_def]
proof (rule file_operation_fold, rule file_operationI)
  fix p d
  show "\<exists>g. file_operation g \<and> fold (fail_token_file e cu (snd p)) (filter (uses_token (fst p)) (t_file d)) d = g d"
    using file_operation_fold [of "fail_token_file e cu (snd p)"] fail_token_file_operation by blast
qed

lemma prep_file_operation: "file_operation (prep_file f)"
  unfolding prep_file_def [abs_def] by (rule file_operation_update) (auto simp: terminal_file_def)

interpretation token_prep: file_operation updateTokenPrepFiles
proof (rule file_operationI)
  fix d
  show "\<exists>g. file_operation g \<and> updateTokenPrepFiles d = g d"
    unfolding updateTokenPrepFiles_def
    using file_operation_fold [of prep_file] prep_file_operation by blast
qed

subsection \<open>Delays and attempts\<close>

lemma backoff_Suc: "min (backoff n * 6) 1440 = backoff (Suc n)"
  by (simp add: backoff_def min_def)

lemma failures_started:
  assumes "tk_retry_timestamp t \<noteq> None" "tk_retry_delay_m t = backoff n" "tk_attempts t = a"
  shows "tk_attempts (failures xs t) = a + int (length xs) \<and> tk_retry_delay_m (failures xs t) = backoff (n + length xs)"
  using assms
proof (induction xs arbitrary: t n a)
  case (Cons x xs)
  obtain e err where x: "x = (e, err)" by (cases x)
  let ?t = "fail_exchange e err t"
  have "tk_retry_timestamp ?t \<noteq> None" "tk_retry_delay_m ?t = backoff (Suc n)" "tk_attempts ?t = a + 1"
    using Cons.prems backoff_Suc [of n] by (auto simp: fail_exchange_def Let_def)
  from Cons.IH [OF this] show ?case by (simp add: x)
qed simp

subsection \<open>Moving prepared files\<close>

lemma prep_file_id: "file_by_id i (prep_file f d) = map_option
    (\<lambda>r. if f_file_id r = f_file_id f \<and> f_file_state r = TOKEN_PREP then r\<lparr>f_file_state := initial_state f\<rparr> else r) (file_by_id i d)"
  by (simp add: prep_file_def file_by_id_update_files)

lemma prep_files_other: "(\<And>f. f \<in> set fs \<Longrightarrow> f_file_id f \<noteq> i) \<Longrightarrow> file_by_id i (fold prep_file fs d) = file_by_id i d"
proof (induction fs arbitrary: d)
  case (Cons f fs)
  have "file_by_id i (prep_file f d) = file_by_id i d"
    using Cons.prems [of f] file_by_id_Some [of i d]
    by (cases "file_by_id i d") (auto simp: prep_file_id)
  then show ?case using Cons.IH [of "prep_file f d"] Cons.prems by simp
qed simp

lemma prep_files_row:
  assumes "r \<in> set fs" "distinct (map f_file_id fs)" "file_by_id (f_file_id r) d = Some r" "f_file_state r = TOKEN_PREP"
  shows "file_by_id (f_file_id r) (fold prep_file fs d) = Some (r\<lparr>f_file_state := initial_state r\<rparr>)"
  using assms
proof (induction fs arbitrary: d)
  case (Cons f fs)
  show ?case
  proof (cases "f = r")
    case True
    then have "file_by_id (f_file_id r) (prep_file f d) = Some (r\<lparr>f_file_state := initial_state r\<rparr>)"
      using Cons.prems(3,4) by (simp add: prep_file_id)
    moreover have "f_file_id g \<noteq> f_file_id r" if "g \<in> set fs" for g
      using Cons.prems(2) True imageI [OF that, of f_file_id] by auto
    ultimately show ?thesis using prep_files_other [of fs "f_file_id r" "prep_file f d"] by simp
  next
    case False
    then have r: "r \<in> set fs" using Cons.prems(1) by simp
    then have "f_file_id f \<noteq> f_file_id r" using Cons.prems(2) by (auto dest: imageI [of _ _ f_file_id])
    then have "file_by_id (f_file_id r) (prep_file f d) = Some r" using Cons.prems(3) by (simp add: prep_file_id)
    then show ?thesis using Cons.IH r Cons.prems(2,4) by simp
  qed
qed simp

subsection \<open>Properties\<close>

text \<open>
  Consecutive failures of a token exchange are counted, and the delays before the next attempt
  are 10 minutes times powers of six, up to a day. After five failures the token is not offered
  for exchange any more.
\<close>

lemma token_backoff:
  assumes "tk_retry_timestamp t = None" "xs \<noteq> []"
  shows "tk_attempts (failures xs t) = int (length xs) \<and> tk_retry_delay_m (failures xs t) = backoff (length xs - 1)
    \<and> (length xs \<ge> 5 \<longrightarrow> failures xs t \<notin> set (getAccessTokensWithoutRefresh e (d\<lparr>t_token := [failures xs t]\<rparr>)))"
proof -
  obtain e0 err ys where xs: "xs = (e0, err) # ys" using assms(2) by (metis list.exhaust surj_pair)
  let ?t = "fail_exchange e0 err t"
  have "tk_retry_timestamp ?t \<noteq> None" "tk_retry_delay_m ?t = backoff 0" "tk_attempts ?t = 1"
    using assms(1) by (simp_all add: fail_exchange_def Let_def backoff_def)
  from failures_started [OF this] show ?thesis by (auto simp: xs getAccessTokensWithoutRefresh_def)
qed

text \<open>
  A file waiting for its tokens leaves TOKEN_PREP for its initial state (SUBMITTED when none
  is recorded) as soon as both tokens have refresh tokens.
\<close>

lemma token_prep_released:
  assumes "wf_db d" "r \<in> set (t_file d)" "f_file_state r = TOKEN_PREP"
    "token_ready d (f_src_token_id r)" "token_ready d (f_dst_token_id r)"
  shows "file_by_id (f_file_id r) (updateTokenPrepFiles d) = Some (r\<lparr>f_file_state := initial_state r\<rparr>)"
  unfolding updateTokenPrepFiles_def
proof (rule prep_files_row)
  show "file_by_id (f_file_id r) d = Some r" using assms(1,2) by (rule wf_db_file_by_id)
  show "distinct (map f_file_id (filter (\<lambda>r. f_file_state r = TOKEN_PREP \<and> token_ready d (f_src_token_id r)
      \<and> token_ready d (f_dst_token_id r)) (t_file d)))"
    using wf_db_file_ids [OF assms(1)] by (rule distinct_map_filter)
qed (use assms in simp_all)

end
