(* ===== verification/Spec2Isabelle.thy ===== *)
theory Spec2Isabelle
  imports ReuseTransfers VerifiedCopy SanityChecks HeartBeat OptimizerDataSource Staging Tokens Canceler TransfersService Scheduler
begin

text \<open>
  A verification development of FTS3, the file transfer service: a cluster of servers that moves
  files between storages. Users submit jobs (sets of files, each with a source and a destination)
  into a MySQL database; the servers share the work through the database alone.

  \<^bold>\<open>The parts and how they interact.\<close>
  \<^item> The database (\<^verbatim>\<open>src/db/mysql\<close>): one row per file in \<^verbatim>\<open>t_file\<close>, per job in \<^verbatim>\<open>t_job\<close>; every
    change of state is a transaction of \<^verbatim>\<open>MySqlAPI\<close>.
  \<^item> The server (\<^verbatim>\<open>src/server/services\<close>), one per node: \<^verbatim>\<open>HeartBeat\<close> gives each node a part of
    the files; \<^verbatim>\<open>TransfersService\<close> picks the files that may start and starts an
    \<^verbatim>\<open>fts_url_copy\<close> process for each; \<^verbatim>\<open>MessageProcessingService\<close> applies the messages these
    processes write; \<^verbatim>\<open>CancelerService\<close> ends what is canceled, stalled or too old;
    \<^verbatim>\<open>CleanerService\<close> repairs rows that contradict each other;
    \<^verbatim>\<open>Optimizer\<close> decides how many transfers a link may run.
  \<^item> The transfer agent (\<^verbatim>\<open>src/url-copy\<close>): one \<^verbatim>\<open>fts_url_copy\<close> process per file or per reused
    session; it takes its work from the command line, copies with gfal2 and reports by messages.
  \<^item> The daemons for tape, quality of service and tokens report through the same database.

  \<^bold>\<open>Theories and sources.\<close>
  \<^item> \<open>Prelude\<close>, \<open>Schema\<close>: tables as lists of rows, UPDATE and SELECT on them; the rows of
    \<^verbatim>\<open>fts-schema-9.0.0.sql\<close> as records, the classes of \<^verbatim>\<open>src/db/generic\<close>; \<open>wf_db\<close> is what the
    schema enforces (primary keys, the unique destination lock, the foreign key).
  \<^item> \<open>FileStatus\<close>: \<open>updateFileTransferStatusInternal\<close> with the selection of the next replica and
    the next hop. \<open>JobStatus\<close>: \<open>updateJobTransferStatusInternal\<close>. \<open>JobLifecycle\<close>: retries,
    cancellation, time-outs, progress, protocol parameters (all \<^verbatim>\<open>MySqlAPI.cpp\<close>).
  \<^item> \<open>Staging\<close>, \<open>Tokens\<close>: tape, archive monitoring, QoS; token exchange (\<^verbatim>\<open>MySqlAPI.cpp\<close>).
  \<^item> \<open>HeartBeat\<close>: \<open>updateHeartBeatInternal\<close> and \<^verbatim>\<open>HeartBeat.cpp\<close>, on 32 bit words.
  \<^item> \<open>Optimizer\<close>, \<open>OptimizerDataSource\<close>, \<open>Uri\<close>, \<open>ProtocolParameters\<close>: \<^verbatim>\<open>src/server/services/optimizer\<close>,
    \<^verbatim>\<open>OptimizerDataSource.cpp\<close>, \<^verbatim>\<open>src/common/Uri.cpp\<close>, the parameters in \<^verbatim>\<open>TransferFile.h\<close>.
  \<^item> \<open>ThreadSafeList\<close>, \<open>MessageProcessing\<close>, \<open>Canceler\<close>: the watch list, the message service and
    the canceler of \<^verbatim>\<open>src/server/services/transfers\<close>.
  \<^item> \<open>Config\<close>: the configuration queries of \<^verbatim>\<open>Config.cpp\<close>. \<open>ActivityShares\<close>, \<open>VoShares\<close>,
    \<open>Scheduler\<close>: activity shares, VO shares (\<^verbatim>\<open>VoShares.cpp\<close>) and the queries for what is ready.
    \<open>OrderedMap\<close>, \<open>TransferFileHandler\<close>: \<^verbatim>\<open>std::map\<close> and the queue of ready files.
    \<open>TransfersService\<close>: slots and scheduling loop of \<^verbatim>\<open>TransfersService.cpp\<close>.
  \<^item> \<open>UrlCopyCmd\<close>, \<open>FileTransferExecutor\<close>: the command line of a transfer and what a worker does with
    a file. \<open>StartTransfers\<close>: the whole turn of \<^verbatim>\<open>TransfersService.cpp\<close> and
    \<^verbatim>\<open>ForceStartTransfersService.cpp\<close>. \<open>ReuseTransfers\<close>: jobs whose files share one process
    (\<^verbatim>\<open>ReuseTransfersService.cpp\<close>).
  \<^item> \<open>UrlCopyOpts\<close>, \<open>CommandLine\<close>, \<open>TransferCommand\<close>: how the agent reads the command line
    (\<^verbatim>\<open>UrlCopyOpts.cpp\<close>), its grammar, and that it reads what the server writes.
    \<open>Heuristics\<close>: \<^verbatim>\<open>heuristics.cpp\<close>.
  \<^item> \<open>Gfal2\<close>, \<open>LegacyReporter\<close>, \<open>UrlCopyProcess\<close>, \<open>TransferAgent\<close>: the calls of gfal2 and its callbacks
    (\<^verbatim>\<open>Gfal2.h\<close>, \<^verbatim>\<open>Callbacks.cpp\<close>), the messages (\<^verbatim>\<open>LegacyReporter.cpp\<close>), one transfer
    (\<^verbatim>\<open>runTransfer\<close> of \<^verbatim>\<open>UrlCopyProcess.cpp\<close>), the life of the process with its signals as the step
    relation \<open>agent_step\<close>. \<open>VerifiedCopy\<close>: what a transfer reported as finished has passed.
  \<^item> \<open>Deletions\<close>: the table \<^verbatim>\<open>t_dm\<close> in \<^verbatim>\<open>MySqlAPI.cpp\<close>. \<open>SanityChecks\<close>: \<^verbatim>\<open>SanityChecks.cpp\<close>,
    \<^verbatim>\<open>MultihopSanityCheck.cpp\<close> and \<^verbatim>\<open>CleanerService.cpp\<close>.

  \<^bold>\<open>State and operations.\<close> A transaction is a function on the record \<open>db\<close>, the function of the
  source run to its COMMIT; an exception is \<open>Inl\<close> or \<open>None\<close> and leaves the database as it was. The
  services work on records that add what a node holds in memory (\<open>node\<close>, \<open>canceler\<close>,
  \<open>handler\<close>, \<open>scheduling\<close>, \<open>optimizer\<close>). The agent is a state and error monad (\<open>act\<close>) over a record
  with the world outside, the log of its messages and the transfer it works on.

  \<^bold>\<open>What is shown.\<close>
  \<^item> Every transaction keeps \<open>wf_db\<close> and the state of files that are finished, failed or canceled:
    the interface \<open>JobLifecycle.file_operation\<close>, interpreted for each of them; below, for any
    interleaving of all nodes. Two nodes never start the same file.
  \<^item> The state of a job is the verdict on its files; replicas and hops follow each other; retries
    are counted; stalled and canceled transfers are found and ended.
  \<^item> The hash segments of the live nodes partition the files.
  \<^item> The optimizer stays in its range, also against the tables (\<open>Optimizer.optimizer_store\<close>,
    \<open>optimizer_source\<close>, interpreted for the SQL data source).
  \<^item> The scheduler: VO shares choose one queue per link, activity shares give out no more slots
    than there are, the ready files respect the optimizer, the file handler is a fair rotating
    queue (\<open>OrderedMap.std_map\<close>, \<open>TransfersService.file_source\<close>), the loop ends and stays within
    all limits.
  \<^item> Workers that race for a file: one of them starts a process. The agent reports every transfer
    it was given, and none twice; a transfer is reported as finished only when the sizes and the
    requested checksums agreed, and an existing destination is not overwritten unasked
    (\<open>TransferAgent.transfer_relation\<close>, \<open>run_relation\<close>, \<open>work_relation\<close> carry an invariant through
    the transfer, the loop and the process).
  \<^item> A job with session reuse is started once and its job file is read back; what happens when its
    process cannot be forked.
  \<^item> No deletion is handed out twice, deletion jobs end in the state of their files; what the
    periodic checks repair, and what they break.
  \<^item> Round trips of URLs, parameters, time-outs and of the command line of a transfer.

  \<^bold>\<open>Parameters.\<close> What is read outside the program is an argument: clock, random numbers (the dice
  of the activity shares, the draw of the VO shares, the shuffled order, hashed ids), the
  collation of the database, the answers of \<^verbatim>\<open>/proc\<close> and \<^verbatim>\<open>kill\<close>, the proxy files, whether a mutex is
  obtained in time and which call to the database throws. Where a random choice has to satisfy
  the documented behaviour of its library (a position with positive weight, a permutation) that
  is a named hypothesis. No definition uses fuel: loops are structural recursion, the scheduling
  loop is \<open>while_option\<close> and is shown to end.

  \<^bold>\<open>Not modelled.\<close> gfal2, CDMI, JsonCpp, ActiveMQ and the HTTP services are not in the repository: the
  agent takes gfal2 as an argument; the tape, QoS and token daemons, which are little more than calls
  of such services, are left out, and so are the queries that hand work to them. The command line
  clients, the message broker, X.509 delegation, the reader of the configuration file, logging and
  the set-up of the daemons are input and output around libraries.
\<close>

section \<open>The server as a step relation on the database\<close>

text \<open>
  The services of \<^verbatim>\<open>fts_server\<close>, on every node of the cluster, act on the shared database
  one transaction at a time. \<open>server_step\<close> has one rule per transaction of the API, with
  arbitrary arguments: no assumption is made on which service runs next, on which node or on
  what the messages of the \<^verbatim>\<open>fts_url_copy\<close> processes say. The two transactions that do not
  check the state of the rows they write (\<open>updateArchivingStateInternal\<close> and
  \<open>updateFileStateToQosTerminal\<close>) are left out; \<open>Staging.archiving_overwrites_canceled\<close>
  shows why.
\<close>

inductive server_step :: "db \<Rightarrow> db \<Rightarrow> bool" where
  file_status: "server_step d (fst (updateFileTransferStatusInternal e jobId fileId req m d))"
| job_status: "server_step d (updateJobTransferStatusInternal e cu jobId state d)"
| retry: "setRetryTransfer e jobId fileId n reason logFile errcode d = Inr d' \<Longrightarrow> server_step d d'"
| fork_failed: "server_step d (forkFailed e jobId d)"
| terminate_reuse: "server_step d (terminateReuseProcess e jobId pid message force d)"
| fail_old_queued: "server_step d (fst (setToFailOldQueuedJobs e cu start d))"
| cancel_running: "server_step d (fst (getCancelJob e d))"
| set_pid: "server_step d (setPidForJob jobId pid d)"
| progress: "server_step d (updateFileTransferProgressVector ps d)"
| protocol: "server_step d (updateProtocol ms d)"
| log_files: "server_step d (fst (transferLogFileVector ls d))"
| reuse_status: "server_step d (fst (updateFileStatusReuse e jobId state d))"
| staging_state: "server_step d (fst (updateStagingStateInternal e cu ops d))"
| cancel_archiving: "server_step d (fst (getArchivingFilesForCanceling e d))"
| cancel_staging: "server_step d (fst (getStagingFilesForCanceling e d))"
| bring_online_token: "updateBringOnlineToken token jobs d = Inr d' \<Longrightarrow> server_step d d'"
| archiving_start: "setArchivingStartTime e jobs d = Inr d' \<Longrightarrow> server_step d d'"
| qos_request: "server_step d (fst (updateFileStateToQosRequestSubmitted e jobId fileId d))"
| store_tokens: "server_step d (storeExchangedTokens xs d)"
| mark_failed: "server_step d (markFailedTokenExchange e lost d)"
| fail_token_transfers: "server_step d (failTransfersWithFailedTokenExchange e cu lost d)"
| token_prep: "server_step d (updateTokenPrepFiles d)"
| messages: "server_step d (n_db (handle_batch e cu batch (s\<lparr>n_db := d\<rparr>)))"
| canceler: "server_step d (n_db (fst (cancel_turn cfg w (k\<lparr>n_db := d\<rparr>, c))))"
| heartbeat: "updateHeartBeatInternal e grace service d = Some (d', hb) \<Longrightarrow> server_step d d'"
| deletion_states: "server_step d (fst (updateDeletionsStateInternal e ops d))"
| sanity_checks: "server_step d (checkSanityState e cu seg d)"
| optimizer: "run (MySqlOptimizerDataSource t) t (opt, d) = ((opt', d'), err) \<Longrightarrow> server_step d d'"

inductive server_run :: "db \<Rightarrow> db \<Rightarrow> bool" for d where
  start: "server_run d d"
| step: "server_run d d1 \<Longrightarrow> server_step d1 d2 \<Longrightarrow> server_run d d2"

inductive_cases server_runE: "server_run d d'"

text \<open>A job with a canceled and a running file.\<close>

definition sample_canceled_db :: db where
  "sample_canceled_db = sample_db [sample_file 1 ''j'' 0 CANCELED, sample_file 2 ''j'' 1 ACTIVE]
     [sample_job ''j'' None J_ACTIVE]"

text \<open>The transactions outside the file tables.\<close>

lemma other_tables_safe:
  "t_file d' = t_file d \<Longrightarrow> t_job d' = t_job d \<Longrightarrow> wf_db d \<Longrightarrow> wf_db d' \<and> rows_rel file_frozen d d'"
  by (simp add: wf_db_def rows_rel_def list.rel_refl)

lemma heartbeat_tables:
  "updateHeartBeatInternal e grace service d = Some (d', hb) \<Longrightarrow> t_file d' = t_file d \<and> t_job d' = t_job d"
  by (auto simp: updateHeartBeatInternal_def Let_def split: prod.splits option.splits if_splits)


lemmas operation_steps =
  file_status.file_operation_axioms job_status.file_operation_axioms fork_failed.file_operation_axioms
  terminate_reuse.file_operation_axioms fail_old_queued.file_operation_axioms
  cancel_running.file_operation_axioms set_pid.file_operation_axioms progress.file_operation_axioms
  protocol.file_operation_axioms log_files.file_operation_axioms reuse_status.file_operation_axioms
  staging_state.file_operation_axioms cancel_archiving.file_operation_axioms
  cancel_staging.file_operation_axioms qos_request.file_operation_axioms
  store_tokens.file_operation_axioms mark_failed.file_operation_axioms
  fail_token_transfers.file_operation_axioms token_prep.file_operation_axioms
  deletions.file_operation_axioms sanity.file_operation_axioms messages.file_operation_axioms cancel_service.file_operation_axioms

lemma operation_safe:
  "file_operation op \<Longrightarrow> wf_db d \<Longrightarrow> wf_db (op d) \<and> rows_rel file_frozen d (op d)"
  by (simp add: file_operation.keeps_wf file_operation.keeps_frozen)

lemma operation_result_safe:
  assumes "file_operation (\<lambda>d. db_after d (op d))" "op d = Inr d'" "wf_db d"
  shows "wf_db d' \<and> rows_rel file_frozen d d'"
  using operation_safe [OF assms(1,3)] assms(2) by (simp add: db_after_def)

lemma server_step_safe:
  assumes "server_step d d'" "wf_db d"
  shows "wf_db d' \<and> rows_rel file_frozen d d'"
  using assms
proof (induction rule: server_step.induct)
  case (retry e jobId fileId n reason logFile errcode d d')
  then show ?case by (rule operation_result_safe [OF retry.file_operation_axioms])
next
  case (bring_online_token token jobs d d')
  then show ?case by (rule operation_result_safe [OF bring_online_token.file_operation_axioms])
next
  case (archiving_start e jobs d d')
  then show ?case by (rule operation_result_safe [OF archiving_start.file_operation_axioms])
next
  case (heartbeat e grace service d d' hb)
  then show ?case using heartbeat_tables other_tables_safe by blast
next
  case (optimizer t opt d opt' d' err)
  then show ?case
    using run_pairs_tables [of t t "sort (sql_getActivePairs d)" "(opt, d)"] other_tables_safe [of d' d]
    by (simp add: run_def)
qed (rule operation_safe, rule operation_steps, assumption)+

lemma server_run_safe: "server_run d d' \<Longrightarrow> wf_db d \<Longrightarrow> wf_db d' \<and> rows_rel file_frozen d d'"
proof (induction rule: server_run.induct)
  case (step d1 d2)
  then show ?case using server_step_safe [of d1 d2] rows_frozen_trans by blast
qed simp




end
